(* ===== verification/Prelude.thy ===== *)
theory Prelude
  imports Main "HOL-Library.Word" "HOL-Library.Char_ord" "HOL-Library.List_Lexorder" "HOL-Library.Multiset"
begin

text \<open>
  Shared vocabulary of the development: the outcome of a Go call, Go byte strings and the
  functions of the packages \<open>strings\<close> and \<open>strconv\<close> the program calls on them, Go times and
  durations, and the generic lemmas the component theories use.

  A Go \<open>string\<close> is a list of bytes, so it is an Isabelle \<open>string\<close> (a list of 8-bit characters);
  \<open><\<close> on strings is the bytewise lexicographic order of Go (\<open>HOL-Library.List_Lexorder\<close> over
  \<open>HOL-Library.Char_ord\<close>).
\<close>

unbundle bit_operations_syntax

named_theorems duration_defs "the units of time in nanoseconds"

section \<open>Outcomes\<close>

text \<open>
  A call returns a value, returns a Go \<open>error\<close> with its message, or panics (an index out of range,
  a nil map write). A sum type keeps the three apart: \<open>Inr\<close> the value, \<open>Inl\<close> the failure.
\<close>

datatype goerr = Panic | Err string

type_synonym 'a outcome = "goerr + 'a"

definition bind_outcome :: "'a outcome \<Rightarrow> ('a \<Rightarrow> 'b outcome) \<Rightarrow> 'b outcome" where
  "bind_outcome r f = (case r of Inl e \<Rightarrow> Inl e | Inr x \<Rightarrow> f x)"

lemma bind_outcome_simps [simp]:
  "bind_outcome (Inl e) f = Inl e"
  "bind_outcome (Inr x) f = f x"
  by (simp_all add: bind_outcome_def)

lemma bind_outcome_eq_Inr:
  "bind_outcome r f = Inr y \<longleftrightarrow> (\<exists>x. r = Inr x \<and> f x = Inr y)"
  by (cases r) simp_all

lemma bind_outcome_eq_Panic:
  "bind_outcome r f = Inl Panic \<longleftrightarrow> r = Inl Panic \<or> (\<exists>x. r = Inr x \<and> f x = Inl Panic)"
  by (cases r) simp_all

section \<open>Times and durations\<close>

text \<open>
  A \<open>time.Time\<close> is its number of nanoseconds since the zero time, so \<open>IsZero\<close> is \<open>0\<close>, \<open>Before\<close>
  and \<open>After\<close> are the order of the integers and \<open>Add\<close> is addition. A \<open>time.Duration\<close> is a
  signed 64-bit number of nanoseconds; \<open>Sub\<close> saturates at its bounds.
\<close>

type_synonym gotime = int
type_synonym duration = int

definition second :: duration where "second = 1000000000"
definition minute :: duration where "minute = 60 * second"
definition hour :: duration where "hour = 60 * minute"

definition max_duration :: duration where "max_duration = 2 ^ 63 - 1"
definition min_duration :: duration where "min_duration = - (2 ^ 63)"

definition time_sub :: "gotime \<Rightarrow> gotime \<Rightarrow> duration" where
  "time_sub t u = max min_duration (min max_duration (t - u))"

declare second_def [duration_defs] minute_def [duration_defs] hour_def [duration_defs]

lemma time_sub_gt:
  assumes "0 \<le> d" and "d < max_duration"
  shows "d < time_sub t u \<longleftrightarrow> d < t - u"
  using assms by (auto simp: time_sub_def min_duration_def max_duration_def)

lemma time_sub_ge:
  assumes "0 \<le> d" and "d \<le> max_duration"
  shows "d \<le> time_sub t u \<longleftrightarrow> d \<le> t - u"
  using assms by (auto simp: time_sub_def min_duration_def max_duration_def)

section \<open>Characters and strings\<close>

definition byte :: "char \<Rightarrow> nat" where "byte c = of_char c"

definition is_digit :: "char \<Rightarrow> bool" where
  "is_digit c \<longleftrightarrow> 48 \<le> byte c \<and> byte c \<le> 57"

definition is_lower :: "char \<Rightarrow> bool" where
  "is_lower c \<longleftrightarrow> 97 \<le> byte c \<and> byte c \<le> 122"

definition is_upper :: "char \<Rightarrow> bool" where
  "is_upper c \<longleftrightarrow> 65 \<le> byte c \<and> byte c \<le> 90"

text \<open>
  The encodings of the runes for which \<open>unicode.IsSpace\<close> holds. UTF-8 is self-synchronising: a
  decoder that meets the first byte of one of these encodings decodes exactly that rune, so
  matching the byte sequences is decoding.
\<close>

definition space_encodings :: "string list" where
  "space_encodings =
     [[CHR 0x09], [CHR 0x0A], [CHR 0x0B], [CHR 0x0C], [CHR 0x0D], [CHR 0x20],
      [CHR 0xC2, CHR 0x85], [CHR 0xC2, CHR 0xA0], [CHR 0xE1, CHR 0x9A, CHR 0x80],
      [CHR 0xE2, CHR 0x80, CHR 0x80], [CHR 0xE2, CHR 0x80, CHR 0x81],
      [CHR 0xE2, CHR 0x80, CHR 0x82], [CHR 0xE2, CHR 0x80, CHR 0x83],
      [CHR 0xE2, CHR 0x80, CHR 0x84], [CHR 0xE2, CHR 0x80, CHR 0x85],
      [CHR 0xE2, CHR 0x80, CHR 0x86], [CHR 0xE2, CHR 0x80, CHR 0x87],
      [CHR 0xE2, CHR 0x80, CHR 0x88], [CHR 0xE2, CHR 0x80, CHR 0x89],
      [CHR 0xE2, CHR 0x80, CHR 0x8A], [CHR 0xE2, CHR 0x80, CHR 0xA8],
      [CHR 0xE2, CHR 0x80, CHR 0xA9], [CHR 0xE2, CHR 0x80, CHR 0xAF],
      [CHR 0xE2, CHR 0x81, CHR 0x9F], [CHR 0xE3, CHR 0x80, CHR 0x80]]"

fun starts_with :: "string \<Rightarrow> string \<Rightarrow> bool" where
  "starts_with s [] = True"
| "starts_with [] (p # ps) = False"
| "starts_with (c # s) (p # ps) = (c = p \<and> starts_with s ps)"

text \<open>The length in bytes of the white space rune a string begins with, if it begins with one.\<close>

definition space_width :: "string list \<Rightarrow> string \<Rightarrow> nat option" where
  "space_width encs s = map_option length (find (starts_with s) encs)"

lemma space_width_pos:
  "space_width (map f space_encodings) s = Some n \<Longrightarrow> (\<And>e. length (f e) = length e) \<Longrightarrow> 0 < n"
  by (auto simp: space_width_def find_Some_iff space_encodings_def less_Suc_eq nth_Cons'
           split: if_splits)

fun drop_spaces :: "nat \<Rightarrow> string list \<Rightarrow> string \<Rightarrow> string" where
  "drop_spaces 0 encs s = s"
| "drop_spaces (Suc fuel) encs s =
     (case space_width encs s of
        None \<Rightarrow> s
      | Some n \<Rightarrow> drop_spaces fuel encs (drop n s))"

text \<open>
  \<open>strings.TrimSpace\<close>. The fuel is the length of the string: every step removes at least one byte.
\<close>

definition trim_left :: "string \<Rightarrow> string" where
  "trim_left s = drop_spaces (length s) space_encodings s"

definition trim_right :: "string \<Rightarrow> string" where
  "trim_right s = rev (drop_spaces (length s) (map rev space_encodings) (rev s))"

definition TrimSpace :: "string \<Rightarrow> string" where
  "TrimSpace s = trim_right (trim_left s)"

text \<open>\<open>strings.Fields\<close>: the maximal runs of non-space runes.\<close>

fun fields_go :: "nat \<Rightarrow> string \<Rightarrow> string \<Rightarrow> string list" where
  "fields_go 0 cur s = (if cur = [] then [] else [rev cur])"
| "fields_go (Suc fuel) cur s =
     (case s of
        [] \<Rightarrow> (if cur = [] then [] else [rev cur])
      | c # cs \<Rightarrow>
          (case space_width space_encodings s of
             Some n \<Rightarrow> (if cur = [] then [] else [rev cur]) @ fields_go fuel [] (drop n s)
           | None \<Rightarrow> fields_go fuel (c # cur) cs))"

definition Fields :: "string \<Rightarrow> string list" where
  "Fields s = fields_go (Suc (length s)) [] s"

definition HasPrefix :: "string \<Rightarrow> string \<Rightarrow> bool" where
  "HasPrefix s p = starts_with s p"

text \<open>\<open>strings.Join\<close>.\<close>

fun Join :: "string list \<Rightarrow> string \<Rightarrow> string" where
  "Join [] sep = []"
| "Join [s] sep = s"
| "Join (s # t # ss) sep = s @ sep @ Join (t # ss) sep"

text \<open>\<open>strconv.Itoa\<close> on a natural number, and reading a run of decimal digits back.\<close>

definition digit_char :: "nat \<Rightarrow> char" where
  "digit_char d = char_of (48 + d)"

fun itoa :: "nat \<Rightarrow> string" where
  "itoa n = (if n < 10 then [digit_char n] else itoa (n div 10) @ [digit_char (n mod 10)])"

declare itoa.simps [simp del]

text \<open>The verb \<open>%d\<close> of \<open>fmt\<close>.\<close>

definition formatInt :: "int \<Rightarrow> string" where
  "formatInt n = (if n < 0 then ''-'' @ itoa (nat (- n)) else itoa (nat n))"

text \<open>A table for evaluation.\<close>

lemma digit_char_code [code]: "digit_char n = (if n < 10 then ''0123456789'' ! n else char_of (48 + n))"
proof (cases "n < 10")
  case True
  have "list_all (\<lambda>k. digit_char k = ''0123456789'' ! k) [0..<10]"
    by (simp add: upt_rec digit_char_def char_of_def bit_0)
  with True show ?thesis by (simp add: list_all_iff)
qed (simp add: digit_char_def)

definition digit_value :: "char \<Rightarrow> nat" where
  "digit_value c = byte c - 48"

definition decimal :: "string \<Rightarrow> nat" where
  "decimal s = foldl (\<lambda>n c. n * 10 + digit_value c) 0 s"

section \<open>Generic lemmas\<close>

lemma byte_char_of [simp]: "byte (char_of n) = n mod 256"
  by (simp add: byte_def)

lemma byte_less [simp]: "byte c < 256"
  by (simp add: byte_def)

lemma digit_char_digit [simp]:
  assumes "d < 10"
  shows "is_digit (digit_char d)" and "digit_value (digit_char d) = d"
  using assms by (simp_all add: is_digit_def digit_value_def digit_char_def)

lemma itoa_digits: "\<forall>c\<in>set (itoa n). is_digit c"
proof (induction n rule: itoa.induct)
  case (1 n)
  then show ?case by (subst itoa.simps) auto
qed

lemma itoa_nonempty [simp]: "itoa n \<noteq> []"
  by (subst itoa.simps) simp

lemma decimal_snoc: "decimal (s @ [c]) = decimal s * 10 + digit_value c"
  by (simp add: decimal_def)

lemma decimal_itoa [simp]: "decimal (itoa n) = n"
proof (induction n rule: itoa.induct)
  case (1 n)
  show ?case
  proof (cases "n < 10")
    case True
    then show ?thesis by (subst itoa.simps) (simp add: decimal_def)
  next
    case False
    with 1 show ?thesis by (subst itoa.simps) (simp add: decimal_snoc)
  qed
qed

lemma itoa_inj: "itoa m = itoa n \<Longrightarrow> m = n"
  by (metis decimal_itoa)

lemma itoa_hd:
  "0 < n \<Longrightarrow> is_digit (hd (itoa n)) \<and> hd (itoa n) \<noteq> CHR ''0''"
proof (induction n rule: itoa.induct)
  case (1 n)
  show ?case
  proof (cases "n < 10")
    case True
    have "digit_char n \<noteq> CHR ''0''" if "digit_value (digit_char n) \<noteq> 0"
      using that by (auto simp: digit_value_def byte_def)
    with True "1.prems" show ?thesis by (subst (1 2) itoa.simps) auto
  next
    case False
    with 1 show ?thesis by (subst (1 2) itoa.simps) (simp add: hd_append)
  qed
qed

lemma sort_key_set [simp]: "set (sort_key f xs) = set xs"
  by simp

lemma starts_with_append [simp]: "starts_with (p @ s) p"
  by (induction p) auto

lemma starts_with_iff: "starts_with s p \<longleftrightarrow> (\<exists>t. s = p @ t)"
  by (induction s p rule: starts_with.induct) auto

section \<open>Sorting the keys of a map\<close>

text \<open>
  Ranging over a Go map visits the keys in an unspecified order. Sorting them by an injective key
  makes the result independent of it.
\<close>

lemma sort_key_determ:
  assumes "distinct xs" and "distinct ys" and "set xs = set ys" and "inj_on f (set xs)"
  shows "sort_key f xs = sort_key f ys"
proof (rule sort_key_inj_key_eq [OF _ assms(4)])
  show "mset xs = mset (sort_key f ys)"
    using assms(1-3) by (simp add: set_eq_iff_mset_eq_distinct)
qed simp

section \<open>High-water marks\<close>

text \<open>
  Several components keep a mark that each event raises to its own level and that nothing lowers: the
  trusted clock, the accepted sequence of the signed feed authority. \<open>inv\<close> is what the state needs for
  that, \<open>admissible\<close> what the events need.
\<close>

locale high_water =
  fixes step :: "'s \<Rightarrow> 'e \<Rightarrow> 's" and mark :: "'s \<Rightarrow> 'm::linorder" and level :: "'e \<Rightarrow> 'm"
    and admissible :: "'e \<Rightarrow> bool" and inv :: "'s \<Rightarrow> bool"
  assumes inv_step: "inv s \<Longrightarrow> admissible e \<Longrightarrow> inv (step s e)"
    and mark_step: "inv s \<Longrightarrow> admissible e \<Longrightarrow> mark (step s e) = max (mark s) (level e)"
begin

lemma inv_run: "inv s \<Longrightarrow> \<forall>e\<in>set es. admissible e \<Longrightarrow> inv (foldl step s es)"
  by (induction es arbitrary: s) (auto simp: inv_step)

lemma mark_run:
  "inv s \<Longrightarrow> \<forall>e\<in>set es. admissible e \<Longrightarrow> mark (foldl step s es) = foldl (\<lambda>m e. max m (level e)) (mark s) es"
  by (induction es arbitrary: s) (auto simp: inv_step mark_step)

lemma mark_mono: "inv s \<Longrightarrow> \<forall>e\<in>set es. admissible e \<Longrightarrow> mark s \<le> mark (foldl step s es)"
proof (induction es arbitrary: s)
  case (Cons e es)
  then have "mark (step s e) \<le> mark (foldl step (step s e) es)" by (auto simp: inv_step)
  moreover have "mark s \<le> mark (step s e)" using Cons.prems mark_step [of s e] by simp
  ultimately show ?case by simp
qed simp

lemma level_le_mark:
  "inv s \<Longrightarrow> \<forall>e\<in>set es. admissible e \<Longrightarrow> e \<in> set es \<Longrightarrow> level e \<le> mark (foldl step s es)"
proof (induction es arbitrary: s)
  case (Cons d es)
  then have d: "inv (step s d)" "mark (step s d) = max (mark s) (level d)" by (auto simp: inv_step mark_step)
  then have "level d \<le> mark (foldl step (step s d) es)"
    using mark_mono [of "step s d" es] Cons.prems(2) by (simp add: max.bounded_iff)
  then show ?case using Cons d by auto
qed simp

end

end
