(* ===== verification/Netip.thy ===== *)
theory Netip
  imports Prelude
begin

text \<open>
  The part of Go's \<open>net/netip\<close> the program uses: addresses, the address classes its guards ask for,
  and prefixes with masking and containment. \<open>AddrZero\<close> is the invalid zero value, \<open>Addr4\<close> an IPv4
  address, \<open>Addr6\<close> an IPv6 address with its zone (the empty string for none). The text formats are
  in theory \<open>NetipText\<close>.

  The lemmas at the end give every operation a bitwise reading: \<open>abit a i\<close> is bit \<open>i\<close> of an address
  counted from the most significant one, and a valid prefix contains an address of its own family
  exactly when their first \<open>Bits\<close> bits agree. The component proofs use only this reading.
\<close>

section \<open>Addresses\<close>

datatype addr = AddrZero | Addr4 "32 word" | Addr6 "128 word" string

fun IsValid :: "addr \<Rightarrow> bool" where
  "IsValid AddrZero = False"
| "IsValid _ = True"

fun Is4 :: "addr \<Rightarrow> bool" where
  "Is4 (Addr4 w) = True"
| "Is4 _ = False"

fun Is6 :: "addr \<Rightarrow> bool" where
  "Is6 (Addr6 w z) = True"
| "Is6 _ = False"

fun Is4In6 :: "addr \<Rightarrow> bool" where
  "Is4In6 (Addr6 w z) = (drop_bit 32 w = 0xFFFF)"
| "Is4In6 _ = False"

fun Unmap :: "addr \<Rightarrow> addr" where
  "Unmap (Addr6 w z) = (if Is4In6 (Addr6 w z) then Addr4 (ucast w) else Addr6 w z)"
| "Unmap a = a"

fun BitLen :: "addr \<Rightarrow> nat" where
  "BitLen AddrZero = 0"
| "BitLen (Addr4 w) = 32"
| "BitLen (Addr6 w z) = 128"

fun WithoutZone :: "addr \<Rightarrow> addr" where
  "WithoutZone (Addr6 w z) = Addr6 w []"
| "WithoutZone a = a"

fun hasZone :: "addr \<Rightarrow> bool" where
  "hasZone (Addr6 w z) = (z \<noteq> [])"
| "hasZone _ = False"

text \<open>\<open>v4\<close> and \<open>v6\<close> read one byte of an address, most significant first.\<close>

definition v4 :: "32 word \<Rightarrow> nat \<Rightarrow> 8 word" where
  "v4 w k = ucast (drop_bit (24 - 8 * k) w)"

definition v6 :: "128 word \<Rightarrow> nat \<Rightarrow> 8 word" where
  "v6 w k = ucast (drop_bit (120 - 8 * k) w)"

definition v6u16 :: "128 word \<Rightarrow> nat \<Rightarrow> 16 word" where
  "v6u16 w k = ucast (drop_bit (112 - 16 * k) w)"

definition As4 :: "32 word \<Rightarrow> 8 word list" where
  "As4 w = map (v4 w) [0..<4]"

definition As16 :: "128 word \<Rightarrow> 8 word list" where
  "As16 w = map (v6 w) [0..<16]"

definition AddrFrom4 :: "8 word list \<Rightarrow> addr" where
  "AddrFrom4 bs = Addr4 (foldl (\<lambda>w b. push_bit 8 w OR ucast b) 0 bs)"

definition AddrFrom16 :: "8 word list \<Rightarrow> addr" where
  "AddrFrom16 bs = Addr6 (foldl (\<lambda>w b. push_bit 8 w OR ucast b) 0 bs) []"

definition IsUnspecified :: "addr \<Rightarrow> bool" where
  "IsUnspecified a \<longleftrightarrow> a = Addr4 0 \<or> a = Addr6 0 []"

fun IsLoopback :: "addr \<Rightarrow> bool" where
  "IsLoopback AddrZero = False"
| "IsLoopback (Addr4 w) = (v4 w 0 = 127)"
| "IsLoopback (Addr6 w z) =
     (if Is4In6 (Addr6 w z) then v4 (ucast w) 0 = 127 else w = 1)"

fun IsMulticast :: "addr \<Rightarrow> bool" where
  "IsMulticast AddrZero = False"
| "IsMulticast (Addr4 w) = (v4 w 0 AND 0xF0 = 0xE0)"
| "IsMulticast (Addr6 w z) =
     (if Is4In6 (Addr6 w z) then v4 (ucast w) 0 AND 0xF0 = 0xE0 else v6 w 0 = 0xFF)"

definition private4 :: "32 word \<Rightarrow> bool" where
  "private4 w \<longleftrightarrow> v4 w 0 = 10 \<or> (v4 w 0 = 172 \<and> v4 w 1 AND 0xF0 = 16)
     \<or> (v4 w 0 = 192 \<and> v4 w 1 = 168)"

fun IsPrivate :: "addr \<Rightarrow> bool" where
  "IsPrivate AddrZero = False"
| "IsPrivate (Addr4 w) = private4 w"
| "IsPrivate (Addr6 w z) =
     (if Is4In6 (Addr6 w z) then private4 (ucast w) else v6 w 0 AND 0xFE = 0xFC)"

definition linklocal4 :: "32 word \<Rightarrow> bool" where
  "linklocal4 w \<longleftrightarrow> v4 w 0 = 169 \<and> v4 w 1 = 254"

fun IsLinkLocalUnicast :: "addr \<Rightarrow> bool" where
  "IsLinkLocalUnicast AddrZero = False"
| "IsLinkLocalUnicast (Addr4 w) = linklocal4 w"
| "IsLinkLocalUnicast (Addr6 w z) =
     (if Is4In6 (Addr6 w z) then linklocal4 (ucast w) else v6u16 w 0 AND 0xFFC0 = 0xFE80)"

definition IsGlobalUnicast :: "addr \<Rightarrow> bool" where
  "IsGlobalUnicast a0 \<longleftrightarrow>
     (let a = (if Is4In6 a0 then Unmap a0 else a0) in
      IsValid a0 \<and> \<not> (a = Addr4 0 \<or> a = Addr4 0xFFFFFFFF) \<and>
      a \<noteq> Addr6 0 [] \<and> \<not> IsLoopback a \<and> \<not> IsMulticast a \<and> \<not> IsLinkLocalUnicast a)"

section \<open>Prefixes\<close>

text \<open>
  As in Go, a prefix holds an address without its zone and the number of bits plus one; the value
  \<open>0\<close> of that field marks an invalid prefix, whose \<open>Bits\<close> is \<open>-1\<close>.
\<close>

record prefix =
  ip :: addr
  bitsPlusOne :: nat

definition PrefixZero :: prefix where
  "PrefixZero = \<lparr>ip = AddrZero, bitsPlusOne = 0\<rparr>"

definition PrefixIsValid :: "prefix \<Rightarrow> bool" where
  "PrefixIsValid p \<longleftrightarrow> 0 < bitsPlusOne p"

definition Bits :: "prefix \<Rightarrow> int" where
  "Bits p = int (bitsPlusOne p) - 1"

definition PrefixFrom :: "addr \<Rightarrow> int \<Rightarrow> prefix" where
  "PrefixFrom a b =
     \<lparr>ip = WithoutZone a,
      bitsPlusOne = (if IsValid a \<and> 0 \<le> b \<and> b \<le> int (BitLen a) then nat b + 1 else 0)\<rparr>"

text \<open>\<open>Addr.Prefix\<close>: the host bits are cleared; an error is \<open>None\<close>.\<close>

fun AddrPrefix :: "addr \<Rightarrow> int \<Rightarrow> prefix option" where
  "AddrPrefix AddrZero b = (if b < 0 then None else Some PrefixZero)"
| "AddrPrefix (Addr4 w) b =
     (if b < 0 \<or> 32 < b then None
      else Some (PrefixFrom (Addr4 (w AND NOT (mask (32 - nat b)))) b))"
| "AddrPrefix (Addr6 w z) b =
     (if b < 0 \<or> 128 < b then None
      else Some (PrefixFrom (Addr6 (w AND NOT (mask (128 - nat b))) z) b))"

definition Masked :: "prefix \<Rightarrow> prefix" where
  "Masked p = (case AddrPrefix (ip p) (Bits p) of None \<Rightarrow> PrefixZero | Some m \<Rightarrow> m)"

fun contains_addr :: "addr \<Rightarrow> nat \<Rightarrow> addr \<Rightarrow> bool" where
  "contains_addr (Addr4 v) b (Addr4 w) = (drop_bit (32 - b) (v XOR w) = 0)"
| "contains_addr (Addr6 v y) b (Addr6 w z) =
     (z = [] \<and> (v XOR w) AND NOT (mask (128 - b)) = 0)"
| "contains_addr _ _ _ = False"

definition Contains :: "prefix \<Rightarrow> addr \<Rightarrow> bool" where
  "Contains p a \<longleftrightarrow> PrefixIsValid p \<and> contains_addr (ip p) (nat (Bits p)) a"

section \<open>The bitwise reading\<close>

fun abit :: "addr \<Rightarrow> nat \<Rightarrow> bool" where
  "abit AddrZero i = False"
| "abit (Addr4 w) i = (i < 32 \<and> bit w (31 - i))"
| "abit (Addr6 w z) i = (i < 128 \<and> bit w (127 - i))"

definition same_family :: "addr \<Rightarrow> addr \<Rightarrow> bool" where
  "same_family a b \<longleftrightarrow> IsValid a \<and> BitLen a = BitLen b"

text \<open>
  A plain address is a valid one that is neither mapped nor zoned: what \<open>Unmap\<close> and the removal of
  the zone leave. A canonical prefix is a valid one on a plain address with its host bits clear.
\<close>

definition plain :: "addr \<Rightarrow> bool" where
  "plain a \<longleftrightarrow> IsValid a \<and> \<not> Is4In6 a \<and> \<not> hasZone a"

definition canonical :: "prefix \<Rightarrow> bool" where
  "canonical p \<longleftrightarrow> PrefixIsValid p \<and> plain (ip p) \<and> bitsPlusOne p \<le> Suc (BitLen (ip p)) \<and>
     (\<forall>i. bitsPlusOne p \<le> Suc i \<longrightarrow> \<not> abit (ip p) i)"

definition agree :: "addr \<Rightarrow> addr \<Rightarrow> nat \<Rightarrow> nat \<Rightarrow> bool" where
  "agree a b m n \<longleftrightarrow> (\<forall>i. m \<le> i \<and> i < n \<longrightarrow> abit a i = abit b i)"

lemma BitLen_cases: "BitLen a = 32 \<longleftrightarrow> Is4 a" "BitLen a = 128 \<longleftrightarrow> Is6 a"
  by (cases a; simp)+

lemma abit_beyond: "BitLen a \<le> i \<Longrightarrow> \<not> abit a i"
  by (cases a) auto

lemma bits_from_top:
  fixes v w :: "'a::len word"
  assumes "b \<le> LENGTH('a)"
  shows "(\<forall>n. LENGTH('a) - b \<le> n \<and> n < LENGTH('a) \<longrightarrow> bit v n = bit w n) \<longleftrightarrow>
    (\<forall>i<b. bit v (LENGTH('a) - Suc i) = bit w (LENGTH('a) - Suc i))" (is "?low \<longleftrightarrow> ?top")
proof
  assume ?low
  with assms show ?top by auto
next
  assume top: ?top
  show ?low
  proof (intro allI impI)
    fix n assume n: "LENGTH('a) - b \<le> n \<and> n < LENGTH('a)"
    then have "LENGTH('a) - Suc n < b" using assms by linarith
    with top have "bit v (LENGTH('a) - Suc (LENGTH('a) - Suc n)) =
        bit w (LENGTH('a) - Suc (LENGTH('a) - Suc n))" by blast
    with n show "bit v n = bit w n" by (simp add: Suc_diff_Suc)
  qed
qed

lemma word_eq_bits_from_top:
  fixes v w :: "'a::len word"
  assumes "\<And>i. i < LENGTH('a) \<Longrightarrow> bit v (LENGTH('a) - Suc i) = bit w (LENGTH('a) - Suc i)"
  shows "v = w"
  using bits_from_top [of "LENGTH('a)" v w] assms by (auto intro: bit_word_eqI)

lemma addr_eqI:
  assumes "\<not> hasZone a" and "\<not> hasZone b" and "IsValid a" and "BitLen a = BitLen b"
    and bits: "\<And>i. abit a i = abit b i"
  shows "a = b"
proof (cases a; cases b)
  fix v w assume ab: "a = Addr4 v" "b = Addr4 w"
  have "v = w"
    by (rule word_eq_bits_from_top) (use bits ab in \<open>auto dest: meta_spec\<close>)
  with ab show ?thesis by simp
next
  fix v y w z assume ab: "a = Addr6 v y" "b = Addr6 w z"
  have "v = w"
    by (rule word_eq_bits_from_top) (use bits ab in \<open>auto dest: meta_spec\<close>)
  with ab assms(1,2) show ?thesis by simp
qed (use assms in auto)

lemma plain_eqI:
  assumes "plain a" and "plain b" and "BitLen a = BitLen b" and "\<And>i. abit a i = abit b i"
  shows "a = b"
  using assms by (intro addr_eqI) (auto simp: plain_def)

lemma drop_xor_eq_0:
  fixes v w :: "'a::len word"
  shows "drop_bit k (v XOR w) = 0 \<longleftrightarrow> (\<forall>n. k \<le> n \<and> n < LENGTH('a) \<longrightarrow> bit v n = bit w n)"
proof
  assume *: "drop_bit k (v XOR w) = 0"
  show "\<forall>n. k \<le> n \<and> n < LENGTH('a) \<longrightarrow> bit v n = bit w n"
  proof (intro allI impI)
    fix n assume n: "k \<le> n \<and> n < LENGTH('a)"
    have "\<not> bit (drop_bit k (v XOR w)) (n - k)" unfolding * by simp
    with n show "bit v n = bit w n" by (simp add: bit_drop_bit_eq bit_xor_iff)
  qed
next
  assume *: "\<forall>n. k \<le> n \<and> n < LENGTH('a) \<longrightarrow> bit v n = bit w n"
  show "drop_bit k (v XOR w) = 0"
  proof (rule bit_word_eqI)
    fix n
    have "bit v (k + n) = bit w (k + n)"
      using * by (cases "k + n < LENGTH('a)") (auto dest: bit_imp_le_length)
    then show "bit (drop_bit k (v XOR w)) n = bit 0 n"
      by (simp add: bit_drop_bit_eq bit_xor_iff)
  qed
qed

lemma xor_mask_eq_0:
  fixes v w :: "'a::len word"
  shows "(v XOR w) AND NOT (mask k) = 0 \<longleftrightarrow>
    (\<forall>n. k \<le> n \<and> n < LENGTH('a) \<longrightarrow> bit v n = bit w n)"
  by (auto simp: bit_eq_iff bit_and_iff bit_not_iff bit_xor_iff bit_mask_iff not_less
           dest: bit_imp_le_length)

lemma contains_addr_agree:
  assumes "b \<le> BitLen a"
  shows "contains_addr a b c \<longleftrightarrow> same_family a c \<and> \<not> hasZone c \<and> agree a c 0 b"
proof (cases a; cases c)
  fix v w assume ac: "a = Addr4 v" "c = Addr4 w"
  have "contains_addr a b c \<longleftrightarrow> (\<forall>i<b. bit v (31 - i) = bit w (31 - i))"
    unfolding ac contains_addr.simps drop_xor_eq_0
    using bits_from_top [of b v w] assms ac by simp
  also have "\<dots> \<longleftrightarrow> agree a c 0 b"
    unfolding agree_def using assms ac by auto
  finally show ?thesis using ac by (simp add: same_family_def)
next
  fix v y w z assume ac: "a = Addr6 v y" "c = Addr6 w z"
  have "(\<forall>n. 128 - b \<le> n \<and> n < 128 \<longrightarrow> bit v n = bit w n) \<longleftrightarrow>
      (\<forall>i<b. bit v (127 - i) = bit w (127 - i))"
    using bits_from_top [of b v w] assms ac by simp
  then have "contains_addr a b c \<longleftrightarrow> z = [] \<and> (\<forall>i<b. bit v (127 - i) = bit w (127 - i))"
    unfolding ac contains_addr.simps xor_mask_eq_0 by simp
  also have "\<dots> \<longleftrightarrow> z = [] \<and> agree a c 0 b"
    unfolding agree_def using assms ac by auto
  finally show ?thesis using ac by (auto simp: same_family_def)
qed (auto simp: same_family_def)

section \<open>Well-formed and canonical prefixes\<close>

text \<open>
  The fields of a Go prefix are private; every constructor of the package builds one that satisfies
  \<open>prefix_ok\<close>.
\<close>

definition prefix_ok :: "prefix \<Rightarrow> bool" where
  "prefix_ok p \<longleftrightarrow> bitsPlusOne p \<le> Suc (BitLen (ip p)) \<and> \<not> hasZone (ip p) \<and>
     (PrefixIsValid p \<longrightarrow> IsValid (ip p))"

lemma WithoutZone_simps [simp]:
  "BitLen (WithoutZone a) = BitLen a" "IsValid (WithoutZone a) = IsValid a"
  "Is4In6 (WithoutZone a) = Is4In6 a" "\<not> hasZone (WithoutZone a)"
  "abit (WithoutZone a) i = abit a i" "Is4 (WithoutZone a) = Is4 a"
  by (cases a; simp)+

lemma Unmap_simps [simp]:
  "IsValid (Unmap a) = IsValid a" "\<not> Is4In6 (Unmap a)"
  "\<not> hasZone a \<Longrightarrow> \<not> hasZone (Unmap a)" "Unmap (Unmap a) = Unmap a"
  by (cases a; simp)+

lemma plain_WithoutZone_Unmap: "IsValid a \<Longrightarrow> plain (WithoutZone (Unmap a))"
  by (simp add: plain_def)

lemma plain_Unmap [simp]: "plain a \<Longrightarrow> Unmap a = a"
  by (cases a) (auto simp: plain_def)

lemma plain_WithoutZone [simp]: "plain a \<Longrightarrow> WithoutZone a = a"
  by (cases a) (auto simp: plain_def)

lemma PrefixFrom_ok [simp]: "prefix_ok (PrefixFrom a b)"
  by (auto simp: prefix_ok_def PrefixFrom_def PrefixIsValid_def)

lemma PrefixFrom_sel:
  assumes "IsValid a" and "b \<le> BitLen a"
  shows "ip (PrefixFrom a (int b)) = WithoutZone a" "bitsPlusOne (PrefixFrom a (int b)) = Suc b"
  using assms by (simp_all add: PrefixFrom_def)

lemma canonical_ok: "canonical p \<Longrightarrow> prefix_ok p"
  by (simp add: canonical_def prefix_ok_def plain_def)

lemma Contains_iff:
  assumes "prefix_ok p"
  shows "Contains p a \<longleftrightarrow> PrefixIsValid p \<and> same_family (ip p) a \<and> \<not> hasZone a \<and>
    agree (ip p) a 0 (bitsPlusOne p - 1)"
proof -
  have "nat (Bits p) = bitsPlusOne p - 1" by (simp add: Bits_def)
  moreover have "bitsPlusOne p - 1 \<le> BitLen (ip p)" using assms by (auto simp: prefix_ok_def)
  ultimately show ?thesis by (auto simp: Contains_def contains_addr_agree)
qed

lemma Masked_ok [simp]: "prefix_ok (Masked p)"
proof (cases "AddrPrefix (ip p) (Bits p)")
  case (Some m)
  then show ?thesis
    by (cases "ip p") (auto simp: Masked_def PrefixZero_def prefix_ok_def PrefixIsValid_def
        PrefixFrom_def split: if_splits)
qed (simp add: Masked_def PrefixZero_def prefix_ok_def PrefixIsValid_def)

lemma Masked_valid:
  assumes "prefix_ok p" and "PrefixIsValid p"
  shows "bitsPlusOne (Masked p) = bitsPlusOne p"
    and "BitLen (ip (Masked p)) = BitLen (ip p)"
    and "abit (ip (Masked p)) i \<longleftrightarrow> abit (ip p) i \<and> Suc i < bitsPlusOne p"
    and "\<not> hasZone (ip (Masked p))"
proof -
  obtain b where b: "bitsPlusOne p = Suc b" using assms(2) by (auto simp: PrefixIsValid_def gr0_conv_Suc)
  have len: "b \<le> BitLen (ip p)" and z: "\<not> hasZone (ip p)" and v: "IsValid (ip p)"
    using assms b by (auto simp: prefix_ok_def)
  show "bitsPlusOne (Masked p) = bitsPlusOne p" "BitLen (ip (Masked p)) = BitLen (ip p)"
    "\<not> hasZone (ip (Masked p))"
    using b len z v by (cases "ip p"; simp add: Masked_def Bits_def PrefixFrom_def)+
  show "abit (ip (Masked p)) i \<longleftrightarrow> abit (ip p) i \<and> Suc i < bitsPlusOne p"
    using b len z v
    by (cases "ip p")
       (auto simp: Masked_def Bits_def PrefixFrom_def bit_and_iff bit_not_iff bit_mask_iff)
qed

lemma Masked_invalid: "\<not> PrefixIsValid p \<Longrightarrow> Masked p = PrefixZero"
  by (cases "ip p") (auto simp: Masked_def Bits_def PrefixIsValid_def)

lemma Contains_Masked [simp]:
  assumes "prefix_ok p"
  shows "Contains (Masked p) a = Contains p a"
proof (cases "PrefixIsValid p")
  case True
  note m = Masked_valid [OF assms True]
  have "agree (ip (Masked p)) a 0 (bitsPlusOne p - 1) = agree (ip p) a 0 (bitsPlusOne p - 1)"
    by (auto simp: agree_def m(3))
  moreover have "PrefixIsValid (Masked p)" using True m(1) by (simp add: PrefixIsValid_def)
  moreover have "IsValid (ip (Masked p)) = IsValid (ip p)"
    using m(2) by (cases "ip p"; cases "ip (Masked p)") auto
  ultimately show ?thesis
    using assms True by (auto simp: Contains_iff m(1,2) same_family_def)
next
  case False
  then show ?thesis
    by (simp add: Masked_invalid Contains_def PrefixZero_def PrefixIsValid_def)
qed

lemma canonical_Masked:
  assumes "prefix_ok p" and "PrefixIsValid p" and "\<not> Is4In6 (ip (Masked p))"
  shows "canonical (Masked p)"
proof -
  note m = Masked_valid [OF assms(1,2)]
  have "IsValid (ip (Masked p))"
    using m(2) assms(1,2) by (cases "ip p"; cases "ip (Masked p)") (auto simp: prefix_ok_def)
  then show ?thesis
    using assms m by (auto simp: canonical_def plain_def PrefixIsValid_def prefix_ok_def)
qed

lemma Masked_canonical [simp]:
  assumes "canonical p"
  shows "Masked p = p"
proof -
  have ok: "prefix_ok p" and v: "PrefixIsValid p"
    using assms canonical_ok by (auto simp: canonical_def)
  note m = Masked_valid [OF ok v]
  have bits: "abit (ip (Masked p)) i = abit (ip p) i" for i
    using assms by (cases "Suc i < bitsPlusOne p") (auto simp: m(3) canonical_def)
  have "ip (Masked p) = ip p"
  proof (cases "ip p")
    case (Addr4 w)
    then have "Is4 (ip (Masked p))" using m(2) by (cases "ip (Masked p)") auto
    then have "plain (ip (Masked p))" using m(4) by (cases "ip (Masked p)") (auto simp: plain_def)
    then show ?thesis using assms m(2) bits by (auto intro: plain_eqI simp: canonical_def)
  next
    case (Addr6 w z)
    then obtain w' where w': "ip (Masked p) = Addr6 w' []"
      using m(2,4) by (cases "ip (Masked p)") auto
    have "w' = w"
      by (rule word_eq_bits_from_top) (use bits Addr6 w' in \<open>auto dest: meta_spec\<close>)
    with w' Addr6 ok show ?thesis by (simp add: prefix_ok_def)
  qed (use v ok in \<open>simp add: prefix_ok_def\<close>)
  with m(1) show ?thesis by simp
qed

lemma canonical_eqI:
  assumes "canonical p" and "canonical q" and "BitLen (ip p) = BitLen (ip q)"
    and "bitsPlusOne p = bitsPlusOne q" and "agree (ip p) (ip q) 0 (bitsPlusOne p - 1)"
  shows "p = q"
proof -
  have "abit (ip p) i = abit (ip q) i" for i
    using assms by (cases "Suc i < bitsPlusOne p") (auto simp: canonical_def agree_def)
  then have "ip p = ip q" using assms by (auto intro: plain_eqI simp: canonical_def)
  with assms(4) show ?thesis by simp
qed

end
