(* ===== verification/NetipText.thy ===== *)
theory NetipText
  imports Netip
begin

text \<open>
  The text formats of \<open>net/netip\<close>: \<open>Addr.String\<close>, \<open>Prefix.String\<close>, \<open>ParseAddr\<close> and \<open>ParsePrefix\<close>,
  for IPv4 in dotted decimal and IPv6 with the compressed run of zero groups, embedded IPv4 and
  zones. The threat-intelligence code stores its indicators as text and reads them back; the theory
  ends with the round trip it relies on, \<open>ParsePrefix_String\<close>, and with the order and injectivity of
  the text of canonical prefixes.
\<close>

section \<open>Printing\<close>

definition hex_char :: "nat \<Rightarrow> char" where
  "hex_char d = (if d < 10 then char_of (48 + d) else char_of (87 + d))"

lemma hex_char_code [code]: "hex_char d = (if d < 16 then ''0123456789abcdef'' ! d else char_of (87 + d))"
proof (cases "d < 16")
  case True
  have "list_all (\<lambda>k. hex_char k = ''0123456789abcdef'' ! k) [0..<16]"
    by (simp add: upt_rec hex_char_def char_of_def bit_0)
  with True show ?thesis by (simp add: list_all_iff)
qed (simp add: hex_char_def)

definition append_hex :: "nat \<Rightarrow> string" where
  "append_hex x =
     (if 0x1000 \<le> x then [hex_char (x div 0x1000)] else []) @
     (if 0x100 \<le> x then [hex_char (x div 0x100 mod 16)] else []) @
     (if 0x10 \<le> x then [hex_char (x div 0x10 mod 16)] else []) @
     [hex_char (x mod 16)]"

definition groups6 :: "128 word \<Rightarrow> nat list" where
  "groups6 w = map (\<lambda>k. unat (v6u16 w k)) [0..<8]"

definition zero_run_at :: "nat list \<Rightarrow> nat \<Rightarrow> nat" where
  "zero_run_at gs i = length (takeWhile (\<lambda>g. g = 0) (drop i gs))"

text \<open>The first longest run of at least two zero groups, as \<open>[start, end)\<close>; \<open>(255, 255)\<close> if none.\<close>

definition zero_scan :: "nat list \<Rightarrow> nat \<times> nat" where
  "zero_scan gs =
     foldl (\<lambda>(zs, ze) i. let l = zero_run_at gs i in
              if 2 \<le> l \<and> ze - zs < l then (i, i + l) else (zs, ze)) (255, 255) [0..<8]"

definition string6 :: "nat list \<Rightarrow> string" where
  "string6 gs =
     (case zero_scan gs of (zs, ze) \<Rightarrow>
        if zs = 255 then Join (map append_hex gs) '':''
        else Join (map append_hex (take zs gs)) '':'' @ ''::'' @
             Join (map append_hex (drop ze gs)) '':'')"

definition string4 :: "32 word \<Rightarrow> string" where
  "string4 w = Join (map (\<lambda>k. itoa (unat (v4 w k))) [0..<4]) ''.''"

fun AddrString :: "addr \<Rightarrow> string" where
  "AddrString AddrZero = ''invalid IP''"
| "AddrString (Addr4 w) = string4 w"
| "AddrString (Addr6 w z) =
     (if Is4In6 (Addr6 w z) then ''::ffff:'' @ string4 (ucast w) else string6 (groups6 w)) @
     (if z = [] then [] else ''%'' @ z)"

definition PrefixString :: "prefix \<Rightarrow> string" where
  "PrefixString p =
     (if PrefixIsValid p then AddrString (ip p) @ ''/'' @ itoa (nat (Bits p))
      else ''invalid Prefix'')"

section \<open>Parsing\<close>

text \<open>
  The field loop of IPv4: the value and the number of digits of the current octet, the octets read
  so far. A dot is refused at the start, after a dot and at the end (the octet is empty or nothing
  follows) and after the third octet.
\<close>

fun parse4_loop :: "string \<Rightarrow> nat \<Rightarrow> nat \<Rightarrow> nat list \<Rightarrow> nat list option" where
  "parse4_loop [] val digLen octets =
     (if length octets < 3 then None else Some (octets @ [val]))"
| "parse4_loop (c # s) val digLen octets =
     (if is_digit c then
        (if digLen = 1 \<and> val = 0 then None
         else let val' = val * 10 + digit_value c in
              if 255 < val' then None else parse4_loop s val' (Suc digLen) octets)
      else if c = CHR ''.'' then
        (if digLen = 0 \<or> s = [] then None
         else if length octets = 3 then None
         else parse4_loop s 0 0 (octets @ [val]))
      else None)"

definition parse4_fields :: "string \<Rightarrow> 8 word list option" where
  "parse4_fields s = map_option (map word_of_nat) (parse4_loop s 0 0 [])"

definition parse4 :: "string \<Rightarrow> addr option" where
  "parse4 s = map_option AddrFrom4 (parse4_fields s)"

definition is_hex :: "char \<Rightarrow> bool" where
  "is_hex c \<longleftrightarrow> is_digit c \<or> (97 \<le> byte c \<and> byte c \<le> 102) \<or> (65 \<le> byte c \<and> byte c \<le> 70)"

definition hex_value :: "char \<Rightarrow> nat" where
  "hex_value c = (if is_digit c then byte c - 48 else if 97 \<le> byte c then byte c - 87
                  else byte c - 55)"

definition hexadecimal :: "string \<Rightarrow> nat" where
  "hexadecimal s = foldl (\<lambda>n c. n * 16 + hex_value c) 0 s"

text \<open>
  The group loop of IPv6: the number of groups still allowed, the rest of the text, the groups read,
  the position of the ellipsis if one was read. The result is the final value of the last three.
\<close>

fun parse6_loop ::
    "nat \<Rightarrow> string \<Rightarrow> nat list \<Rightarrow> nat option \<Rightarrow> (string \<times> nat list \<times> nat option) option" where
  "parse6_loop 0 s gs ell = Some (s, gs, ell)"
| "parse6_loop (Suc n) s gs ell =
     (let ds = takeWhile is_hex s; rest = dropWhile is_hex s in
      if 4 < length ds \<or> ds = [] then None
      else case rest of
        [] \<Rightarrow> Some ([], gs @ [hexadecimal ds], ell)
      | c # r \<Rightarrow>
          if c = CHR ''.'' then
            (if (ell = None \<and> length gs \<noteq> 6) \<or> 6 < length gs then None
             else case parse4_fields s of
                 Some [b0, b1, b2, b3] \<Rightarrow>
                   Some ([], gs @ [unat b0 * 256 + unat b1, unat b2 * 256 + unat b3], ell)
               | _ \<Rightarrow> None)
          else if c \<noteq> CHR '':'' then None
          else case r of
              [] \<Rightarrow> None
            | d # r' \<Rightarrow>
                let gs' = gs @ [hexadecimal ds] in
                if d = CHR '':'' then
                  (if ell \<noteq> None then None
                   else if r' = [] then Some ([], gs', Some (length gs'))
                   else parse6_loop n r' gs' (Some (length gs')))
                else parse6_loop n r gs' ell)"

definition expand6 :: "string \<times> nat list \<times> nat option \<Rightarrow> nat list option" where
  "expand6 = (\<lambda>(s, gs, ell).
     if s \<noteq> [] then None
     else if length gs < 8 then
       (case ell of
          None \<Rightarrow> None
        | Some k \<Rightarrow> Some (take k gs @ replicate (8 - length gs) 0 @ drop k gs))
     else if ell \<noteq> None then None else Some gs)"

definition addr6_of_groups :: "nat list \<Rightarrow> string \<Rightarrow> addr" where
  "addr6_of_groups gs z =
     Addr6 (foldl (\<lambda>w g. push_bit 16 w OR ucast g) 0 (map word_of_nat gs :: 16 word list)) z"

definition parse6_body :: "string \<Rightarrow> nat list option" where
  "parse6_body s =
     (case s of
        c # d # s' \<Rightarrow>
          if c = CHR '':'' \<and> d = CHR '':'' then
            (if s' = [] then Some (replicate 8 0)
             else Option.bind (parse6_loop 8 s' [] (Some 0)) expand6)
          else Option.bind (parse6_loop 8 s [] None) expand6
      | _ \<Rightarrow> Option.bind (parse6_loop 8 s [] None) expand6)"

definition parse6 :: "string \<Rightarrow> addr option" where
  "parse6 s =
     (let body = takeWhile (\<lambda>c. c \<noteq> CHR ''%'') s; tail = dropWhile (\<lambda>c. c \<noteq> CHR ''%'') s in
      if tail = ''%'' then None
      else map_option (\<lambda>gs. addr6_of_groups gs (drop 1 tail)) (parse6_body body))"

text \<open>\<open>ParseAddr\<close> dispatches on the first dot, colon or percent sign.\<close>

fun addr_kind :: "string \<Rightarrow> char option" where
  "addr_kind [] = None"
| "addr_kind (c # s) =
     (if c = CHR ''.'' \<or> c = CHR '':'' \<or> c = CHR ''%'' then Some c else addr_kind s)"

definition ParseAddr :: "string \<Rightarrow> addr option" where
  "ParseAddr s =
     (case addr_kind s of
        None \<Rightarrow> None
      | Some c \<Rightarrow> if c = CHR ''.'' then parse4 s else if c = CHR '':'' then parse6 s else None)"

text \<open>\<open>ParsePrefix\<close>: the text before the last slash is an address, the text after it a length.\<close>

definition before_last_slash :: "string \<Rightarrow> string option" where
  "before_last_slash s =
     (case dropWhile (\<lambda>c. c \<noteq> CHR ''/'') (rev s) of [] \<Rightarrow> None | _ # r \<Rightarrow> Some (rev r))"

definition after_last_slash :: "string \<Rightarrow> string" where
  "after_last_slash s = rev (takeWhile (\<lambda>c. c \<noteq> CHR ''/'') (rev s))"

definition parse_bits :: "string \<Rightarrow> nat option" where
  "parse_bits s =
     (if s = [] \<or> \<not> list_all is_digit s \<or> (1 < length s \<and> hd s = CHR ''0'') then None
      else Some (decimal s))"

definition ParsePrefix :: "string \<Rightarrow> prefix option" where
  "ParsePrefix s =
     (case before_last_slash s of
        None \<Rightarrow> None
      | Some as \<Rightarrow>
          (case ParseAddr as of
             None \<Rightarrow> None
           | Some a \<Rightarrow>
               if hasZone a then None
               else (case parse_bits (after_last_slash s) of
                       None \<Rightarrow> None
                     | Some b \<Rightarrow>
                         if BitLen a < b then None else Some (PrefixFrom a (int b)))))"

section \<open>Words from chunks\<close>

lemma bit_chunks:
  fixes bs :: "'b::len word list"
  assumes "n < LENGTH('a::len)"
  shows "bit (foldl (\<lambda>(w :: 'a word) (b :: 'b word). push_bit LENGTH('b) w OR ucast b) 0 bs) n \<longleftrightarrow>
    n div LENGTH('b) < length bs \<and>
    bit (bs ! (length bs - Suc (n div LENGTH('b)))) (n mod LENGTH('b))"
  using assms
proof (induction bs arbitrary: n rule: rev_induct)
  case Nil
  then show ?case by simp
next
  case (snoc b bs)
  let ?c = "LENGTH('b)"
  show ?case
  proof (cases "n < ?c")
    case True
    with snoc.prems show ?thesis
      by (auto simp: bit_or_iff bit_push_bit_iff bit_ucast_iff nth_append)
  next
    case False
    then have d: "n div ?c = Suc ((n - ?c) div ?c)" and m: "n mod ?c = (n - ?c) mod ?c"
      by (simp_all add: le_div_geq le_mod_geq not_less)
    have "bit (ucast b :: 'a word) n = False"
      using False by (auto simp: bit_ucast_iff dest: bit_imp_le_length)
    with False snoc.prems snoc.IH [of "n - ?c"] show ?thesis
      by (auto simp: bit_or_iff bit_push_bit_iff d m nth_append)
  qed
qed

lemma foldl_chunks_eq:
  fixes w :: "'a::len word" and bs :: "'b::len word list"
  assumes "length bs * LENGTH('b) = LENGTH('a)"
    and "\<And>k. k < length bs \<Longrightarrow> bs ! k = ucast (drop_bit (LENGTH('a) - LENGTH('b) * Suc k) w)"
  shows "foldl (\<lambda>(w :: 'a word) (b :: 'b word). push_bit LENGTH('b) w OR ucast b) 0 bs = w"
proof (rule bit_word_eqI)
  fix n assume n: "n < LENGTH('a)"
  let ?c = "LENGTH('b)" and ?q = "n div LENGTH('b)"
  have q: "?q < length bs"
    using n assms(1) by (metis less_mult_imp_div_less)
  have "LENGTH('a) - ?c * Suc (length bs - Suc ?q) = ?c * ?q"
  proof -
    have "length bs = Suc ?q + (length bs - Suc ?q)" using q by simp
    then have "?c * length bs = ?c * ?q + ?c * Suc (length bs - Suc ?q)"
      by (metis add_Suc_right add_Suc_shift distrib_left)
    then show ?thesis using assms(1) by (simp add: mult.commute)
  qed
  then have "bit (bs ! (length bs - Suc ?q)) (n mod ?c) = bit w (?c * ?q + n mod ?c)"
    using q by (simp add: assms(2) bit_ucast_iff bit_drop_bit_eq)
  then show "bit (foldl (\<lambda>(w :: 'a word) (b :: 'b word). push_bit ?c w OR ucast b) 0 bs) n = bit w n"
    using n q by (simp add: bit_chunks)
qed

lemma AddrFrom4_As4 [simp]: "AddrFrom4 (As4 w) = Addr4 w"
proof -
  have "foldl (\<lambda>(w :: 32 word) (b :: 8 word). push_bit LENGTH(8) w OR ucast b) 0 (As4 w) = w"
    by (rule foldl_chunks_eq) (auto simp: As4_def v4_def)
  then show ?thesis by (simp add: AddrFrom4_def)
qed

lemma AddrFrom16_As16 [simp]: "AddrFrom16 (As16 w) = Addr6 w []"
proof -
  have "foldl (\<lambda>(w :: 128 word) (b :: 8 word). push_bit LENGTH(8) w OR ucast b) 0 (As16 w) = w"
    by (rule foldl_chunks_eq) (auto simp: As16_def v6_def)
  then show ?thesis by (simp add: AddrFrom16_def)
qed

lemma addr6_of_groups6 [simp]: "addr6_of_groups (groups6 w) z = Addr6 w z"
proof -
  have eq: "(map word_of_nat (groups6 w) :: 16 word list) = map (v6u16 w) [0..<8]"
    by (simp add: groups6_def)
  have "foldl (\<lambda>(w :: 128 word) (b :: 16 word). push_bit LENGTH(16) w OR ucast b) 0
      (map (v6u16 w) [0..<8]) = w"
    by (rule foldl_chunks_eq) (auto simp: v6u16_def)
  then show ?thesis unfolding addr6_of_groups_def eq by simp
qed

section \<open>The round trip of IPv4\<close>

lemma digit_value_less: "is_digit c \<Longrightarrow> digit_value c < 10"
  by (auto simp: is_digit_def digit_value_def)

lemma itoa_octet:
  assumes "n < 256"
  obtains "n < 10" "itoa n = [digit_char n]"
  | "10 \<le> n" "n < 100" "itoa n = [digit_char (n div 10), digit_char (n mod 10)]"
  | "100 \<le> n" "itoa n = [digit_char (n div 100), digit_char (n div 10 mod 10), digit_char (n mod 10)]"
proof -
  consider "n < 10" | "10 \<le> n" "n < 100" | "100 \<le> n" by linarith
  then show thesis
  proof cases
    case 1
    then show thesis using that(1) by (simp add: itoa.simps)
  next
    case 2
    then have "itoa n = [digit_char (n div 10), digit_char (n mod 10)]"
      by (simp add: itoa.simps [of n] itoa.simps [of "n div 10"])
    with 2 show thesis by (rule that(2))
  next
    case 3
    then have "itoa n = itoa (n div 10 div 10) @ [digit_char (n div 10 mod 10), digit_char (n mod 10)]"
      by (simp add: itoa.simps [of n] itoa.simps [of "n div 10"])
    also have "n div 10 div 10 = n div 100" by (simp add: div_mult2_eq [symmetric])
    also have "itoa (n div 100) = [digit_char (n div 100)]"
      using assms by (simp add: itoa.simps [of "n div 100"])
    finally show thesis using 3 that(3) by simp
  qed
qed

lemma parse4_loop_octet:
  assumes "n < 256"
  shows "parse4_loop (itoa n @ s) 0 0 os = parse4_loop s n (length (itoa n)) os"
  using assms
proof (cases rule: itoa_octet)
  case 1
  with assms show ?thesis by (simp add: Let_def)
next
  case 2
  then have "n div 10 < 10" "0 < n div 10" "n div 10 * 10 + n mod 10 = n" "\<not> 255 < n div 10" by auto
  with 2 assms show ?thesis by (simp add: Let_def)
next
  case 3
  have "n div 100 < 10" "0 < n div 100" using 3 assms by auto
  moreover have "n div 100 * 10 + n div 10 mod 10 = n div 10"
    using div_mult_mod_eq [of "n div 10" 10] by (simp add: div_mult2_eq [symmetric])
  moreover have "n div 10 * 10 + n mod 10 = n" "n div 10 \<le> 255" using assms by auto
  moreover have "0 < n div 10" using 3 by auto
  ultimately show ?thesis using 3 assms by (simp add: Let_def)
qed

lemma is_digit_dot [simp]: "\<not> is_digit CHR ''.''" "\<not> is_digit CHR ''/''" "\<not> is_digit CHR '':''"
  "\<not> is_digit CHR ''%''"
  by (simp_all add: is_digit_def byte_def)

lemma parse4_loop_dot:
  "s \<noteq> [] \<Longrightarrow> 0 < d \<Longrightarrow> length os \<noteq> 3 \<Longrightarrow>
    parse4_loop (CHR ''.'' # s) n d os = parse4_loop s 0 0 (os @ [n])"
  by simp

lemma parse4_fields_string4: "parse4_fields (string4 w) = Some (As4 w)"
proof -
  have lt: "unat (v4 w k) < 256" for k using unsigned_less [of "v4 w k"] by simp
  have s: "string4 w = itoa (unat (v4 w 0)) @ CHR ''.'' # itoa (unat (v4 w 1)) @ CHR ''.'' #
      itoa (unat (v4 w 2)) @ CHR ''.'' # itoa (unat (v4 w 3))"
    by (simp add: string4_def upt_rec numeral_eq_Suc)
  have last: "parse4_loop (itoa (unat (v4 w 3))) 0 0 os = parse4_loop [] (unat (v4 w 3)) l os"
    if "l = length (itoa (unat (v4 w 3)))" for l os
    using parse4_loop_octet [OF lt, of 3 "[]" os] that by simp
  have as: "As4 w = [v4 w 0, v4 w 1, v4 w 2, v4 w 3]"
    by (simp add: As4_def upt_rec numeral_eq_Suc)
  show ?thesis
    by (simp add: parse4_fields_def s parse4_loop_octet lt parse4_loop_dot last [OF refl] as
        del: parse4_loop.simps(2))
qed

lemma addr_kind_skip:
  "list_all (\<lambda>c. c \<noteq> CHR ''.'' \<and> c \<noteq> CHR '':'' \<and> c \<noteq> CHR ''%'') s \<Longrightarrow>
    addr_kind (s @ t) = addr_kind t"
  by (induction s) auto

lemma is_digit_not_kind:
  "is_digit c \<Longrightarrow> c \<noteq> CHR ''.'' \<and> c \<noteq> CHR '':'' \<and> c \<noteq> CHR ''%'' \<and> c \<noteq> CHR ''/''"
  by auto

lemma addr_kind_itoa: "addr_kind (itoa n @ t) = addr_kind t"
  by (rule addr_kind_skip) (use itoa_digits is_digit_not_kind in \<open>auto simp: list_all_iff\<close>)

lemma ParseAddr_string4: "ParseAddr (string4 w) = Some (Addr4 w)"
proof -
  have "addr_kind (string4 w) = Some CHR ''.''"
    by (simp add: string4_def upt_rec addr_kind_itoa)
  then show ?thesis by (simp add: ParseAddr_def parse4_def parse4_fields_string4)
qed

section \<open>The round trip of IPv6\<close>

lemma hex_char_props:
  assumes "d < 16"
  shows "is_hex (hex_char d)" and "hex_value (hex_char d) = d"
  using assms by (auto simp: is_hex_def hex_value_def hex_char_def is_digit_def)

lemma append_hex_props:
  assumes "x < 0x10000"
  shows "hexadecimal (append_hex x) = x" and "list_all is_hex (append_hex x)"
    and "append_hex x \<noteq> []" and "length (append_hex x) \<le> 4"
proof -
  have "x div 0x1000 < 16" using assms by auto
  then show "list_all is_hex (append_hex x)" by (auto simp: append_hex_def hex_char_props)
  show "append_hex x \<noteq> []" "length (append_hex x) \<le> 4" by (auto simp: append_hex_def)
  have x: "x = ((x div 0x1000 * 16 + x div 0x100 mod 16) * 16 + x div 0x10 mod 16) * 16 + x mod 16"
  proof -
    have "x div 0x1000 * 16 + x div 0x100 mod 16 = x div 0x100"
      using div_mult_mod_eq [of "x div 0x100" 16] by (simp add: div_mult2_eq [symmetric])
    moreover have "x div 0x100 * 16 + x div 0x10 mod 16 = x div 0x10"
      using div_mult_mod_eq [of "x div 0x10" 16] by (simp add: div_mult2_eq [symmetric])
    ultimately show ?thesis by simp
  qed
  have small: "x < 0x1000 \<Longrightarrow> x div 0x1000 = 0" "x < 0x100 \<Longrightarrow> x div 0x100 mod 16 = 0"
    "x < 0x10 \<Longrightarrow> x div 0x10 mod 16 = 0" by auto
  show "hexadecimal (append_hex x) = x"
    using \<open>x div 0x1000 < 16\<close> x small
    by (auto simp: append_hex_def hexadecimal_def hex_char_props not_le)
qed

lemma not_hex [simp]: "\<not> is_hex CHR '':''" "\<not> is_hex CHR ''.''" "\<not> is_hex CHR ''/''" "\<not> is_hex CHR ''%''"
  by (simp_all add: is_hex_def byte_def is_digit_def)

lemma takeWhile_hex:
  assumes "list_all is_hex ds"
  shows "takeWhile is_hex (ds @ CHR '':'' # s) = ds" "dropWhile is_hex (ds @ CHR '':'' # s) = CHR '':'' # s"
    "takeWhile is_hex ds = ds" "dropWhile is_hex ds = []"
  using assms by (auto simp: takeWhile_append2 dropWhile_append2 list_all_iff takeWhile_eq_all_conv)

definition groups_ok :: "nat list \<Rightarrow> bool" where
  "groups_ok gs \<longleftrightarrow> list_all (\<lambda>g. g < 0x10000) gs"

lemma groups_ok_simps [simp]:
  "groups_ok []" "groups_ok (g # gs) \<longleftrightarrow> g < 0x10000 \<and> groups_ok gs"
  by (simp_all add: groups_ok_def)

lemma Join_hex_hd:
  assumes "gs \<noteq> []" and "groups_ok gs"
  obtains c r where "Join (map append_hex gs) '':'' @ t = c # r" and "is_hex c"
proof -
  obtain g gs' where gs: "gs = g # gs'" using assms(1) by (cases gs) auto
  with assms(2) obtain c r where cr: "append_hex g = c # r" "is_hex c"
    using append_hex_props(2,3) [of g] by (cases "append_hex g") auto
  then show thesis using gs that by (cases gs') auto
qed

lemma is_hex_not_colon: "is_hex c \<Longrightarrow> c \<noteq> CHR '':''"
  by auto

lemma parse6_loop_groups:
  assumes "gs \<noteq> []" and "groups_ok gs" and "length gs \<le> n"
  shows "parse6_loop n (Join (map append_hex gs) '':'') acc ell = Some ([], acc @ gs, ell)"
  using assms
proof (induction gs arbitrary: n acc)
  case Nil
  then show ?case by simp
next
  case (Cons g gs)
  then obtain n' where n: "n = Suc n'" by (cases n) auto
  note h = append_hex_props [of g]
  show ?case
  proof (cases gs)
    case Nil
    with Cons.prems n h show ?thesis by (simp add: takeWhile_hex)
  next
    case (Cons g2 gs2)
    let ?t = "Join (map append_hex gs) '':''"
    obtain c r where cr: "?t = c # r" "is_hex c"
      using Join_hex_hd [of gs "[]"] Cons Cons.prems by auto
    have "parse6_loop n (append_hex g @ CHR '':'' # ?t) acc ell = parse6_loop n' ?t (acc @ [g]) ell"
      using Cons.prems n h cr is_hex_not_colon by (simp add: takeWhile_hex)
    moreover have "parse6_loop n' ?t (acc @ [g]) ell = Some ([], (acc @ [g]) @ gs, ell)"
      using Cons.prems n Cons by (intro Cons.IH) auto
    ultimately show ?thesis using Cons by simp
  qed
qed

lemma parse6_loop_ellipsis:
  assumes "gs \<noteq> []" and "groups_ok gs" and "length gs \<le> n"
  shows "parse6_loop n (Join (map append_hex gs) '':'' @ ''::'' @ t) acc None =
    (if t = [] then Some ([], acc @ gs, Some (length (acc @ gs)))
     else parse6_loop (n - length gs) t (acc @ gs) (Some (length (acc @ gs))))"
  using assms
proof (induction gs arbitrary: n acc)
  case Nil
  then show ?case by simp
next
  case (Cons g gs)
  then obtain n' where n: "n = Suc n'" by (cases n) auto
  note h = append_hex_props [of g]
  show ?case
  proof (cases gs)
    case Nil
    with Cons.prems n h show ?thesis by (simp add: takeWhile_hex)
  next
    case (Cons g2 gs2)
    let ?t = "Join (map append_hex gs) '':'' @ ''::'' @ t"
    obtain c r where cr: "?t = c # r" "is_hex c"
      using Join_hex_hd [of gs "''::'' @ t"] Cons Cons.prems by auto
    have "parse6_loop n (append_hex g @ CHR '':'' # ?t) acc None = parse6_loop n' ?t (acc @ [g]) None"
      using Cons.prems n h cr is_hex_not_colon by (simp add: takeWhile_hex)
    also have "\<dots> = (if t = [] then Some ([], (acc @ [g]) @ gs, Some (length ((acc @ [g]) @ gs)))
     else parse6_loop (n' - length gs) t ((acc @ [g]) @ gs) (Some (length ((acc @ [g]) @ gs))))"
      using Cons.prems n Cons by (intro Cons.IH) auto
    finally show ?thesis using Cons n by simp
  qed
qed

text \<open>What the scan for the zero run finds.\<close>

definition zero_span :: "nat list \<Rightarrow> nat \<times> nat \<Rightarrow> bool" where
  "zero_span gs z \<longleftrightarrow> (case z of (zs, ze) \<Rightarrow> z = (255, 255) \<or>
     zs + 2 \<le> ze \<and> ze \<le> length gs \<and> (\<forall>i. zs \<le> i \<and> i < ze \<longrightarrow> gs ! i = 0))"

lemma zero_run_at_zero:
  assumes "j < zero_run_at gs i"
  shows "i + j < length gs \<and> gs ! (i + j) = 0"
proof -
  let ?t = "takeWhile (\<lambda>g. g = 0) (drop i gs)"
  have j: "j < length ?t" using assms by (simp add: zero_run_at_def)
  then have "?t ! j = 0" using set_takeWhileD [of "?t ! j"] nth_mem by fastforce
  moreover have "?t ! j = drop i gs ! j" using j by (rule takeWhile_nth)
  moreover have "j < length (drop i gs)" using j length_takeWhile_le less_le_trans by blast
  ultimately show ?thesis by auto
qed

lemma zero_scan_span: "zero_span gs (zero_scan gs)"
proof -
  have "zero_span gs (foldl (\<lambda>(zs, ze) i. let l = zero_run_at gs i in
              if 2 \<le> l \<and> ze - zs < l then (i, i + l) else (zs, ze)) (255, 255) is)" for "is"
  proof (induction "is" rule: rev_induct)
    case Nil
    then show ?case by (simp add: zero_span_def)
  next
    case (snoc i "is")
    have "zero_span gs (i, i + zero_run_at gs i)" if "2 \<le> zero_run_at gs i"
    proof -
      have "i + (zero_run_at gs i - 1) < length gs"
        using zero_run_at_zero [of "zero_run_at gs i - 1" gs i] that by simp
      moreover have "gs ! k = 0" if "i \<le> k" "k < i + zero_run_at gs i" for k
        using zero_run_at_zero [of "k - i" gs i] that by simp
      ultimately show ?thesis using that by (auto simp: zero_span_def)
    qed
    with snoc show ?case
      by (simp add: Let_def case_prod_unfold)
  qed
  then show ?thesis by (simp add: zero_scan_def)
qed

lemma groups_ok_groups6 [simp]: "groups_ok (groups6 w)"
proof -
  have "unat (v6u16 w k) < 0x10000" for k using unsigned_less [of "v6u16 w k"] by simp
  then show ?thesis by (simp add: groups_ok_def groups6_def list_all_iff)
qed

lemma groups_ok_take_drop: "groups_ok gs \<Longrightarrow> groups_ok (take i gs) \<and> groups_ok (drop i gs)"
  by (auto simp: groups_ok_def list_all_iff dest: in_set_takeD in_set_dropD)

lemma expand6_zero_span:
  assumes "length gs = 8" and "zero_span gs (zs, ze)" and "zs \<noteq> 255"
  shows "expand6 ([], take zs gs @ drop ze gs, Some zs) = Some gs"
proof -
  have z: "zs + 2 \<le> ze" "ze \<le> 8" "\<And>i. zs \<le> i \<Longrightarrow> i < ze \<Longrightarrow> gs ! i = 0"
    using assms by (auto simp: zero_span_def)
  have "gs = take zs gs @ replicate (ze - zs) 0 @ drop ze gs"
    by (rule nth_equalityI) (use assms(1) z in \<open>auto simp: nth_append\<close>)
  moreover have "8 - (zs + (8 - ze)) = ze - zs" using z by simp
  ultimately show ?thesis using assms(1) z by (simp add: expand6_def)
qed

lemma Join_hex_nonempty: "gs \<noteq> [] \<Longrightarrow> groups_ok gs \<Longrightarrow> Join (map append_hex gs) '':'' \<noteq> []"
  using Join_hex_hd [of gs "[]"] by fastforce

lemma parse6_body_hex:
  assumes "s = c # r" and "is_hex c"
  shows "parse6_body s = Option.bind (parse6_loop 8 s [] None) expand6"
  using assms by (auto simp: parse6_body_def split: list.split)

lemma parse6_body_string6:
  assumes len: "length gs = 8" and ok: "groups_ok gs"
  shows "parse6_body (string6 gs) = Some gs"
proof -
  obtain zs ze where z: "zero_scan gs = (zs, ze)" by (cases "zero_scan gs")
  have span: "zero_span gs (zs, ze)" using zero_scan_span [of gs] z by simp
  show ?thesis
  proof (cases "zs = 255")
    case True
    let ?s = "Join (map append_hex gs) '':''"
    have ne: "gs \<noteq> []" using len by auto
    obtain c r where "?s = c # r" "is_hex c" using Join_hex_hd [OF ne ok, of "[]"] by auto
    then have "parse6_body ?s = Option.bind (parse6_loop 8 ?s [] None) expand6"
      by (rule parse6_body_hex)
    also have "\<dots> = Some gs"
      using parse6_loop_groups [OF ne ok, of 8 "[]" None] len by (simp add: expand6_def)
    finally show ?thesis using True z by (simp add: string6_def)
  next
    case False
    let ?pre = "take zs gs" and ?post = "drop ze gs"
    let ?t = "Join (map append_hex ?post) '':''"
    have zb: "zs + 2 \<le> ze" "ze \<le> 8" using span False len by (auto simp: zero_span_def)
    have okp: "groups_ok ?pre" "groups_ok ?post" using groups_ok_take_drop [OF ok] by auto
    have s: "string6 gs = Join (map append_hex ?pre) '':'' @ ''::'' @ ?t"
      using z False by (simp add: string6_def)
    have lens: "length ?pre = zs" "length ?post = 8 - ze" using len zb by auto
    note ex = expand6_zero_span [OF len span False]
    have t: "?t = [] \<longleftrightarrow> ?post = []"
      using Join_hex_nonempty [OF _ okp(2)] by (metis Join.simps(1) list.map_disc_iff)
    have post: "parse6_loop (8 - zs) ?t ?pre (Some zs) = Some ([], ?pre @ ?post, Some zs)" if "?post \<noteq> []"
      using parse6_loop_groups [OF that okp(2)] lens zb by simp
    show ?thesis
    proof (cases "zs = 0")
      case True
      then have "string6 gs = ''::'' @ ?t" using s by simp
      moreover have "parse6_body (''::'' @ ?t) = Some gs"
      proof (cases "?post = []")
        case True
        then have "ze = 8" using lens zb by simp
        then have "replicate 8 0 = gs"
          using span len \<open>zs = 0\<close> by (intro nth_equalityI) (auto simp: zero_span_def)
        with True show ?thesis by (simp add: parse6_body_def)
      next
        case ne: False
        with post \<open>zs = 0\<close> ex t show ?thesis by (simp add: parse6_body_def)
      qed
      ultimately show ?thesis by simp
    next
      case ne: False
      then have pre: "?pre \<noteq> []" using lens by auto
      obtain c r where "string6 gs = c # r" "is_hex c"
        using Join_hex_hd [OF pre okp(1)] s by metis
      then have "parse6_body (string6 gs) = Option.bind (parse6_loop 8 (string6 gs) [] None) expand6"
        by (rule parse6_body_hex)
      also have "parse6_loop 8 (string6 gs) [] None = Some ([], ?pre @ ?post, Some zs)"
        unfolding s using parse6_loop_ellipsis [OF pre okp(1), of 8 ?t "[]"] lens zb t post by auto
      finally show ?thesis using ex by simp
    qed
  qed
qed

section \<open>The round trip of prefixes\<close>

lemma set_Join: "set (Join ss sep) \<subseteq> (\<Union>s\<in>set ss. set s) \<union> set sep"
  by (induction ss sep rule: Join.induct) auto

lemma set_Join_append_hex:
  assumes "groups_ok gs"
  shows "\<forall>c\<in>set (Join (map append_hex gs) '':''). is_hex c \<or> c = CHR '':''"
proof -
  have "\<forall>g\<in>set gs. \<forall>c\<in>set (append_hex g). is_hex c"
    using assms append_hex_props(2) by (auto simp: groups_ok_def list_all_iff)
  then show ?thesis using set_Join [of "map append_hex gs" "'':''"] by fastforce
qed

lemma set_string6:
  assumes "groups_ok gs"
  shows "\<forall>c\<in>set (string6 gs). is_hex c \<or> c = CHR '':''"
  using set_Join_append_hex [OF assms] groups_ok_take_drop [OF assms]
    set_Join_append_hex [of "take _ gs"] set_Join_append_hex [of "drop _ gs"]
  by (fastforce simp: string6_def split: prod.splits if_splits)

lemma addr_kind_colon:
  "\<forall>c\<in>set s. is_hex c \<or> c = CHR '':'' \<Longrightarrow> CHR '':'' \<in> set s \<Longrightarrow> addr_kind s = Some CHR '':''"
  by (induction s) auto

lemma string6_has_colon:
  assumes "length gs = 8"
  shows "CHR '':'' \<in> set (string6 gs)"
proof -
  obtain g h gs' where "gs = g # h # gs'"
    using assms by (cases gs; cases "tl gs") auto
  then show ?thesis by (cases "zero_scan gs") (simp add: string6_def)
qed

lemma ParseAddr_string6: "ParseAddr (string6 (groups6 w)) = Some (Addr6 w [])"
proof -
  let ?s = "string6 (groups6 w)"
  have chars: "\<forall>c\<in>set ?s. is_hex c \<or> c = CHR '':''" by (rule set_string6) simp
  have len: "length (groups6 w) = 8" by (simp add: groups6_def)
  have kind: "addr_kind ?s = Some CHR '':''"
    by (rule addr_kind_colon [OF chars string6_has_colon [OF len]])
  have np: "\<forall>c\<in>set ?s. c \<noteq> CHR ''%''" using chars by auto
  then have "takeWhile (\<lambda>c. c \<noteq> CHR ''%'') ?s = ?s" "dropWhile (\<lambda>c. c \<noteq> CHR ''%'') ?s = []"
    by (simp_all add: takeWhile_eq_all_conv dropWhile_eq_Nil_conv)
  then have "parse6 ?s = Some (Addr6 w [])"
    unfolding parse6_def Let_def by (simp only:) (simp add: parse6_body_string6 [OF len])
  with kind show ?thesis by (simp add: ParseAddr_def)
qed

text \<open>The text of a plain address parses back to it.\<close>

lemma ParseAddr_String: "plain a \<Longrightarrow> ParseAddr (AddrString a) = Some a"
  by (cases a) (auto simp: plain_def ParseAddr_string4 ParseAddr_string6)

lemma unat_bytes:
  fixes w :: "'a::len word"
  assumes "k + 16 \<le> LENGTH('a)"
  shows "unat (ucast (drop_bit (k + 8) w) :: 8 word) * 256 + unat (ucast (drop_bit k w) :: 8 word) =
    unat (ucast (drop_bit k w) :: 16 word)"
proof -
  have u: "unat (ucast (drop_bit j w) :: 8 word) = unat w div 2 ^ j mod 256"
    "unat (ucast (drop_bit j w) :: 16 word) = unat w div 2 ^ j mod 65536" for j
    by (simp_all add: unsigned_ucast_eq unsigned_take_bit_eq unat_drop_bit_eq take_bit_eq_mod drop_bit_eq_div [where ?'a = nat])
  have "unat w div 2 ^ (k + 8) = unat w div 2 ^ k div 256" by (simp add: power_add div_mult2_eq)
  then show ?thesis using mod_mult2_eq [of "unat w div 2 ^ k" 256 256] by (simp add: u)
qed

lemma groups6_mapped:
  assumes "Is4In6 (Addr6 w z)"
  defines "u \<equiv> ucast w :: 32 word"
  shows "groups6 w = [0, 0, 0, 0, 0, 0xFFFF, unat (v4 u 0) * 256 + unat (v4 u 1), unat (v4 u 2) * 256 + unat (v4 u 3)]"
proof -
  have d: "drop_bit 32 w = 0xFFFF" using assms(1) by simp
  have hi: "v6u16 w k = ucast (drop_bit (80 - 16 * k) (drop_bit 32 w))" if "k < 6" for k
  proof -
    have "80 - 16 * k + 32 = 112 - 16 * k" using that by simp
    then show ?thesis by (simp add: v6u16_def)
  qed
  have "map (v6u16 w) [0, 1, 2, 3, 4, 5] = [0, 0, 0, 0, 0, 0xFFFF]"
    unfolding list.map using hi d by simp
  moreover have low: "(ucast (drop_bit 16 w) :: 16 word) = ucast (drop_bit 16 u)" "(ucast w :: 16 word) = ucast u"
    by (rule bit_word_eqI; simp add: u_def bit_ucast_iff bit_drop_bit_eq)+
  moreover have "unat (v6u16 w 6) = unat (v4 u 0) * 256 + unat (v4 u 1)"
    "unat (v6u16 w 7) = unat (v4 u 2) * 256 + unat (v4 u 3)"
    using unat_bytes [of 16 u] unat_bytes [of 0 u] low
    by (simp_all add: v6u16_def v4_def)
  moreover have "[0..<8] = [0, 1, 2, 3, 4, 5, 6, 7]" by (simp add: upt_rec)
  ultimately show ?thesis by (simp add: groups6_def)
qed

lemma ParseAddr_mapped:
  assumes "Is4In6 (Addr6 w z)"
  shows "ParseAddr (''::ffff:'' @ string4 (ucast w)) = Some (Addr6 w [])"
proof -
  let ?u = "ucast w :: 32 word" and ?s = "string4 (ucast w)"
  have chars: "\<forall>c\<in>set ?s. is_digit c \<or> c = CHR ''.''"
    using set_Join [of "map (\<lambda>k. itoa (unat (v4 ?u k))) [0..<4]" "''.''"] itoa_digits
    by (fastforce simp: string4_def)
  let ?d = "itoa (unat (v4 ?u 0))"
  obtain t where t: "?s = ?d @ CHR ''.'' # t" by (auto simp: string4_def upt_rec)
  have "unat (v4 ?u 0) < 256" using unsigned_less [of "v4 ?u 0"] by simp
  then have len: "length ?d \<le> 4" by (rule itoa_octet) auto
  have hex: "list_all is_hex ?d" using itoa_digits by (auto simp: list_all_iff is_hex_def)
  have tw: "takeWhile is_hex ?s = ?d" "dropWhile is_hex ?s = CHR ''.'' # t"
    using hex unfolding t by (simp_all add: takeWhile_append2 dropWhile_append2 list_all_iff)
  have "parse6_loop (Suc 6) ?s [0xFFFF] (Some 0) =
      Some ([], [0xFFFF, unat (v4 ?u 0) * 256 + unat (v4 ?u 1), unat (v4 ?u 2) * 256 + unat (v4 ?u 3)], Some 0)"
  proof -
    have "As4 ?u = [v4 ?u 0, v4 ?u 1, v4 ?u 2, v4 ?u 3]" by (simp add: As4_def upt_rec numeral_eq_Suc)
    then show ?thesis
      using tw len parse4_fields_string4 [of ?u]
      unfolding parse6_loop.simps(2) [of 6] Let_def by (simp del: parse6_loop.simps)
  qed
  moreover have "?s \<noteq> []" "hd ?s \<noteq> CHR '':''" using t itoa_digits [of "unat (v4 ?u 0)"] by (cases ?d; auto)+
  moreover have "takeWhile is_hex (''ffff:'' @ ?s) = ''ffff''" "dropWhile is_hex (''ffff:'' @ ?s) = '':'' @ ?s"
    "hexadecimal ''ffff'' = 0xFFFF"
    by (simp_all add: is_hex_def byte_def is_digit_def hexadecimal_def hex_value_def)
  ultimately have loop: "parse6_loop (Suc (Suc 6)) (''ffff:'' @ ?s) [] (Some 0) =
      Some ([], [0xFFFF, unat (v4 ?u 0) * 256 + unat (v4 ?u 1), unat (v4 ?u 2) * 256 + unat (v4 ?u 3)], Some 0)"
    unfolding parse6_loop.simps(2) [of "Suc 6"] Let_def
    by (cases ?s) (simp_all del: parse6_loop.simps)
  have eight: "Suc (Suc 6) = (8::nat)" and five: "replicate 5 0 = [0, 0, 0, 0, 0 :: nat]"
    by (simp_all add: eval_nat_numeral)
  have "parse6_body (''::ffff:'' @ ?s) = Option.bind (parse6_loop 8 (''ffff:'' @ ?s) [] (Some 0)) expand6"
    by (simp add: parse6_body_def del: parse6_loop.simps)
  then have body: "parse6_body (''::ffff:'' @ ?s) = Some (groups6 w)"
    unfolding loop [unfolded eight] by (simp add: expand6_def groups6_mapped [OF assms] five)
  have np: "\<forall>c\<in>set (''::ffff:'' @ ?s). c \<noteq> CHR ''%''" using chars by auto
  then have "takeWhile (\<lambda>c. c \<noteq> CHR ''%'') (''::ffff:'' @ ?s) = ''::ffff:'' @ ?s"
    "dropWhile (\<lambda>c. c \<noteq> CHR ''%'') (''::ffff:'' @ ?s) = []"
    by (simp_all only: takeWhile_eq_all_conv dropWhile_eq_Nil_conv)
  then have "parse6 (''::ffff:'' @ ?s) = Some (Addr6 w [])"
    unfolding parse6_def Let_def by (simp only: body) simp
  then show ?thesis by (simp add: ParseAddr_def)
qed

lemma last_slash_split:
  assumes "\<forall>c\<in>set t. c \<noteq> CHR ''/''"
  shows "before_last_slash (s @ ''/'' @ t) = Some s" "after_last_slash (s @ ''/'' @ t) = t"
proof -
  let ?P = "\<lambda>c. c \<noteq> CHR ''/''"
  have t: "\<And>c. c \<in> set (rev t) \<Longrightarrow> ?P c" using assms by simp
  have "dropWhile ?P (rev t @ CHR ''/'' # rev s) = CHR ''/'' # rev s"
    "takeWhile ?P (rev t @ CHR ''/'' # rev s) = rev t"
    using dropWhile_append2 [of "rev t" ?P] takeWhile_append2 [of "rev t" ?P] t by simp_all
  then show "before_last_slash (s @ ''/'' @ t) = Some s" "after_last_slash (s @ ''/'' @ t) = t"
    by (simp_all add: before_last_slash_def after_last_slash_def)
qed

lemma parse_bits_itoa [simp]: "parse_bits (itoa b) = Some b"
proof -
  have "\<not> (1 < length (itoa b) \<and> hd (itoa b) = CHR ''0'')"
    using itoa_hd [of b] by (cases "b = 0") (auto simp: itoa.simps [of 0])
  moreover have "list_all is_digit (itoa b)" using itoa_digits by (simp add: list_all_iff)
  ultimately show ?thesis by (simp add: parse_bits_def)
qed

lemma ParseAddr_valid: "ParseAddr s = Some a \<Longrightarrow> IsValid a"
  by (auto simp: ParseAddr_def parse4_def parse6_def AddrFrom4_def addr6_of_groups_def Let_def
      split: option.splits if_splits)

lemma ParsePrefix_ok:
  assumes "ParsePrefix s = Some p"
  shows "prefix_ok p" and "PrefixIsValid p"
proof -
  obtain a b where p: "p = PrefixFrom a (int b)" "b \<le> BitLen a" "IsValid a"
    using assms ParseAddr_valid by (fastforce simp: ParsePrefix_def split: option.splits if_splits)
  then show "prefix_ok p" by simp
  show "PrefixIsValid p" using p by (simp add: PrefixIsValid_def PrefixFrom_sel)
qed

lemma ParsePrefix_String_ok:
  assumes ok: "prefix_ok p" and v: "PrefixIsValid p"
  shows "ParsePrefix (PrefixString p) = Some p"
proof -
  obtain b where b: "bitsPlusOne p = Suc b" using v by (auto simp: PrefixIsValid_def gr0_conv_Suc)
  have z: "\<not> hasZone (ip p)" "IsValid (ip p)" "bitsPlusOne p \<le> Suc (BitLen (ip p))"
    using ok v by (simp_all add: prefix_ok_def)
  have addr: "ParseAddr (AddrString (ip p)) = Some (ip p)"
  proof (cases "Is4In6 (ip p)")
    case True
    then obtain w where "ip p = Addr6 w []" using z(1) by (cases "ip p") auto
    then show ?thesis using True ParseAddr_mapped [of w "[]"] by simp
  qed (use z ParseAddr_String in \<open>simp add: plain_def\<close>)
  have "\<forall>c\<in>set (itoa b). c \<noteq> CHR ''/''" using itoa_digits is_digit_not_kind by blast
  note sl = last_slash_split [OF this, of "AddrString (ip p)"]
  have "PrefixString p = AddrString (ip p) @ ''/'' @ itoa b"
    using v b by (simp add: PrefixString_def Bits_def)
  moreover have "PrefixFrom (ip p) (int b) = p"
    using b z by (cases "ip p") (auto simp: PrefixFrom_def)
  ultimately show ?thesis using sl addr z b by (simp add: ParsePrefix_def)
qed

lemma ParsePrefix_String: "canonical p \<Longrightarrow> ParsePrefix (PrefixString p) = Some p"
  by (rule ParsePrefix_String_ok) (simp_all add: canonical_ok canonical_def)

lemma PrefixString_inj_ok:
  "prefix_ok p \<Longrightarrow> PrefixIsValid p \<Longrightarrow> prefix_ok q \<Longrightarrow> PrefixIsValid q \<Longrightarrow>
    PrefixString p = PrefixString q \<Longrightarrow> p = q"
  by (metis ParsePrefix_String_ok option.inject)

lemma PrefixString_inj:
  "canonical p \<Longrightarrow> canonical q \<Longrightarrow> PrefixString p = PrefixString q \<Longrightarrow> p = q"
  by (metis ParsePrefix_String option.inject)

end
