(* ===== verification/ThreatValidate.thy ===== *)
theory ThreatValidate
  imports NetipText
begin

text \<open>
  \<open>internal/threatintel/validate.go\<close>: which feed tokens are accepted as threat indicators. The model
  has the reserved ranges, the token and prefix checks and the overlap test; the lemmas show that the
  overlap test decides whether two prefixes share an address, that an accepted prefix shares none
  with a reserved range, and what acceptance says about the addresses inside the prefix.
\<close>

section \<open>Definitions\<close>

definition protectedThreatRanges :: "prefix list" where
  "protectedThreatRanges = List.map_filter ParsePrefix
     [''100.64.0.0/10'', ''192.0.0.0/24'', ''192.0.2.0/24'', ''198.18.0.0/15'',
      ''198.51.100.0/24'', ''203.0.113.0/24'', ''240.0.0.0/4'', ''168.63.129.16/32'',
      ''2001:db8::/32'']"

definition is_threat_char :: "char \<Rightarrow> bool" where
  "is_threat_char c \<longleftrightarrow> is_digit c \<or> (97 \<le> byte c \<and> byte c \<le> 102) \<or> (65 \<le> byte c \<and> byte c \<le> 70)
     \<or> c = CHR ''.'' \<or> c = CHR '':'' \<or> c = CHR ''/''"

definition isThreatToken :: "string \<Rightarrow> bool" where
  "isThreatToken value = list_all is_threat_char value"

definition prefixesOverlap :: "prefix \<Rightarrow> prefix \<Rightarrow> bool" where
  "prefixesOverlap left right =
     (if \<not> PrefixIsValid left \<or> \<not> PrefixIsValid right then False
      else let leftAddress = Unmap (ip left); rightAddress = Unmap (ip right) in
           if Is4 leftAddress \<noteq> Is4 rightAddress then False
           else Contains left rightAddress \<or> Contains right leftAddress)"

definition public_unicast :: "addr \<Rightarrow> bool" where
  "public_unicast a \<longleftrightarrow> \<not> (\<not> IsGlobalUnicast a \<or> IsPrivate a \<or> IsLoopback a \<or>
     IsLinkLocalUnicast a \<or> IsMulticast a \<or> IsUnspecified a)"

definition validThreatPrefix :: "prefix \<Rightarrow> bool" where
  "validThreatPrefix prefix0 =
     (if \<not> PrefixIsValid prefix0 then False
      else let prefix = Masked prefix0;
               address = Unmap (ip prefix);
               bits = (if Is4In6 (ip prefix) then Bits prefix - 96 else Bits prefix) in
           if \<not> IsValid address \<or> \<not> public_unicast address then False
           else if (Is4 address \<and> bits < 8) \<or> (Is6 address \<and> bits < 16) then False
           else let canon = Masked (PrefixFrom address bits) in
                \<not> list_ex (prefixesOverlap canon) protectedThreatRanges)"

definition parseThreatToken :: "string \<Rightarrow> prefix outcome" where
  "parseThreatToken token0 =
     (let token = TrimSpace token0 in
      if length token < 3 \<or> 49 < length token \<or> \<not> isThreatToken token
      then Inl (Err ''threat token rejected'')
      else if CHR ''/'' \<in> set token then
        (case ParsePrefix token of
           None \<Rightarrow> Inl (Err ''threat prefix rejected'')
         | Some prefix \<Rightarrow>
             if \<not> validThreatPrefix prefix then Inl (Err ''threat prefix rejected'')
             else Inr (Masked prefix))
      else
        (case ParseAddr token of
           None \<Rightarrow> Inl (Err ''threat address rejected'')
         | Some address0 \<Rightarrow>
             let address = Unmap address0;
                 prefix = PrefixFrom address (int (BitLen address)) in
             if \<not> validThreatPrefix prefix then Inl (Err ''threat address rejected'')
             else Inr prefix))"

section \<open>The reserved ranges\<close>

text \<open>The nine literals parse, so \<open>MustParsePrefix\<close> does not panic.\<close>

lemma protectedThreatRanges_eq:
  "protectedThreatRanges =
    [\<lparr>ip = Addr4 0x64400000, bitsPlusOne = 11\<rparr>, \<lparr>ip = Addr4 0xC0000000, bitsPlusOne = 25\<rparr>,
     \<lparr>ip = Addr4 0xC0000200, bitsPlusOne = 25\<rparr>, \<lparr>ip = Addr4 0xC6120000, bitsPlusOne = 16\<rparr>,
     \<lparr>ip = Addr4 0xC6336400, bitsPlusOne = 25\<rparr>, \<lparr>ip = Addr4 0xCB007100, bitsPlusOne = 25\<rparr>,
     \<lparr>ip = Addr4 0xF0000000, bitsPlusOne = 5\<rparr>, \<lparr>ip = Addr4 0xA83F8110, bitsPlusOne = 33\<rparr>,
     \<lparr>ip = Addr6 0x20010DB8000000000000000000000000 [], bitsPlusOne = 33\<rparr>]"
  by code_simp

declare protectedThreatRanges_eq [code]

lemma canonical_fixI:
  assumes "prefix_ok p" and "PrefixIsValid p" and "Masked p = p" and "\<not> Is4In6 (ip p)"
  shows "canonical p"
  using canonical_Masked [OF assms(1,2)] assms(3,4) by simp

lemma protectedThreatRanges_canonical: "\<forall>r\<in>set protectedThreatRanges. canonical r"
proof -
  have "list_all (\<lambda>r. prefix_ok r \<and> PrefixIsValid r \<and> Masked r = r \<and> \<not> Is4In6 (ip r))
      protectedThreatRanges"
    unfolding protectedThreatRanges_eq by code_simp
  then show ?thesis by (auto simp: list_all_iff intro: canonical_fixI)
qed

section \<open>Overlap\<close>

lemma agree_refl [simp]: "agree a a m n"
  by (simp add: agree_def)

lemma agree_sym: "agree a b m n \<Longrightarrow> agree b a m n"
  by (simp add: agree_def)

lemma agree_trans: "agree a b m n \<Longrightarrow> agree b c m n \<Longrightarrow> agree a c m n"
  by (simp add: agree_def)

lemma agree_mono: "agree a b m n \<Longrightarrow> n' \<le> n \<Longrightarrow> agree a b m n'"
  by (simp add: agree_def)

lemma same_family_sym: "same_family a b \<Longrightarrow> same_family b a"
  by (cases a; cases b) (auto simp: same_family_def)

lemma same_family_trans: "same_family a b \<Longrightarrow> same_family b c \<Longrightarrow> same_family a c"
  by (auto simp: same_family_def)

lemma Contains_canonical:
  "canonical p \<Longrightarrow> Contains p a \<longleftrightarrow> same_family (ip p) a \<and> \<not> hasZone a \<and>
    agree (ip p) a 0 (bitsPlusOne p - 1)"
  using Contains_iff [OF canonical_ok] by (simp add: canonical_def)

lemma Contains_self: "canonical p \<Longrightarrow> Contains p (ip p)"
  by (simp add: Contains_canonical) (simp add: canonical_def plain_def same_family_def)

lemma Contains_nested:
  assumes p: "canonical p" and q: "canonical q" and a: "Contains p a" "Contains q a"
    and len: "bitsPlusOne p \<le> bitsPlusOne q"
  shows "Contains p (ip q)"
proof -
  have "agree (ip p) a 0 (bitsPlusOne p - 1)" "same_family (ip p) a"
    using a(1) p by (simp_all add: Contains_canonical)
  moreover have "agree (ip q) a 0 (bitsPlusOne q - 1)" "same_family (ip q) a"
    using a(2) q by (simp_all add: Contains_canonical)
  ultimately have "agree (ip p) (ip q) 0 (bitsPlusOne p - 1)" "same_family (ip p) (ip q)"
    using len agree_mono diff_le_mono agree_trans agree_sym same_family_trans same_family_sym by meson+
  moreover have "\<not> hasZone (ip q)" using q by (simp add: canonical_def plain_def)
  ultimately show ?thesis using p by (simp add: Contains_canonical)
qed

lemma Contains_Is4: "canonical p \<Longrightarrow> Contains p a \<Longrightarrow> Is4 (ip p) = Is4 a"
  by (simp add: Contains_canonical same_family_def flip: BitLen_cases)

text \<open>On canonical prefixes the overlap test decides whether they have an address in common.\<close>

lemma prefixesOverlap_iff:
  assumes p: "canonical p" and q: "canonical q"
  shows "prefixesOverlap p q \<longleftrightarrow> (\<exists>a. Contains p a \<and> Contains q a)"
proof
  assume "prefixesOverlap p q"
  then have "Contains p (ip q) \<or> Contains q (ip p)"
    using p q by (auto simp: prefixesOverlap_def Let_def canonical_def split: if_splits)
  then show "\<exists>a. Contains p a \<and> Contains q a" using Contains_self p q by blast
next
  assume "\<exists>a. Contains p a \<and> Contains q a"
  then obtain a where a: "Contains p a" "Contains q a" by blast
  then have "Contains p (ip q) \<or> Contains q (ip p)"
    using Contains_nested p q by (meson nle_le)
  moreover have "Is4 (ip p) = Is4 (ip q)" using a Contains_Is4 p q by blast
  ultimately show "prefixesOverlap p q"
    using p q by (auto simp: prefixesOverlap_def Let_def canonical_def)
qed

section \<open>Canonical form of an accepted prefix\<close>

text \<open>The prefix whose overlap with the reserved ranges is tested.\<close>

definition threat_canon :: "prefix \<Rightarrow> prefix" where
  "threat_canon p =
     (let m = Masked p in
      Masked (PrefixFrom (Unmap (ip m)) (if Is4In6 (ip m) then Bits m - 96 else Bits m)))"

lemma Is4In6_abit:
  "Is4In6 (Addr6 w z) \<longleftrightarrow> (\<forall>i<80. \<not> abit (Addr6 w z) i) \<and> (\<forall>i. 80 \<le> i \<and> i < 96 \<longrightarrow> abit (Addr6 w z) i)"
proof
  assume "Is4In6 (Addr6 w z)"
  then have "drop_bit 32 w = mask 16" by (simp add: mask_eq_exp_minus_1)
  then have *: "bit (drop_bit 32 w) n = bit (mask 16 :: 128 word) n" for n by (rule arg_cong)
  have b: "bit w (32 + n) \<longleftrightarrow> n < 16" if "n < 96" for n
    using * [of n] that
    by (simp only: bit_drop_bit_eq comp_apply bit_mask_iff possible_bit_word) simp
  have "bit w (127 - i) \<longleftrightarrow> 80 \<le> i" if "i < 96" for i
    using b [of "95 - i"] that by (simp add: diff_add_assoc) linarith
  then show "(\<forall>i<80. \<not> abit (Addr6 w z) i) \<and> (\<forall>i. 80 \<le> i \<and> i < 96 \<longrightarrow> abit (Addr6 w z) i)"
    by simp
next
  assume *: "(\<forall>i<80. \<not> abit (Addr6 w z) i) \<and> (\<forall>i. 80 \<le> i \<and> i < 96 \<longrightarrow> abit (Addr6 w z) i)"
  have "drop_bit 32 w = mask 16"
  proof (rule bit_word_eqI)
    fix n assume n: "n < LENGTH(128)"
    show "bit (drop_bit 32 w) n = bit (mask 16 :: 128 word) n"
    proof (cases "n < 96")
      case True
      then have "abit (Addr6 w z) (95 - n) = bit w (32 + n)" by (simp add: less_imp_diff_less)
      moreover have "abit (Addr6 w z) (95 - n) \<longleftrightarrow> n < 16"
      proof (cases "n < 16")
        case True
        then have "80 \<le> 95 - n" "95 - n < 96" by auto
        with * True show ?thesis by blast
      next
        case False
        then have "95 - n < 80" using \<open>n < 96\<close> by auto
        with * False show ?thesis by blast
      qed
      ultimately show ?thesis using True by (simp add: bit_drop_bit_eq bit_mask_iff)
    next
      case False
      then have "\<not> bit w (32 + n)" by (intro notI) (auto dest: bit_imp_le_length)
      with False show ?thesis by (simp add: bit_drop_bit_eq bit_mask_iff)
    qed
  qed
  then show "Is4In6 (Addr6 w z)" by (simp add: mask_eq_exp_minus_1)
qed

lemma not_Is4In6_cut:
  assumes "\<not> Is4In6 a" and "BitLen b = BitLen a" and "\<And>i. abit b i \<longleftrightarrow> abit a i \<and> i < k"
  shows "\<not> Is4In6 b"
proof (cases b)
  case (Addr6 w z)
  then obtain v y where a: "a = Addr6 v y" using assms(2) by (cases a) auto
  show ?thesis
  proof
    assume "Is4In6 b"
    then have b: "\<forall>i<80. \<not> abit b i" "\<forall>i. 80 \<le> i \<and> i < 96 \<longrightarrow> abit b i"
      unfolding Addr6 Is4In6_abit by blast+
    then have "abit b 95" by simp
    then have "95 < k" using assms(3) by blast
    then have "\<forall>i<80. \<not> abit a i" "\<forall>i. 80 \<le> i \<and> i < 96 \<longrightarrow> abit a i"
      using b assms(3) by auto
    then have "Is4In6 a" unfolding a Is4In6_abit by blast
    with assms(1) show False by simp
  qed
qed simp_all

lemma canonical_Masked_PrefixFrom:
  assumes "plain a" and "b \<le> BitLen a"
  shows "canonical (Masked (PrefixFrom a (int b)))" "bitsPlusOne (Masked (PrefixFrom a (int b))) = Suc b"
    "BitLen (ip (Masked (PrefixFrom a (int b)))) = BitLen a"
    "abit (ip (Masked (PrefixFrom a (int b)))) i \<longleftrightarrow> abit a i \<and> i < b"
proof -
  let ?p = "PrefixFrom a (int b)"
  have v: "IsValid a" "WithoutZone a = a" using assms(1) by (simp_all add: plain_def)
  have sel: "ip ?p = a" "bitsPlusOne ?p = Suc b" using PrefixFrom_sel [OF v(1) assms(2)] v by simp_all
  have pv: "PrefixIsValid ?p" using sel by (simp add: PrefixIsValid_def)
  note m = Masked_valid [OF PrefixFrom_ok pv]
  show "bitsPlusOne (Masked ?p) = Suc b" "BitLen (ip (Masked ?p)) = BitLen a"
    "abit (ip (Masked ?p)) i \<longleftrightarrow> abit a i \<and> i < b"
    using m(1,2) m(3) [of i] unfolding sel Suc_less_eq by this+
  have "\<not> Is4In6 (ip (Masked ?p))"
  proof (rule not_Is4In6_cut [of a _ b])
    show "\<not> Is4In6 a" using assms(1) by (simp add: plain_def)
    show "BitLen (ip (Masked ?p)) = BitLen a" using m(2) unfolding sel .
    show "abit (ip (Masked ?p)) i \<longleftrightarrow> abit a i \<and> i < b" for i using m(3) [of i] unfolding sel Suc_less_eq .
  qed
  then show "canonical (Masked ?p)" by (rule canonical_Masked [OF PrefixFrom_ok pv])
qed

lemma abit_Unmap: "Is4In6 a \<Longrightarrow> abit (Unmap a) i \<longleftrightarrow> i < 32 \<and> abit a (i + 96)"
  by (cases a) (auto simp: bit_ucast_iff)

lemma Masked_mapped_bits:
  assumes "prefix_ok p" and "PrefixIsValid p" and "Is4In6 (ip (Masked p))"
  shows "96 < bitsPlusOne p" and "bitsPlusOne p \<le> 129"
proof -
  note m = Masked_valid [OF assms(1,2)]
  obtain w z where w: "ip (Masked p) = Addr6 w z" using assms(3) by (cases "ip (Masked p)") auto
  have "abit (ip (Masked p)) 95" using assms(3) unfolding w Is4In6_abit by (simp del: abit.simps)
  then show "96 < bitsPlusOne p" using m(3) by simp
  show "bitsPlusOne p \<le> 129" using assms(1) m(2) w by (simp add: prefix_ok_def)
qed

text \<open>
  The tested prefix is canonical, its address is the address whose class was tested, and it has the
  addresses of the given prefix (of its IPv4 form, when the given one is IPv4-mapped).
\<close>

lemma threat_canon_props:
  assumes ok: "prefix_ok p" and v: "PrefixIsValid p"
  shows "canonical (threat_canon p)" and "ip (threat_canon p) = Unmap (ip (Masked p))"
    and "Bits (threat_canon p) = (if Is4In6 (ip (Masked p)) then Bits (Masked p) - 96 else Bits (Masked p))"
proof -
  let ?m = "Masked p" and ?a = "Unmap (ip (Masked p))"
  note m = Masked_valid [OF ok v]
  have valid: "IsValid (ip ?m)"
    using m(2) ok v by (cases "ip p"; cases "ip ?m") (auto simp: prefix_ok_def)
  have pl: "plain ?a" using valid m(4) by (simp add: plain_def)
  obtain b where b: "(if Is4In6 (ip ?m) then Bits ?m - 96 else Bits ?m) = int b" "b \<le> BitLen ?a"
    and clear: "\<And>i. b \<le> i \<Longrightarrow> \<not> abit ?a i"
  proof (cases "Is4In6 (ip ?m)")
    case True
    note mb = Masked_mapped_bits [OF ok v True]
    have "BitLen ?a = 32" using True by (cases "ip ?m") auto
    moreover have "\<not> abit ?a i" if "bitsPlusOne p - 97 \<le> i" for i
      using that mb by (auto simp: abit_Unmap True m(3))
    ultimately show thesis
      using mb True m(1) by (intro that [of "bitsPlusOne p - 97"]) (auto simp: Bits_def)
  next
    case False
    then have "Unmap (ip ?m) = ip ?m" by (cases "ip ?m") auto
    moreover have "\<not> abit (ip ?m) i" if "bitsPlusOne p - 1 \<le> i" for i
      using that by (simp add: m(3)) arith
    moreover have "bitsPlusOne p - 1 \<le> BitLen (ip ?m)" using ok m(2) by (auto simp: prefix_ok_def)
    ultimately show thesis
      using False m(1) v by (intro that [of "bitsPlusOne p - 1"]) (auto simp: Bits_def PrefixIsValid_def)
  qed
  have eq: "threat_canon p = Masked (PrefixFrom ?a (int b))"
    using b(1) by (simp add: threat_canon_def Let_def split: if_splits)
  note c = canonical_Masked_PrefixFrom [OF pl b(2)]
  show can: "canonical (threat_canon p)" using c(1) unfolding eq .
  have "ip (Masked (PrefixFrom ?a (int b))) = ?a"
  proof (rule plain_eqI)
    show "plain (ip (Masked (PrefixFrom ?a (int b))))" using c(1) by (simp add: canonical_def)
    show "abit (ip (Masked (PrefixFrom ?a (int b)))) i = abit ?a i" for i
      using c(4) [of i] clear [of i] by (cases "i < b") auto
  qed (use pl c(3) in auto)
  then show "ip (threat_canon p) = ?a" unfolding eq .
  show "Bits (threat_canon p) = (if Is4In6 (ip ?m) then Bits ?m - 96 else Bits ?m)"
    unfolding b(1) by (simp add: Bits_def eq c(2))
qed

text \<open>What acceptance says, in terms of the tested prefix.\<close>

lemma validThreatPrefix_canon:
  assumes "prefix_ok p" and "validThreatPrefix p"
  shows "PrefixIsValid p" and "canonical (threat_canon p)" and "public_unicast (ip (threat_canon p))"
    and "Is4 (ip (threat_canon p)) \<Longrightarrow> 8 \<le> Bits (threat_canon p)"
    and "Is6 (ip (threat_canon p)) \<Longrightarrow> 16 \<le> Bits (threat_canon p)"
    and "r \<in> set protectedThreatRanges \<Longrightarrow> \<not> prefixesOverlap (threat_canon p) r"
proof -
  show v: "PrefixIsValid p" using assms(2) by (simp add: validThreatPrefix_def split: if_splits)
  note t = threat_canon_props [OF assms(1) v]
  show "canonical (threat_canon p)" by (rule t(1))
  have valid: "public_unicast (ip (threat_canon p))"
    "\<not> (Is4 (ip (threat_canon p)) \<and> Bits (threat_canon p) < 8)"
    "\<not> (Is6 (ip (threat_canon p)) \<and> Bits (threat_canon p) < 16)"
    "\<not> list_ex (prefixesOverlap (threat_canon p)) protectedThreatRanges"
    using assms(2) v unfolding t(2,3) by (simp_all add: validThreatPrefix_def threat_canon_def Let_def
        split: if_splits)
  then show "public_unicast (ip (threat_canon p))"
    "Is4 (ip (threat_canon p)) \<Longrightarrow> 8 \<le> Bits (threat_canon p)"
    "Is6 (ip (threat_canon p)) \<Longrightarrow> 16 \<le> Bits (threat_canon p)"
    "r \<in> set protectedThreatRanges \<Longrightarrow> \<not> prefixesOverlap (threat_canon p) r"
    by (auto simp: list_ex_iff)
qed

section \<open>The addresses of an accepted prefix\<close>

lemma v4_agree:
  assumes "agree (Addr4 v) (Addr4 w) 0 n" and "8 * Suc k \<le> n" and "k < 4"
  shows "v4 v k = v4 w k"
proof (rule bit_word_eqI)
  fix j assume "j < LENGTH(8)"
  then have j: "j < 8" by simp
  have "abit (Addr4 v) (7 + 8 * k - j) = abit (Addr4 w) (7 + 8 * k - j)"
    using assms j by (auto simp: agree_def simp del: abit.simps)
  moreover have "31 - (7 + 8 * k - j) = 24 - 8 * k + j" "7 + 8 * k - j < 32" using j assms(3) by auto
  ultimately show "bit (v4 v k) j = bit (v4 w k) j"
    using j by (simp add: v4_def bit_ucast_iff bit_drop_bit_eq)
qed

lemma v6_agree:
  assumes "agree (Addr6 v y) (Addr6 w z) 0 n" and "16 \<le> n"
  shows "v6 v 0 = v6 w 0" and "v6u16 v 0 = v6u16 w 0"
proof -
  have *: "bit v (127 - i) = bit w (127 - i)" if "i < 16" for i
  proof -
    have "abit (Addr6 v y) i = abit (Addr6 w z) i"
      using assms that by (simp add: agree_def del: abit.simps)
    with that show ?thesis by simp
  qed
  show "v6 v 0 = v6 w 0"
  proof (rule bit_word_eqI)
    fix j assume "j < LENGTH(8)"
    with * [of "7 - j"] show "bit (v6 v 0) j = bit (v6 w 0) j"
      by (simp add: v6_def bit_ucast_iff bit_drop_bit_eq less_imp_diff_less)
  qed
  show "v6u16 v 0 = v6u16 w 0"
  proof (rule bit_word_eqI)
    fix j assume "j < LENGTH(16)"
    with * [of "15 - j"] show "bit (v6u16 v 0) j = bit (v6u16 w 0) j"
      by (simp add: v6u16_def bit_ucast_iff bit_drop_bit_eq less_imp_diff_less)
  qed
qed

lemma canonical_base_of:
  assumes c: "canonical p" and a: "Contains p a" "plain a"
    and clear: "\<And>i. bitsPlusOne p \<le> Suc i \<Longrightarrow> \<not> abit a i"
  shows "ip p = a"
proof (rule plain_eqI)
  show "plain (ip p)" "BitLen (ip p) = BitLen a"
    using c a by (auto simp: Contains_canonical same_family_def) (simp add: canonical_def)
  show "abit (ip p) i = abit a i" for i
    using c a clear by (cases "Suc i < bitsPlusOne p") (auto simp: Contains_canonical agree_def canonical_def)
qed (rule a(2))

lemma public_unicast_contained4:
  assumes c: "canonical p" and base: "public_unicast (ip p)" and a: "Contains p (Addr4 w)"
    and bits: "16 \<le> Bits p" and not_bcast: "w \<noteq> 0xFFFFFFFF"
  shows "public_unicast (Addr4 w)"
proof -
  obtain v where v: "ip p = Addr4 v"
    using Contains_Is4 [OF c a] by (cases "ip p") auto
  have ag: "agree (Addr4 v) (Addr4 w) 0 (bitsPlusOne p - 1)"
    using a c v by (simp add: Contains_canonical)
  have n: "16 \<le> bitsPlusOne p - 1" using bits by (simp add: Bits_def)
  have eq: "v4 v 0 = v4 w 0" "v4 v 1 = v4 w 1" using v4_agree [OF ag] n by auto
  have "w \<noteq> 0"
  proof
    assume "w = 0"
    then have "ip p = Addr4 0"
      using canonical_base_of [OF c a] by (simp add: plain_def)
    with base show False by (simp add: public_unicast_def IsUnspecified_def)
  qed
  with base eq not_bcast v show ?thesis
    by (simp add: public_unicast_def IsGlobalUnicast_def IsUnspecified_def private4_def linklocal4_def)
qed

lemma public_unicast_contained6:
  assumes c: "canonical p" and base: "public_unicast (ip p)" and a: "Contains p (Addr6 w [])"
    and pl: "plain (Addr6 w [])" and bits: "16 \<le> Bits p"
  shows "public_unicast (Addr6 w [])"
proof -
  have six: "Is6 (ip p)"
    using a c by (auto simp: Contains_canonical same_family_def BitLen_cases)
  then obtain v where v: "ip p = Addr6 v []"
    using c by (cases "ip p") (auto simp: canonical_def plain_def)
  have np: "\<not> Is4In6 (ip p)" "\<not> Is4In6 (Addr6 w [])" using c pl by (auto simp: canonical_def plain_def)
  have ag: "agree (Addr6 v []) (Addr6 w []) 0 (bitsPlusOne p - 1)"
    using a c v by (simp add: Contains_canonical)
  have n: "16 \<le> bitsPlusOne p - 1" using bits by (simp add: Bits_def)
  note eq = v6_agree [OF ag n]
  have b: "bitsPlusOne p \<le> 129" using c v by (simp add: canonical_def)
  have base': "v \<noteq> 0" "v \<noteq> 1" using base v by (auto simp: public_unicast_def IsUnspecified_def)
  have "w \<noteq> 0"
  proof
    assume "w = 0"
    then have "ip p = Addr6 0 []" using canonical_base_of [OF c a pl] by simp
    with base' v show False by simp
  qed
  moreover have "w \<noteq> 1"
  proof
    assume w: "w = 1"
    show False
    proof (cases "bitsPlusOne p = 129")
      case True
      then have "ip p = Addr6 1 []" using canonical_base_of [OF c a pl] w by simp
      with base' v show False by simp
    next
      case False
      have "ip p = Addr6 0 []"
      proof (rule plain_eqI)
        show "plain (ip p)" using c by (simp add: canonical_def)
        show "abit (ip p) i = abit (Addr6 0 []) i" for i
        proof (cases "Suc i < bitsPlusOne p")
          case True
          then have "abit (ip p) i = abit (Addr6 1 []) i" using ag v w by (simp add: agree_def)
          with True b False show ?thesis by (simp add: bit_1_iff)
        qed (use c in \<open>auto simp: canonical_def\<close>)
      qed (auto simp: plain_def v)
      with base' v show False by simp
    qed
  qed
  ultimately show ?thesis
    using base eq v np by (simp add: public_unicast_def IsGlobalUnicast_def IsUnspecified_def)
qed

section \<open>Properties\<close>

text \<open>
  An accepted threat prefix has no address in common with any
  of the reserved ranges (carrier-grade NAT, documentation, benchmarking, class E, the Azure wire
  server), and is at least /8 for IPv4 and /16 for IPv6.
\<close>

lemma validThreatPrefix_avoids_reserved:
  assumes "prefix_ok p" and "validThreatPrefix p" and "r \<in> set protectedThreatRanges"
  shows "\<not> (Contains (threat_canon p) a \<and> Contains r a) \<and>
    (if Is4 (ip (threat_canon p)) then 8 else 16) \<le> Bits (threat_canon p)"
proof
  note t = validThreatPrefix_canon [OF assms(1,2)]
  have "canonical r" using assms(3) protectedThreatRanges_canonical by blast
  then show "\<not> (Contains (threat_canon p) a \<and> Contains r a)"
    using t(6) [OF assms(3)] prefixesOverlap_iff [OF t(2)] by blast
  have "Is4 (ip (threat_canon p)) \<or> Is6 (ip (threat_canon p))"
    using t(2) by (cases "ip (threat_canon p)") (auto simp: canonical_def plain_def)
  then show "(if Is4 (ip (threat_canon p)) then 8 else 16) \<le> Bits (threat_canon p)"
    using t(4,5) by auto
qed

text \<open>
  Every address inside an accepted threat prefix is public unicast
  (not private, loopback, link-local, multicast, unspecified or broadcast), for IPv6 always and for
  IPv4 when the prefix is at least /16.
\<close>

lemma validThreatPrefix_public:
  assumes "prefix_ok p" and "validThreatPrefix p" and "16 \<le> Bits (threat_canon p)"
    and "plain a" and "Contains (threat_canon p) a"
  shows "public_unicast a"
proof (cases a)
  case (Addr4 w)
  note t = validThreatPrefix_canon [OF assms(1,2)]
  let ?r = "\<lparr>ip = Addr4 0xF0000000, bitsPlusOne = 5\<rparr>"
  have "?r \<in> set protectedThreatRanges" by (simp add: protectedThreatRanges_eq)
  then have "\<not> Contains ?r a"
    using prefixesOverlap_iff [OF t(2)] t(6) protectedThreatRanges_canonical assms(5) by blast
  then have "w \<noteq> 0xFFFFFFFF"
    using Addr4 by (auto simp: Contains_def PrefixIsValid_def Bits_def)
  then show ?thesis using public_unicast_contained4 [OF t(2,3)] assms Addr4 by simp
next
  case (Addr6 w z)
  note t = validThreatPrefix_canon [OF assms(1,2)]
  have "z = []" using assms(4) Addr6 by (simp add: plain_def)
  then show ?thesis using public_unicast_contained6 [OF t(2,3)] assms Addr6 by simp
qed (use assms in \<open>simp add: plain_def\<close>)

text \<open>
  Below /16 the check of the base address is not enough.
  172.0.0.0/8 is accepted as a threat prefix although it contains the private 172.16.0.0/12, and
  169.0.0.0/8 although it contains the link-local 169.254.0.0/16.
\<close>

lemma validThreatPrefix_accepts_private_space:
  "validThreatPrefix (PrefixFrom (Addr4 0xAC000000) 8) \<and>
   Contains (PrefixFrom (Addr4 0xAC000000) 8) (Addr4 0xAC100001) \<and> IsPrivate (Addr4 0xAC100001) \<and>
   validThreatPrefix (PrefixFrom (Addr4 0xA9000000) 8) \<and>
   Contains (PrefixFrom (Addr4 0xA9000000) 8) (Addr4 0xA9FE0001) \<and> IsLinkLocalUnicast (Addr4 0xA9FE0001)"
  unfolding validThreatPrefix_def protectedThreatRanges_eq by code_simp

end
