(* ===== verification/PrefixTrie.thy ===== *)
theory PrefixTrie
  imports ThreatValidate
begin

text \<open>
  The binary prefix trie of \<open>internal/threatintel/compiler.go\<close>: insertion, compaction of a list of
  prefixes and the splitting of a prefix. The Go nodes are pointers that are updated in place and
  never shared, so the model passes them as values; \<open>NilNode\<close> is the nil pointer.

  The specification is the set of addresses: \<open>covered ps a\<close> says that some prefix of the list
  contains \<open>a\<close>. Each operation of the trie is related to \<open>trie_has\<close>, the membership of an address
  in a trie. The last section shows that the tries built are the only reduced ones with their
  addresses.
\<close>

section \<open>Definitions\<close>

datatype prefixTrieNode = NilNode | TrieNode bool prefixTrieNode prefixTrieNode

fun terminal :: "prefixTrieNode \<Rightarrow> bool" where
  "terminal NilNode = False"
| "terminal (TrieNode t z n) = t"

fun zero_child :: "prefixTrieNode \<Rightarrow> prefixTrieNode" where
  "zero_child NilNode = NilNode"
| "zero_child (TrieNode t z n) = z"

fun one_child :: "prefixTrieNode \<Rightarrow> prefixTrieNode" where
  "one_child NilNode = NilNode"
| "one_child (TrieNode t z n) = n"

definition freshNode :: prefixTrieNode where
  "freshNode = TrieNode False NilNode NilNode"

record prefixTrie =
  root4 :: prefixTrieNode
  root6 :: prefixTrieNode

definition canonicalPrefix :: "prefix \<Rightarrow> prefix" where
  "canonicalPrefix prefix =
     (if \<not> PrefixIsValid prefix then PrefixZero
      else let address = Unmap (ip prefix);
               bits = (if Is4In6 (ip prefix) then Bits prefix - 96 else Bits prefix) in
           if bits < 0 \<or> int (BitLen address) < bits then PrefixZero
           else Masked (PrefixFrom address bits))"

definition addressBit :: "addr \<Rightarrow> nat \<Rightarrow> 8 word" where
  "addressBit address0 b =
     (let address = Unmap address0 in
      if BitLen address \<le> b then 0
      else case address of
          Addr4 w \<Rightarrow> drop_bit (7 - b mod 8) (As4 w ! (b div 8)) AND 1
        | Addr6 w z \<Rightarrow> drop_bit (7 - b mod 8) (As16 w ! (b div 8)) AND 1
        | AddrZero \<Rightarrow> 0)"

text \<open>
  Setting bit \<open>bits\<close> of the byte array indexes it at \<open>bits / 8\<close>, which panics when the prefix is
  already a single address. On an invalid prefix (\<open>Bits = -1\<close>) the shift count overflows to 8, the
  mask is 0 and the right half is the whole IPv6 space.
\<close>

definition splitPrefix :: "prefix \<Rightarrow> (prefix \<times> prefix) outcome" where
  "splitPrefix prefix0 =
     (let prefix = canonicalPrefix prefix0;
          bits = Bits prefix;
          left = Masked (PrefixFrom (ip prefix) (bits + 1)) in
      if bits < 0 then Inr (left, Masked (PrefixFrom (AddrFrom16 (As16 0)) (bits + 1)))
      else let k = nat bits div 8; m = push_bit (7 - nat bits mod 8) 1 in
        (case ip prefix of
           Addr4 w \<Rightarrow>
             if length (As4 w) \<le> k then Inl Panic
             else Inr (left, Masked (PrefixFrom (AddrFrom4 ((As4 w)[k := As4 w ! k OR m])) (bits + 1)))
         | Addr6 w z \<Rightarrow>
             if length (As16 w) \<le> k then Inl Panic
             else Inr (left, Masked (PrefixFrom (AddrFrom16 ((As16 w)[k := As16 w ! k OR m])) (bits + 1)))
         | AddrZero \<Rightarrow> Inr (left, PrefixZero)))"

text \<open>
  The recursion of \<open>insertPrefix\<close> ends when the depth reaches the length of the prefix. It starts at
  depth 0 with a valid prefix, so the depth never exceeds the length.
\<close>

function insertPrefix :: "prefixTrieNode \<Rightarrow> prefix \<Rightarrow> nat \<Rightarrow> prefixTrieNode" where
  "insertPrefix NilNode prefix depth = NilNode"
| "insertPrefix (TrieNode t z n) prefix depth =
     (if t then TrieNode t z n
      else if Bits prefix \<le> int depth then TrieNode True NilNode NilNode
      else let z' = (if addressBit (ip prefix) depth = 0
                     then insertPrefix (if z = NilNode then freshNode else z) prefix (Suc depth) else z);
               n' = (if addressBit (ip prefix) depth = 0 then n
                     else insertPrefix (if n = NilNode then freshNode else n) prefix (Suc depth)) in
           if z' \<noteq> NilNode \<and> n' \<noteq> NilNode \<and> terminal z' \<and> terminal n'
           then TrieNode True NilNode NilNode
           else TrieNode False z' n')"
  by pat_completeness auto
termination
  by (relation "measure (\<lambda>(node, prefix, depth). nat (Bits prefix - int depth))") auto

declare insertPrefix.simps(2) [simp del]

definition trie_step :: "prefixTrie \<Rightarrow> prefix \<Rightarrow> prefixTrie" where
  "trie_step trie raw =
     (let prefix = canonicalPrefix raw in
      if \<not> PrefixIsValid prefix then trie
      else if Is4 (ip prefix)
      then trie\<lparr>root4 := insertPrefix (if root4 trie = NilNode then freshNode else root4 trie) prefix 0\<rparr>
      else trie\<lparr>root6 := insertPrefix (if root6 trie = NilNode then freshNode else root6 trie) prefix 0\<rparr>)"

definition buildPrefixTrie :: "prefix list \<Rightarrow> prefixTrie" where
  "buildPrefixTrie prefixes = foldl trie_step \<lparr>root4 = NilNode, root6 = NilNode\<rparr> prefixes"

fun collectTriePrefixes :: "prefixTrieNode \<Rightarrow> prefix \<Rightarrow> prefix list outcome" where
  "collectTriePrefixes NilNode prefix = Inr []"
| "collectTriePrefixes (TrieNode t z n) prefix =
     (if t then Inr [canonicalPrefix prefix]
      else if int (BitLen (ip prefix)) \<le> Bits prefix then Inr []
      else bind_outcome (splitPrefix prefix) (\<lambda>(left, right).
           bind_outcome (collectTriePrefixes z left) (\<lambda>xs.
           bind_outcome (collectTriePrefixes n right) (\<lambda>ys. Inr (xs @ ys)))))"

definition all4 :: prefix where "all4 = PrefixFrom (Addr4 0) 0"
definition all6 :: prefix where "all6 = PrefixFrom (Addr6 0 []) 0"

definition compactPrefixUnion :: "prefix list \<Rightarrow> prefix list outcome" where
  "compactPrefixUnion prefixes =
     (let trie = buildPrefixTrie prefixes in
      bind_outcome (collectTriePrefixes (root4 trie) all4) (\<lambda>xs.
      bind_outcome (collectTriePrefixes (root6 trie) all6) (\<lambda>ys.
      Inr (sort_key PrefixString (xs @ ys)))))"

definition prefixStrings :: "prefix list \<Rightarrow> string list" where
  "prefixStrings prefixes =
     sort (map (\<lambda>p. PrefixString (canonicalPrefix p)) (filter PrefixIsValid prefixes))"

section \<open>Address sets\<close>

definition covered :: "prefix list \<Rightarrow> addr \<Rightarrow> bool" where
  "covered ps a \<longleftrightarrow> (\<exists>p\<in>set ps. Contains p a)"

lemma covered_simps [simp]:
  "covered [] a \<longleftrightarrow> False" "covered (p # ps) a \<longleftrightarrow> Contains p a \<or> covered ps a"
  "covered (ps @ qs) a \<longleftrightarrow> covered ps a \<or> covered qs a"
  by (auto simp: covered_def)

fun trie_has :: "prefixTrieNode \<Rightarrow> addr \<Rightarrow> nat \<Rightarrow> bool" where
  "trie_has NilNode a d = False"
| "trie_has (TrieNode t z n) a d =
     (t \<or> (if abit a d then trie_has n a (Suc d) else trie_has z a (Suc d)))"

text \<open>A trie of at most \<open>k\<close> levels below the root of which only leaves are terminal.\<close>

fun trie_ok :: "nat \<Rightarrow> prefixTrieNode \<Rightarrow> bool" where
  "trie_ok k NilNode = True"
| "trie_ok k (TrieNode t z n) = (if t then z = NilNode \<and> n = NilNode
     else (case k of 0 \<Rightarrow> False | Suc k' \<Rightarrow> trie_ok k' z \<and> trie_ok k' n))"

section \<open>Canonical prefixes\<close>

lemma canonicalPrefix_canonical [simp]:
  assumes "canonical p"
  shows "canonicalPrefix p = p"
proof -
  obtain b where b: "bitsPlusOne p = Suc b" "b \<le> BitLen (ip p)"
    using assms by (cases "bitsPlusOne p") (auto simp: canonical_def PrefixIsValid_def)
  have pl: "plain (ip p)" using assms by (simp add: canonical_def)
  have eq: "PrefixFrom (ip p) (int b) = p"
    using b pl by (auto simp: PrefixFrom_def plain_def)
  have "\<not> Is4In6 (ip p)" using pl by (simp add: plain_def)
  with assms b pl eq show ?thesis
    by (simp add: canonicalPrefix_def Let_def Bits_def) (simp add: canonical_def)
qed

text \<open>The canonical form is invalid or canonical.\<close>

lemma canonicalPrefix_cases:
  assumes "prefix_ok p"
  shows "canonicalPrefix p = PrefixZero \<or> canonical (canonicalPrefix p)"
proof (cases "canonicalPrefix p = PrefixZero")
  case False
  let ?a = "Unmap (ip p)" and ?b = "if Is4In6 (ip p) then Bits p - 96 else Bits p"
  have v: "PrefixIsValid p" and b: "0 \<le> ?b" "?b \<le> int (BitLen ?a)"
    and eq: "canonicalPrefix p = Masked (PrefixFrom ?a ?b)"
    using False by (auto simp: canonicalPrefix_def Let_def split: if_splits)
  have pl: "plain ?a" using assms v by (simp add: plain_def prefix_ok_def)
  have "canonical (Masked (PrefixFrom ?a (int (nat ?b))))"
    by (rule canonical_Masked_PrefixFrom [OF pl]) (use b in linarith)
  then show ?thesis using b eq by (simp split: if_splits)
qed simp

lemma canonicalPrefix_valid:
  "prefix_ok p \<Longrightarrow> PrefixIsValid (canonicalPrefix p) \<Longrightarrow> canonical (canonicalPrefix p)"
  using canonicalPrefix_cases [of p] by (auto simp: PrefixZero_def PrefixIsValid_def)

lemma Contains_PrefixZero [simp]: "\<not> Contains PrefixZero a"
  by (simp add: Contains_def PrefixZero_def PrefixIsValid_def)

text \<open>An unmapped prefix and its canonical form contain the same addresses.\<close>

lemma Contains_canonicalPrefix:
  assumes ok: "prefix_ok p" and "\<not> Is4In6 (ip p)"
  shows "Contains (canonicalPrefix p) a = Contains p a"
proof (cases "PrefixIsValid p")
  case True
  then obtain b where b: "bitsPlusOne p = Suc b" by (cases "bitsPlusOne p") (auto simp: PrefixIsValid_def)
  have "Unmap (ip p) = ip p" using assms(2) by (cases "ip p") auto
  moreover have "b \<le> BitLen (ip p)" "WithoutZone (ip p) = ip p" "IsValid (ip p)"
    using ok b True by (cases "ip p"; auto simp: prefix_ok_def)+
  moreover have "PrefixFrom (ip p) (int b) = p"
    using calculation b by (simp add: PrefixFrom_def)
  ultimately show ?thesis
    using True b assms(2) ok by (simp add: canonicalPrefix_def Let_def Bits_def)
qed (simp add: canonicalPrefix_def Contains_def PrefixZero_def PrefixIsValid_def)

lemma addressBit_abit:
  assumes "plain a"
  shows "addressBit a i = 0 \<longleftrightarrow> \<not> abit a i"
proof -
  have odd: "x AND 1 = 0 \<longleftrightarrow> \<not> bit x 0" for x :: "8 word"
    by (simp add: and_one_eq bit_0 mod2_eq_if)
  show ?thesis
  proof (cases "i < BitLen a")
    case lt: True
    have "Unmap a = a" using assms by simp
    show ?thesis
    proof (cases a)
      case (Addr4 w)
      have i: "24 - 8 * (i div 8) + (7 - i mod 8) = 31 - i" "i div 8 < 4" "7 - i mod 8 < 8"
        using lt Addr4 by auto
      with lt Addr4 show ?thesis
        by (simp add: addressBit_def odd bit_drop_bit_eq As4_def v4_def bit_ucast_iff i)
    next
      case (Addr6 w z)
      have i: "120 - 8 * (i div 8) + (7 - i mod 8) = 127 - i" "i div 8 < 16" "7 - i mod 8 < 8"
        using lt Addr6 by auto
      with lt Addr6 \<open>Unmap a = a\<close> show ?thesis
        by (simp add: addressBit_def odd bit_drop_bit_eq As16_def v6_def bit_ucast_iff i
            del: Unmap.simps)
    qed (use assms in \<open>simp add: plain_def\<close>)
  next
    case False
    then show ?thesis using assms abit_beyond [of a i] by (simp add: addressBit_def)
  qed
qed

section \<open>Splitting a prefix\<close>

lemma byte_position:
  fixes q r c t l :: nat
  assumes "r < 8" and "t < 8" and "q < l" and "c < l"
  shows "c = l - Suc q \<and> r = 7 - t \<longleftrightarrow> 8 * q + r = 8 * l - Suc (8 * c + t)"
proof
  assume "c = l - Suc q \<and> r = 7 - t"
  with assms have "c + q + 1 = l" "r + t = 7" by auto
  then show "8 * q + r = 8 * l - Suc (8 * c + t)" by linarith
next
  assume *: "8 * q + r = 8 * l - Suc (8 * c + t)"
  have "Suc (8 * c + t) \<le> 8 * l" using assms by linarith
  then have "8 * q + r + Suc (8 * c + t) = 8 * l" unfolding * by (rule le_add_diff_inverse2)
  then have "8 * (q + c) + (r + t + 1) = 8 * l" by simp
  moreover have "r + t + 1 < 16" using assms by linarith
  moreover have "x + y = 8 * m \<Longrightarrow> 0 < y \<Longrightarrow> y < 16 \<Longrightarrow> x = 8 * k \<Longrightarrow> m = k + 1" for x y m k :: nat
    by presburger
  ultimately have "l = q + c + 1" by auto
  moreover from this have "r + t + 1 = 8" using \<open>8 * (q + c) + (r + t + 1) = 8 * l\<close> by simp
  ultimately show "c = l - Suc q \<and> r = 7 - t" by linarith
qed

lemma bit_set_chunk:
  fixes bs :: "8 word list"
  assumes n: "n < LENGTH('a::len)" and len: "8 * length bs = LENGTH('a)" and b: "b < LENGTH('a)"
    and bits: "\<And>n. n < LENGTH('a) \<Longrightarrow> bit (bs ! (length bs - Suc (n div 8))) (n mod 8) = bit (w :: 'a word) n"
  shows "bit (foldl (\<lambda>(w :: 'a word) (b :: 8 word). push_bit 8 w OR ucast b) 0
      (bs[b div 8 := bs ! (b div 8) OR push_bit (7 - b mod 8) 1])) n \<longleftrightarrow>
    bit w n \<or> n = LENGTH('a) - Suc b"
proof -
  let ?bs = "bs[b div 8 := bs ! (b div 8) OR push_bit (7 - b mod 8) 1]"
  have q: "n div 8 < length bs" using n len by (simp add: less_mult_imp_div_less mult.commute)
  have "bit (foldl (\<lambda>(w :: 'a word) (b :: 8 word). push_bit 8 w OR ucast b) 0 ?bs) n \<longleftrightarrow>
      bit (?bs ! (length bs - Suc (n div 8))) (n mod 8)"
    using bit_chunks [OF n, of ?bs] q by simp
  also have "\<dots> \<longleftrightarrow> bit w n \<or> (b div 8 = length bs - Suc (n div 8) \<and> n mod 8 = 7 - b mod 8)"
  proof -
    have "b div 8 < length bs" using b len by (simp add: less_mult_imp_div_less mult.commute)
    then show ?thesis
      using bits [OF n] by (auto simp: nth_list_update bit_or_iff bit_exp_iff)
  qed
  also have "(b div 8 = length bs - Suc (n div 8) \<and> n mod 8 = 7 - b mod 8) \<longleftrightarrow> n = LENGTH('a) - Suc b"
    using byte_position [of "n mod 8" "b mod 8" "n div 8" "length bs" "b div 8"] q n b len
    by (simp add: less_mult_imp_div_less mult.commute)
  finally show ?thesis .
qed

definition set_abit :: "addr \<Rightarrow> nat \<Rightarrow> addr" where
  "set_abit a b = (case a of
     Addr4 w \<Rightarrow> AddrFrom4 ((As4 w)[b div 8 := As4 w ! (b div 8) OR push_bit (7 - b mod 8) 1])
   | Addr6 w z \<Rightarrow> AddrFrom16 ((As16 w)[b div 8 := As16 w ! (b div 8) OR push_bit (7 - b mod 8) 1])
   | AddrZero \<Rightarrow> AddrZero)"

lemma set_abit_props:
  assumes "plain a" and "b < BitLen a"
  shows "BitLen (set_abit a b) = BitLen a" and "\<not> hasZone (set_abit a b)"
    and "abit (set_abit a b) i \<longleftrightarrow> abit a i \<or> i = b"
proof -
  show "BitLen (set_abit a b) = BitLen a" "\<not> hasZone (set_abit a b)"
    by (cases a; simp add: set_abit_def AddrFrom4_def AddrFrom16_def)+
  show "abit (set_abit a b) i \<longleftrightarrow> abit a i \<or> i = b"
  proof (cases a)
    case (Addr4 w)
    let ?f = "foldl (\<lambda>(w :: 32 word) (b :: 8 word). push_bit 8 w OR ucast b) 0
      ((As4 w)[b div 8 := As4 w ! (b div 8) OR push_bit (7 - b mod 8) 1])"
    have c: "bit (As4 w ! (length (As4 w) - Suc (n div 8))) (n mod 8) = bit w n" if "n < LENGTH(32)" for n
    proof -
      have "n div 8 < 4" using that by simp
      moreover have "24 - 8 * (4 - Suc (n div 8)) = 8 * (n div 8)" using calculation by arith
      moreover have "8 * (n div 8) + n mod 8 = n" by simp
      ultimately have "n div 8 < 4" "24 - 8 * (4 - Suc (n div 8)) + n mod 8 = n" by simp_all
      then show ?thesis by (simp add: As4_def v4_def bit_ucast_iff bit_drop_bit_eq)
    qed
    have "bit ?f (31 - i) \<longleftrightarrow> bit w (31 - i) \<or> 31 - i = 31 - b" if "i < 32"
      using bit_set_chunk [of "31 - i" "As4 w" b w] c assms(2) Addr4 that by (simp add: As4_def)
    then show ?thesis using Addr4 assms(2) by (auto simp: set_abit_def AddrFrom4_def)
  next
    case (Addr6 w z)
    let ?f = "foldl (\<lambda>(w :: 128 word) (b :: 8 word). push_bit 8 w OR ucast b) 0
      ((As16 w)[b div 8 := As16 w ! (b div 8) OR push_bit (7 - b mod 8) 1])"
    have c: "bit (As16 w ! (length (As16 w) - Suc (n div 8))) (n mod 8) = bit w n" if "n < LENGTH(128)" for n
    proof -
      have "n div 8 < 16" using that by simp
      moreover have "120 - 8 * (16 - Suc (n div 8)) = 8 * (n div 8)" using calculation by arith
      moreover have "8 * (n div 8) + n mod 8 = n" by simp
      ultimately have "n div 8 < 16" "120 - 8 * (16 - Suc (n div 8)) + n mod 8 = n" by simp_all
      then show ?thesis by (simp add: As16_def v6_def bit_ucast_iff bit_drop_bit_eq)
    qed
    have "bit ?f (127 - i) \<longleftrightarrow> bit w (127 - i) \<or> 127 - i = 127 - b" if "i < 128"
      using bit_set_chunk [of "127 - i" "As16 w" b w] c assms(2) Addr6 that by (simp add: As16_def)
    then show ?thesis using Addr6 assms(2) by (auto simp: set_abit_def AddrFrom16_def)
  qed (use assms in \<open>simp add: plain_def\<close>)
qed

text \<open>
  The base of the IPv4-mapped range. Setting a bit of an IPv6 prefix stays plain except when it
  leads into that range, and then only with its last bit.
\<close>

definition mapped_base :: addr where
  "mapped_base = Addr6 0xFFFF00000000 []"

lemma mapped_base_abit:
  assumes "i < 96"
  shows "abit mapped_base i \<longleftrightarrow> 80 \<le> i"
proof -
  have "Is4In6 mapped_base" by (simp add: mapped_base_def)
  then have "\<forall>i<80. \<not> abit mapped_base i" "\<forall>i. 80 \<le> i \<and> i < 96 \<longrightarrow> abit mapped_base i"
    unfolding mapped_base_def Is4In6_abit by blast+
  with assms show ?thesis by (meson linorder_not_le)
qed

lemma Is4In6_agree: "Is4In6 a \<longleftrightarrow> Is6 a \<and> agree a mapped_base 0 96"
proof (cases a)
  case (Addr6 w z)
  have "agree a mapped_base 0 96 \<longleftrightarrow> (\<forall>i<96. abit a i \<longleftrightarrow> 80 \<le> i)"
    by (auto simp: agree_def mapped_base_abit)
  also have "\<dots> \<longleftrightarrow> (\<forall>i<80. \<not> abit a i) \<and> (\<forall>i. 80 \<le> i \<and> i < 96 \<longrightarrow> abit a i)"
  proof
    assume *: "(\<forall>i<80. \<not> abit a i) \<and> (\<forall>i. 80 \<le> i \<and> i < 96 \<longrightarrow> abit a i)"
    show "\<forall>i<96. abit a i \<longleftrightarrow> 80 \<le> i"
    proof (intro allI impI)
      fix i :: nat assume "i < 96"
      with * show "abit a i \<longleftrightarrow> 80 \<le> i" by (cases "i < 80") auto
    qed
  qed auto
  finally show ?thesis unfolding Addr6 Is4In6_abit by simp
qed auto

lemma splitPrefix_canonical:
  assumes c: "canonical p" and b: "bitsPlusOne p = Suc b" "b < BitLen (ip p)"
  obtains l r where "splitPrefix p = Inr (l, r)" "canonical l"
    "bitsPlusOne l = Suc (Suc b)" "BitLen (ip l) = BitLen (ip p)" "\<And>i. abit (ip l) i = abit (ip p) i"
    "prefix_ok r" "bitsPlusOne r = Suc (Suc b)" "BitLen (ip r) = BitLen (ip p)"
    "\<And>i. abit (ip r) i \<longleftrightarrow> abit (ip p) i \<or> i = b" "\<not> Is4In6 (ip r) \<Longrightarrow> canonical r"
proof -
  let ?a = "ip p" and ?s = "set_abit (ip p) b"
  let ?l = "Masked (PrefixFrom ?a (int (Suc b)))" and ?r = "Masked (PrefixFrom ?s (int (Suc b)))"
  have pl: "plain ?a" using c by (simp add: canonical_def)
  have bits: "Bits p = int b" using b by (simp add: Bits_def)
  have eq: "splitPrefix p = Inr (?l, ?r)"
    using c b bits pl
    by (cases "ip p") (auto simp: splitPrefix_def Let_def set_abit_def As4_def As16_def plain_def
        add.commute)
  have sb: "Suc b \<le> BitLen ?a" using b(2) by simp
  note l = canonical_Masked_PrefixFrom [OF pl sb]
  have clear: "i < b" if "abit ?a i" for i
  proof (rule ccontr)
    assume "\<not> i < b"
    then have "bitsPlusOne p \<le> Suc i" using b by simp
    with c that show False by (simp add: canonical_def)
  qed
  note s = set_abit_props [OF pl b(2)]
  have sv: "IsValid ?s" using s(1) pl by (cases "ip p"; cases ?s) (auto simp: plain_def)
  have "Suc b \<le> BitLen ?s" using s(1) sb by simp
  note r = PrefixFrom_sel [OF sv this]
  have rv: "PrefixIsValid (PrefixFrom ?s (int (Suc b)))" using r by (simp add: PrefixIsValid_def)
  note m = Masked_valid [OF PrefixFrom_ok rv, unfolded r]
  show thesis
  proof (rule that [OF eq l(1,2,3) _ Masked_ok m(1)])
    show "abit (ip ?l) i = abit ?a i" for i using l(4) [of i] clear [of i] by auto
    show "BitLen (ip ?r) = BitLen ?a" using m(2) s(1) by simp
    show "abit (ip ?r) i \<longleftrightarrow> abit ?a i \<or> i = b" for i
      using m(3) [of i] s(3) [of i] clear [of i] by auto
    show "canonical ?r" if "\<not> Is4In6 (ip ?r)" by (rule canonical_Masked [OF PrefixFrom_ok rv that])
  qed
qed

section \<open>The trie\<close>

text \<open>The path of an address in a trie ends above depth \<open>k\<close>.\<close>

fun stops :: "prefixTrieNode \<Rightarrow> addr \<Rightarrow> nat \<Rightarrow> nat \<Rightarrow> bool" where
  "stops NilNode a d k = True"
| "stops (TrieNode t z n) a d k =
     (d < k \<and> (t \<or> (if abit a d then stops n a (Suc d) k else stops z a (Suc d) k)))"

lemma agree_step: "d < b \<Longrightarrow> agree a c d b \<longleftrightarrow> abit a d = abit c d \<and> agree a c (Suc d) b"
  unfolding agree_def by (metis Suc_leD Suc_leI le_neq_implies_less order_refl)

lemma agree_empty [simp]: "b \<le> d \<Longrightarrow> agree a c d b"
  unfolding agree_def by (meson leD le_trans)

lemma agree_snoc: "agree a c 0 (Suc b) \<longleftrightarrow> agree a c 0 b \<and> abit a b = abit c b"
  unfolding agree_def by (metis less_Suc_eq zero_le)

definition orFresh :: "prefixTrieNode \<Rightarrow> prefixTrieNode" where
  "orFresh x = (if x = NilNode then freshNode else x)"

definition joinNodes :: "prefixTrieNode \<Rightarrow> prefixTrieNode \<Rightarrow> prefixTrieNode" where
  "joinNodes z n = (if terminal z \<and> terminal n then TrieNode True NilNode NilNode else TrieNode False z n)"

lemma terminal_has: "terminal x \<Longrightarrow> trie_has x a d"
  by (cases x) auto

lemma joinNodes_simps [simp]:
  "joinNodes z n \<noteq> NilNode"
  "trie_has (joinNodes z n) a d = (if abit a d then trie_has n a (Suc d) else trie_has z a (Suc d))"
  "trie_ok k z \<Longrightarrow> trie_ok k n \<Longrightarrow> trie_ok (Suc k) (joinNodes z n)"
  "d < k \<Longrightarrow> (if abit a d then stops n a (Suc d) k else stops z a (Suc d) k) \<Longrightarrow> stops (joinNodes z n) a d k"
  by (auto simp: joinNodes_def terminal_has)

lemma orFresh_simps [simp]:
  "orFresh x \<noteq> NilNode" "trie_has (orFresh x) a d = trie_has x a d"
  "trie_ok (Suc k) x \<Longrightarrow> trie_ok (Suc k) (orFresh x)"
  "d < k \<Longrightarrow> stops (orFresh x) a d k = stops x a d k"
  by (cases x; simp add: orFresh_def freshNode_def)+

lemma insertPrefix_step:
  assumes "plain (ip p)" and "bitsPlusOne p = Suc b" and "d < b"
  shows "insertPrefix (TrieNode False z n) p d =
    (if abit (ip p) d then joinNodes z (insertPrefix (orFresh n) p (Suc d))
     else joinNodes (insertPrefix (orFresh z) p (Suc d)) n)"
proof -
  have "\<not> Bits p \<le> int d" using assms by (simp add: Bits_def)
  moreover have "addressBit (ip p) d = 0 \<longleftrightarrow> \<not> abit (ip p) d" using addressBit_abit assms(1) by blast
  moreover have "x \<noteq> NilNode \<and> y \<noteq> NilNode \<and> terminal x \<and> terminal y \<longleftrightarrow> terminal x \<and> terminal y" for x y
    by auto
  ultimately show ?thesis
    by (simp add: insertPrefix.simps(2) Let_def joinNodes_def flip: orFresh_def)
qed

lemma insertPrefix_end:
  assumes "bitsPlusOne p = Suc b" and "node \<noteq> NilNode"
  shows "insertPrefix node p b = TrieNode True NilNode NilNode \<or> terminal node \<and> insertPrefix node p b = node"
  using assms by (cases node) (auto simp: insertPrefix.simps(2) Bits_def)

lemma insertPrefix_terminal: "terminal node \<Longrightarrow> insertPrefix node p d = node"
  by (cases node) (auto simp: insertPrefix.simps(2))

lemma insertPrefix_has:
  assumes "plain (ip p)" and "bitsPlusOne p = Suc b" and "d \<le> b" and "node \<noteq> NilNode"
  shows "insertPrefix node p d \<noteq> NilNode \<and>
    (trie_has (insertPrefix node p d) a d \<longleftrightarrow> trie_has node a d \<or> agree (ip p) a d b)"
  using assms(3,4)
proof (induction "b - d" arbitrary: node d)
  case 0
  then have "d = b" by simp
  with insertPrefix_end [OF assms(2) 0(3)] terminal_has show ?case by auto
next
  case (Suc k)
  obtain t z n where node: "node = TrieNode t z n" using Suc.prems by (cases node) auto
  show ?case
  proof (cases t)
    case True
    then show ?thesis using node by (simp add: insertPrefix_terminal)
  next
    case False
    have d: "d < b" using Suc.hyps(2) by simp
    have IH: "insertPrefix (orFresh x) p (Suc d) \<noteq> NilNode \<and>
        (trie_has (insertPrefix (orFresh x) p (Suc d)) a (Suc d) \<longleftrightarrow>
           trie_has x a (Suc d) \<or> agree (ip p) a (Suc d) b)" for x
      using Suc.hyps(1) [of "Suc d" "orFresh x"] Suc.hyps(2) d by simp
    show ?thesis
      using False node d IH insertPrefix_step [OF assms(1,2) d, of z n] by (auto simp: agree_step)
  qed
qed

lemma insertPrefix_ok:
  assumes "plain (ip p)" and "bitsPlusOne p = Suc b" and "d \<le> b" and "b \<le> N" and "node \<noteq> NilNode"
    and "trie_ok (N - d) node \<or> node = freshNode"
  shows "trie_ok (N - d) (insertPrefix node p d)"
  using assms(3,5,6)
proof (induction "b - d" arbitrary: node d)
  case 0
  then have "d = b" by simp
  with insertPrefix_end [OF assms(2) 0(3)] 0 show ?case by (auto simp: freshNode_def)
next
  case (Suc k)
  obtain t z n where node: "node = TrieNode t z n" using Suc.prems by (cases node) auto
  have d: "d < b" using Suc.hyps(2) by simp
  then have N: "N - d = Suc (N - Suc d)" using assms(4) by simp
  show ?case
  proof (cases t)
    case True
    then show ?thesis using node Suc.prems by (auto simp: insertPrefix_terminal freshNode_def)
  next
    case False
    have ok: "trie_ok (N - Suc d) z" "trie_ok (N - Suc d) n"
      using Suc.prems(3) False node N by (auto simp: freshNode_def)
    have IH: "trie_ok (N - Suc d) (insertPrefix (orFresh x) p (Suc d))" if "trie_ok (N - Suc d) x" for x
      using Suc.hyps(1) [of "Suc d" "orFresh x"] Suc.hyps(2) d that
      by (auto simp: orFresh_def freshNode_def)
    show ?thesis
      using False node d IH ok N insertPrefix_step [OF assms(1,2) d, of z n] by simp
  qed
qed

lemma insertPrefix_stops:
  assumes "plain (ip p)" and "bitsPlusOne p = Suc b" and "d \<le> b" and "node \<noteq> NilNode"
    and "stops node m d k" and "\<not> (agree (ip p) m d k \<and> k \<le> b)"
  shows "stops (insertPrefix node p d) m d k"
  using assms(3-6)
proof (induction "b - d" arbitrary: node d)
  case 0
  then have "d = b" by simp
  moreover have "d < k" using 0 by (cases node) auto
  ultimately show ?case using insertPrefix_end [OF assms(2) 0(3)] 0 by auto
next
  case (Suc j)
  obtain t z n where node: "node = TrieNode t z n" using Suc.prems by (cases node) auto
  have d: "d < b" and dk: "d < k" using Suc.hyps(2) Suc.prems node by auto
  show ?case
  proof (cases t)
    case True
    then show ?thesis using node Suc.prems by (simp add: insertPrefix_terminal)
  next
    case False
    have IH: "stops (insertPrefix (orFresh x) p (Suc d)) m (Suc d) k"
      if x: "stops x m (Suc d) k" and ag: "abit m d = abit (ip p) d" for x
    proof -
      have na: "\<not> (agree (ip p) m (Suc d) k \<and> k \<le> b)"
        using Suc.prems(4) ag dk by (simp add: agree_step)
      then have "Suc d < k" using d dk by (metis Suc_lessI agree_empty le_refl Suc_leI)
      with x na Suc.hyps d show ?thesis by simp
    qed
    show ?thesis
      using False node d dk IH Suc.prems(3) insertPrefix_step [OF assms(1,2) d, of z n] by simp
  qed
qed

section \<open>Building the trie\<close>

text \<open>
  The invariant of the two roots: depths bounded by the address lengths, and no node of the IPv6
  trie inside the IPv4-mapped range, because canonical prefixes are unmapped.
\<close>

definition prefixTrie_ok :: "prefixTrie \<Rightarrow> bool" where
  "prefixTrie_ok trie \<longleftrightarrow> trie_ok 32 (root4 trie) \<and> trie_ok 128 (root6 trie) \<and>
     stops (root6 trie) mapped_base 0 96"

definition prefixTrie_has :: "prefixTrie \<Rightarrow> addr \<Rightarrow> bool" where
  "prefixTrie_has trie a \<longleftrightarrow> IsValid a \<and> \<not> hasZone a \<and>
     trie_has (if Is4 a then root4 trie else root6 trie) a 0"

lemma canonical_not_mapped:
  assumes "canonical p" and "bitsPlusOne p = Suc b" and "Is6 (ip p)"
  shows "\<not> (agree (ip p) mapped_base 0 96 \<and> 96 \<le> b)"
  using assms Is4In6_agree by (auto simp: canonical_def plain_def)

lemma trie_step_spec:
  assumes ok: "prefixTrie_ok trie" and p: "prefix_ok p"
  shows "prefixTrie_ok (trie_step trie p)"
    and "prefixTrie_has (trie_step trie p) a \<longleftrightarrow>
      prefixTrie_has trie a \<or> Contains (canonicalPrefix p) a"
proof -
  let ?c = "canonicalPrefix p"
  have "prefixTrie_ok (trie_step trie p) \<and> (prefixTrie_has (trie_step trie p) a \<longleftrightarrow>
      prefixTrie_has trie a \<or> Contains ?c a)"
  proof (cases "PrefixIsValid ?c")
    case False
    then show ?thesis using ok by (simp add: trie_step_def Let_def Contains_def)
  next
    case True
    then have c: "canonical ?c" using canonicalPrefix_valid p by blast
    then have pl: "plain (ip ?c)" by (simp add: canonical_def)
    obtain b where b: "bitsPlusOne ?c = Suc b" "b \<le> BitLen (ip ?c)"
      using c by (cases "bitsPlusOne ?c") (auto simp: canonical_def PrefixIsValid_def)
    have cont: "Contains ?c a \<longleftrightarrow> same_family (ip ?c) a \<and> \<not> hasZone a \<and> agree (ip ?c) a 0 b"
      using c b by (simp add: Contains_canonical)
    have has: "trie_has (insertPrefix (orFresh x) ?c 0) a 0 \<longleftrightarrow> trie_has x a 0 \<or> agree (ip ?c) a 0 b" for x
      using insertPrefix_has [OF pl b(1)] by simp
    show ?thesis
    proof (cases "Is4 (ip ?c)")
      case four: True
      then have len: "BitLen (ip ?c) = 32" by (simp add: BitLen_cases)
      have "trie_ok 32 (insertPrefix (orFresh (root4 trie)) ?c 0)"
        using insertPrefix_ok [OF pl b(1), of 0 32 "orFresh (root4 trie)"] b(2) len ok
        by (cases "root4 trie") (auto simp: prefixTrie_ok_def orFresh_def freshNode_def)
      moreover have "same_family (ip ?c) a \<longleftrightarrow> Is4 a"
        using len pl by (auto simp: same_family_def plain_def simp flip: BitLen_cases)
      ultimately show ?thesis
        using True four ok has cont
        by (cases a) (auto simp: trie_step_def Let_def prefixTrie_ok_def prefixTrie_has_def simp flip: orFresh_def)
    next
      case False
      then have six: "Is6 (ip ?c)" using pl by (cases "ip ?c") (auto simp: plain_def)
      then have len: "BitLen (ip ?c) = 128" by (simp add: BitLen_cases)
      have "trie_ok 128 (insertPrefix (orFresh (root6 trie)) ?c 0)"
        using insertPrefix_ok [OF pl b(1), of 0 128 "orFresh (root6 trie)"] b(2) len ok
        by (cases "root6 trie") (auto simp: prefixTrie_ok_def orFresh_def freshNode_def)
      moreover have "stops (insertPrefix (orFresh (root6 trie)) ?c 0) mapped_base 0 96"
        using insertPrefix_stops [OF pl b(1), of 0 "orFresh (root6 trie)"] ok
          canonical_not_mapped [OF c b(1) six] by (simp add: prefixTrie_ok_def)
      moreover have "same_family (ip ?c) a \<longleftrightarrow> Is6 a"
        using len pl by (auto simp: same_family_def plain_def simp flip: BitLen_cases)
      ultimately show ?thesis
        using True False ok has cont
        by (cases a) (auto simp: trie_step_def Let_def prefixTrie_ok_def prefixTrie_has_def simp flip: orFresh_def)
    qed
  qed
  then show "prefixTrie_ok (trie_step trie p)"
    "prefixTrie_has (trie_step trie p) a \<longleftrightarrow> prefixTrie_has trie a \<or> Contains ?c a" by blast+
qed

text \<open>
  What a set of addresses built from prefixes promises: \<open>mem\<close> is its abstraction, \<open>ok\<close> its invariant.
  The folds of \<open>buildPrefixTrie\<close> need nothing else.
\<close>

locale prefix_set =
  fixes ok :: "'t \<Rightarrow> bool" and mem :: "'t \<Rightarrow> addr \<Rightarrow> bool" and empty :: 't
    and insert :: "'t \<Rightarrow> prefix \<Rightarrow> 't"
  assumes ok_empty: "ok empty"
    and mem_empty: "\<not> mem empty a"
    and ok_insert: "ok t \<Longrightarrow> prefix_ok p \<Longrightarrow> ok (insert t p)"
    and mem_insert: "ok t \<Longrightarrow> prefix_ok p \<Longrightarrow> mem (insert t p) a \<longleftrightarrow> mem t a \<or> Contains (canonicalPrefix p) a"
begin

lemma foldl_insert:
  assumes "ok t" and "\<forall>p\<in>set ps. prefix_ok p"
  shows "ok (foldl insert t ps)"
    and "mem (foldl insert t ps) a \<longleftrightarrow> mem t a \<or> (\<exists>p\<in>set ps. Contains (canonicalPrefix p) a)"
proof -
  have "ok (foldl insert t ps) \<and>
      (mem (foldl insert t ps) a \<longleftrightarrow> mem t a \<or> (\<exists>p\<in>set ps. Contains (canonicalPrefix p) a))"
    using assms
  proof (induction ps arbitrary: t)
    case (Cons p ps)
    then have "prefix_ok p" by simp
    with Cons.prems(1) have "ok (insert t p)" "mem (insert t p) a \<longleftrightarrow> mem t a \<or> Contains (canonicalPrefix p) a"
      using ok_insert mem_insert by blast+
    then show ?case using Cons.IH [of "insert t p"] Cons.prems(2) by auto
  qed simp
  then show "ok (foldl insert t ps)"
    "mem (foldl insert t ps) a \<longleftrightarrow> mem t a \<or> (\<exists>p\<in>set ps. Contains (canonicalPrefix p) a)" by blast+
qed

lemma mem_build:
  assumes "\<forall>p\<in>set ps. prefix_ok p"
  shows "mem (foldl insert empty ps) a \<longleftrightarrow> (\<exists>p\<in>set ps. Contains (canonicalPrefix p) a)"
  using foldl_insert(2) [OF ok_empty assms] mem_empty by simp

end

interpretation trie: prefix_set prefixTrie_ok prefixTrie_has "\<lparr>root4 = NilNode, root6 = NilNode\<rparr>" trie_step
  by unfold_locales (simp_all add: prefixTrie_ok_def prefixTrie_has_def trie_step_spec [unfolded prefixTrie_has_def prefixTrie_ok_def])

lemma buildPrefixTrie_spec:
  assumes "\<forall>p\<in>set ps. prefix_ok p"
  shows "prefixTrie_ok (buildPrefixTrie ps)"
    and "prefixTrie_has (buildPrefixTrie ps) a \<longleftrightarrow> (\<exists>p\<in>set ps. Contains (canonicalPrefix p) a)"
  using trie.foldl_insert(1) [OF trie.ok_empty assms] trie.mem_build [OF assms]
  by (simp_all add: buildPrefixTrie_def)

section \<open>Reading the trie back\<close>

definition disjoint_prefixes :: "prefix list \<Rightarrow> bool" where
  "disjoint_prefixes ps \<longleftrightarrow> distinct ps \<and>
     (\<forall>p\<in>set ps. \<forall>q\<in>set ps. p \<noteq> q \<longrightarrow> \<not> (\<exists>a. Contains p a \<and> Contains q a))"

lemma disjoint_prefixes_append:
  assumes "disjoint_prefixes ps" and "disjoint_prefixes qs" and "\<forall>p\<in>set ps \<union> set qs. canonical p"
    and "\<And>a. \<not> (covered ps a \<and> covered qs a)"
  shows "disjoint_prefixes (ps @ qs)"
proof -
  have sep: "\<not> (Contains p a \<and> Contains q a)" if "p \<in> set ps" "q \<in> set qs" for p q a
    using assms(4) [of a] that by (auto simp: covered_def)
  then have "set ps \<inter> set qs = {}"
    using Contains_self assms(3) by (meson UnI1 disjoint_iff)
  with assms(1,2) sep show ?thesis unfolding disjoint_prefixes_def distinct_append set_append
    by (metis UnE)
qed

lemma split_contains:
  assumes p: "canonical p" "bitsPlusOne p = Suc b" and q: "prefix_ok q" "bitsPlusOne q = Suc (Suc b)"
    "BitLen (ip q) = BitLen (ip p)" "\<And>i. i < b \<Longrightarrow> abit (ip q) i = abit (ip p) i"
  shows "Contains q a \<longleftrightarrow> Contains p a \<and> abit a b = abit (ip q) b"
proof -
  have "agree (ip q) a 0 b \<longleftrightarrow> agree (ip p) a 0 b" using q(4) by (simp add: agree_def)
  moreover have "PrefixIsValid q" using q(2) by (simp add: PrefixIsValid_def)
  moreover have "same_family (ip q) a \<longleftrightarrow> same_family (ip p) a"
    using q(3) by (cases "ip q"; cases "ip p") (auto simp: same_family_def)
  ultimately show ?thesis
    using p q by (auto simp: Contains_iff canonical_ok agree_snoc canonical_def)
qed

lemma mapped_right_half:
  assumes p: "canonical p" and b: "bitsPlusOne p = Suc b" "b < BitLen (ip p)"
    and r: "BitLen (ip r) = BitLen (ip p)" "\<And>i. abit (ip r) i \<longleftrightarrow> abit (ip p) i \<or> i = b"
    and m: "Is4In6 (ip r)"
  shows "Is6 (ip p)" "b = 95" "agree (ip p) mapped_base 0 b" "abit mapped_base b"
proof -
  have clear: "i < b" if "abit (ip p) i" for i
  proof (rule ccontr)
    assume "\<not> i < b"
    then have "bitsPlusOne p \<le> Suc i" using b by simp
    with p that show False by (simp add: canonical_def)
  qed
  show six: "Is6 (ip p)" using m r(1) by (cases "ip r"; cases "ip p") auto
  have ag: "agree (ip r) mapped_base 0 96" using m Is4In6_agree by blast
  then have set: "abit (ip r) i \<longleftrightarrow> 80 \<le> i" if "i < 96" for i
    using that by (simp add: agree_def mapped_base_abit)
  have "\<not> agree (ip p) mapped_base 0 96"
    using p six Is4In6_agree by (auto simp: canonical_def plain_def)
  then obtain i where "i < 96" "abit (ip p) i \<noteq> abit mapped_base i" by (auto simp: agree_def)
  then have "i = b" using ag r(2) by (auto simp: agree_def)
  then have "b < 96" using \<open>i < 96\<close> by simp
  moreover have "\<not> b < 95" using set [of 95] r(2) clear [of 95] by auto
  ultimately show b95: "b = 95" by simp
  have "abit (ip p) i = abit mapped_base i" if "i < b" for i
    using set [of i] r(2) [of i] that b95 mapped_base_abit [of i] by simp
  then show "agree (ip p) mapped_base 0 b" by (simp add: agree_def)
  show "abit mapped_base b" using b95 by (simp add: mapped_base_abit)
qed

definition compact_result :: "prefix \<Rightarrow> (addr \<Rightarrow> bool) \<Rightarrow> prefix list \<Rightarrow> bool" where
  "compact_result p P ps \<longleftrightarrow> (\<forall>q\<in>set ps. canonical q \<and> BitLen (ip q) = BitLen (ip p)) \<and>
     (\<forall>a. covered ps a \<longleftrightarrow> Contains p a \<and> P a) \<and> disjoint_prefixes ps"

lemma compact_result_split:
  assumes p: "canonical p" "bitsPlusOne p = Suc b"
    and l: "BitLen (ip l) = BitLen (ip p)" "\<And>a. Contains l a \<longleftrightarrow> Contains p a \<and> \<not> abit a b"
    and r: "BitLen (ip r) = BitLen (ip p)" "\<And>a. Contains r a \<longleftrightarrow> Contains p a \<and> abit a b"
    and "compact_result l P xs" and "compact_result r Q ys"
  shows "compact_result p (\<lambda>a. if abit a b then Q a else P a) (xs @ ys)"
  using assms disjoint_prefixes_append [of xs ys] unfolding compact_result_def by auto

lemma compact_result_single: "canonical p \<Longrightarrow> (\<And>a. P a) \<Longrightarrow> compact_result p P [p]"
  by (simp add: compact_result_def disjoint_prefixes_def)

lemma compact_result_empty: "(\<And>a. \<not> P a) \<Longrightarrow> compact_result p P []"
  by (simp add: compact_result_def disjoint_prefixes_def)

lemma split_halves:
  assumes c: "canonical p" "bitsPlusOne p = Suc b" "b < BitLen (ip p)"
  obtains l r where "splitPrefix p = Inr (l, r)"
    "canonical l" "bitsPlusOne l = Suc (Suc b)" "BitLen (ip l) = BitLen (ip p)"
    "\<And>a. Contains l a \<longleftrightarrow> Contains p a \<and> \<not> abit a b"
    "Is6 (ip l) \<and> agree (ip l) mapped_base 0 (Suc b) \<longrightarrow> Is6 (ip p) \<and> agree (ip p) mapped_base 0 b \<and> \<not> abit mapped_base b"
    "prefix_ok r" "bitsPlusOne r = Suc (Suc b)" "BitLen (ip r) = BitLen (ip p)"
    "\<And>a. Contains r a \<longleftrightarrow> Contains p a \<and> abit a b"
    "Is6 (ip r) \<and> agree (ip r) mapped_base 0 (Suc b) \<longrightarrow> Is6 (ip p) \<and> agree (ip p) mapped_base 0 b \<and> abit mapped_base b"
    "canonical r \<or> Is4In6 (ip r) \<and> b = 95 \<and> Is6 (ip p) \<and> agree (ip p) mapped_base 0 b \<and> abit mapped_base b"
proof -
  obtain l r where s: "splitPrefix p = Inr (l, r)" and l: "canonical l"
    "bitsPlusOne l = Suc (Suc b)" "BitLen (ip l) = BitLen (ip p)" "\<And>i. abit (ip l) i = abit (ip p) i"
    and r: "prefix_ok r" "bitsPlusOne r = Suc (Suc b)" "BitLen (ip r) = BitLen (ip p)"
    "\<And>i. abit (ip r) i \<longleftrightarrow> abit (ip p) i \<or> i = b" "\<not> Is4In6 (ip r) \<Longrightarrow> canonical r"
    using splitPrefix_canonical [OF c] by metis
  have pb: "\<not> abit (ip p) b" using c(1,2) by (simp add: canonical_def)
  have six: "Is6 (ip l) \<longleftrightarrow> Is6 (ip p)" "Is6 (ip r) \<longleftrightarrow> Is6 (ip p)"
    using l(3) r(3) by (simp_all flip: BitLen_cases)
  have al: "agree (ip l) mapped_base 0 b \<longleftrightarrow> agree (ip p) mapped_base 0 b" using l(4) by (simp add: agree_def)
  have ar: "agree (ip r) mapped_base 0 b \<longleftrightarrow> agree (ip p) mapped_base 0 b" using r(4) by (simp add: agree_def)
  show thesis
  proof (rule that [OF s l(1-3) _ _ r(1-3)])
    show "Contains l a \<longleftrightarrow> Contains p a \<and> \<not> abit a b" for a
      using split_contains [OF c(1,2) canonical_ok [OF l(1)] l(2,3)] l(4) pb by simp
    show "Contains r a \<longleftrightarrow> Contains p a \<and> abit a b" for a
      using split_contains [OF c(1,2) r(1,2,3)] r(4) by simp
    show "Is6 (ip l) \<and> agree (ip l) mapped_base 0 (Suc b) \<longrightarrow>
        Is6 (ip p) \<and> agree (ip p) mapped_base 0 b \<and> \<not> abit mapped_base b"
      unfolding agree_snoc six al using l(4) [of b] pb by blast
    show "Is6 (ip r) \<and> agree (ip r) mapped_base 0 (Suc b) \<longrightarrow>
        Is6 (ip p) \<and> agree (ip p) mapped_base 0 b \<and> abit mapped_base b"
      unfolding agree_snoc six ar using r(4) [of b] by blast
    show "canonical r \<or> Is4In6 (ip r) \<and> b = 95 \<and> Is6 (ip p) \<and> agree (ip p) mapped_base 0 b \<and> abit mapped_base b"
      using mapped_right_half [OF c r(3,4)] r(5) by blast
  qed
qed

lemma collectTriePrefixes_spec:
  assumes "t \<noteq> NilNode \<longrightarrow> canonical p" and "bitsPlusOne p = Suc b"
    and "trie_ok (BitLen (ip p) - b) t"
    and "Is6 (ip p) \<and> agree (ip p) mapped_base 0 b \<longrightarrow> stops t mapped_base b 96"
  shows "\<exists>ps. collectTriePrefixes t p = Inr ps \<and> compact_result p (\<lambda>a. trie_has t a b) ps"
  using assms
proof (induction t arbitrary: p b)
  case NilNode
  then show ?case by (simp add: compact_result_empty)
next
  case (TrieNode t z n)
  then have c: "canonical p" by simp
  show ?case
  proof (cases t)
    case True
    with c show ?thesis by (simp add: compact_result_single)
  next
    case False
    obtain k where k: "BitLen (ip p) - b = Suc k" and ok: "trie_ok k z" "trie_ok k n"
      using TrieNode.prems(3) False by (auto split: nat.splits)
    have b: "b < BitLen (ip p)" and k': "BitLen (ip p) - Suc b = k" using k by simp_all
    obtain l r where s: "splitPrefix p = Inr (l, r)"
      and l: "canonical l" "bitsPlusOne l = Suc (Suc b)" "BitLen (ip l) = BitLen (ip p)"
      "\<And>a. Contains l a \<longleftrightarrow> Contains p a \<and> \<not> abit a b"
      "Is6 (ip l) \<and> agree (ip l) mapped_base 0 (Suc b) \<longrightarrow> Is6 (ip p) \<and> agree (ip p) mapped_base 0 b \<and> \<not> abit mapped_base b"
      and r: "prefix_ok r" "bitsPlusOne r = Suc (Suc b)" "BitLen (ip r) = BitLen (ip p)"
      "\<And>a. Contains r a \<longleftrightarrow> Contains p a \<and> abit a b"
      "Is6 (ip r) \<and> agree (ip r) mapped_base 0 (Suc b) \<longrightarrow> Is6 (ip p) \<and> agree (ip p) mapped_base 0 b \<and> abit mapped_base b"
      "canonical r \<or> Is4In6 (ip r) \<and> b = 95 \<and> Is6 (ip p) \<and> agree (ip p) mapped_base 0 b \<and> abit mapped_base b"
      using split_halves [OF c TrieNode.prems(2) b] by metis
    have stop: "if abit mapped_base b then stops n mapped_base (Suc b) 96 else stops z mapped_base (Suc b) 96"
      if "Is6 (ip p)" "agree (ip p) mapped_base 0 b"
      using TrieNode.prems(4) that False by (auto split: if_splits)
    have nr: "n \<noteq> NilNode \<longrightarrow> canonical r" using r(6) stop by (cases n) auto
    have "\<exists>xs. collectTriePrefixes z l = Inr xs \<and> compact_result l (\<lambda>a. trie_has z a (Suc b)) xs"
      by (rule TrieNode.IH(1)) (use l stop ok k' in auto)
    moreover have "\<exists>ys. collectTriePrefixes n r = Inr ys \<and> compact_result r (\<lambda>a. trie_has n a (Suc b)) ys"
      by (rule TrieNode.IH(2)) (use r stop ok k' nr in auto)
    ultimately obtain xs ys where xs: "collectTriePrefixes z l = Inr xs"
      "compact_result l (\<lambda>a. trie_has z a (Suc b)) xs"
      and ys: "collectTriePrefixes n r = Inr ys" "compact_result r (\<lambda>a. trie_has n a (Suc b)) ys" by blast
    have "compact_result p (\<lambda>a. if abit a b then trie_has n a (Suc b) else trie_has z a (Suc b)) (xs @ ys)"
      by (rule compact_result_split [OF c TrieNode.prems(2) l(3,4) r(3,4) xs(2) ys(2)])
    moreover have "\<not> int (BitLen (ip p)) \<le> Bits p" using b TrieNode.prems(2) by (simp add: Bits_def)
    ultimately show ?thesis using False s xs(1) ys(1) by simp
  qed
qed

lemma canonical_all: "canonical all4" "canonical all6" "bitsPlusOne all4 = Suc 0" "bitsPlusOne all6 = Suc 0"
  "BitLen (ip all4) = 32" "BitLen (ip all6) = 128"
  by (auto simp: all4_def all6_def PrefixFrom_def canonical_def PrefixIsValid_def plain_def)

lemma Contains_all:
  "Contains all4 a \<longleftrightarrow> Is4 a" "Contains all6 a \<longleftrightarrow> Is6 a \<and> \<not> hasZone a"
  using canonical_all by (cases a; simp add: Contains_canonical same_family_def all4_def all6_def PrefixFrom_def)+

lemma disjoint_prefixes_sort [simp]: "disjoint_prefixes (sort_key f ps) = disjoint_prefixes ps"
  by (simp add: disjoint_prefixes_def)

lemma covered_sort [simp]: "covered (sort_key f ps) a = covered ps a"
  by (simp add: covered_def)

lemma compactPrefixUnion_spec:
  assumes ok: "\<forall>p\<in>set ps. prefix_ok p"
  shows "\<exists>qs. compactPrefixUnion ps = Inr qs \<and> (\<forall>q\<in>set qs. canonical q) \<and> disjoint_prefixes qs \<and>
    sorted (map PrefixString qs) \<and> (\<forall>a. covered qs a \<longleftrightarrow> (\<exists>p\<in>set ps. Contains (canonicalPrefix p) a))"
proof -
  let ?t = "buildPrefixTrie ps"
  note spec = buildPrefixTrie_spec [OF ok]
  obtain xs where xs: "collectTriePrefixes (root4 ?t) all4 = Inr xs"
      "compact_result all4 (\<lambda>a. trie_has (root4 ?t) a 0) xs"
    using collectTriePrefixes_spec [of "root4 ?t" all4 0] canonical_all spec(1)
    by (auto simp: prefixTrie_ok_def simp flip: BitLen_cases)
  obtain ys where ys: "collectTriePrefixes (root6 ?t) all6 = Inr ys"
      "compact_result all6 (\<lambda>a. trie_has (root6 ?t) a 0) ys"
    using collectTriePrefixes_spec [of "root6 ?t" all6 0] canonical_all spec(1)
    by (auto simp: prefixTrie_ok_def)
  let ?qs = "sort_key PrefixString (xs @ ys)"
  have four: "Is4 a \<Longrightarrow> \<not> Is6 a \<and> IsValid a \<and> \<not> hasZone a" "Is6 a \<Longrightarrow> IsValid a" "IsValid a \<longleftrightarrow> Is4 a \<or> Is6 a" for a
    by (cases a; simp)+
  have can: "\<forall>p\<in>set xs \<union> set ys. canonical p"
    using xs(2) ys(2) by (auto simp: compact_result_def)
  have cov: "covered xs a \<longleftrightarrow> Is4 a \<and> trie_has (root4 ?t) a 0"
    "covered ys a \<longleftrightarrow> Is6 a \<and> \<not> hasZone a \<and> trie_has (root6 ?t) a 0" for a
    using xs(2) ys(2) by (simp_all add: compact_result_def Contains_all)
  have "disjoint_prefixes (xs @ ys)"
  proof (rule disjoint_prefixes_append [OF _ _ can])
    show "disjoint_prefixes xs" "disjoint_prefixes ys" using xs(2) ys(2) by (simp_all add: compact_result_def)
    show "\<not> (covered xs a \<and> covered ys a)" for a using cov [of a] four(1) [of a] by blast
  qed
  moreover have "covered (xs @ ys) a \<longleftrightarrow> (\<exists>p\<in>set ps. Contains (canonicalPrefix p) a)" for a
    using spec(2) [of a] cov [of a] four [of a] by (cases "Is4 a") (auto simp: prefixTrie_has_def)
  ultimately show ?thesis
    using xs(1) ys(1) can by (intro exI [of _ ?qs]) (auto simp: compactPrefixUnion_def)
qed

section \<open>Normal form of the trie\<close>

text \<open>
  Insertion keeps the trie reduced: no inner node has two terminal children, or none at all. Two
  reduced tries with the same addresses are equal, so what the compiler returns depends on the
  address sets only, not on the order or the splitting of the indicators.
\<close>

fun reduced :: "prefixTrieNode \<Rightarrow> bool" where
  "reduced NilNode = True"
| "reduced (TrieNode t z n) = (t \<or>
     (z \<noteq> NilNode \<or> n \<noteq> NilNode) \<and> \<not> (terminal z \<and> terminal n) \<and> reduced z \<and> reduced n)"

lemma reduced_join: "reduced z \<Longrightarrow> reduced n \<Longrightarrow> z \<noteq> NilNode \<or> n \<noteq> NilNode \<Longrightarrow> reduced (joinNodes z n)"
  by (auto simp: joinNodes_def)

lemma insertPrefix_reduced:
  assumes "plain (ip p)" and "bitsPlusOne p = Suc b" and "d \<le> b" and "reduced node"
  shows "reduced (insertPrefix (orFresh node) p d) \<and> insertPrefix (orFresh node) p d \<noteq> NilNode"
  using assms(3,4)
proof (induction "b - d" arbitrary: node d)
  case 0
  then have "d = b" by simp
  with insertPrefix_end [OF assms(2), of "orFresh node"] 0 show ?case by (cases node) (auto simp: orFresh_def freshNode_def)
next
  case (Suc k)
  obtain t z n where node: "orFresh node = TrieNode t z n" by (metis orFresh_simps(1) prefixTrieNode.exhaust)
  have d: "d < b" using Suc.hyps(2) by simp
  show ?case
  proof (cases t)
    case True
    then show ?thesis using node by (simp add: insertPrefix_terminal)
  next
    case False
    have "reduced z" "reduced n" using node Suc.prems(2) False by (cases node; auto simp: orFresh_def freshNode_def)+
    moreover have "reduced (insertPrefix (orFresh x) p (Suc d)) \<and> insertPrefix (orFresh x) p (Suc d) \<noteq> NilNode"
      if "reduced x" for x using Suc.hyps d that by simp
    ultimately show ?thesis
      using False node insertPrefix_step [OF assms(1,2) d, of z n] by (simp add: reduced_join)
  qed
qed

lemma buildPrefixTrie_reduced:
  assumes "\<forall>p\<in>set ps. prefix_ok p"
  shows "reduced (root4 (buildPrefixTrie ps)) \<and> reduced (root6 (buildPrefixTrie ps))"
proof -
  have "reduced (root4 (foldl trie_step t ps)) \<and> reduced (root6 (foldl trie_step t ps))"
    if "reduced (root4 t) \<and> reduced (root6 t)" for t
    using that assms
  proof (induction ps arbitrary: t)
    case (Cons p ps)
    have "reduced (root4 (trie_step t p)) \<and> reduced (root6 (trie_step t p))"
    proof (cases "PrefixIsValid (canonicalPrefix p)")
      case True
      then have c: "canonical (canonicalPrefix p)" using canonicalPrefix_valid Cons.prems(2) by simp
      then obtain b where "bitsPlusOne (canonicalPrefix p) = Suc b"
        by (cases "bitsPlusOne (canonicalPrefix p)") (auto simp: canonical_def PrefixIsValid_def)
      moreover have "plain (ip (canonicalPrefix p))" using c by (simp add: canonical_def)
      ultimately show ?thesis
        using insertPrefix_reduced [of "canonicalPrefix p" b 0] Cons.prems(1)
        by (simp add: trie_step_def Let_def flip: orFresh_def)
    qed (use Cons.prems in \<open>simp add: trie_step_def Let_def\<close>)
    then show ?case using Cons.IH Cons.prems(2) by simp
  qed simp
  then show ?thesis by (simp add: buildPrefixTrie_def)
qed

text \<open>Membership of an infinite bit string; every one of them begins an address.\<close>

fun bits_has :: "prefixTrieNode \<Rightarrow> (nat \<Rightarrow> bool) \<Rightarrow> nat \<Rightarrow> bool" where
  "bits_has NilNode f d = False"
| "bits_has (TrieNode t z n) f d = (t \<or> (if f d then bits_has n f (Suc d) else bits_has z f (Suc d)))"

lemma trie_has_bits:
  assumes "trie_ok k t" and "\<And>i. d \<le> i \<Longrightarrow> i < d + k \<Longrightarrow> abit a i = f i"
  shows "trie_has t a d = bits_has t f d"
  using assms
proof (induction t arbitrary: d k)
  case (TrieNode t z n)
  show ?case
  proof (cases "\<not> t \<and> k \<noteq> 0")
    case True
    then obtain j where j: "k = Suc j" by (cases k) auto
    then have "trie_has z a (Suc d) = bits_has z f (Suc d)" "trie_has n a (Suc d) = bits_has n f (Suc d)"
      using TrieNode True by (auto intro!: TrieNode.IH [of j])
    moreover have "abit a d = f d" using TrieNode.prems(2) j by simp
    ultimately show ?thesis by simp
  qed (use TrieNode.prems in \<open>cases t; auto\<close>)
qed simp

lemma bits_has_shift: "(\<And>i. d \<le> i \<Longrightarrow> f i = g i) \<Longrightarrow> bits_has t f d = bits_has t g d"
  by (induction t arbitrary: d) auto

lemma bits_has_step:
  "\<not> t \<Longrightarrow> bits_has (TrieNode t z n) (f(d := c)) d = bits_has (if c then n else z) f (Suc d)"
  using bits_has_shift [of "Suc d" "f(d := c)" f n] bits_has_shift [of "Suc d" "f(d := c)" f z]
  by (cases c) auto

lemma reduced_misses:
  assumes "reduced t" and "\<not> terminal t"
  shows "\<exists>f. \<not> bits_has t f d"
  using assms
proof (induction t arbitrary: d)
  case (TrieNode t z n)
  then have t: "\<not> t" by simp
  have "\<exists>c f. \<not> bits_has (if c then n else z) f (Suc d)"
  proof (cases "terminal n")
    case True
    then have "\<exists>f. \<not> bits_has z f (Suc d)" using TrieNode.prems TrieNode.IH(1) by simp
    then show ?thesis by (metis (full_types))
  next
    case False
    then have "\<exists>f. \<not> bits_has n f (Suc d)" using TrieNode.prems TrieNode.IH(2) by simp
    then show ?thesis by (metis (full_types))
  qed
  then show ?case using bits_has_step [OF t] by metis
qed simp

lemma reduced_hits:
  assumes "reduced t" and "t \<noteq> NilNode"
  shows "\<exists>f. bits_has t f d"
  using assms
proof (induction t arbitrary: d)
  case (TrieNode t z n)
  show ?case
  proof (cases t)
    case False
    have "\<exists>c f. bits_has (if c then n else z) f (Suc d)"
    proof (cases "n = NilNode")
      case True
      then have "\<exists>f. bits_has z f (Suc d)" using TrieNode.prems TrieNode.IH(1) False by simp
      then show ?thesis by (metis (full_types))
    next
      case n: False
      then have "\<exists>f. bits_has n f (Suc d)" using TrieNode.prems TrieNode.IH(2) False by simp
      then show ?thesis by (metis (full_types))
    qed
    then show ?thesis using bits_has_step [OF False] by metis
  qed simp
qed simp

lemma reduced_unique:
  assumes "reduced s" and "reduced t" and "trie_ok k s" and "trie_ok k t"
    and "\<And>f. bits_has s f d = bits_has t f d"
  shows "s = t"
  using assms
proof (induction s arbitrary: t d k)
  case NilNode
  then show ?case using reduced_hits [of t d] by auto
next
  case (TrieNode b z n)
  have t: "t \<noteq> NilNode" using reduced_hits [OF TrieNode.prems(1), of d] TrieNode.prems(5) by auto
  then obtain b' z' n' where t: "t = TrieNode b' z' n'" by (cases t) auto
  have b: "b' = b"
    using reduced_misses [OF TrieNode.prems(1), of d] reduced_misses [OF TrieNode.prems(2), of d] TrieNode.prems(5) t
    by auto
  show ?case
  proof (cases b)
    case True
    then show ?thesis using TrieNode.prems t b by auto
  next
    case False
    obtain j where j: "trie_ok j z" "trie_ok j z'" "trie_ok j n" "trie_ok j n'"
      using TrieNode.prems(3,4) t b False by (auto split: nat.splits)
    have "bits_has z f (Suc d) = bits_has z' f (Suc d)" "bits_has n f (Suc d) = bits_has n' f (Suc d)" for f
      using TrieNode.prems(5) [of "f(d := False)"] TrieNode.prems(5) [of "f(d := True)"]
      unfolding t b bits_has_step [OF False] by simp_all
    then have "z = z'" "n = n'"
      using TrieNode.IH(1) [of z' j "Suc d"] TrieNode.IH(2) [of n' j "Suc d"] TrieNode.prems(1,2) t b False j by auto
    then show ?thesis using t b by simp
  qed
qed

lemma horner_bits:
  "n < k \<Longrightarrow> k \<le> LENGTH('a) \<Longrightarrow> bit (horner_sum of_bool 2 (map g [0..<k]) :: 'a::len word) n = g n"
  by (simp add: bit_horner_sum_bit_word_iff)

lemma address_of_bits:
  "\<exists>a. Is4 a \<and> (\<forall>i<32. abit a i = f i)" "\<exists>a. Is6 a \<and> \<not> hasZone a \<and> (\<forall>i<128. abit a i = f i)"
proof -
  define v :: "32 word" where "v = horner_sum of_bool 2 (map (\<lambda>n. f (31 - n)) [0..<32])"
  have "bit v (31 - i) = f i" if "i < 32" for i
    using that horner_bits [where k = 32 and n = "31 - i" and 'a = 32 and g = "\<lambda>n. f (31 - n)"] by (simp add: v_def)
  then show "\<exists>a. Is4 a \<and> (\<forall>i<32. abit a i = f i)" by (intro exI [of _ "Addr4 v"]) simp
  define w :: "128 word" where "w = horner_sum of_bool 2 (map (\<lambda>n. f (127 - n)) [0..<128])"
  have "bit w (127 - i) = f i" if "i < 128" for i
    using that horner_bits [where k = 128 and n = "127 - i" and 'a = 128 and g = "\<lambda>n. f (127 - n)"]
    unfolding w_def [symmetric] by simp
  then show "\<exists>a. Is6 a \<and> \<not> hasZone a \<and> (\<forall>i<128. abit a i = f i)"
    by (intro exI [of _ "Addr6 w []"]) simp
qed

lemma buildPrefixTrie_unique:
  assumes "\<forall>p\<in>set ps. prefix_ok p" and "\<forall>p\<in>set qs. prefix_ok p"
    and same: "\<And>a. covered (map canonicalPrefix ps) a = covered (map canonicalPrefix qs) a"
  shows "buildPrefixTrie ps = buildPrefixTrie qs"
proof -
  let ?s = "buildPrefixTrie ps" and ?t = "buildPrefixTrie qs"
  note s = buildPrefixTrie_spec [OF assms(1)] and t = buildPrefixTrie_spec [OF assms(2)]
  have has: "prefixTrie_has ?s a = prefixTrie_has ?t a" for a
    using same [of a] s(2) t(2) by (simp add: covered_def)
  have ok: "trie_ok 32 (root4 ?s)" "trie_ok 32 (root4 ?t)" "trie_ok 128 (root6 ?s)" "trie_ok 128 (root6 ?t)"
    using s(1) t(1) by (simp_all add: prefixTrie_ok_def)
  note red = buildPrefixTrie_reduced [OF assms(1)] buildPrefixTrie_reduced [OF assms(2)]
  have "bits_has (root4 ?s) f 0 = bits_has (root4 ?t) f 0" for f
  proof -
    obtain a where a: "Is4 a" "\<forall>i<32. abit a i = f i" using address_of_bits(1) by blast
    then have "trie_has (root4 ?s) a 0 = trie_has (root4 ?t) a 0"
      using has [of a] by (cases a) (simp_all add: prefixTrie_has_def)
    with a(2) show ?thesis using trie_has_bits [OF ok(1), of 0 a f] trie_has_bits [OF ok(2), of 0 a f] by simp
  qed
  then have r4: "root4 ?s = root4 ?t" using reduced_unique [of "root4 ?s" "root4 ?t" 32 0] red ok by blast
  have "bits_has (root6 ?s) f 0 = bits_has (root6 ?t) f 0" for f
  proof -
    obtain a where a: "Is6 a" "\<not> hasZone a" "\<forall>i<128. abit a i = f i" using address_of_bits(2) by blast
    then have "trie_has (root6 ?s) a 0 = trie_has (root6 ?t) a 0"
      using has [of a] by (cases a) (simp_all add: prefixTrie_has_def)
    with a(3) show ?thesis using trie_has_bits [OF ok(3), of 0 a f] trie_has_bits [OF ok(4), of 0 a f] by simp
  qed
  then have "root6 ?s = root6 ?t" using reduced_unique [of "root6 ?s" "root6 ?t" 128 0] red ok by blast
  with r4 show ?thesis by simp
qed

lemma compactPrefixUnion_unique:
  assumes "\<forall>p\<in>set ps. prefix_ok p" and "\<forall>p\<in>set qs. prefix_ok p"
    and "\<And>a. covered (map canonicalPrefix ps) a = covered (map canonicalPrefix qs) a"
  shows "compactPrefixUnion ps = compactPrefixUnion qs"
  using buildPrefixTrie_unique [OF assms] by (simp add: compactPrefixUnion_def)

end
