(* ===== verification/EnforcementCompiler.thy ===== *)
theory EnforcementCompiler
  imports PrefixTrie
begin

text \<open>
  The enforcement compiler of \<open>internal/threatintel/compiler.go\<close>: it reads the blocking indicators,
  compacts them in a trie, subtracts the protected networks and returns the text of the remaining
  prefixes. The properties relate it to the difference of the two address sets.
\<close>

section \<open>Definitions\<close>

definition maximumEnforcementIndicators :: int where
  "maximumEnforcementIndicators = 250000"

fun nodeFor_loop :: "nat \<Rightarrow> nat \<Rightarrow> prefixTrieNode \<Rightarrow> addr \<Rightarrow> prefixTrieNode \<times> bool" where
  "nodeFor_loop 0 depth node a = (node, terminal node)"
| "nodeFor_loop (Suc k) depth node a =
     (if terminal node then (node, True)
      else let next = (if addressBit a depth = 0 then zero_child node else one_child node) in
           if next = NilNode then (NilNode, False) else nodeFor_loop k (Suc depth) next a)"

definition nodeFor :: "prefixTrie \<Rightarrow> prefix \<Rightarrow> prefixTrieNode \<times> bool" where
  "nodeFor trie prefix0 =
     (let prefix = canonicalPrefix prefix0 in
      if \<not> PrefixIsValid prefix then (NilNode, False)
      else let node = (if Is4 (ip prefix) then root4 trie else root6 trie) in
           if node = NilNode then (NilNode, False)
           else nodeFor_loop (nat (Bits prefix)) 0 node (ip prefix))"

fun subtractProtected :: "prefixTrieNode \<Rightarrow> prefix \<Rightarrow> prefix list outcome" where
  "subtractProtected NilNode prefix = Inr [canonicalPrefix prefix]"
| "subtractProtected (TrieNode t z n) prefix =
     (if t then Inr []
      else if int (BitLen (ip prefix)) \<le> Bits prefix then Inr [canonicalPrefix prefix]
      else bind_outcome (splitPrefix prefix) (\<lambda>(left, right).
           bind_outcome (subtractProtected z left) (\<lambda>xs.
           bind_outcome (subtractProtected n right) (\<lambda>ys. Inr (xs @ ys)))))"

fun parseBlocks :: "string list \<Rightarrow> prefix list outcome" where
  "parseBlocks [] = Inr []"
| "parseBlocks (value # values) =
     (case ParsePrefix value of
        None \<Rightarrow> Inl (Err ''blocking indicator compilation rejected invalid prefix'')
      | Some prefix \<Rightarrow>
          if \<not> validThreatPrefix prefix
          then Inl (Err ''blocking indicator compilation rejected invalid prefix'')
          else bind_outcome (parseBlocks values) (\<lambda>ps. Inr (canonicalPrefix prefix # ps)))"

fun subtractBlocks :: "prefixTrie \<Rightarrow> prefix list \<Rightarrow> prefix list \<Rightarrow> prefix list outcome" where
  "subtractBlocks trie compiled [] = Inr compiled"
| "subtractBlocks trie compiled (block # blocks) =
     (case nodeFor trie block of (node, isCovered) \<Rightarrow>
        if isCovered then subtractBlocks trie compiled blocks
        else if node = NilNode then subtractBlocks trie (compiled @ [block]) blocks
        else bind_outcome (subtractProtected node block) (\<lambda>ps.
             let compiled' = compiled @ ps in
             if maximumEnforcementIndicators < int (length compiled')
             then Inl (Err ''protected network subtraction exceeded enforcement boundary'')
             else subtractBlocks trie compiled' blocks))"

definition compileEnforcementIndicators :: "string list \<Rightarrow> prefix list \<Rightarrow> string list outcome" where
  "compileEnforcementIndicators values protected0 =
     bind_outcome (parseBlocks values) (\<lambda>blocks0.
     bind_outcome (compactPrefixUnion blocks0) (\<lambda>blocks.
     bind_outcome (compactPrefixUnion protected0) (\<lambda>protected.
     bind_outcome (subtractBlocks (buildPrefixTrie protected) [] blocks) (\<lambda>compiled0.
     bind_outcome (compactPrefixUnion compiled0) (\<lambda>compiled.
       if maximumEnforcementIndicators < int (length compiled)
       then Inl (Err ''compiled enforcement boundary exceeded'')
       else Inr (prefixStrings compiled))))))"

section \<open>Subtraction\<close>

text \<open>The walk either finds a terminal above the prefix, falls off the trie, or ends at the subtrie.\<close>

lemma nodeFor_loop_spec:
  assumes "plain a" and "node \<noteq> NilNode" and "nodeFor_loop k d node a = (node', cov)"
    and "trie_ok (N - d) node" and "d + k \<le> N"
  shows "(cov \<longrightarrow> (\<forall>c. agree a c d (d + k) \<longrightarrow> trie_has node c d)) \<and>
    (\<not> cov \<longrightarrow> trie_ok (N - (d + k)) node' \<and>
      (\<forall>c. agree a c d (d + k) \<longrightarrow> trie_has node c d = trie_has node' c (d + k)) \<and>
      (\<forall>m j. agree a m d (d + k) \<and> stops node m d j \<longrightarrow> stops node' m (d + k) j))"
  using assms(2-5)
proof (induction k arbitrary: node d)
  case 0
  then show ?case by (auto simp: terminal_has)
next
  case (Suc k)
  obtain t z n where node: "node = TrieNode t z n" using Suc.prems by (cases node) auto
  show ?case
  proof (cases t)
    case True
    then show ?thesis using Suc.prems node by auto
  next
    case False
    let ?x = "if abit a d then n else z"
    have ok: "trie_ok (N - Suc d) ?x"
      using Suc.prems(3) False node by (auto split: nat.splits) (metis Suc_diff_Suc diff_Suc_1 zero_less_diff zero_less_Suc)+
    have step: "agree a c d (d + Suc k) \<longleftrightarrow> abit a d = abit c d \<and> agree a c (Suc d) (Suc d + k)" for c
      using agree_step [of d "d + Suc k" a c] by simp
    have has: "trie_has node c d = trie_has ?x c (Suc d)" "stops node c d j \<longrightarrow> stops ?x c (Suc d) j"
      if "abit a d = abit c d" for c j using that node False by auto
    show ?thesis
    proof (cases "?x = NilNode")
      case True
      then have "node' = NilNode" "\<not> cov" using Suc.prems(2) False node addressBit_abit [OF assms(1), of d]
        by (auto simp: Let_def split: if_splits)
      then show ?thesis using True node False by (auto simp del: add_Suc_right simp add: step)
    next
      case x: False
      then have "nodeFor_loop k (Suc d) ?x a = (node', cov)"
        using Suc.prems(2) False node addressBit_abit [OF assms(1), of d] by (auto simp: Let_def split: if_splits)
      note IH = Suc.IH [OF x this ok]
      have eq: "Suc d + k = d + Suc k" by simp
      define y where "y = ?x"
      have "Suc d + k \<le> N" using Suc.prems(4) by simp
      from IH [OF this] show ?thesis using has unfolding y_def [symmetric] step eq by blast
    qed
  qed
qed

lemma mapped_canonicalPrefix:
  assumes "prefix_ok r" and "Is4In6 (ip r)" and "bitsPlusOne r = 97"
  shows "canonical (canonicalPrefix r)"
proof -
  have v: "PrefixIsValid r" using assms by (simp add: PrefixIsValid_def)
  have "IsValid (Unmap (ip r))" using assms v by (simp add: prefix_ok_def)
  then have "PrefixIsValid (PrefixFrom (Unmap (ip r)) (int 0))"
    using PrefixFrom_sel [of "Unmap (ip r)" 0] by (simp add: PrefixIsValid_def del: of_nat_0)
  then have "PrefixIsValid (Masked (PrefixFrom (Unmap (ip r)) 0))"
    using Masked_valid(1) [OF PrefixFrom_ok] by (auto simp: PrefixIsValid_def)
  then show ?thesis
    using assms v by (intro canonicalPrefix_valid) (simp_all add: canonicalPrefix_def Let_def Bits_def)
qed

lemma subtractProtected_spec:
  assumes "t \<noteq> NilNode \<longrightarrow> canonical p" and "canonical (canonicalPrefix p)" and "bitsPlusOne p = Suc b"
    and "trie_ok (BitLen (ip p) - b) t"
    and "Is6 (ip p) \<and> agree (ip p) mapped_base 0 b \<longrightarrow> stops t mapped_base b 96"
  shows "\<exists>ps. subtractProtected t p = Inr ps \<and> (\<forall>q\<in>set ps. canonical q) \<and>
    (canonical p \<and> \<not> (Is6 (ip p) \<and> agree (ip p) mapped_base 0 b) \<longrightarrow>
       compact_result p (\<lambda>a. \<not> trie_has t a b) ps)"
  using assms
proof (induction t arbitrary: p b)
  case NilNode
  then show ?case by (simp add: compact_result_single)
next
  case (TrieNode t z n)
  then have c: "canonical p" by simp
  show ?case
  proof (cases t)
    case True
    with c show ?thesis by (simp add: compact_result_empty)
  next
    case False
    obtain k where k: "BitLen (ip p) - b = Suc k" and ok: "trie_ok k z" "trie_ok k n"
      using TrieNode.prems(4) False by (auto split: nat.splits)
    have b: "b < BitLen (ip p)" and k': "BitLen (ip p) - Suc b = k" using k by simp_all
    obtain l r where s: "splitPrefix p = Inr (l, r)"
      and l: "canonical l" "bitsPlusOne l = Suc (Suc b)" "BitLen (ip l) = BitLen (ip p)"
      "\<And>a. Contains l a \<longleftrightarrow> Contains p a \<and> \<not> abit a b"
      "Is6 (ip l) \<and> agree (ip l) mapped_base 0 (Suc b) \<longrightarrow> Is6 (ip p) \<and> agree (ip p) mapped_base 0 b \<and> \<not> abit mapped_base b"
      and r: "prefix_ok r" "bitsPlusOne r = Suc (Suc b)" "BitLen (ip r) = BitLen (ip p)"
      "\<And>a. Contains r a \<longleftrightarrow> Contains p a \<and> abit a b"
      "Is6 (ip r) \<and> agree (ip r) mapped_base 0 (Suc b) \<longrightarrow> Is6 (ip p) \<and> agree (ip p) mapped_base 0 b \<and> abit mapped_base b"
      "canonical r \<or> Is4In6 (ip r) \<and> b = 95 \<and> Is6 (ip p) \<and> agree (ip p) mapped_base 0 b \<and> abit mapped_base b"
      using split_halves [OF c TrieNode.prems(3) b] by metis
    let ?m = "Is6 (ip p) \<and> agree (ip p) mapped_base 0 b"
    have stop: "if abit mapped_base b then stops n mapped_base (Suc b) 96 else stops z mapped_base (Suc b) 96" if ?m
      using TrieNode.prems(5) that False by (auto split: if_splits)
    have cr: "canonical (canonicalPrefix r)"
      using r(6) mapped_canonicalPrefix [OF r(1)] r(2) by auto
    have nr: "n \<noteq> NilNode \<longrightarrow> canonical r"
      using r(6) stop by (cases n) auto
    have "\<exists>xs. subtractProtected z l = Inr xs \<and> (\<forall>q\<in>set xs. canonical q) \<and>
       (canonical l \<and> \<not> (Is6 (ip l) \<and> agree (ip l) mapped_base 0 (Suc b)) \<longrightarrow>
        compact_result l (\<lambda>a. \<not> trie_has z a (Suc b)) xs)"
      by (rule TrieNode.IH(1)) (use l stop ok k' in auto)
    moreover have "\<exists>ys. subtractProtected n r = Inr ys \<and> (\<forall>q\<in>set ys. canonical q) \<and>
       (canonical r \<and> \<not> (Is6 (ip r) \<and> agree (ip r) mapped_base 0 (Suc b)) \<longrightarrow>
        compact_result r (\<lambda>a. \<not> trie_has n a (Suc b)) ys)"
      by (rule TrieNode.IH(2)) (use r stop ok k' cr nr in auto)
    ultimately obtain xs ys where xs: "subtractProtected z l = Inr xs" "\<forall>q\<in>set xs. canonical q"
      "\<not> ?m \<Longrightarrow> compact_result l (\<lambda>a. \<not> trie_has z a (Suc b)) xs"
      and ys: "subtractProtected n r = Inr ys" "\<forall>q\<in>set ys. canonical q"
      "\<not> ?m \<Longrightarrow> compact_result r (\<lambda>a. \<not> trie_has n a (Suc b)) ys"
      using l(1,5) r(5,6) by blast
    have "compact_result p (\<lambda>a. if abit a b then \<not> trie_has n a (Suc b) else \<not> trie_has z a (Suc b)) (xs @ ys)"
      if "\<not> ?m"
      by (rule compact_result_split [OF c TrieNode.prems(3) l(3,4) r(3,4) xs(3) [OF that] ys(3) [OF that]])
    moreover have "(\<lambda>a. \<not> trie_has (TrieNode t z n) a b) =
        (\<lambda>a. if abit a b then \<not> trie_has n a (Suc b) else \<not> trie_has z a (Suc b))"
      using False by auto
    moreover have "\<not> int (BitLen (ip p)) \<le> Bits p" using b TrieNode.prems(3) by (simp add: Bits_def)
    ultimately show ?thesis using False s xs(1,2) ys(1,2) by auto
  qed
qed

lemma nodeFor_spec:
  assumes ok: "prefixTrie_ok trie" and c: "canonical p" and b: "bitsPlusOne p = Suc b"
    and "nodeFor trie p = (node, cov)"
  shows "cov \<Longrightarrow> Contains p a \<Longrightarrow> prefixTrie_has trie a"
    and "\<not> cov \<Longrightarrow> Contains p a \<Longrightarrow> prefixTrie_has trie a = trie_has node a b"
    and "\<not> cov \<Longrightarrow> trie_ok (BitLen (ip p) - b) node"
    and "\<not> cov \<Longrightarrow> Is6 (ip p) \<and> agree (ip p) mapped_base 0 b \<longrightarrow> stops node mapped_base b 96"
proof -
  let ?root = "if Is4 (ip p) then root4 trie else root6 trie"
  have pl: "plain (ip p)" and v: "PrefixIsValid p" and le: "b \<le> BitLen (ip p)"
    using c b by (simp_all add: canonical_def)
  have rok: "trie_ok (BitLen (ip p)) ?root" and six: "Is6 (ip p) \<Longrightarrow> stops ?root mapped_base 0 96"
    using ok pl by (cases "ip p"; simp add: prefixTrie_ok_def plain_def)+
  have in_p: "prefixTrie_has trie a \<longleftrightarrow> trie_has ?root a 0" "agree (ip p) a 0 b" if "Contains p a" for a
  proof -
    have a: "same_family (ip p) a" "\<not> hasZone a" and ag: "agree (ip p) a 0 b" and "Is4 (ip p) = Is4 a"
      using that c b Contains_Is4 [OF c that] by (simp_all add: Contains_canonical)
    moreover have "IsValid a" using a(1) by (cases a; cases "ip p") (auto simp: same_family_def)
    ultimately show "prefixTrie_has trie a \<longleftrightarrow> trie_has ?root a 0" by (simp add: prefixTrie_has_def)
    show "agree (ip p) a 0 b" by (rule ag)
  qed
  have "if ?root = NilNode then node = NilNode \<and> \<not> cov
        else nodeFor_loop b 0 ?root (ip p) = (node, cov)"
    using assms(4) c v b by (auto simp: nodeFor_def Let_def Bits_def split: if_splits)
  note run = this
  have main: "(cov \<longrightarrow> (\<forall>c. agree (ip p) c 0 b \<longrightarrow> trie_has ?root c 0)) \<and>
    (\<not> cov \<longrightarrow> trie_ok (BitLen (ip p) - b) node \<and>
      (\<forall>c. agree (ip p) c 0 b \<longrightarrow> trie_has ?root c 0 = trie_has node c b) \<and>
      (\<forall>m j. agree (ip p) m 0 b \<and> stops ?root m 0 j \<longrightarrow> stops node m b j))"
  proof (cases "?root = NilNode")
    case False
    with run nodeFor_loop_spec [OF pl False, of b 0 node cov "BitLen (ip p)"] rok le show ?thesis by simp
  qed (use run in auto)
  then show "cov \<Longrightarrow> Contains p a \<Longrightarrow> prefixTrie_has trie a"
    "\<not> cov \<Longrightarrow> Contains p a \<Longrightarrow> prefixTrie_has trie a = trie_has node a b"
    "\<not> cov \<Longrightarrow> trie_ok (BitLen (ip p) - b) node"
    "\<not> cov \<Longrightarrow> Is6 (ip p) \<and> agree (ip p) mapped_base 0 b \<longrightarrow> stops node mapped_base b 96"
    using in_p six by blast+
qed

text \<open>What one block contributes to the compiled list.\<close>

definition block_part :: "prefixTrie \<Rightarrow> prefix \<Rightarrow> prefix list outcome" where
  "block_part trie block = (case nodeFor trie block of (node, cov) \<Rightarrow>
     if cov then Inr [] else if node = NilNode then Inr [block] else subtractProtected node block)"

lemma block_part_spec:
  assumes ok: "prefixTrie_ok trie" and c: "canonical p"
  shows "\<exists>ps. block_part trie p = Inr ps \<and> (\<forall>q\<in>set ps. canonical q) \<and>
    (\<not> Contains p mapped_base \<longrightarrow> (\<forall>a. covered ps a \<longleftrightarrow> Contains p a \<and> \<not> prefixTrie_has trie a))"
proof -
  obtain b where b: "bitsPlusOne p = Suc b"
    using c by (cases "bitsPlusOne p") (auto simp: canonical_def PrefixIsValid_def)
  obtain node cov where nf: "nodeFor trie p = (node, cov)" by fastforce
  note spec = nodeFor_spec [OF ok c b nf]
  consider "cov" | "\<not> cov" "node = NilNode" | "\<not> cov" "node \<noteq> NilNode" by blast
  then show ?thesis
  proof cases
    case 3
    obtain ps where ps: "subtractProtected node p = Inr ps" "\<forall>q\<in>set ps. canonical q"
      "\<not> (Is6 (ip p) \<and> agree (ip p) mapped_base 0 b) \<Longrightarrow> compact_result p (\<lambda>a. \<not> trie_has node a b) ps"
      using subtractProtected_spec [of node p b] c b spec(3,4) [OF 3(1)] by auto
    have "Is6 (ip p) \<and> agree (ip p) mapped_base 0 b \<Longrightarrow> Contains p mapped_base"
      using c b by (cases "ip p") (auto simp: Contains_canonical same_family_def mapped_base_def)
    with ps spec(2) [OF 3(1)] nf 3 show ?thesis
      unfolding block_part_def compact_result_def by auto
  qed (use spec(1,2) nf c in \<open>auto simp: block_part_def\<close>)
qed

lemma subtractBlocks_step:
  "subtractBlocks trie compiled (block # blocks) = bind_outcome (block_part trie block) (\<lambda>ps.
     if maximumEnforcementIndicators < int (length (compiled @ ps)) \<and>
        \<not> snd (nodeFor trie block) \<and> fst (nodeFor trie block) \<noteq> NilNode
     then Inl (Err ''protected network subtraction exceeded enforcement boundary'')
     else subtractBlocks trie (compiled @ ps) blocks)"
  by (auto simp: block_part_def bind_outcome_def split: prod.split sum.split)

text \<open>
  The subtraction loop returns canonical prefixes or the boundary error, and covers the blocks less
  the protected addresses.
\<close>

lemma subtractBlocks_spec:
  assumes ok: "prefixTrie_ok trie" and "\<forall>p\<in>set blocks. canonical p" and "\<forall>p\<in>set compiled. canonical p"
  shows "subtractBlocks trie compiled blocks = Inl (Err ''protected network subtraction exceeded enforcement boundary'') \<or>
    (\<exists>out. subtractBlocks trie compiled blocks = Inr out \<and> (\<forall>p\<in>set out. canonical p) \<and>
      ((\<forall>p\<in>set blocks. \<not> Contains p mapped_base) \<longrightarrow>
       (\<forall>a. covered out a \<longleftrightarrow> covered compiled a \<or> covered blocks a \<and> \<not> prefixTrie_has trie a)))"
  using assms(2,3)
proof (induction blocks arbitrary: compiled)
  case (Cons p blocks)
  then obtain ps where ps: "block_part trie p = Inr ps" "\<forall>q\<in>set ps. canonical q"
      "\<not> Contains p mapped_base \<longrightarrow> (\<forall>a. covered ps a \<longleftrightarrow> Contains p a \<and> \<not> prefixTrie_has trie a)"
    using block_part_spec [OF ok] by (metis list.set_intros(1))
  have "\<forall>q\<in>set (compiled @ ps). canonical q" "\<forall>q\<in>set blocks. canonical q" using Cons.prems ps(2) by auto
  note IH = Cons.IH [OF this(2,1)]
  show ?case
    unfolding subtractBlocks_step ps(1) bind_outcome_simps using IH ps(3)
    by (auto split: if_splits)
qed simp

section \<open>The compiler\<close>

text \<open>The addresses that a list of indicator texts names.\<close>

definition indicator_covers :: "string list \<Rightarrow> addr \<Rightarrow> bool" where
  "indicator_covers values a = list_ex (\<lambda>v. case ParsePrefix v of None \<Rightarrow> False
     | Some p \<Rightarrow> Contains (canonicalPrefix p) a) values"

definition valid_indicator :: "string \<Rightarrow> bool" where
  "valid_indicator v = (case ParsePrefix v of None \<Rightarrow> False | Some p \<Rightarrow> validThreatPrefix p)"

lemma parseBlocks_spec:
  "if list_all valid_indicator values
   then \<exists>ps. parseBlocks values = Inr ps \<and> (\<forall>a. covered ps a = indicator_covers values a) \<and>
     (\<forall>p\<in>set ps. canonical p \<or> p = PrefixZero)
   else parseBlocks values = Inl (Err ''blocking indicator compilation rejected invalid prefix'')"
proof (induction "values")
  case (Cons v vs)
  show ?case
  proof (cases "valid_indicator v")
    case True
    then obtain p where p: "ParsePrefix v = Some p" "validThreatPrefix p"
      by (auto simp: valid_indicator_def split: option.splits)
    have "canonical (canonicalPrefix p) \<or> canonicalPrefix p = PrefixZero"
      using canonicalPrefix_cases ParsePrefix_ok(1) p(1) by blast
    with p Cons show ?thesis
      by (auto simp: indicator_covers_def valid_indicator_def split: if_splits)
  qed (auto simp: valid_indicator_def split: option.splits)
qed (simp add: indicator_covers_def)

lemma prefixStrings_canonical:
  assumes "\<forall>q\<in>set qs. canonical q" and "sorted (map PrefixString qs)"
  shows "prefixStrings qs = map PrefixString qs"
proof -
  have "filter PrefixIsValid qs = qs" using assms(1) by (simp add: canonical_def)
  moreover have "map (\<lambda>p. PrefixString (canonicalPrefix p)) qs = map PrefixString qs" using assms(1) by simp
  ultimately show ?thesis using assms(2) unfolding prefixStrings_def by (metis sorted_sort_id)
qed

lemma indicator_covers_strings:
  assumes "\<forall>q\<in>set qs. canonical q"
  shows "indicator_covers (map PrefixString qs) a = covered qs a"
  using assms by (induction qs) (auto simp: indicator_covers_def ParsePrefix_String)

lemma PrefixZero_ok [simp]: "prefix_ok PrefixZero" "canonicalPrefix PrefixZero = PrefixZero"
  by (simp_all add: prefix_ok_def PrefixZero_def canonicalPrefix_def PrefixIsValid_def)

lemma canonical_or_zero:
  assumes "\<forall>p\<in>set ps. canonical p \<or> p = PrefixZero"
  shows "map canonicalPrefix ps = ps" and "\<forall>p\<in>set ps. prefix_ok p"
proof -
  show "map canonicalPrefix ps = ps" by (rule map_idI) (use assms in auto)
  show "\<forall>p\<in>set ps. prefix_ok p" using assms by (auto simp: canonical_ok)
qed

text \<open>All that is known of a run of the compiler.\<close>

lemma compile_spec:
  assumes ok: "\<forall>p\<in>set protected. prefix_ok p"
  shows "if list_all valid_indicator values
    then (compileEnforcementIndicators values protected = Inl (Err ''protected network subtraction exceeded enforcement boundary'') \<or>
      (\<exists>qs. compileEnforcementIndicators values protected =
         (if maximumEnforcementIndicators < int (length qs) then Inl (Err ''compiled enforcement boundary exceeded'')
          else Inr (map PrefixString qs)) \<and>
        (\<forall>q\<in>set qs. canonical q) \<and> disjoint_prefixes qs \<and> sorted (map PrefixString qs) \<and>
        (\<not> indicator_covers values mapped_base \<longrightarrow>
         (\<forall>a. covered qs a \<longleftrightarrow> indicator_covers values a \<and> \<not> covered (map canonicalPrefix protected) a))))
    else compileEnforcementIndicators values protected = Inl (Err ''blocking indicator compilation rejected invalid prefix'')"
proof (cases "list_all valid_indicator values")
  case True
  obtain b0 where b0: "parseBlocks values = Inr b0" "\<And>a. covered b0 a = indicator_covers values a"
    "\<forall>p\<in>set b0. canonical p \<or> p = PrefixZero" using parseBlocks_spec [of "values"] True by auto
  have union: "(\<exists>p\<in>set ps. Contains (canonicalPrefix p) a) = covered (map canonicalPrefix ps) a" for ps a
    by (simp add: covered_def)
  have weak: "\<forall>p\<in>set ps. canonical p \<Longrightarrow> \<forall>p\<in>set ps. canonical p \<or> p = PrefixZero" for ps by blast
  obtain b1 where b1: "compactPrefixUnion b0 = Inr b1" "\<forall>p\<in>set b1. canonical p"
      "\<And>a. covered b1 a = covered b0 a"
    using compactPrefixUnion_spec [OF canonical_or_zero(2) [OF b0(3)]] unfolding union canonical_or_zero(1) [OF b0(3)] by metis
  obtain pr where pr: "compactPrefixUnion protected = Inr pr" "\<forall>p\<in>set pr. canonical p"
      "\<And>a. covered pr a = covered (map canonicalPrefix protected) a"
    using compactPrefixUnion_spec [OF ok] unfolding union by metis
  note trie = buildPrefixTrie_spec [OF canonical_or_zero(2) [OF weak [OF pr(2)]], unfolded union canonical_or_zero(1) [OF weak [OF pr(2)]]]
  have none: "\<forall>p\<in>set b1. \<not> Contains p mapped_base" if "\<not> indicator_covers values mapped_base"
    using that b1(3) [of mapped_base] b0(2) [of mapped_base] by (auto simp: covered_def)
  from subtractBlocks_spec [OF trie(1) b1(2), of "[]"]
  consider "subtractBlocks (buildPrefixTrie pr) [] b1 = Inl (Err ''protected network subtraction exceeded enforcement boundary'')"
    | out where "subtractBlocks (buildPrefixTrie pr) [] b1 = Inr out" "\<forall>p\<in>set out. canonical p"
      "(\<forall>p\<in>set b1. \<not> Contains p mapped_base) \<longrightarrow>
       (\<forall>a. covered out a \<longleftrightarrow> covered b1 a \<and> \<not> prefixTrie_has (buildPrefixTrie pr) a)" by auto
  then show ?thesis
  proof cases
    case 1
    with True b0(1) b1(1) pr(1) show ?thesis by (simp add: compileEnforcementIndicators_def)
  next
    case 2
    obtain qs where qs: "compactPrefixUnion out = Inr qs" "\<forall>p\<in>set qs. canonical p" "disjoint_prefixes qs"
      "sorted (map PrefixString qs)" "\<And>a. covered qs a = covered out a"
      using compactPrefixUnion_spec [OF canonical_or_zero(2) [OF weak [OF 2(2)]]] unfolding union canonical_or_zero(1) [OF weak [OF 2(2)]] by metis
    have run: "compileEnforcementIndicators values protected =
       (if maximumEnforcementIndicators < int (length qs) then Inl (Err ''compiled enforcement boundary exceeded'')
          else Inr (map PrefixString qs))"
      using b0(1) b1(1) pr(1) 2(1) qs(1) prefixStrings_canonical [OF qs(2,4)]
      by (simp add: compileEnforcementIndicators_def)
    have "\<not> indicator_covers values mapped_base \<longrightarrow>
         (\<forall>a. covered qs a \<longleftrightarrow> indicator_covers values a \<and> \<not> covered (map canonicalPrefix protected) a)"
      using 2(3) none by (simp add: qs(5) trie(2) pr(3) b1(3) b0(2))
    with True run qs(2-4) show ?thesis by auto
  qed
next
  case False
  then show ?thesis using parseBlocks_spec [of "values"] by (simp add: compileEnforcementIndicators_def)
qed

section \<open>Properties of the compiler\<close>

text \<open>
  C3 [compile_is_difference]: the compiled indicators name exactly the addresses that some blocking
  indicator names and no protected network contains, provided no indicator contains the base of
  the IPv4-mapped range (\<open>::ffff:0:0\<close>).
\<close>

theorem compile_is_difference:
  assumes "compileEnforcementIndicators values protected = Inr out"
    and "\<forall>p\<in>set protected. prefix_ok p" and "\<not> indicator_covers values mapped_base"
  shows "indicator_covers out a \<longleftrightarrow> indicator_covers values a \<and> \<not> covered (map canonicalPrefix protected) a"
  using compile_spec [OF assms(2), of "values"] assms(1,3) indicator_covers_strings
  by (auto split: if_splits)

text \<open>
  A compiled list is sorted and free of duplicates, has at most 250000
  entries, each the text of a canonical prefix, and no address lies in two of them. This needs no
  condition on the indicators.
\<close>

lemma compile_normal_form:
  assumes "compileEnforcementIndicators values protected = Inr out" and "\<forall>p\<in>set protected. prefix_ok p"
  shows "sorted out \<and> distinct out \<and> int (length out) \<le> maximumEnforcementIndicators \<and>
    (\<exists>qs. out = map PrefixString qs \<and> map ParsePrefix out = map Some qs \<and>
       list_all canonical qs \<and> disjoint_prefixes qs)"
proof -
  obtain qs where qs: "out = map PrefixString qs" "int (length qs) \<le> maximumEnforcementIndicators"
    "\<forall>q\<in>set qs. canonical q" "disjoint_prefixes qs" "sorted (map PrefixString qs)"
    using compile_spec [OF assms(2), of "values"] assms(1) by (auto split: if_splits)
  have "inj_on PrefixString (set qs)" using qs(3) PrefixString_inj by (meson inj_onI)
  then have "distinct out" using qs(1,4) by (simp add: distinct_map disjoint_prefixes_def)
  moreover have "map ParsePrefix out = map Some qs" using qs(1,3) by (simp add: ParsePrefix_String)
  ultimately show ?thesis using qs by (auto simp: list_all_iff)
qed

text \<open>
  The compiler never panics: the index into the address bytes in
  \<open>splitPrefix\<close> is always in range. It rejects a list exactly when it holds an indicator that does
  not parse or is not a valid threat prefix; every other list is compiled or refused with one of
  the two boundary errors.
\<close>

lemma compile_total:
  assumes "\<forall>p\<in>set protected. prefix_ok p"
  shows "(\<not> list_all valid_indicator values \<longleftrightarrow> compileEnforcementIndicators values protected =
      Inl (Err ''blocking indicator compilation rejected invalid prefix'')) \<and>
    (list_all valid_indicator values \<longrightarrow>
      (\<exists>out. compileEnforcementIndicators values protected = Inr out) \<or>
      compileEnforcementIndicators values protected = Inl (Err ''protected network subtraction exceeded enforcement boundary'') \<or>
      compileEnforcementIndicators values protected = Inl (Err ''compiled enforcement boundary exceeded''))"
proof -
  have "\<not> ''blocking indicator compilation rejected invalid prefix'' = ''compiled enforcement boundary exceeded''"
    "\<not> ''blocking indicator compilation rejected invalid prefix'' =
       ''protected network subtraction exceeded enforcement boundary''" by simp_all
  then show ?thesis using compile_spec [OF assms, of "values"] by (auto split: if_splits)
qed

lemma compile_example:
  "compileEnforcementIndicators [''8.0.0.0/8''] [\<lparr>ip = Addr4 0x08000000, bitsPlusOne = 10\<rparr>] = Inr [''8.128.0.0/9'']"
  by code_simp

lemma example_side:
  "prefix_ok \<lparr>ip = Addr4 0x08000000, bitsPlusOne = 10\<rparr>" "valid_indicator ''8.0.0.0/8''"
  "\<not> indicator_covers [''8.0.0.0/8''] mapped_base"
  by code_simp+

theorem compile_is_difference_witness:
  "indicator_covers [''8.128.0.0/9''] (Addr4 0x08800001) \<longleftrightarrow> indicator_covers [''8.0.0.0/8''] (Addr4 0x08800001) \<and>
     \<not> covered (map canonicalPrefix [\<lparr>ip = Addr4 0x08000000, bitsPlusOne = 10\<rparr>]) (Addr4 0x08800001)"
  by (rule compile_is_difference [OF compile_example]) (simp_all add: example_side)

text \<open>
  The result of the compiler depends only on the addresses named by the
  indicators and by the protected networks, so neither the order of the feeds nor the way a range
  is split into prefixes changes the enforced list.
\<close>

lemma compile_extensional:
  assumes "list_all valid_indicator values" and "list_all valid_indicator values'"
    and "\<forall>p\<in>set protected. prefix_ok p" and "\<forall>p\<in>set protected'. prefix_ok p"
    and "\<And>a. indicator_covers values a = indicator_covers values' a"
    and "\<And>a. covered (map canonicalPrefix protected) a = covered (map canonicalPrefix protected') a"
  shows "compileEnforcementIndicators values protected = compileEnforcementIndicators values' protected'"
proof -
  obtain ps where ps: "parseBlocks values = Inr ps" "\<And>a. covered ps a = indicator_covers values a"
    "\<forall>p\<in>set ps. canonical p \<or> p = PrefixZero" using parseBlocks_spec [of "values"] assms(1) by auto
  obtain qs where qs: "parseBlocks values' = Inr qs" "\<And>a. covered qs a = indicator_covers values' a"
    "\<forall>p\<in>set qs. canonical p \<or> p = PrefixZero" using parseBlocks_spec [of "values'"] assms(2) by auto
  have "compactPrefixUnion ps = compactPrefixUnion qs"
    by (rule compactPrefixUnion_unique) (simp_all add: canonical_or_zero [OF ps(3)] canonical_or_zero [OF qs(3)] ps(2) qs(2) assms(5))
  moreover have "compactPrefixUnion protected = compactPrefixUnion protected'"
    by (rule compactPrefixUnion_unique) (use assms in simp_all)
  ultimately show ?thesis using ps(1) qs(1) by (simp add: compileEnforcementIndicators_def)
qed

section \<open>The IPv4-mapped range\<close>

text \<open>A single prefix is compacted to itself.\<close>

lemma collect_single:
  assumes p: "canonical p" "bitsPlusOne p = Suc b" and q: "canonical q" "bitsPlusOne q = Suc d"
    and "d \<le> b" "Contains q (ip p)"
  shows "collectTriePrefixes (insertPrefix freshNode p d) q = Inr [p]"
  using q assms(5,6)
proof (induction "b - d" arbitrary: q d)
  case 0
  then have db: "d = b" by simp
  have "q = p"
  proof (rule canonical_eqI)
    show "BitLen (ip q) = BitLen (ip p)" using 0(2,5,3) by (simp add: Contains_canonical same_family_def)
    show "agree (ip q) (ip p) 0 (bitsPlusOne q - 1)" using 0(2,3,5) by (simp add: Contains_canonical)
  qed (use p 0 db in auto)
  moreover have "insertPrefix freshNode p b = TrieNode True NilNode NilNode"
    using insertPrefix_end [OF p(2), of freshNode] by (simp add: freshNode_def)
  ultimately show ?case using db p(1) by simp
next
  case (Suc k)
  have d: "d < b" using Suc.hyps(2) by simp
  have len: "BitLen (ip q) = BitLen (ip p)" using Suc.prems by (simp add: Contains_canonical same_family_def)
  have b: "b \<le> BitLen (ip p)" using p by (simp add: canonical_def)
  then have dl: "d < BitLen (ip q)" using d len by simp
  obtain l r where s: "splitPrefix q = Inr (l, r)"
    and l: "canonical l" "bitsPlusOne l = Suc (Suc d)" "\<And>a. Contains l a \<longleftrightarrow> Contains q a \<and> \<not> abit a d"
    and r: "prefix_ok r" "bitsPlusOne r = Suc (Suc d)" "\<And>a. Contains r a \<longleftrightarrow> Contains q a \<and> abit a d"
    "canonical r \<or> Is4In6 (ip r) \<and> d = 95 \<and> Is6 (ip q) \<and> agree (ip q) mapped_base 0 d \<and> abit mapped_base d"
    using split_halves [OF Suc.prems(1,2) dl] by metis
  have pl: "plain (ip p)" using p by (simp add: canonical_def)
  have step: "insertPrefix freshNode p d = (if abit (ip p) d then joinNodes NilNode (insertPrefix freshNode p (Suc d))
     else joinNodes (insertPrefix freshNode p (Suc d)) NilNode)"
    using insertPrefix_step [OF pl p(2) d, of NilNode NilNode] by (simp add: freshNode_def orFresh_def)
  have rp: "canonical r" if "abit (ip p) d"
  proof (rule ccontr)
    assume "\<not> canonical r"
    then have "Is6 (ip q)" "d = 95" "agree (ip q) mapped_base 0 95" "abit mapped_base 95" using r(4) by auto
    moreover have "agree (ip q) (ip p) 0 95" using Suc.prems(1,2,4) \<open>d = 95\<close> by (simp add: Contains_canonical)
    ultimately have "agree (ip p) mapped_base 0 (Suc 95)"
      using that unfolding agree_snoc by (meson agree_sym agree_trans)
    moreover have "Is6 (ip p)" using len \<open>Is6 (ip q)\<close> by (simp flip: BitLen_cases)
    ultimately have "Is4In6 (ip p)" using Is4In6_agree by simp
    then show False using pl by (simp add: plain_def)
  qed
  have bits: "\<not> int (BitLen (ip q)) \<le> Bits q" using dl Suc.prems(2) by (simp add: Bits_def)
  have IH: "collectTriePrefixes (insertPrefix freshNode p (Suc d)) x = Inr [p]"
    if "canonical x" "bitsPlusOne x = Suc (Suc d)" "Contains x (ip p)" for x
    using Suc.hyps(1) [of "Suc d" x] Suc.hyps(2) d that by simp
  show ?case
    using IH [of l] IH [of r] l r rp s step bits Suc.prems(4) by (auto simp: joinNodes_def)
qed

lemma compactPrefixUnion_single:
  assumes "canonical p"
  shows "compactPrefixUnion [p] = Inr [p]"
proof -
  obtain b where b: "bitsPlusOne p = Suc b"
    using assms by (cases "bitsPlusOne p") (auto simp: canonical_def PrefixIsValid_def)
  have v: "PrefixIsValid p" using assms by (simp add: canonical_def)
  have c: "Contains (if Is4 (ip p) then all4 else all6) (ip p)"
    using assms by (cases "ip p") (auto simp: Contains_all canonical_def plain_def)
  show ?thesis
    using assms v c collect_single [OF assms b, of all4 0] collect_single [OF assms b, of all6 0] canonical_all
    by (cases "Is4 (ip p)")
       (simp_all add: compactPrefixUnion_def buildPrefixTrie_def trie_step_def Let_def)
qed

lemma insert_fresh_step:
  assumes "plain (ip p)" and "bitsPlusOne p = Suc b" and "d < b"
  shows "insertPrefix freshNode p d = (if abit (ip p) d then TrieNode False NilNode (insertPrefix freshNode p (Suc d))
     else TrieNode False (insertPrefix freshNode p (Suc d)) NilNode)"
  using insertPrefix_step [OF assms, of NilNode NilNode] by (simp add: freshNode_def orFresh_def joinNodes_def)

lemma nodeFor_chain:
  assumes p: "plain (ip p)" "bitsPlusOne p = Suc c" and a: "plain a" "agree (ip p) a d b" and "d \<le> b" "b < c"
  shows "nodeFor_loop (b - d) d (insertPrefix freshNode p d) a = (insertPrefix freshNode p b, False)"
  using a(2) assms(5)
proof (induction "b - d" arbitrary: d)
  case 0
  then show ?case using insert_fresh_step [OF p, of b] assms(6) by (simp split: if_splits)
next
  case (Suc k)
  have d: "d < b" "d < c" "k = b - Suc d" using Suc.hyps(2) assms(6) by auto
  have "insertPrefix freshNode p (Suc d) \<noteq> NilNode"
    using insertPrefix_has [OF p, of "Suc d" freshNode] d assms(6) by (simp add: freshNode_def)
  moreover have "agree (ip p) a (Suc d) b" and bit: "abit (ip p) d = abit a d"
    using Suc.prems(1) d(1) by (simp_all add: agree_step)
  then have "nodeFor_loop (b - Suc d) (Suc d) (insertPrefix freshNode p (Suc d)) a = (insertPrefix freshNode p b, False)"
    using Suc.hyps(1) [OF d(3)] d(1) by simp
  moreover have "b - d = Suc (b - Suc d)" using d(1) by simp
  ultimately show ?case
    using insert_fresh_step [OF p d(2)] addressBit_abit [OF a(1), of d] bit by (simp add: Let_def)
qed

definition gap_block :: prefix where
  "gap_block = \<lparr>ip = Addr6 0xFFFE00000000 [], bitsPlusOne = 96\<rparr>"

definition gap_protected :: "prefix list" where
  "gap_protected = [\<lparr>ip = Addr4 0x08080808, bitsPlusOne = 33\<rparr>, \<lparr>ip = Addr6 0xFFFE00000000 [], bitsPlusOne = 98\<rparr>]"

lemma zero_scan_one:
  "zero_scan [0,0,0,0,0,x,0,0] = (if x = 0 then (0,8) else (0,5))"
  by (simp add: zero_scan_def zero_run_at_def upt_rec)
lemma append_hex_fffe:
  "append_hex 0xfffe = ''fffe''" "append_hex 0 = ''0''"
  by (simp_all add: append_hex_def hex_char_def char_of_def bit_0)
lemma string6_gap:
  "string6 [0,0,0,0,0,0xfffe,0,0] = ''::fffe:0:0''"
  by (simp add: string6_def zero_scan_one append_hex_fffe)
lemma PrefixString_gap:
  "PrefixString gap_block = ''::fffe:0:0/95''"
proof -
  have "\<not> Is4In6 (Addr6 0xFFFE00000000 [])" by code_simp
  moreover have "itoa 95 = ''95''" by code_simp
  moreover have "groups6 0xFFFE00000000 = [0,0,0,0,0,0xfffe,0,0]"
  proof -
    have "map (v6u16 0xFFFE00000000) [0..<8] = [0,0,0,0,0,0xfffe,0,0]" by code_simp
    then have "map unat (map (v6u16 0xFFFE00000000) [0..<8]) = [0,0,0,0,0,0xfffe,0,0]"
      by (simp only: list.map) simp
    then show ?thesis by (simp only: groups6_def list.map_comp comp_def)
  qed
  ultimately show ?thesis using string6_gap by (simp add: gap_block_def PrefixString_def PrefixIsValid_def Bits_def del: Is4In6.simps)
qed

lemma gap_canonical:
  "canonical gap_block" "canonical (gap_protected ! 0)" "canonical (gap_protected ! 1)"
  unfolding gap_block_def gap_protected_def
  by (rule canonical_fixI; code_simp)+

lemma compactPrefixUnion_pair:
  assumes p: "canonical p" "Is4 (ip p)" and q: "canonical q" "Is6 (ip q)" and xs: "xs = [p, q] \<or> xs = [q, p]"
  shows "root6 (buildPrefixTrie xs) = insertPrefix freshNode q 0"
    and "\<exists>qs. compactPrefixUnion xs = Inr qs \<and> (qs = [p, q] \<or> qs = [q, p])"
proof -
  obtain b c where bc: "bitsPlusOne p = Suc b" "bitsPlusOne q = Suc c"
    using p(1) q(1) by (cases "bitsPlusOne p"; cases "bitsPlusOne q") (auto simp: canonical_def PrefixIsValid_def)
  have v: "PrefixIsValid p" "PrefixIsValid q" "\<not> Is4 (ip q)" "\<not> hasZone (ip q)"
    using p(1) q by (cases "ip q"; simp add: canonical_def plain_def)+
  have build: "buildPrefixTrie xs = \<lparr>root4 = insertPrefix freshNode p 0, root6 = insertPrefix freshNode q 0\<rparr>"
    using xs p q v by (auto simp: buildPrefixTrie_def trie_step_def Let_def)
  then show "root6 (buildPrefixTrie xs) = insertPrefix freshNode q 0" by simp
  have "compactPrefixUnion xs = Inr (sort_key PrefixString [p, q])"
    using collect_single [OF p(1) bc(1), of all4 0] collect_single [OF q(1) bc(2), of all6 0] canonical_all p q v
    by (simp add: compactPrefixUnion_def build Contains_all)
  then show "\<exists>qs. compactPrefixUnion xs = Inr qs \<and> (qs = [p, q] \<or> qs = [q, p])" by simp
qed

lemma gap_protected_sel:
  "gap_protected = [gap_protected ! 0, gap_protected ! 1]" "Is4 (ip (gap_protected ! 0))" "Is6 (ip (gap_protected ! 1))"
  by (simp_all add: gap_protected_def)

lemma gap_subtract:
  assumes "root6 trie = insertPrefix freshNode (gap_protected ! 1) 0"
  shows "subtractBlocks trie [] [gap_block] = Inr [\<lparr>ip = Addr6 0xFFFE80000000 [], bitsPlusOne = 98\<rparr>, all4]"
proof -
  have "agree (ip gap_block) (ip (gap_protected ! 1)) 0 95" by (simp add: gap_block_def gap_protected_def)
  then have "nodeFor_loop 95 0 (insertPrefix freshNode (gap_protected ! 1) 0) (ip gap_block) =
      (insertPrefix freshNode (gap_protected ! 1) 95, False)"
    using nodeFor_chain [of "gap_protected ! 1" 97 "ip gap_block" 0 95] gap_canonical
    by (simp add: canonical_def gap_protected_def agree_sym)
  moreover have "insertPrefix freshNode (gap_protected ! 1) 95 =
      TrieNode False (TrieNode False (TrieNode True NilNode NilNode) NilNode) NilNode" by code_simp
  moreover have "insertPrefix freshNode (gap_protected ! 1) 0 \<noteq> NilNode"
    using insertPrefix_has [of "gap_protected ! 1" 97 0 freshNode] gap_canonical(3)
    by (simp add: canonical_def freshNode_def) (simp add: gap_protected_def)
  moreover have "PrefixIsValid gap_block" "\<not> Is4 (ip gap_block)" "nat (Bits gap_block) = 95"
    by (simp_all add: gap_block_def PrefixIsValid_def Bits_def)
  ultimately have "nodeFor trie gap_block =
      (TrieNode False (TrieNode False (TrieNode True NilNode NilNode) NilNode) NilNode, False)"
    using assms gap_canonical(1) by (simp add: nodeFor_def Let_def)
  moreover have "subtractProtected (TrieNode False (TrieNode False (TrieNode True NilNode NilNode) NilNode) NilNode) gap_block
      = Inr [\<lparr>ip = Addr6 0xFFFE80000000 [], bitsPlusOne = 98\<rparr>, all4]" by code_simp
  ultimately show ?thesis by (simp add: maximumEnforcementIndicators_def)
qed

text \<open>The subtraction from a block that contains the base of the mapped range reaches the half \<open>::ffff:0:0/96\<close>.\<close>

lemma canonicalPrefix_mapped_half:
  assumes "prefix_ok r" and "Is4In6 (ip r)" and "bitsPlusOne r = 97"
  shows "canonicalPrefix r = all4"
proof -
  have "NOT (mask 32) = (0 :: 32 word)" by code_simp
  then show ?thesis
    using assms by (cases "ip r") (auto simp: canonicalPrefix_def Let_def PrefixIsValid_def Bits_def all4_def PrefixFrom_def Masked_def)
qed

lemma Contains_mapped_base:
  assumes "canonical p" and "bitsPlusOne p = Suc b"
  shows "Contains p mapped_base \<longleftrightarrow> Is6 (ip p) \<and> agree (ip p) mapped_base 0 b"
  using assms by (cases "ip p") (auto simp: Contains_canonical same_family_def mapped_base_def)

lemma subtract_reaches_mapped:
  assumes "canonical p" and "bitsPlusOne p = Suc b" and "b \<le> 95" and "Contains p mapped_base"
    and "stops t mapped_base b 96" and "\<not> trie_has t mapped_base b" and "trie_has t a b" and "agree a mapped_base b 95"
    and "subtractProtected t p = Inr ps"
  shows "all4 \<in> set ps"
  using assms
proof (induction t arbitrary: p b ps)
  case (TrieNode t z n)
  note c = TrieNode.prems(1,2)
  have six: "Is6 (ip p)" "agree (ip p) mapped_base 0 b" using TrieNode.prems(4) Contains_mapped_base [OF c] by simp_all
  then have b: "b < BitLen (ip p)" using TrieNode.prems(3) by (cases "ip p") auto
  have t: "\<not> t" using TrieNode.prems(6) by auto
  obtain l r where s: "splitPrefix p = Inr (l, r)"
    and l: "canonical l" "bitsPlusOne l = Suc (Suc b)" "\<And>a. Contains l a \<longleftrightarrow> Contains p a \<and> \<not> abit a b"
    and r: "prefix_ok r" "bitsPlusOne r = Suc (Suc b)" "\<And>a. Contains r a \<longleftrightarrow> Contains p a \<and> abit a b"
      "canonical r \<or> Is4In6 (ip r) \<and> b = 95 \<and> Is6 (ip p) \<and> agree (ip p) mapped_base 0 b \<and> abit mapped_base b"
    using split_halves [OF c b] by metis
  have "\<not> int (BitLen (ip p)) \<le> Bits p" using b c(2) by (simp add: Bits_def)
  then obtain xs ys where xy: "subtractProtected z l = Inr xs" "subtractProtected n r = Inr ys" "ps = xs @ ys"
    using TrieNode.prems(9) t s by (auto simp: bind_outcome_eq_Inr)
  show ?case
  proof (cases "b = 95")
    case True
    have "abit mapped_base 95" by (simp add: mapped_base_abit)
    then have "n = NilNode" using TrieNode.prems(5) t True by (cases n) auto
    moreover have "Contains r mapped_base" using r(3) TrieNode.prems(4) True \<open>abit mapped_base 95\<close> by simp
    then have "Is4In6 (ip r)"
      using r(4) Contains_mapped_base [OF _ r(2)] True Is4In6_agree by auto
    ultimately show ?thesis using xy canonicalPrefix_mapped_half [OF r(1)] r(2) True by auto
  next
    case False
    then have b95: "Suc b \<le> 95" and bit: "abit a b = abit mapped_base b" and ag: "agree a mapped_base (Suc b) 95"
      using TrieNode.prems(3,8) by (simp_all add: agree_step)
    show ?thesis
    proof (cases "abit mapped_base b")
      case True
      have "all4 \<in> set ys"
        by (rule TrieNode.IH(2) [OF _ r(2) b95 _ _ _ _ ag xy(2)]) (use r(3,4) False True TrieNode.prems t bit in auto)
      then show ?thesis using xy(3) by simp
    next
      case right: False
      have "all4 \<in> set xs"
        by (rule TrieNode.IH(1) [OF l(1,2) b95 _ _ _ _ ag xy(1)]) (use l(3) right TrieNode.prems t bit in auto)
      then show ?thesis using xy(3) by simp
    qed
  qed
qed simp

lemma subtractBlocks_keeps: "subtractBlocks trie compiled blocks = Inr out \<Longrightarrow> set compiled \<subseteq> set out"
proof (induction blocks arbitrary: compiled)
  case (Cons q blocks)
  obtain ps where "subtractBlocks trie (compiled @ ps) blocks = Inr out"
    using Cons.prems unfolding subtractBlocks_step by (auto simp: bind_outcome_eq_Inr split: if_splits)
  from Cons.IH [OF this] show ?case by simp
qed simp

lemma subtractBlocks_part:
  assumes "subtractBlocks trie compiled blocks = Inr out" and "p \<in> set blocks"
  shows "\<exists>ps. block_part trie p = Inr ps \<and> set ps \<subseteq> set out"
  using assms
proof (induction blocks arbitrary: compiled)
  case (Cons q blocks)
  obtain ps where ps: "block_part trie q = Inr ps" "subtractBlocks trie (compiled @ ps) blocks = Inr out"
    using Cons.prems(1) unfolding subtractBlocks_step by (auto simp: bind_outcome_eq_Inr split: if_splits)
  then show ?case using Cons.IH [OF ps(2)] Cons.prems(2) subtractBlocks_keeps [OF ps(2)] by auto
qed simp

lemma block_part_mapped:
  assumes ok: "prefixTrie_ok trie" and c: "canonical p" and "Contains p mapped_base" and "\<not> prefixTrie_has trie mapped_base"
    and a: "prefixTrie_has trie a" "Contains gap_block a" and "block_part trie p = Inr ps"
  shows "all4 \<in> set ps"
proof -
  obtain b where b: "bitsPlusOne p = Suc b"
    using c by (cases "bitsPlusOne p") (auto simp: canonical_def PrefixIsValid_def)
  have six: "Is6 (ip p)" "agree (ip p) mapped_base 0 b" using assms(3) Contains_mapped_base [OF c b] by simp_all
  have b95: "b \<le> 95"
  proof (rule ccontr)
    assume "\<not> b \<le> 95"
    then have "agree (ip p) mapped_base 0 96" using six(2) by (simp add: agree_def)
    then show False using six(1) Is4In6_agree c by (auto simp: canonical_def plain_def)
  qed
  have "Contains gap_block mapped_base" by code_simp
  then have gap: "agree (ip gap_block) mapped_base 0 95" using Contains_mapped_base [OF gap_canonical(1)] by (simp add: gap_block_def)
  have a95: "agree a mapped_base 0 95" and az: "Is6 a" "\<not> hasZone a"
    using a(2) gap_canonical(1) gap by (cases a; auto simp: Contains_canonical same_family_def gap_block_def agree_def)+
  then have pa: "Contains p a" using c b six b95 by (cases "ip p"; cases a) (auto simp: Contains_canonical same_family_def agree_def)
  obtain node cov where nf: "nodeFor trie p = (node, cov)" by fastforce
  note spec = nodeFor_spec [OF ok c b nf]
  have cov: "\<not> cov" using spec(1) assms(3,4) by blast
  have has: "trie_has node a b" "\<not> trie_has node mapped_base b" using spec(2) [OF cov] pa assms(3,4) a(1) by blast+
  then have "subtractProtected node p = Inr ps" using assms(7) nf cov by (auto simp: block_part_def split: if_splits)
  moreover have "agree a mapped_base b 95" using a95 by (simp add: agree_def)
  moreover have "stops node mapped_base b 96" using spec(4) [OF cov] six by simp
  ultimately show ?thesis using subtract_reaches_mapped [OF c b b95 assms(3) _ has(2,1)] by blast
qed

lemma gap_compiles: "\<exists>out. compileEnforcementIndicators [''::fffe:0:0/95''] gap_protected = Inr out"
proof -
  have pp: "ParsePrefix ''::fffe:0:0/95'' = Some gap_block"
    using ParsePrefix_String [OF gap_canonical(1)] by (simp add: PrefixString_gap)
  have "validThreatPrefix gap_block" by code_simp
  then have parse: "parseBlocks [''::fffe:0:0/95''] = Inr [gap_block]" using pp gap_canonical(1) by simp
  obtain pr where pr: "compactPrefixUnion gap_protected = Inr pr"
      "root6 (buildPrefixTrie pr) = insertPrefix freshNode (gap_protected ! 1) 0" 
    using compactPrefixUnion_pair [OF gap_canonical(2) _ gap_canonical(3)] by (metis gap_protected_sel)
  let ?l = "\<lparr>ip = Addr6 0xFFFE80000000 [], bitsPlusOne = 98\<rparr>"
  have l: "canonical ?l" by (rule canonical_fixI; code_simp)
  obtain qs where qs: "compactPrefixUnion [?l, all4] = Inr qs" "qs = [all4, ?l] \<or> qs = [?l, all4]"
    using compactPrefixUnion_pair(2) [OF canonical_all(1) _ l, of "[?l, all4]"] by (auto simp: all4_def PrefixFrom_def)
  have ok: "\<forall>p\<in>set [?l, all4]. prefix_ok p" using l canonical_all(1) by (simp add: canonical_ok)
  have can: "\<forall>q\<in>set qs. canonical q" "sorted (map PrefixString qs)"
    using compactPrefixUnion_spec [OF ok] qs(1) by auto
  have len: "length qs = 2" using qs(2) by auto
  have "compileEnforcementIndicators [''::fffe:0:0/95''] gap_protected = Inr (map PrefixString qs)"
    using parse compactPrefixUnion_single [OF gap_canonical(1)] pr(1) gap_subtract [OF pr(2)] qs(1) len
      prefixStrings_canonical [OF can]
    by (simp add: compileEnforcementIndicators_def maximumEnforcementIndicators_def)
  then show ?thesis by blast
qed

text \<open>
  C40 [compile_blocks_all_ipv4]: the condition of \<open>compile_is_difference\<close> cannot be dropped. When a
  successful run has an indicator that contains \<open>::ffff:0:0\<close>, no protected network contains it, but some
  protected network has an address in \<open>::fffe:0:0/95\<close>, then the subtraction reaches the half \<open>::ffff:0:0/96\<close>,
  whose canonical form is \<open>0.0.0.0/0\<close>: the compiled list blocks every IPv4 address, the protected ones
  included.
\<close>

theorem compile_blocks_all_ipv4:
  assumes "compileEnforcementIndicators values protected = Inr out" and "\<forall>p\<in>set protected. prefix_ok p"
    and "indicator_covers values mapped_base" and "\<not> covered (map canonicalPrefix protected) mapped_base"
    and "covered (map canonicalPrefix protected) a" and "Contains gap_block a"
  shows "indicator_covers out (Addr4 w)"
proof -
  have valid: "list_all valid_indicator values" using compile_total [OF assms(2), of "values"] assms(1) by auto
  obtain b0 where b0: "parseBlocks values = Inr b0" "\<And>a. covered b0 a = indicator_covers values a"
    "\<forall>p\<in>set b0. canonical p \<or> p = PrefixZero" using parseBlocks_spec [of "values"] valid by auto
  have union: "(\<exists>p\<in>set ps. Contains (canonicalPrefix p) a) = covered (map canonicalPrefix ps) a" for ps a
    by (simp add: covered_def)
  have weak: "\<forall>p\<in>set ps. canonical p \<Longrightarrow> \<forall>p\<in>set ps. canonical p \<or> p = PrefixZero" for ps by blast
  obtain b1 where b1: "compactPrefixUnion b0 = Inr b1" "\<forall>p\<in>set b1. canonical p" "\<And>a. covered b1 a = covered b0 a"
    using compactPrefixUnion_spec [OF canonical_or_zero(2) [OF b0(3)]] unfolding union canonical_or_zero(1) [OF b0(3)] by metis
  obtain pr where pr: "compactPrefixUnion protected = Inr pr" "\<forall>p\<in>set pr. canonical p"
      "\<And>a. covered pr a = covered (map canonicalPrefix protected) a"
    using compactPrefixUnion_spec [OF assms(2)] unfolding union by metis
  note trie = buildPrefixTrie_spec [OF canonical_or_zero(2) [OF weak [OF pr(2)]], unfolded union canonical_or_zero(1) [OF weak [OF pr(2)]]]
  obtain p where p: "p \<in> set b1" "Contains p mapped_base"
    using assms(3) b0(2) b1(3) by (metis covered_def)
  obtain c0 qs where run: "subtractBlocks (buildPrefixTrie pr) [] b1 = Inr c0" "compactPrefixUnion c0 = Inr qs" "out = prefixStrings qs"
    using assms(1) b0(1) b1(1) pr(1) by (auto simp: compileEnforcementIndicators_def bind_outcome_eq_Inr split: if_splits)
  obtain ps where ps: "block_part (buildPrefixTrie pr) p = Inr ps" "set ps \<subseteq> set c0" using subtractBlocks_part [OF run(1) p(1)] by blast
  have "all4 \<in> set ps"
    by (rule block_part_mapped [OF trie(1) _ p(2) _ _ assms(6) ps(1)]) (use b1(2) p(1) trie(2) pr(3) assms(4,5) in auto)
  then have cov: "covered c0 (Addr4 w)" using ps(2) Contains_all(1) [of "Addr4 w"] unfolding covered_def by auto
  have can: "\<forall>p\<in>set c0. canonical p" using subtractBlocks_spec [OF trie(1) b1(2), of "[]"] run(1) by auto
  obtain qs' where qs: "compactPrefixUnion c0 = Inr qs'" "\<forall>p\<in>set qs'. canonical p" "sorted (map PrefixString qs')" "\<And>a. covered qs' a = covered c0 a"
    using compactPrefixUnion_spec [OF canonical_or_zero(2) [OF weak [OF can]]] unfolding union canonical_or_zero(1) [OF weak [OF can]] by metis
  then show ?thesis using run(2,3) cov prefixStrings_canonical [OF qs(2,3)] indicator_covers_strings [OF qs(2)] by simp
qed

theorem compile_blocks_all_ipv4_witness:
  "\<exists>out. compileEnforcementIndicators [''::fffe:0:0/95''] gap_protected = Inr out \<and>
     indicator_covers out (Addr4 0x08080808) \<and> covered gap_protected (Addr4 0x08080808)"
proof -
  obtain out where out: "compileEnforcementIndicators [''::fffe:0:0/95''] gap_protected = Inr out" using gap_compiles by blast
  have pp: "ParsePrefix ''::fffe:0:0/95'' = Some gap_block"
    using ParsePrefix_String [OF gap_canonical(1)] by (simp add: PrefixString_gap)
  have "Contains gap_block mapped_base" by code_simp
  then have "indicator_covers [''::fffe:0:0/95''] mapped_base" using gap_canonical(1) by (simp add: indicator_covers_def pp)
  moreover have "\<forall>p\<in>set gap_protected. prefix_ok p" "\<not> covered (map canonicalPrefix gap_protected) mapped_base"
    "covered (map canonicalPrefix gap_protected) (Addr6 0xFFFE00000000 [])" "Contains gap_block (Addr6 0xFFFE00000000 [])"
    "covered gap_protected (Addr4 0x08080808)" by code_simp+
  ultimately show ?thesis using compile_blocks_all_ipv4 [OF out] out by blast
qed

end
