(* ===== verification/ThreatModel.thy ===== *)
theory ThreatModel
  imports ThreatValidate
begin

text \<open>
  \<open>internal/threatintel/model.go\<close> and \<open>catalog.go\<close>: actions, sources, snapshots, status, and the
  immutable feed catalog. An action is a Go string type, so it stays a string here; only three
  values have a rank. A \<open>map[string]X\<close> that the code looks up by key is a HOL map; one it ranges over
  is an association list with distinct keys, and results are shown not to depend on its order.
\<close>

section \<open>Actions\<close>

type_synonym action = string

definition ActionAnnotateOnly :: action where "ActionAnnotateOnly = ''ANNOTATE_ONLY''"
definition ActionCorrelateOnly :: action where "ActionCorrelateOnly = ''CORRELATE_ONLY''"
definition ActionBlock :: action where "ActionBlock = ''BLOCK''"

definition rank :: "action \<Rightarrow> int" where
  "rank a = (if a = ActionBlock then 3 else if a = ActionCorrelateOnly then 2
             else if a = ActionAnnotateOnly then 1 else 0)"

definition SyncInterval :: duration where "SyncInterval = 12 * hour"
definition FailureRetryInterval :: duration where "FailureRetryInterval = 15 * minute"
definition SchemaVersion :: int where "SchemaVersion = 2"

section \<open>Sources and snapshots\<close>

definition FormatPlain :: string where "FormatPlain = ''plain''"
definition FormatNDJSON :: string where "FormatNDJSON = ''ndjson''"

record source =
  s_key :: string
  s_name :: string
  s_url :: string
  s_format :: string
  s_action :: action
  s_maximumBytes :: int
  s_requiresMetadata :: bool

record attribution =
  at_name :: string
  at_url :: string
  at_copyright :: string
  at_terms :: string
  at_sourceTimestampUnix :: int

record feedAuthorityAttestation =
  fa_feedKey :: string
  fa_sequence :: "64 word"
  fa_contentSHA256 :: string
  fa_action :: action
  fa_validUntilUTC :: gotime

record feedAuthorityDocument =
  fd_schemaVersion :: int
  fd_sequence :: "64 word"
  fd_keyID :: string
  fd_generatedUTC :: gotime
  fd_feeds :: "feedAuthorityAttestation list"
  fd_signatureEd25519 :: string

record sourceSnapshot =
  sn_schemaVersion :: int
  sn_key :: string
  sn_generatedUTC :: gotime
  sn_action :: action
  sn_attribution :: attribution
  sn_generationSHA256 :: string
  sn_indicators :: "string list"
  sn_authority :: "feedAuthorityDocument option"

record enforcementSnapshot =
  es_schemaVersion :: int
  es_generatedUTC :: gotime
  es_generationSHA256 :: string
  es_protectionGenerationSHA256 :: string
  es_protectedPrefixCount :: int
  es_blockIndicators :: "string list"
  es_blockingFeedCount :: int

record match_result =
  mt_found :: bool
  mt_protected :: bool
  mt_action :: action
  mt_sources :: "string list"

definition noMatch :: match_result where
  "noMatch = \<lparr>mt_found = False, mt_protected = False, mt_action = [], mt_sources = []\<rparr>"

section \<open>Status\<close>

record feedState =
  f_key :: string
  f_name :: string
  f_action :: action
  f_state :: string
  f_indicators :: int
  f_lastAttemptUTC :: gotime
  f_lastSuccessUTC :: gotime
  f_error :: string
  f_defaultAction :: action
  f_configuredAction :: action
  f_effectiveAction :: action
  f_actionSource :: string
  f_authorityVerified :: bool
  f_authoritySequence :: "64 word"
  f_authorityValidUntilUTC :: gotime

record status =
  st_lastAttemptUTC :: gotime
  st_lastSuccessUTC :: gotime
  st_nextSyncUTC :: gotime
  st_indicators :: int
  st_blockingIndicators :: int
  st_blockingFeedsReady :: int
  st_blockingFeedsTotal :: int
  st_correlationIndicators :: int
  st_annotationIndicators :: int
  st_generation :: string
  st_enforcementGeneration :: string
  st_protectedPrefixes :: int
  st_protectionGeneration :: string
  st_state :: string
  st_error :: string
  st_feeds :: "feedState list"
  st_pollingIntervalSeconds :: int
  st_pollingIntervalSource :: string
  st_pollingIntervalMinSeconds :: int
  st_pollingIntervalMaxSeconds :: int
  st_pollingIntervalDefaultSeconds :: int
  st_pollingUpdatedUTC :: gotime
  st_feedPolicySource :: string
  st_feedPolicyUpdatedUTC :: gotime
  st_feedPolicyOverrides :: int
  st_feedPolicyError :: string
  st_feedAuthenticity :: string
  st_feedAuthorityKeys :: int
  st_feedAuthoritySequence :: "64 word"
  st_feedAuthorityError :: string
  st_feedClockRollback :: bool
  st_maxFeedAgeSeconds :: int

text \<open>The zero value of the struct: what a composite literal leaves in the fields it does not name.\<close>

definition zeroStatus :: status where
  "zeroStatus = \<lparr>st_lastAttemptUTC = 0, st_lastSuccessUTC = 0, st_nextSyncUTC = 0, st_indicators = 0,
     st_blockingIndicators = 0, st_blockingFeedsReady = 0, st_blockingFeedsTotal = 0,
     st_correlationIndicators = 0, st_annotationIndicators = 0, st_generation = [],
     st_enforcementGeneration = [], st_protectedPrefixes = 0, st_protectionGeneration = [],
     st_state = [], st_error = [], st_feeds = [], st_pollingIntervalSeconds = 0,
     st_pollingIntervalSource = [], st_pollingIntervalMinSeconds = 0, st_pollingIntervalMaxSeconds = 0,
     st_pollingIntervalDefaultSeconds = 0, st_pollingUpdatedUTC = 0, st_feedPolicySource = [],
     st_feedPolicyUpdatedUTC = 0, st_feedPolicyOverrides = 0, st_feedPolicyError = [],
     st_feedAuthenticity = [], st_feedAuthorityKeys = 0, st_feedAuthoritySequence = 0,
     st_feedAuthorityError = [], st_feedClockRollback = False, st_maxFeedAgeSeconds = 0\<rparr>"

section \<open>The catalog\<close>

definition defaultMaximumFeedBytes :: int where "defaultMaximumFeedBytes = 8 * 2 ^ 20"

definition feed :: "string \<Rightarrow> string \<Rightarrow> string \<Rightarrow> string \<Rightarrow> action \<Rightarrow> bool \<Rightarrow> source" where
  "feed key name url fmt act meta = \<lparr>s_key = key, s_name = name, s_url = url, s_format = fmt,
     s_action = act, s_maximumBytes = defaultMaximumFeedBytes, s_requiresMetadata = meta\<rparr>"

definition catalog :: "source list" where
  "catalog =
    [feed ''feodo'' ''Feodo Tracker C2'' ''https://feodotracker.abuse.ch/downloads/ipblocklist.txt''
       FormatPlain ActionBlock False,
     feed ''spamhaus_drop_v4'' ''Spamhaus DROP IPv4'' ''https://www.spamhaus.org/drop/drop_v4.json''
       FormatNDJSON ActionBlock True,
     feed ''spamhaus_drop_v6'' ''Spamhaus DROP IPv6'' ''https://www.spamhaus.org/drop/drop_v6.json''
       FormatNDJSON ActionBlock True,
     feed ''cins_army'' ''CINS Army Badguys'' ''https://cinsscore.com/list/ci-badguys.txt''
       FormatPlain ActionCorrelateOnly False,
     feed ''blocklist_de'' ''blocklist.de All'' ''https://lists.blocklist.de/lists/all.txt''
       FormatPlain ActionCorrelateOnly False,
     feed ''emerging_threats'' ''Emerging Threats Block IPs''
       ''https://rules.emergingthreats.net/fwrules/emerging-Block-IPs.txt''
       FormatPlain ActionCorrelateOnly False,
     feed ''ipsum'' ''IPsum Level 1+'' ''https://raw.githubusercontent.com/stamparm/ipsum/master/ipsum.txt''
       FormatPlain ActionCorrelateOnly False,
     feed ''firehol_l1'' ''FireHOL Level 1'' ''https://iplists.firehol.org/files/firehol_level1.netset''
       FormatPlain ActionBlock False,
     feed ''tor_exit'' ''Tor Exit Nodes'' ''https://check.torproject.org/torbulkexitlist''
       FormatPlain ActionAnnotateOnly False]"

definition sourceByKey :: "string \<Rightarrow> source option" where
  "sourceByKey key = find (\<lambda>s. s_key s = key) catalog"

section \<open>Lemmas\<close>

lemma rank_range: "0 \<le> rank a \<and> rank a \<le> 3"
  by (simp add: rank_def)

lemma rank_inj: "rank a = rank b \<Longrightarrow> 0 < rank a \<Longrightarrow> a = b"
  by (auto simp: rank_def split: if_splits)

lemma rank_block: "rank a = 3 \<longleftrightarrow> a = ActionBlock"
  by (auto simp: rank_def)

lemma catalog_keys: "distinct (map s_key catalog)" "length catalog = 9"
  by code_simp+

lemma sourceByKey_iff: "sourceByKey key = Some s \<longleftrightarrow> s \<in> set catalog \<and> s_key s = key"
proof
  show "s \<in> set catalog \<and> s_key s = key" if "sourceByKey key = Some s" for s
    using that by (auto simp: sourceByKey_def find_Some_iff)
  then have found: "\<And>t. sourceByKey key = Some t \<Longrightarrow> t \<in> set catalog \<and> s_key t = key" .
  assume s: "s \<in> set catalog \<and> s_key s = key"
  then have "sourceByKey key \<noteq> None" by (auto simp: sourceByKey_def find_None_iff)
  then obtain t where t: "sourceByKey key = Some t" by blast
  have "inj_on s_key (set catalog)" using catalog_keys(1) by (simp add: distinct_map)
  then have "t = s" using found [OF t] s by (auto simp: inj_on_def)
  with t show "sourceByKey key = Some s" by simp
qed

end
