(* ===== verification/ThreatFeed.thy ===== *)
theory ThreatFeed
  imports ThreatModel
begin

text \<open>
  \<open>internal/threatintel/parser.go\<close>: the feed parsers. The body of a feed is a byte string. Decoding
  one NDJSON line is a parameter, \<open>unmarshal\<close>: it returns the fields the parser reads, or None when
  \<open>json.Unmarshal\<close> fails; every theorem holds for any such function.
\<close>

section \<open>Definitions\<close>

definition maximumFeedLineBytes :: int where "maximumFeedLineBytes = 65536"
definition maximumSourceIndicators :: int where "maximumSourceIndicators = 500000"

text \<open>
  \<open>bufio.Scanner\<close> with \<open>ScanLines\<close>: lines end at a newline, one trailing carriage return is dropped,
  an unterminated last line counts if it is not empty. A line that does not fit the buffer together
  with its end stops the scan with an error after the lines before it.
\<close>

fun raw_lines :: "string \<Rightarrow> string \<Rightarrow> string list" where
  "raw_lines cur [] = (if cur = [] then [] else [rev cur])"
| "raw_lines cur (c # s) = (if c = CHR 0x0A then rev cur # raw_lines [] s else raw_lines (c # cur) s)"

definition dropCR :: "string \<Rightarrow> string" where
  "dropCR l = (if l \<noteq> [] \<and> last l = CHR 0x0D then butlast l else l)"

definition fits :: "string \<Rightarrow> bool" where
  "fits l \<longleftrightarrow> int (length l) < maximumFeedLineBytes"

definition scan_lines :: "string \<Rightarrow> string list \<times> bool" where
  "scan_lines body = (map dropCR (takeWhile fits (raw_lines [] body)), list_all fits (raw_lines [] body))"

text \<open>The token a line of a plain feed contributes, if it contributes one.\<close>

definition plain_line :: "string \<Rightarrow> prefix option" where
  "plain_line text =
     (let line = TrimSpace text in
      if line = [] \<or> HasPrefix line ''#'' \<or> HasPrefix line '';'' then None
      else let fs = Fields line in
        if fs = [] then None
        else let token = TrimSpace (hd fs) in
          if \<not> isThreatToken token then None
          else (case parseThreatToken token of Inl e \<Rightarrow> None | Inr prefix \<Rightarrow> Some prefix))"

fun parsePlain_loop :: "prefix list \<Rightarrow> string list \<Rightarrow> prefix list outcome" where
  "parsePlain_loop result [] = Inr result"
| "parsePlain_loop result (l # ls) =
     (case plain_line l of
        None \<Rightarrow> parsePlain_loop result ls
      | Some prefix \<Rightarrow>
          let result' = result @ [prefix] in
          if maximumSourceIndicators < int (length result')
          then Inl (Err ''threat feed indicator boundary exceeded'')
          else parsePlain_loop result' ls)"

definition parsePlain :: "string \<Rightarrow> prefix list outcome" where
  "parsePlain body =
     (case scan_lines body of (ls, complete) \<Rightarrow>
        bind_outcome (parsePlain_loop [] ls) (\<lambda>result.
          if complete then Inr result else Inl (Err ''threat feed line boundary rejected'')))"

record ndjson_record =
  nd_type :: string
  nd_cidr :: string
  nd_ip :: string
  nd_timestamp :: int
  nd_copyright :: string
  nd_terms :: string

record ndjson_state =
  ns_result :: "prefix list"
  ns_attribution :: attribution
  ns_foundMetadata :: bool

definition ndjson_line :: "(string \<Rightarrow> ndjson_record option) \<Rightarrow> ndjson_state \<Rightarrow> string \<Rightarrow> ndjson_state outcome" where
  "ndjson_line unmarshal st text =
     (let line = TrimSpace text in
      if line = [] then Inr st
      else case unmarshal line of
          None \<Rightarrow> Inl (Err ''threat feed JSON validation failed'')
        | Some rec \<Rightarrow>
            if nd_type rec = ''metadata'' then
              (let copyright = TrimSpace (nd_copyright rec); terms = TrimSpace (nd_terms rec) in
               if nd_timestamp rec \<le> 0 \<or> copyright = [] \<or> terms = []
               then Inl (Err ''threat feed attribution validation failed'')
               else Inr (st\<lparr>ns_attribution := (ns_attribution st)\<lparr>at_sourceTimestampUnix := nd_timestamp rec,
                              at_copyright := copyright, at_terms := terms\<rparr>,
                            ns_foundMetadata := True\<rparr>))
            else
              (let token0 = TrimSpace (nd_cidr rec);
                   token = (if token0 = [] then TrimSpace (nd_ip rec) else token0) in
               if token = [] then Inr st
               else case parseThreatToken token of
                   Inl e \<Rightarrow> Inl (Err ''threat feed CIDR validation failed'')
                 | Inr prefix \<Rightarrow>
                     let result = ns_result st @ [prefix] in
                     if maximumSourceIndicators < int (length result)
                     then Inl (Err ''threat feed indicator boundary exceeded'')
                     else Inr (st\<lparr>ns_result := result\<rparr>)))"

fun parseNDJSON_loop ::
    "(string \<Rightarrow> ndjson_record option) \<Rightarrow> ndjson_state \<Rightarrow> string list \<Rightarrow> ndjson_state outcome" where
  "parseNDJSON_loop unmarshal st [] = Inr st"
| "parseNDJSON_loop unmarshal st (l # ls) =
     bind_outcome (ndjson_line unmarshal st l) (\<lambda>st'. parseNDJSON_loop unmarshal st' ls)"

definition parseNDJSON ::
    "(string \<Rightarrow> ndjson_record option) \<Rightarrow> string \<Rightarrow> attribution \<Rightarrow> bool \<Rightarrow> (prefix list \<times> attribution) outcome" where
  "parseNDJSON unmarshal body attr requireMetadata =
     (case scan_lines body of (ls, complete) \<Rightarrow>
        bind_outcome
          (parseNDJSON_loop unmarshal \<lparr>ns_result = [], ns_attribution = attr, ns_foundMetadata = False\<rparr> ls)
          (\<lambda>st. if \<not> complete then Inl (Err ''threat feed JSON line boundary rejected'')
                else if requireMetadata \<and> \<not> ns_foundMetadata st
                then Inl (Err ''threat feed attribution is missing'')
                else Inr (ns_result st, ns_attribution st)))"

text \<open>
  The set of masked prefixes is a Go map; ranging over it gives its keys in any order, here the order
  of first occurrence. \<open>normalizePrefixes_any_order\<close> shows that the order does not matter.
\<close>

definition uniqueMasked :: "prefix list \<Rightarrow> prefix list" where
  "uniqueMasked prefixes = remdups (map Masked (filter validThreatPrefix prefixes))"

definition normalizePrefixes :: "prefix list \<Rightarrow> prefix list" where
  "normalizePrefixes prefixes = sort_key PrefixString (uniqueMasked prefixes)"

definition parseSource ::
    "(string \<Rightarrow> ndjson_record option) \<Rightarrow> source \<Rightarrow> string \<Rightarrow> (prefix list \<times> attribution) outcome" where
  "parseSource unmarshal src body =
     (let attr = \<lparr>at_name = s_name src, at_url = s_url src, at_copyright = [], at_terms = [],
                  at_sourceTimestampUnix = 0\<rparr> in
      bind_outcome
        (if s_format src = FormatPlain then bind_outcome (parsePlain body) (\<lambda>ps. Inr (ps, attr))
         else if s_format src = FormatNDJSON then parseNDJSON unmarshal body attr (s_requiresMetadata src)
         else Inl (Err ''unsupported threat feed format''))
        (\<lambda>(prefixes, attr').
           if prefixes = [] \<or> maximumSourceIndicators < int (length prefixes)
           then Inl (Err ''threat feed indicator boundary rejected'')
           else Inr (normalizePrefixes prefixes, attr')))"

section \<open>Accepted prefixes\<close>

text \<open>What the parsers and the snapshot store keep: masked, acceptable prefixes.\<close>

definition feed_prefix :: "prefix \<Rightarrow> bool" where
  "feed_prefix p \<longleftrightarrow> prefix_ok p \<and> validThreatPrefix p \<and> Masked p = p"

lemma Masked_fixI:
  assumes ok: "prefix_ok p" and v: "PrefixIsValid p" and "\<And>i. abit (ip p) i \<Longrightarrow> Suc i < bitsPlusOne p"
  shows "Masked p = p"
proof -
  note m = Masked_valid [OF ok v]
  have "ip (Masked p) = ip p"
  proof (rule addr_eqI)
    show "IsValid (ip (Masked p))" using m(2) ok v by (cases "ip p"; cases "ip (Masked p)") (auto simp: prefix_ok_def)
    show "abit (ip (Masked p)) i = abit (ip p) i" for i using m(3) [of i] assms(3) [of i] by auto
  qed (use m ok in \<open>auto simp: prefix_ok_def\<close>)
  with m(1) show ?thesis by simp
qed

lemma Masked_idem [simp]:
  assumes "prefix_ok p"
  shows "Masked (Masked p) = Masked p"
proof (cases "PrefixIsValid p")
  case True
  note m = Masked_valid [OF assms True]
  show ?thesis
    by (rule Masked_fixI) (use m True in \<open>auto simp: PrefixIsValid_def\<close>)
next
  case False
  then show ?thesis
    using Masked_invalid [of PrefixZero] by (simp add: Masked_invalid PrefixZero_def PrefixIsValid_def)
qed

lemma validThreatPrefix_Masked:
  assumes "prefix_ok p" and "validThreatPrefix p"
  shows "feed_prefix (Masked p)"
proof -
  have v: "PrefixIsValid p" using assms(2) by (simp add: validThreatPrefix_def split: if_splits)
  then have "PrefixIsValid (Masked p)" using Masked_valid(1) [OF assms(1) v] by (simp add: PrefixIsValid_def)
  then have "validThreatPrefix (Masked p) = validThreatPrefix p"
    using v assms(1) by (simp add: validThreatPrefix_def)
  with assms show ?thesis by (simp add: feed_prefix_def)
qed

lemma feed_prefix_valid: "feed_prefix p \<Longrightarrow> PrefixIsValid p"
  by (auto simp: feed_prefix_def validThreatPrefix_def split: if_splits)

lemma Masked_full:
  assumes "IsValid a"
  shows "Masked (PrefixFrom a (int (BitLen a))) = PrefixFrom a (int (BitLen a))"
proof (rule Masked_fixI)
  note s = PrefixFrom_sel [OF assms order_refl]
  show "PrefixIsValid (PrefixFrom a (int (BitLen a)))" using s by (simp add: PrefixIsValid_def)
  show "Suc i < bitsPlusOne (PrefixFrom a (int (BitLen a)))" if "abit (ip (PrefixFrom a (int (BitLen a)))) i" for i
    using that s abit_beyond [of a i] by (auto simp: not_le [symmetric])
qed simp

lemma parseThreatToken_feed:
  assumes "parseThreatToken t = Inr p"
  shows "feed_prefix p"
proof -
  consider q where "ParsePrefix (TrimSpace t) = Some q" "validThreatPrefix q" "p = Masked q"
    | a where "ParseAddr (TrimSpace t) = Some a" "p = PrefixFrom (Unmap a) (int (BitLen (Unmap a)))" "validThreatPrefix p"
    using assms by (auto simp: parseThreatToken_def Let_def split: if_splits option.splits)
  then show ?thesis
  proof cases
    case 1
    then show ?thesis using validThreatPrefix_Masked ParsePrefix_ok(1) by blast
  next
    case 2
    then have "IsValid (Unmap a)" using ParseAddr_valid by simp
    with 2 show ?thesis using Masked_full by (simp add: feed_prefix_def)
  qed
qed

lemma PrefixString_inj_feed: "inj_on PrefixString (Collect feed_prefix)"
  using PrefixString_inj_ok feed_prefix_valid by (auto simp: inj_on_def feed_prefix_def)

section \<open>Normalisation\<close>

lemma uniqueMasked_feed: "\<forall>p\<in>set ps. prefix_ok p \<Longrightarrow> \<forall>p\<in>set (uniqueMasked ps). feed_prefix p"
  using validThreatPrefix_Masked by (auto simp: uniqueMasked_def)

text \<open>
  The prefixes of a feed are collected in a Go map and sorted by
  text. In whatever order the map is ranged over, the sorted list is the same.
\<close>

lemma normalizePrefixes_any_order:
  assumes "\<forall>p\<in>set prefixes. prefix_ok p"
    and "distinct keys" and "set keys = set (map Masked (filter validThreatPrefix prefixes))"
  shows "sort_key PrefixString keys = normalizePrefixes prefixes"
proof -
  have u: "set keys = set (uniqueMasked prefixes)" using assms(3) by (simp add: uniqueMasked_def)
  have "inj_on PrefixString (set keys)"
    using inj_on_subset [OF PrefixString_inj_feed] uniqueMasked_feed [OF assms(1)] u by auto
  then show ?thesis
    unfolding normalizePrefixes_def using sort_key_determ [of keys "uniqueMasked prefixes"] assms(2) u
    by (simp add: uniqueMasked_def)
qed

section \<open>The parsers\<close>

lemma parsePlain_loop_spec:
  "parsePlain_loop result ls =
     (if int (length result) \<le> maximumSourceIndicators \<longrightarrow>
           int (length (result @ List.map_filter plain_line ls)) \<le> maximumSourceIndicators
      then Inr (result @ List.map_filter plain_line ls)
      else Inl (Err ''threat feed indicator boundary exceeded''))"
  if "int (length result) \<le> maximumSourceIndicators"
  using that
  by (induction ls arbitrary: result) (auto simp: map_filter_simps Let_def split: option.splits)

text \<open>
  A plain feed is read as the list of its well-formed tokens, one per line at most and in order; comments, blank lines and malformed tokens are skipped. It is refused exactly
  when it has more than 500000 of them or a line that does not fit the 64 KiB buffer.
\<close>

lemma parsePlain_spec:
  "parsePlain body =
     (let ps = List.map_filter plain_line (map dropCR (takeWhile fits (raw_lines [] body))) in
      if maximumSourceIndicators < int (length ps) then Inl (Err ''threat feed indicator boundary exceeded'')
      else if list_all fits (raw_lines [] body) then Inr ps
      else Inl (Err ''threat feed line boundary rejected''))"
  by (simp add: parsePlain_def scan_lines_def Let_def parsePlain_loop_spec maximumSourceIndicators_def)

lemma parsePlain_feed: "parsePlain body = Inr ps \<Longrightarrow> \<forall>p\<in>set ps. feed_prefix p"
proof -
  have "feed_prefix p" if "plain_line l = Some p" for l p
    using that parseThreatToken_feed by (auto simp: plain_line_def Let_def split: if_splits sum.splits)
  then have "\<forall>p\<in>set (List.map_filter plain_line ls). feed_prefix p" for ls
    by (induction ls) (auto simp: map_filter_simps split: option.splits)
  then show "parsePlain body = Inr ps \<Longrightarrow> \<forall>p\<in>set ps. feed_prefix p"
    by (auto simp: parsePlain_spec Let_def split: if_splits)
qed

definition ndjson_ok :: "ndjson_state \<Rightarrow> bool" where
  "ndjson_ok st \<longleftrightarrow> (\<forall>p\<in>set (ns_result st). feed_prefix p) \<and> int (length (ns_result st)) \<le> maximumSourceIndicators \<and>
     (ns_foundMetadata st \<longrightarrow> 0 < at_sourceTimestampUnix (ns_attribution st) \<and>
        at_copyright (ns_attribution st) \<noteq> [] \<and> at_terms (ns_attribution st) \<noteq> [])"

lemma ndjson_line_ok: "ndjson_line u st l = Inr st' \<Longrightarrow> ndjson_ok st \<Longrightarrow> ndjson_ok st'"
  using parseThreatToken_feed
  by (auto simp: ndjson_line_def ndjson_ok_def Let_def split: if_splits option.splits sum.splits)

lemma parseNDJSON_loop_ok: "parseNDJSON_loop u st ls = Inr st' \<Longrightarrow> ndjson_ok st \<Longrightarrow> ndjson_ok st'"
  by (induction ls arbitrary: st) (auto simp: bind_outcome_eq_Inr dest: ndjson_line_ok)

lemma parseNDJSON_ok:
  assumes "parseNDJSON u body attr req = Inr (ps, attr')"
  shows "(\<forall>p\<in>set ps. feed_prefix p) \<and> (req \<longrightarrow> 0 < at_sourceTimestampUnix attr' \<and> at_copyright attr' \<noteq> [] \<and> at_terms attr' \<noteq> [])"
proof -
  obtain st where st: "parseNDJSON_loop u \<lparr>ns_result = [], ns_attribution = attr, ns_foundMetadata = False\<rparr>
      (fst (scan_lines body)) = Inr st" "ps = ns_result st" "attr' = ns_attribution st" "req \<longrightarrow> ns_foundMetadata st"
    using assms by (auto simp: parseNDJSON_def bind_outcome_eq_Inr split: prod.splits if_splits)
  have "ndjson_ok st"
    by (rule parseNDJSON_loop_ok [OF st(1)]) (simp add: ndjson_ok_def maximumSourceIndicators_def)
  with st show ?thesis by (auto simp: ndjson_ok_def)
qed

lemma parseSource_feed:
  assumes "parseSource unmarshal src body = Inr (ps, attr)"
  shows "ps \<noteq> [] \<and> int (length ps) \<le> maximumSourceIndicators \<and> distinct ps \<and> sorted (map PrefixString ps) \<and>
    list_all feed_prefix ps \<and>
    (s_requiresMetadata src \<and> s_format src = FormatNDJSON \<longrightarrow>
       0 < at_sourceTimestampUnix attr \<and> at_copyright attr \<noteq> [] \<and> at_terms attr \<noteq> [])"
proof -
  let ?attr = "\<lparr>at_name = s_name src, at_url = s_url src, at_copyright = [], at_terms = [], at_sourceTimestampUnix = 0\<rparr>"
  obtain qs where qs: "ps = normalizePrefixes qs" "qs \<noteq> []" "int (length qs) \<le> maximumSourceIndicators"
    and run: "s_format src = FormatPlain \<and> parsePlain body = Inr qs \<or>
      s_format src = FormatNDJSON \<and> parseNDJSON unmarshal body ?attr (s_requiresMetadata src) = Inr (qs, attr)"
    using assms
    by (auto simp: parseSource_def Let_def bind_outcome_eq_Inr not_less split: if_splits)
  have feed: "\<forall>p\<in>set qs. feed_prefix p" using run parsePlain_feed parseNDJSON_ok by blast
  then have "map Masked (filter validThreatPrefix qs) = qs"
    by (simp add: feed_prefix_def map_idI)
  then have u: "uniqueMasked qs = remdups qs" by (simp add: uniqueMasked_def)
  have "ps \<noteq> []" using qs(1,2) u by (metis normalizePrefixes_def set_empty set_remdups set_sort)
  moreover have "length ps \<le> length qs" using qs(1) u by (simp add: normalizePrefixes_def length_remdups_leq)
  moreover have "list_all feed_prefix ps" "distinct ps" "sorted (map PrefixString ps)"
    using feed qs(1) u by (simp_all add: normalizePrefixes_def list_all_iff)
  moreover have "s_requiresMetadata src \<and> s_format src = FormatNDJSON \<longrightarrow>
       0 < at_sourceTimestampUnix attr \<and> at_copyright attr \<noteq> [] \<and> at_terms attr \<noteq> []"
    using run parseNDJSON_ok by (auto simp: FormatPlain_def FormatNDJSON_def)
  ultimately show ?thesis using qs(3) by simp
qed

lemma example_feed:
  "parseSource (\<lambda>_. None) (feed ''k'' ''n'' ''u'' FormatPlain ActionBlock False)
     (''# list'' @ [CHR 0x0A] @ ''8.8.8.8 comment'' @ [CHR 0x0A]) =
   Inr ([PrefixFrom (Addr4 0x08080808) 32],
     \<lparr>at_name = ''n'', at_url = ''u'', at_copyright = [], at_terms = [], at_sourceTimestampUnix = 0\<rparr>)"
  by code_simp

text \<open>
  C36 [parseSource_sound]: what a feed contributes is a non-empty, sorted and duplicate-free list of at
  most 500000 masked prefixes, each accepted by \<open>validThreatPrefix\<close>; a source that requires metadata
  contributes nothing without a timestamp, copyright and terms.
\<close>

theorem parseSource_sound:
  assumes "parseSource unmarshal src body = Inr (ps, attr)"
  shows "ps \<noteq> [] \<and> int (length ps) \<le> maximumSourceIndicators \<and> distinct ps \<and> sorted (map PrefixString ps) \<and>
    list_all feed_prefix ps \<and>
    (s_requiresMetadata src \<and> s_format src = FormatNDJSON \<longrightarrow>
       0 < at_sourceTimestampUnix attr \<and> at_copyright attr \<noteq> [] \<and> at_terms attr \<noteq> [])"
  using parseSource_feed [OF assms] .

theorem parseSource_sound_witness:
  "[PrefixFrom (Addr4 0x08080808) 32] \<noteq> [] \<and> list_all feed_prefix [PrefixFrom (Addr4 0x08080808) 32]"
  using parseSource_sound [OF example_feed] by blast

text \<open>
  One line that is not JSON, or whose CIDR is not an acceptable threat
  prefix, refuses the whole feed.
\<close>

lemma parseNDJSON_fails_closed:
  assumes "l \<in> set (fst (scan_lines body))" and "TrimSpace l \<noteq> []"
    and "unmarshal (TrimSpace l) = None \<or>
      (\<exists>rec e. unmarshal (TrimSpace l) = Some rec \<and> nd_type rec \<noteq> ''metadata'' \<and> TrimSpace (nd_cidr rec) \<noteq> [] \<and>
         parseThreatToken (TrimSpace (nd_cidr rec)) = Inl e)"
  shows "\<exists>e. parseNDJSON unmarshal body attr req = Inl e"
proof -
  have bad: "\<exists>e. ndjson_line unmarshal st l = Inl e" for st
    using assms(2,3) by (auto simp: ndjson_line_def Let_def)
  have "\<exists>e. parseNDJSON_loop unmarshal st ls = Inl e" if "l \<in> set ls" for st ls
    using that
  proof (induction ls arbitrary: st)
    case (Cons m ls)
    then show ?case using bad [of st] by (cases "ndjson_line unmarshal st m") auto
  qed simp
  then obtain e where "parseNDJSON_loop unmarshal \<lparr>ns_result = [], ns_attribution = attr, ns_foundMetadata = False\<rparr>
      (fst (scan_lines body)) = Inl e" using assms(1) by blast
  then show ?thesis by (simp add: parseNDJSON_def split_beta)
qed

end
