(* ===== verification/ThreatIndex.thy ===== *)
theory ThreatIndex
  imports EnforcementCompiler ThreatFeed "HOL-Library.AList"
begin

text \<open>
  \<open>internal/threatintel/index.go\<close>: the lookup index over the validated snapshots and the enforcement
  projection compiled from it. The nested Go maps are association lists. The digest of a byte string
  (\<open>hex(sha256(...))\<close>) is the parameter \<open>sha\<close>.
\<close>

section \<open>Definitions\<close>

record indexEntry =
  ie_action :: action
  ie_sources :: "string list"

type_synonym buckets = "(int \<times> (addr \<times> indexEntry) list) list"

record index =
  ix_v4 :: buckets
  ix_v6 :: buckets
  ix_v4Lengths :: "int list"
  ix_v6Lengths :: "int list"
  ix_generation :: string
  ix_enforcementGeneration :: string
  ix_indicators :: int
  ix_blocking :: int
  ix_correlation :: int
  ix_annotation :: int
  ix_rawBlockIndicators :: "string list"
  ix_blockIndicators :: "string list"

type_synonym snapshots = "(string \<times> sourceSnapshot) list"

text \<open>The entries of the first loop: per masked prefix the action and the keys of its sources.\<close>

type_synonym entries = "(prefix \<times> indexEntry) list"

definition addEntry :: "string \<Rightarrow> action \<Rightarrow> entries \<Rightarrow> string \<Rightarrow> entries" where
  "addEntry key act entries value =
     (case ParsePrefix value of
        None \<Rightarrow> entries
      | Some prefix0 \<Rightarrow>
          if \<not> validThreatPrefix prefix0 then entries
          else let prefix = Masked prefix0;
                   entry = (case map_of entries prefix of
                              None \<Rightarrow> \<lparr>ie_action = act, ie_sources = []\<rparr> | Some e \<Rightarrow> e);
                   entry' = (if rank (ie_action entry) < rank act then entry\<lparr>ie_action := act\<rparr> else entry) in
               AList.update prefix (entry'\<lparr>ie_sources := List.insert key (ie_sources entry')\<rparr>) entries)"

definition collectEntries :: "snapshots \<Rightarrow> entries" where
  "collectEntries snapshots =
     foldl (\<lambda>entries (key, snapshot). foldl (addEntry key (sn_action snapshot)) entries (sn_indicators snapshot))
       [] snapshots"

definition bucketPut :: "buckets \<Rightarrow> int \<Rightarrow> addr \<Rightarrow> indexEntry \<Rightarrow> buckets" where
  "bucketPut target bits a entry =
     (let bucket = (case map_of target bits of None \<Rightarrow> [] | Some b \<Rightarrow> b) in
      AList.update bits (AList.update a entry bucket) target)"

definition descendingKeys :: "buckets \<Rightarrow> int list" where
  "descendingKeys values = rev (sort (map fst values))"

record index_build =
  ib_v4 :: buckets
  ib_v6 :: buckets
  ib_indicators :: int
  ib_correlation :: int
  ib_annotation :: int
  ib_block :: "string list"
  ib_text :: string

definition indexStep :: "index_build \<Rightarrow> prefix \<times> indexEntry \<Rightarrow> index_build" where
  "indexStep st = (\<lambda>(prefix, entry).
     let address = Unmap (ip prefix);
         bits = (if Is4In6 (ip prefix) then Bits prefix - 96 else Bits prefix);
         a = ip (Masked (PrefixFrom address bits));
         act = ie_action entry in
     st\<lparr>ib_v4 := (if Is4 address then bucketPut (ib_v4 st) bits a entry else ib_v4 st),
        ib_v6 := (if Is4 address then ib_v6 st else bucketPut (ib_v6 st) bits a entry),
        ib_indicators := ib_indicators st + 1,
        ib_correlation := ib_correlation st + (if act = ActionCorrelateOnly then 1 else 0),
        ib_annotation := ib_annotation st + (if act = ActionAnnotateOnly then 1 else 0),
        ib_block := (if act = ActionBlock then ib_block st @ [PrefixString prefix] else ib_block st),
        ib_text := ib_text st @ PrefixString prefix @ ''|'' @ act @ ''|'' @
                   Join (ie_sources entry) '','' @ [CHR 0x0A]\<rparr>)"

text \<open>The sorted prefixes with their final entries: the source keys sorted.\<close>

definition sortedEntries :: "entries \<Rightarrow> entries" where
  "sortedEntries entries =
     map (\<lambda>(p, e). (p, e\<lparr>ie_sources := sort (ie_sources e)\<rparr>)) (sort_key (\<lambda>(p, e). PrefixString p) entries)"

text \<open>
  \<open>compileEnforcement\<close> replaces the enforcement projection or leaves it and reports the error; it
  never panics (\<open>compile_total\<close>).
\<close>

definition compileEnforcement :: "(string \<Rightarrow> string) \<Rightarrow> prefix list \<Rightarrow> index \<Rightarrow> index outcome" where
  "compileEnforcement sha protected i =
     bind_outcome (compileEnforcementIndicators (ix_rawBlockIndicators i) protected) (\<lambda>compiled.
       Inr (i\<lparr>ix_blockIndicators := compiled, ix_blocking := int (length compiled),
              ix_enforcementGeneration :=
                sha (''VGT-GEDEFENSE-TI-BLOCK-V2'' @ [CHR 0x0A] @ Join compiled [CHR 0x0A])\<rparr>))"

definition buildIndex_raw :: "(string \<Rightarrow> string) \<Rightarrow> snapshots \<Rightarrow> index" where
  "buildIndex_raw sha snapshots =
     (let st = foldl indexStep \<lparr>ib_v4 = [], ib_v6 = [], ib_indicators = 0, ib_correlation = 0,
                 ib_annotation = 0, ib_block = [], ib_text = []\<rparr> (sortedEntries (collectEntries snapshots)) in
      \<lparr>ix_v4 = ib_v4 st, ix_v6 = ib_v6 st, ix_v4Lengths = descendingKeys (ib_v4 st),
       ix_v6Lengths = descendingKeys (ib_v6 st), ix_generation = sha (ib_text st),
       ix_enforcementGeneration = [], ix_indicators = ib_indicators st, ix_blocking = 0,
       ix_correlation = ib_correlation st, ix_annotation = ib_annotation st,
       ix_rawBlockIndicators = sort (ib_block st), ix_blockIndicators = []\<rparr>)"

definition buildIndex :: "(string \<Rightarrow> string) \<Rightarrow> snapshots \<Rightarrow> index" where
  "buildIndex sha snapshots =
     (let result = buildIndex_raw sha snapshots in
      case compileEnforcement sha [] result of
        Inl e \<Rightarrow> result\<lparr>ix_blocking := 0, ix_blockIndicators := [], ix_enforcementGeneration := []\<rparr>
      | Inr result' \<Rightarrow> result')"

record lookup_state =
  lk_found :: bool
  lk_action :: action
  lk_sources :: "string list"

definition lookupStep :: "addr \<Rightarrow> buckets \<Rightarrow> lookup_state \<Rightarrow> int \<Rightarrow> lookup_state" where
  "lookupStep address buckets st bits =
     (if int (BitLen address) < bits then st
      else let candidate = ip (Masked (PrefixFrom address bits)) in
        case map_of buckets bits of
          None \<Rightarrow> st
        | Some bucket \<Rightarrow>
            (case map_of bucket candidate of
               None \<Rightarrow> st
             | Some entry \<Rightarrow>
                 st\<lparr>lk_found := True,
                    lk_action := (if rank (lk_action st) < rank (ie_action entry) then ie_action entry else lk_action st),
                    lk_sources := foldl (\<lambda>ks k. List.insert k ks) (lk_sources st) (ie_sources entry)\<rparr>))"

definition IndexLookup :: "index option \<Rightarrow> addr \<Rightarrow> match_result" where
  "IndexLookup idx address0 =
     (case idx of
        None \<Rightarrow> noMatch
      | Some i \<Rightarrow>
          if \<not> IsValid address0 then noMatch
          else let address = Unmap address0;
                   st = (if Is4 address
                         then foldl (lookupStep address (ix_v4 i)) \<lparr>lk_found = False, lk_action = [], lk_sources = []\<rparr> (ix_v4Lengths i)
                         else foldl (lookupStep address (ix_v6 i)) \<lparr>lk_found = False, lk_action = [], lk_sources = []\<rparr> (ix_v6Lengths i)) in
               if \<not> lk_found st then noMatch
               else \<lparr>mt_found = True, mt_protected = False, mt_action = lk_action st, mt_sources = sort (lk_sources st)\<rparr>)"

section \<open>The entries\<close>

text \<open>The masked prefix an indicator stands for, and all (key, action, prefix) occurrences in order.\<close>

definition acceptIndicator :: "string \<Rightarrow> prefix option" where
  "acceptIndicator v = (case ParsePrefix v of None \<Rightarrow> None
     | Some q \<Rightarrow> if validThreatPrefix q then Some (Masked q) else None)"

definition putEntry :: "string \<Rightarrow> action \<Rightarrow> prefix \<Rightarrow> entries \<Rightarrow> entries" where
  "putEntry key act p entries =
     (let entry = (case map_of entries p of None \<Rightarrow> \<lparr>ie_action = act, ie_sources = []\<rparr> | Some e \<Rightarrow> e);
          entry' = (if rank (ie_action entry) < rank act then entry\<lparr>ie_action := act\<rparr> else entry) in
      AList.update p (entry'\<lparr>ie_sources := List.insert key (ie_sources entry')\<rparr>) entries)"

definition occurrences :: "snapshots \<Rightarrow> (string \<times> action \<times> prefix) list" where
  "occurrences snapshots = concat (map (\<lambda>(k, sn). map (\<lambda>p. (k, sn_action sn, p))
     (List.map_filter acceptIndicator (sn_indicators sn))) snapshots)"

lemma addEntry_put:
  "addEntry k a E v = (case acceptIndicator v of None \<Rightarrow> E | Some p \<Rightarrow> putEntry k a p E)"
  by (auto simp: addEntry_def acceptIndicator_def putEntry_def split: option.splits)

lemma foldl_addEntry:
  "foldl (addEntry k a) E vs =
     foldl (\<lambda>E (k, a, p). putEntry k a p E) E (map (\<lambda>p. (k, a, p)) (List.map_filter acceptIndicator vs))"
  by (induction vs arbitrary: E) (auto simp: addEntry_put map_filter_simps split: option.splits)

lemma collectEntries_occurrences:
  "collectEntries sns = foldl (\<lambda>E (k, a, p). putEntry k a p E) [] (occurrences sns)"
proof -
  have "foldl (\<lambda>E (k, sn). foldl (addEntry k (sn_action sn)) E (sn_indicators sn)) E sns =
      foldl (\<lambda>E (k, a, p). putEntry k a p E) E (occurrences sns)" for E
    by (induction sns arbitrary: E) (auto simp: occurrences_def foldl_addEntry)
  then show ?thesis by (simp add: collectEntries_def)
qed

lemma acceptIndicator_feed: "acceptIndicator v = Some p \<Longrightarrow> feed_prefix p"
  using validThreatPrefix_Masked ParsePrefix_ok(1)
  by (auto simp: acceptIndicator_def split: option.splits if_splits)

lemma occurrences_feed: "(k, a, p) \<in> set (occurrences sns) \<Longrightarrow> feed_prefix p"
  using acceptIndicator_feed by (fastforce simp: occurrences_def map_filter_def)

definition entry_ok :: "(string \<times> action \<times> prefix) list \<Rightarrow> prefix \<Rightarrow> indexEntry \<Rightarrow> bool" where
  "entry_ok os p e \<longleftrightarrow> distinct (ie_sources e) \<and> set (ie_sources e) = {k. \<exists>a. (k, a, p) \<in> set os} \<and>
     (\<exists>k. (k, ie_action e, p) \<in> set os) \<and> (\<forall>k a. (k, a, p) \<in> set os \<longrightarrow> rank a \<le> rank (ie_action e))"

definition entries_ok :: "(string \<times> action \<times> prefix) list \<Rightarrow> entries \<Rightarrow> bool" where
  "entries_ok os E \<longleftrightarrow> distinct (map fst E) \<and>
     (\<forall>p. case map_of E p of None \<Rightarrow> (\<forall>k a. (k, a, p) \<notin> set os) | Some e \<Rightarrow> entry_ok os p e)"

lemma entry_ok_other: "p \<noteq> q \<Longrightarrow> entry_ok (os @ [(k, a, q)]) p e \<longleftrightarrow> entry_ok os p e"
  by (simp add: entry_ok_def)

lemma putEntry_ok:
  assumes "entries_ok os E"
  shows "entries_ok (os @ [(k, a, p)]) (putEntry k a p E)"
proof -
  have at: "case map_of E q of None \<Rightarrow> (\<forall>k a. (k, a, q) \<notin> set os) | Some e \<Rightarrow> entry_ok os q e" for q
    using assms unfolding entries_ok_def by blast
  have new: "entry_ok (os @ [(k, a, p)]) p (e'\<lparr>ie_sources := List.insert k (ie_sources e')\<rparr>)"
    if e: "e = (case map_of E p of None \<Rightarrow> \<lparr>ie_action = a, ie_sources = []\<rparr> | Some e \<Rightarrow> e)"
      and e': "e' = (if rank (ie_action e) < rank a then e\<lparr>ie_action := a\<rparr> else e)" for e e'
  proof (cases "map_of E p")
    case None
    then have none: "\<forall>k a. (k, a, p) \<notin> set os" using at [of p] by simp
    have "e' = \<lparr>ie_action = a, ie_sources = []\<rparr>" using e e' None by simp
    then show ?thesis using none by (auto simp: entry_ok_def)
  next
    case (Some x)
    then have "entry_ok os p e" using at [of p] e by simp
    then show ?thesis using e' by (auto simp: entry_ok_def) (meson le_less_trans less_imp_le)
  qed
  have rest: "case map_of E q of None \<Rightarrow> (\<forall>k' a'. (k', a', q) \<notin> set (os @ [(k, a, p)])) | Some e \<Rightarrow> entry_ok (os @ [(k, a, p)]) q e"
    if "q \<noteq> p" for q
    using at [of q] that by (simp add: entry_ok_other split: option.splits)
  have "distinct (map fst (AList.update p v E))" for v using assms by (simp add: entries_ok_def distinct_update)
  moreover have "case map_of (AList.update p v E) q of None \<Rightarrow> (\<forall>k' a'. (k', a', q) \<notin> set (os @ [(k, a, p)]))
     | Some e \<Rightarrow> entry_ok (os @ [(k, a, p)]) q e" if "entry_ok (os @ [(k, a, p)]) p v" for v q
    using that rest [of q] by (cases "q = p") (auto simp: update_conv')
  ultimately show ?thesis unfolding entries_ok_def putEntry_def Let_def using new by blast
qed

lemma collectEntries_ok: "entries_ok (occurrences sns) (collectEntries sns)"
proof -
  have "entries_ok os (foldl (\<lambda>E (k, a, p). putEntry k a p E) [] os)" for os
  proof (induction os rule: rev_induct)
    case (snoc x os)
    then show ?case using putEntry_ok by (cases x) simp
  qed (simp add: entries_ok_def)
  then show ?thesis by (simp add: collectEntries_occurrences)
qed

section \<open>The buckets\<close>

definition bucketGet :: "buckets \<Rightarrow> int \<Rightarrow> addr \<Rightarrow> indexEntry option" where
  "bucketGet bs bits a = Option.bind (map_of bs bits) (\<lambda>m. map_of m a)"

lemma bucketGet_put:
  "bucketGet (bucketPut bs bits a e) bits' a' = (if bits' = bits \<and> a' = a then Some e else bucketGet bs bits' a')"
  by (auto simp: bucketGet_def bucketPut_def Let_def update_conv' split: option.splits)

lemma bucketPut_keys:
  "distinct (map fst bs) \<Longrightarrow> distinct (map fst (bucketPut bs bits a e))"
  "fst ` set (bucketPut bs bits a e) = insert bits (fst ` set bs)"
  by (simp_all add: bucketPut_def Let_def distinct_update dom_update)

text \<open>The bucket slot of a prefix is given by its unmapped canonical form.\<close>

lemma indexStep_feed:
  assumes "feed_prefix p" and "c = threat_canon p"
  shows "ib_v4 (indexStep st (p, e)) = (if Is4 (ip c) then bucketPut (ib_v4 st) (Bits c) (ip c) e else ib_v4 st)"
    and "ib_v6 (indexStep st (p, e)) = (if Is4 (ip c) then ib_v6 st else bucketPut (ib_v6 st) (Bits c) (ip c) e)"
proof -
  have m: "Masked p = p" "prefix_ok p" "PrefixIsValid p"
    using assms(1) feed_prefix_valid by (auto simp: feed_prefix_def)
  note t = threat_canon_props [OF m(2,3), unfolded m(1)]
  have "Masked (PrefixFrom (Unmap (ip p)) (if Is4In6 (ip p) then Bits p - 96 else Bits p)) = c"
    using assms(2) by (simp add: threat_canon_def m(1) Let_def)
  then show "ib_v4 (indexStep st (p, e)) = (if Is4 (ip c) then bucketPut (ib_v4 st) (Bits c) (ip c) e else ib_v4 st)"
    "ib_v6 (indexStep st (p, e)) = (if Is4 (ip c) then ib_v6 st else bucketPut (ib_v6 st) (Bits c) (ip c) e)"
    using t(2,3) assms(2) by (simp_all add: indexStep_def Let_def)
qed

definition bucket_ok :: "entries \<Rightarrow> bool \<Rightarrow> buckets \<Rightarrow> bool" where
  "bucket_ok es four bs \<longleftrightarrow> distinct (map fst bs) \<and>
     (\<forall>b a e. bucketGet bs b a = Some e \<longleftrightarrow>
        (\<exists>p. (p, e) \<in> set es \<and> Is4 (ip (threat_canon p)) = four \<and> Bits (threat_canon p) = b \<and> ip (threat_canon p) = a)) \<and>
     (\<forall>b. b \<in> fst ` set bs \<longleftrightarrow> (\<exists>p e. (p, e) \<in> set es \<and> Is4 (ip (threat_canon p)) = four \<and> Bits (threat_canon p) = b))"

lemma threat_canon_canonical: "feed_prefix p \<Longrightarrow> canonical (threat_canon p)"
  using threat_canon_props(1) feed_prefix_valid by (auto simp: feed_prefix_def)

lemma canonical_slot_inj:
  assumes "canonical p" and "canonical q" and "ip p = ip q" and "Bits p = Bits q"
  shows "p = q"
  using assms by (auto simp: Bits_def canonical_def PrefixIsValid_def intro: prefix.equality)

lemma bucket_ok_snoc:
  assumes ok: "bucket_ok es four bs" and p: "canonical (threat_canon p)"
    and fresh: "\<forall>(q, d)\<in>set es. canonical (threat_canon q) \<and> threat_canon q \<noteq> threat_canon p"
  defines "c \<equiv> threat_canon p"
  shows "bucket_ok (es @ [(p, e)]) four (if Is4 (ip c) = four then bucketPut bs (Bits c) (ip c) e else bs)"
proof (cases "Is4 (ip c) = four")
  case True
  have sep: "\<not> (ip (threat_canon q) = ip (threat_canon p) \<and> Bits (threat_canon q) = Bits (threat_canon p))"
    if "(q, d) \<in> set es" for q d
    using fresh that canonical_slot_inj p by blast
  show ?thesis
    using ok True unfolding bucket_ok_def c_def
    by (auto simp: bucketGet_put bucketPut_keys split: if_splits dest: sep)
qed (use ok in \<open>auto simp: bucket_ok_def c_def\<close>)

lemma foldl_indexStep_ok:
  assumes "\<forall>(p, e)\<in>set es. feed_prefix p" and "distinct (map (threat_canon \<circ> fst) es)"
    and st: "st = foldl indexStep \<lparr>ib_v4 = [], ib_v6 = [], ib_indicators = 0, ib_correlation = 0,
                 ib_annotation = 0, ib_block = [], ib_text = []\<rparr> es"
  shows "bucket_ok es True (ib_v4 st) \<and> bucket_ok es False (ib_v6 st)"
  using assms
proof (induction es arbitrary: st rule: rev_induct)
  case Nil
  then show ?case by (simp add: bucket_ok_def bucketGet_def)
next
  case (snoc x es)
  obtain p e where x: "x = (p, e)" by (cases x)
  let ?s = "foldl indexStep \<lparr>ib_v4 = [], ib_v6 = [], ib_indicators = 0, ib_correlation = 0,
                 ib_annotation = 0, ib_block = [], ib_text = []\<rparr> es"
  have IH: "bucket_ok es True (ib_v4 ?s)" "bucket_ok es False (ib_v6 ?s)" using snoc by auto
  have p: "feed_prefix p" using snoc.prems(1) x by simp
  have fresh: "\<forall>(q, d)\<in>set es. canonical (threat_canon q) \<and> threat_canon q \<noteq> threat_canon p"
    using snoc.prems(1,2) x threat_canon_canonical by (auto simp: image_iff)
  note step = indexStep_feed [OF p refl, of ?s e]
  show ?case
    using bucket_ok_snoc [OF IH(1) threat_canon_canonical [OF p] fresh, of e]
      bucket_ok_snoc [OF IH(2) threat_canon_canonical [OF p] fresh, of e] snoc.prems(3) x step
    by (simp split: if_splits)
qed

section \<open>Lookup\<close>

lemma PrefixFrom_WithoutZone: "PrefixFrom (WithoutZone a) b = PrefixFrom a b"
  by (cases a) (simp_all add: PrefixFrom_def)

lemma candidate_Contains:
  assumes c: "canonical c" and a: "plain a" and len: "BitLen (ip c) = BitLen a"
  shows "ip c = ip (Masked (PrefixFrom a (Bits c))) \<longleftrightarrow> Contains c a"
proof -
  obtain b where b: "bitsPlusOne c = Suc b" "b \<le> BitLen a"
    using c len by (cases "bitsPlusOne c") (auto simp: canonical_def PrefixIsValid_def)
  then have bits: "Bits c = int b" by (simp add: Bits_def)
  note m = canonical_Masked_PrefixFrom [OF a b(2)]
  have abit: "abit (ip c) i \<Longrightarrow> i < b" for i
    using c b by (auto simp: canonical_def) (metis Suc_leI linorder_not_le)
  have "ip c = ip (Masked (PrefixFrom a (int b))) \<longleftrightarrow> (\<forall>i. abit (ip c) i = abit (ip (Masked (PrefixFrom a (int b)))) i)"
    using plain_eqI [of "ip c" "ip (Masked (PrefixFrom a (int b)))"] c m len by (auto simp: canonical_def)
  also have "\<dots> \<longleftrightarrow> agree (ip c) a 0 b" using m(4) abit by (auto simp: agree_def)
  also have "\<dots> \<longleftrightarrow> Contains c a"
    using c b a len by (auto simp: Contains_canonical same_family_def plain_def canonical_def)
  finally show ?thesis by (simp add: bits)
qed

definition hit :: "addr \<Rightarrow> buckets \<Rightarrow> int \<Rightarrow> indexEntry option" where
  "hit a bs bits = (if int (BitLen a) < bits then None else bucketGet bs bits (ip (Masked (PrefixFrom a bits))))"

lemma lookupStep_hit:
  "lookupStep a bs st bits = (case hit a bs bits of None \<Rightarrow> st
     | Some e \<Rightarrow> st\<lparr>lk_found := True,
         lk_action := (if rank (lk_action st) < rank (ie_action e) then ie_action e else lk_action st),
         lk_sources := foldl (\<lambda>ks k. List.insert k ks) (lk_sources st) (ie_sources e)\<rparr>)"
  by (auto simp: lookupStep_def hit_def bucketGet_def Let_def split: option.splits)

lemma foldl_insert_keys:
  "set (foldl (\<lambda>ks k. List.insert k ks) xs ys) = set xs \<union> set ys"
  "distinct xs \<Longrightarrow> distinct (foldl (\<lambda>ks k. List.insert k ks) xs ys)"
  by (induction ys arbitrary: xs) auto

lemma foldl_lookupStep:
  fixes a :: addr and bs :: buckets and bits :: "int list"
  defines "r \<equiv> \<lambda>st bits. foldl (lookupStep a bs) st bits"
  shows "lk_found (r st bits) \<longleftrightarrow> lk_found st \<or> (\<exists>b\<in>set bits. hit a bs b \<noteq> None)"
    and "distinct (lk_sources st) \<Longrightarrow> distinct (lk_sources (r st bits))"
    and "set (lk_sources (r st bits)) = set (lk_sources st) \<union> (\<Union>b\<in>set bits. \<Union>e\<in>set_option (hit a bs b). set (ie_sources e))"
    and "rank (lk_action st) \<le> rank (lk_action (r st bits))"
    and "b \<in> set bits \<Longrightarrow> hit a bs b = Some e \<Longrightarrow> rank (ie_action e) \<le> rank (lk_action (r st bits))"
    and "lk_action (r st bits) = lk_action st \<or> (\<exists>b\<in>set bits. \<exists>e. hit a bs b = Some e \<and> lk_action (r st bits) = ie_action e)"
proof -
  show "lk_found (r st bits) \<longleftrightarrow> lk_found st \<or> (\<exists>b\<in>set bits. hit a bs b \<noteq> None)"
    unfolding r_def by (induction bits arbitrary: st) (auto simp: lookupStep_hit split: option.splits)
  show "distinct (lk_sources st) \<Longrightarrow> distinct (lk_sources (r st bits))"
    unfolding r_def by (induction bits arbitrary: st) (auto simp: lookupStep_hit foldl_insert_keys split: option.splits)
  show "set (lk_sources (r st bits)) = set (lk_sources st) \<union> (\<Union>b\<in>set bits. \<Union>e\<in>set_option (hit a bs b). set (ie_sources e))"
    unfolding r_def by (induction bits arbitrary: st) (auto simp: lookupStep_hit foldl_insert_keys split: option.splits)
  have mono: "rank (lk_action st) \<le> rank (lk_action (r st bits))" for st bits
    unfolding r_def
  proof (induction bits arbitrary: st)
    case (Cons b bits)
    have "rank (lk_action st) \<le> rank (lk_action (lookupStep a bs st b))"
      by (auto simp: lookupStep_hit split: option.splits)
    with Cons [of "lookupStep a bs st b"] show ?case by simp
  qed simp
  show "rank (lk_action st) \<le> rank (lk_action (r st bits))" by (rule mono)
  show "rank (ie_action e) \<le> rank (lk_action (r st bits))" if "b \<in> set bits" "hit a bs b = Some e"
    using that
  proof (induction bits arbitrary: st)
    case (Cons b' bits)
    show ?case
    proof (cases "b = b'")
      case True
      then have "rank (ie_action e) \<le> rank (lk_action (lookupStep a bs st b'))"
        using Cons.prems(2) by (auto simp: lookupStep_hit)
      also have "\<dots> \<le> rank (lk_action (r st (b' # bits)))"
        using mono [of "lookupStep a bs st b'" bits] by (simp add: r_def)
      finally show ?thesis .
    qed (use Cons in \<open>auto simp: r_def\<close>)
  qed simp
  show "lk_action (r st bits) = lk_action st \<or> (\<exists>b\<in>set bits. \<exists>e. hit a bs b = Some e \<and> lk_action (r st bits) = ie_action e)"
    unfolding r_def
  proof (induction bits arbitrary: st)
    case (Cons b bits)
    show ?case using Cons [of "lookupStep a bs st b"] by (auto simp: lookupStep_hit split: option.splits if_splits)
  qed simp
qed

text \<open>Which sources name an address, and with which authority.\<close>

definition indicates :: "snapshots \<Rightarrow> addr \<Rightarrow> string \<Rightarrow> action \<Rightarrow> bool" where
  "indicates sns a k act \<longleftrightarrow> (\<exists>p. (k, act, p) \<in> set (occurrences sns) \<and> Contains (threat_canon p) a)"

definition unaliased :: "snapshots \<Rightarrow> bool" where
  "unaliased sns \<longleftrightarrow> distinct (map threat_canon (remdups (map (snd \<circ> snd) (occurrences sns))))"

lemma sortedEntries_set:
  "set (sortedEntries E) = (\<lambda>(p, e). (p, e\<lparr>ie_sources := sort (ie_sources e)\<rparr>)) ` set E"
  by (simp add: sortedEntries_def)

lemma entries_okD:
  "entries_ok os E \<Longrightarrow> case map_of E p of None \<Rightarrow> (\<forall>k a. (k, a, p) \<notin> set os) | Some e \<Rightarrow> entry_ok os p e"
  unfolding entries_ok_def by blast

lemma sortedEntries_ok:
  assumes "(p, e) \<in> set (sortedEntries (collectEntries sns))"
  shows "entry_ok (occurrences sns) p e" and "feed_prefix p"
proof -
  obtain e0 where e0: "(p, e0) \<in> set (collectEntries sns)" "e = e0\<lparr>ie_sources := sort (ie_sources e0)\<rparr>"
    using assms by (auto simp: sortedEntries_set)
  have ok: "entries_ok (occurrences sns) (collectEntries sns)" by (rule collectEntries_ok)
  then have "map_of (collectEntries sns) p = Some e0" using e0(1) by (simp add: entries_ok_def)
  then have "entry_ok (occurrences sns) p e0" using entries_okD [OF ok, of p] by simp
  then show "entry_ok (occurrences sns) p e" using e0(2) by (simp add: entry_ok_def)
  then show "feed_prefix p" using occurrences_feed by (auto simp: entry_ok_def)
qed

lemma sortedEntries_complete:
  assumes "(k, a, p) \<in> set (occurrences sns)"
  shows "\<exists>e. (p, e) \<in> set (sortedEntries (collectEntries sns))"
proof -
  have "case map_of (collectEntries sns) p of None \<Rightarrow> (\<forall>k a. (k, a, p) \<notin> set (occurrences sns))
      | Some e \<Rightarrow> entry_ok (occurrences sns) p e"
    by (rule entries_okD [OF collectEntries_ok])
  then obtain e where "map_of (collectEntries sns) p = Some e" using assms by (auto split: option.splits)
  then show ?thesis by (force simp: sortedEntries_set dest: map_of_SomeD)
qed

lemma sortedEntries_distinct:
  assumes "unaliased sns"
  shows "distinct (map (threat_canon \<circ> fst) (sortedEntries (collectEntries sns)))"
proof -
  let ?S = "sortedEntries (collectEntries sns)"
  have "distinct (map fst (sort_key (\<lambda>(p, e). PrefixString p) (collectEntries sns)))"
    using collectEntries_ok [of sns] by (simp add: entries_ok_def distinct_map)
  moreover have "map fst ?S = map fst (sort_key (\<lambda>(p, e). PrefixString p) (collectEntries sns))"
    by (simp add: sortedEntries_def case_prod_beta)
  moreover have "inj_on threat_canon (fst ` set ?S)"
  proof -
    have "fst ` set ?S \<subseteq> (snd \<circ> snd) ` set (occurrences sns)"
      using sortedEntries_ok(1) by (force simp: entry_ok_def)
    then show ?thesis using assms inj_on_subset by (fastforce simp: unaliased_def distinct_map)
  qed
  ultimately have "distinct (map threat_canon (map fst ?S))" by (metis distinct_map list.set_map)
  then show ?thesis by simp
qed

lemma descendingKeys_set [simp]: "set (descendingKeys bs) = fst ` set bs"
  by (simp add: descendingKeys_def)

lemma buildIndex_sel [simp]:
  "ix_v4 (buildIndex sha sns) = ix_v4 (buildIndex_raw sha sns)"
  "ix_v6 (buildIndex sha sns) = ix_v6 (buildIndex_raw sha sns)"
  "ix_v4Lengths (buildIndex sha sns) = descendingKeys (ix_v4 (buildIndex_raw sha sns))"
  "ix_v6Lengths (buildIndex sha sns) = descendingKeys (ix_v6 (buildIndex_raw sha sns))"
  by (auto simp: buildIndex_def buildIndex_raw_def compileEnforcement_def bind_outcome_def Let_def split: sum.split)

text \<open>A hit of the walk over the prefix lengths is an entry whose canonical prefix contains the address.\<close>

lemma hit_iff:
  assumes ok: "bucket_ok es four bs" and es: "\<forall>(p, e)\<in>set es. feed_prefix p"
    and a: "plain a" "Is4 a = four"
  shows "hit a bs b = Some e \<longleftrightarrow> (\<exists>p. (p, e) \<in> set es \<and> Bits (threat_canon p) = b \<and> Contains (threat_canon p) a)"
proof -
  have fam: "Is4 (ip (threat_canon p)) = four \<longleftrightarrow> BitLen (ip (threat_canon p)) = BitLen a" if "(p, e) \<in> set es" for p
  proof -
    have "plain (ip (threat_canon p))" using es that threat_canon_canonical by (fastforce simp: canonical_def)
    then show ?thesis using a by (cases a; cases "ip (threat_canon p)") (auto simp: plain_def)
  qed
  have cand: "ip (threat_canon p) = ip (Masked (PrefixFrom a (Bits (threat_canon p)))) \<longleftrightarrow> Contains (threat_canon p) a"
    if "(p, e) \<in> set es" "BitLen (ip (threat_canon p)) = BitLen a" for p
    using candidate_Contains [OF threat_canon_canonical a(1) that(2)] es that(1) by fastforce
  have con: "BitLen (ip (threat_canon p)) = BitLen a \<and> Bits (threat_canon p) \<le> int (BitLen a)"
    if "(p, e) \<in> set es" "Contains (threat_canon p) a" for p
  proof -
    have c: "canonical (threat_canon p)" using es that(1) threat_canon_canonical by fastforce
    then have "BitLen (ip (threat_canon p)) = BitLen a" using that(2) by (simp add: Contains_canonical same_family_def)
    then show ?thesis using c by (simp add: canonical_def Bits_def)
  qed
  have get: "bucketGet bs b x = Some e \<longleftrightarrow> (\<exists>p. (p, e) \<in> set es \<and> Is4 (ip (threat_canon p)) = four \<and>
      Bits (threat_canon p) = b \<and> ip (threat_canon p) = x)" for x
    using ok unfolding bucket_ok_def by blast
  show ?thesis
    unfolding hit_def get if_split_mem1 using fam cand con
    by (auto simp: get) (metis not_le)+
qed

lemma lookup_walk:
  assumes ok: "bucket_ok es four bs" and es: "es = sortedEntries (collectEntries sns)"
    and a: "plain a" "Is4 a = four"
  defines "r \<equiv> foldl (lookupStep a bs) \<lparr>lk_found = False, lk_action = [], lk_sources = []\<rparr> (descendingKeys bs)"
  shows "lk_found r \<longleftrightarrow> (\<exists>k act. indicates sns a k act)"
    and "distinct (lk_sources r)" and "set (lk_sources r) = {k. \<exists>act. indicates sns a k act}"
    and "indicates sns a k act \<Longrightarrow> rank act \<le> rank (lk_action r)"
    and "lk_action r = [] \<or> (\<exists>k. indicates sns a k (lk_action r))"
proof -
  have feed: "\<forall>(p, e)\<in>set es. feed_prefix p" using sortedEntries_ok(2) es by blast
  note hit = hit_iff [OF ok feed a]
  have eok: "entry_ok (occurrences sns) p e" if "(p, e) \<in> set es" for p e using sortedEntries_ok(1) es that by blast
  have len: "b \<in> set (descendingKeys bs)" if "hit a bs b = Some e" for b e
    using that ok a(2) feed threat_canon_canonical Contains_Is4 unfolding hit descendingKeys_set bucket_ok_def
    by fastforce
  have ind: "indicates sns a k act \<longleftrightarrow> (\<exists>b e p. hit a bs b = Some e \<and> (p, e) \<in> set es \<and> Bits (threat_canon p) = b \<and>
      Contains (threat_canon p) a \<and> (k, act, p) \<in> set (occurrences sns))" for k act
    unfolding indicates_def hit using sortedEntries_complete es by blast
  have hitE: "\<exists>p. (p, e) \<in> set es \<and> Contains (threat_canon p) a \<and> entry_ok (occurrences sns) p e" if "hit a bs b = Some e" for b e
    using that hit eok by blast
  note f = foldl_lookupStep [where a = a and bs = bs and bits = "descendingKeys bs" and
      st = "\<lparr>lk_found = False, lk_action = [], lk_sources = []\<rparr>", folded r_def, simplified]
  show "lk_found r \<longleftrightarrow> (\<exists>k act. indicates sns a k act)"
  proof
    assume "lk_found r"
    then obtain b e where "hit a bs b = Some e" using f(1) by auto
    then show "\<exists>k act. indicates sns a k act" using hitE unfolding entry_ok_def indicates_def by blast
  next
    assume "\<exists>k act. indicates sns a k act"
    then show "lk_found r" using ind f(1) len by fastforce
  qed
  show "distinct (lk_sources r)" by (rule f(2))
  show "set (lk_sources r) = {k. \<exists>act. indicates sns a k act}"
  proof (intro set_eqI iffI)
    fix k assume "k \<in> set (lk_sources r)"
    then obtain b e where "hit a bs b = Some e" "k \<in> set (ie_sources e)" using f(3) by auto
    then show "k \<in> {k. \<exists>act. indicates sns a k act}" using hitE unfolding entry_ok_def indicates_def by blast
  next
    fix k assume "k \<in> {k. \<exists>act. indicates sns a k act}"
    then obtain act b e p where *: "hit a bs b = Some e" "(p, e) \<in> set es" "(k, act, p) \<in> set (occurrences sns)"
      using ind by blast
    then have "k \<in> set (ie_sources e)" using eok unfolding entry_ok_def by blast
    then show "k \<in> set (lk_sources r)" using f(3) * len [OF *(1)] by auto
  qed
  show "rank act \<le> rank (lk_action r)" if i: "indicates sns a k act"
  proof -
    obtain b e p where *: "hit a bs b = Some e" "(p, e) \<in> set es" "(k, act, p) \<in> set (occurrences sns)"
      using i ind by blast
    then have "rank act \<le> rank (ie_action e)" using eok unfolding entry_ok_def by blast
    also have "\<dots> \<le> rank (lk_action r)" using f(5) * len [OF *(1)] by auto
    finally show ?thesis .
  qed
  show "lk_action r = [] \<or> (\<exists>k. indicates sns a k (lk_action r))"
    using f(6) hitE unfolding entry_ok_def indicates_def by fastforce
qed

lemma Lookup_walks:
  fixes sha :: "string \<Rightarrow> string"
  assumes "unaliased sns" and "IsValid address"
  defines "a \<equiv> WithoutZone (Unmap address)" and "m \<equiv> IndexLookup (Some (buildIndex sha sns)) address"
  shows "(mt_found m \<longleftrightarrow> (\<exists>k act. indicates sns a k act)) \<and>
    sorted (mt_sources m) \<and> distinct (mt_sources m) \<and> set (mt_sources m) = {k. \<exists>act. indicates sns a k act} \<and>
    (indicates sns a k act \<longrightarrow> rank act \<le> rank (mt_action m)) \<and>
    (mt_action m = [] \<or> (\<exists>k. indicates sns a k (mt_action m)))"
proof -
  let ?es = "sortedEntries (collectEntries sns)" and ?i = "buildIndex_raw sha sns"
  let ?st0 = "\<lparr>lk_found = False, lk_action = [], lk_sources = []\<rparr>"
  have feed: "\<forall>(p, e)\<in>set ?es. feed_prefix p" using sortedEntries_ok(2) by blast
  have ok: "bucket_ok ?es True (ix_v4 ?i)" "bucket_ok ?es False (ix_v6 ?i)"
    using foldl_indexStep_ok [OF feed sortedEntries_distinct [OF assms(1)] refl] by (simp_all add: buildIndex_raw_def Let_def)
  have pl: "plain a" using plain_WithoutZone_Unmap assms(2) by (simp add: a_def)
  have zone: "lookupStep (Unmap address) bs = lookupStep a bs" for bs
    unfolding a_def lookupStep_def PrefixFrom_WithoutZone WithoutZone_simps ..
  define bs where "bs = (if Is4 a then ix_v4 ?i else ix_v6 ?i)"
  define r where "r = foldl (lookupStep a bs) ?st0 (descendingKeys bs)"
  have four: "Is4 (Unmap address) = Is4 a" by (simp add: a_def)
  have m: "m = (if \<not> lk_found r then noMatch
      else \<lparr>mt_found = True, mt_protected = False, mt_action = lk_action r, mt_sources = sort (lk_sources r)\<rparr>)"
    using assms(2) by (simp add: m_def IndexLookup_def Let_def zone four r_def bs_def)
  have "bucket_ok ?es (Is4 a) bs" using ok by (simp add: bs_def)
  note w = lookup_walk [OF this refl pl refl, folded r_def]
  show ?thesis
  proof (cases "lk_found r")
    case True
    then show ?thesis using m w by simp
  next
    case False
    then have "\<not> (\<exists>k act. indicates sns a k act)" using w(1) by blast
    then show ?thesis using m False by (auto simp: noMatch_def)
  qed
qed

text \<open>
  C34 [Lookup_spec]: a lookup finds an address exactly when a validated indicator of some source
  contains it. It then returns the keys of all those sources, sorted and without duplicates, and the
  strongest of their actions. The hypothesis excludes indicators that name one range twice, once as
  IPv4 and once as IPv4-mapped IPv6.
\<close>

theorem Lookup_spec:
  fixes sha :: "string \<Rightarrow> string"
  assumes "unaliased sns" and "IsValid address"
  defines "a \<equiv> WithoutZone (Unmap address)" and "m \<equiv> IndexLookup (Some (buildIndex sha sns)) address"
  shows "(mt_found m \<longleftrightarrow> (\<exists>k act. indicates sns a k act)) \<and>
    sorted (mt_sources m) \<and> distinct (mt_sources m) \<and> set (mt_sources m) = {k. \<exists>act. indicates sns a k act} \<and>
    (indicates sns a k act \<longrightarrow> rank act \<le> rank (mt_action m)) \<and>
    (mt_action m = [] \<or> (\<exists>k. indicates sns a k (mt_action m)))"
  unfolding a_def m_def using Lookup_walks [OF assms(1,2)] .

definition snapshotOf :: "action \<Rightarrow> string list \<Rightarrow> sourceSnapshot" where
  "snapshotOf act inds = \<lparr>sn_schemaVersion = 2, sn_key = [], sn_generatedUTC = 1, sn_action = act,
     sn_attribution = \<lparr>at_name = [], at_url = [], at_copyright = [], at_terms = [], at_sourceTimestampUnix = 0\<rparr>,
     sn_generationSHA256 = [], sn_indicators = inds, sn_authority = None\<rparr>"

theorem Lookup_spec_witness:
  "mt_found (IndexLookup (Some (buildIndex (\<lambda>s. s)
       [(''a'', snapshotOf ActionAnnotateOnly [''8.8.0.0/16'']), (''b'', snapshotOf ActionBlock [''8.8.8.0/24''])])) (Addr4 0x08080808)) \<and>
   rank ActionBlock \<le> rank (mt_action (IndexLookup (Some (buildIndex (\<lambda>s. s)
       [(''a'', snapshotOf ActionAnnotateOnly [''8.8.0.0/16'']), (''b'', snapshotOf ActionBlock [''8.8.8.0/24''])])) (Addr4 0x08080808)))"
proof -
  let ?sns = "[(''a'', snapshotOf ActionAnnotateOnly [''8.8.0.0/16'']), (''b'', snapshotOf ActionBlock [''8.8.8.0/24''])]"
  have u: "unaliased ?sns" by code_simp
  have "(''b'', ActionBlock, \<lparr>ip = Addr4 0x08080800, bitsPlusOne = 25\<rparr>) \<in> set (occurrences ?sns) \<and>
      Contains (threat_canon \<lparr>ip = Addr4 0x08080800, bitsPlusOne = 25\<rparr>) (Addr4 0x08080808)" by code_simp
  then have "indicates ?sns (Addr4 0x08080808) ''b'' ActionBlock" unfolding indicates_def by blast
  then show ?thesis using Lookup_spec [OF u, of "Addr4 0x08080808" "\<lambda>s. s" "''b''" ActionBlock] by auto
qed

section \<open>The enforcement projection\<close>

lemma canonicalPrefix_feed:
  assumes "feed_prefix p"
  shows "canonicalPrefix p = threat_canon p"
proof -
  have m: "Masked p = p" "prefix_ok p" "PrefixIsValid p"
    using assms feed_prefix_valid by (auto simp: feed_prefix_def)
  note t = threat_canon_props [OF m(2,3), unfolded m(1)]
  have "0 \<le> Bits (threat_canon p)" "Bits (threat_canon p) \<le> int (BitLen (ip (threat_canon p)))"
    using t(1) by (auto simp: canonical_def Bits_def PrefixIsValid_def)
  then show ?thesis
    using m t(2,3) by (simp add: canonicalPrefix_def threat_canon_def Let_def)
qed

lemma ib_block_foldl:
  "ib_block (foldl indexStep st es) = ib_block st @ map (PrefixString \<circ> fst) (filter (\<lambda>(p, e). ie_action e = ActionBlock) es)"
  by (induction es arbitrary: st) (auto simp: indexStep_def Let_def)

lemma rawBlockIndicators_eq:
  "ix_rawBlockIndicators (buildIndex sha sns) =
     sort (map (PrefixString \<circ> fst) (filter (\<lambda>(p, e). ie_action e = ActionBlock) (sortedEntries (collectEntries sns))))"
  by (auto simp: buildIndex_def buildIndex_raw_def compileEnforcement_def bind_outcome_def Let_def ib_block_foldl split: sum.split)

lemma block_entry_iff:
  "(\<exists>e. (p, e) \<in> set (sortedEntries (collectEntries sns)) \<and> ie_action e = ActionBlock) \<longleftrightarrow>
     (\<exists>k. (k, ActionBlock, p) \<in> set (occurrences sns))"
proof
  assume "\<exists>e. (p, e) \<in> set (sortedEntries (collectEntries sns)) \<and> ie_action e = ActionBlock"
  then show "\<exists>k. (k, ActionBlock, p) \<in> set (occurrences sns)"
    using sortedEntries_ok(1) unfolding entry_ok_def by metis
next
  assume "\<exists>k. (k, ActionBlock, p) \<in> set (occurrences sns)"
  then obtain k e where k: "(k, ActionBlock, p) \<in> set (occurrences sns)" and e: "(p, e) \<in> set (sortedEntries (collectEntries sns))"
    using sortedEntries_complete by blast
  then have "rank ActionBlock \<le> rank (ie_action e)" using sortedEntries_ok(1) unfolding entry_ok_def by blast
  then have "ie_action e = ActionBlock" using rank_range [of "ie_action e"] rank_block [of "ie_action e"] by (simp add: rank_def)
  with e show "\<exists>e. (p, e) \<in> set (sortedEntries (collectEntries sns)) \<and> ie_action e = ActionBlock" by blast
qed

lemma rawBlock_covers:
  "indicator_covers (ix_rawBlockIndicators (buildIndex sha sns)) a \<longleftrightarrow> (\<exists>k. indicates sns a k ActionBlock)"
  "list_all valid_indicator (ix_rawBlockIndicators (buildIndex sha sns))"
proof -
  let ?raw = "ix_rawBlockIndicators (buildIndex sha sns)"
  have set: "set ?raw = PrefixString ` {p. \<exists>k. (k, ActionBlock, p) \<in> set (occurrences sns)}"
  proof -
    have "fst ` {x \<in> set (sortedEntries (collectEntries sns)). case x of (p, e) \<Rightarrow> ie_action e = ActionBlock} =
        {p. \<exists>e. (p, e) \<in> set (sortedEntries (collectEntries sns)) \<and> ie_action e = ActionBlock}" by force
    then show ?thesis unfolding block_entry_iff by (simp only: rawBlockIndicators_eq set_sort set_map set_filter image_comp [symmetric])
  qed
  have parse: "ParsePrefix (PrefixString p) = Some p" if "(k, ActionBlock, p) \<in> set (occurrences sns)" for k p
    using occurrences_feed [OF that] feed_prefix_valid ParsePrefix_String_ok by (simp add: feed_prefix_def)
  show "list_all valid_indicator ?raw"
    using parse occurrences_feed by (auto simp: list_all_iff set valid_indicator_def feed_prefix_def)
  have "indicator_covers ?raw a \<longleftrightarrow> (\<exists>k p. (k, ActionBlock, p) \<in> set (occurrences sns) \<and> Contains (canonicalPrefix p) a)"
    unfolding indicator_covers_def list_ex_iff set using parse by fastforce
  then show "indicator_covers ?raw a \<longleftrightarrow> (\<exists>k. indicates sns a k ActionBlock)"
    unfolding indicates_def using occurrences_feed canonicalPrefix_feed by metis
qed

lemma compileEnforcement_difference:
  assumes "compileEnforcement sha protected (buildIndex sha sns) = Inr i"
    and "\<forall>p\<in>set protected. prefix_ok p" and "\<not> (\<exists>k. indicates sns mapped_base k ActionBlock)"
  shows "indicator_covers (ix_blockIndicators i) a \<longleftrightarrow>
    (\<exists>k. indicates sns a k ActionBlock) \<and> \<not> covered (map canonicalPrefix protected) a"
proof -
  let ?raw = "ix_rawBlockIndicators (buildIndex sha sns)"
  have run: "compileEnforcementIndicators ?raw protected = Inr (ix_blockIndicators i)"
    using assms(1) by (auto simp: compileEnforcement_def bind_outcome_eq_Inr)
  have "\<not> indicator_covers ?raw mapped_base" using assms(3) rawBlock_covers(1) by blast
  with compile_spec [OF assms(2), of ?raw] run rawBlock_covers indicator_covers_strings
  show ?thesis by (auto split: if_splits)
qed

section \<open>IPv4-mapped indicators\<close>

definition alias4 :: prefix where "alias4 = \<lparr>ip = Addr4 0x08080800, bitsPlusOne = 25\<rparr>"
definition alias6 :: prefix where "alias6 = \<lparr>ip = Addr6 0xFFFF08080800 [], bitsPlusOne = 121\<rparr>"

definition alias_snapshots :: snapshots where
  "alias_snapshots = [(''a'', snapshotOf ActionBlock [''8.8.8.0/24'']), (''b'', snapshotOf ActionAnnotateOnly [''::ffff:8.8.8.0/120''])]"

lemma alias_accepted:
  "acceptIndicator ''8.8.8.0/24'' = Some alias4" "acceptIndicator ''::ffff:8.8.8.0/120'' = Some alias6"
proof -
  show "acceptIndicator ''8.8.8.0/24'' = Some alias4" by code_simp
  have "PrefixString alias6 = ''::ffff:8.8.8.0/120''" "prefix_ok alias6" "PrefixIsValid alias6"
    "validThreatPrefix alias6" "Masked alias6 = alias6" by code_simp+
  then show "acceptIndicator ''::ffff:8.8.8.0/120'' = Some alias6"
    using ParsePrefix_String_ok [of alias6] by (simp add: acceptIndicator_def)
qed

lemma alias_occurrences:
  "occurrences alias_snapshots = [(''a'', ActionBlock, alias4), (''b'', ActionAnnotateOnly, alias6)]"
  using alias_accepted by (simp add: occurrences_def alias_snapshots_def snapshotOf_def map_filter_simps)

lemma alias_v4:
  "ix_v4 (buildIndex_raw sha alias_snapshots) =
     [(24, [(Addr4 0x08080800, \<lparr>ie_action = ActionAnnotateOnly, ie_sources = [''b'']\<rparr>)])]"
proof -
  have "ib_v4 (foldl indexStep \<lparr>ib_v4 = [], ib_v6 = [], ib_indicators = 0, ib_correlation = 0, ib_annotation = 0,
      ib_block = [], ib_text = []\<rparr> (sortedEntries (foldl (\<lambda>E (k, a, p). putEntry k a p E) []
        [(''a'', ActionBlock, alias4), (''b'', ActionAnnotateOnly, alias6)]))) =
     [(24, [(Addr4 0x08080800, \<lparr>ie_action = ActionAnnotateOnly, ie_sources = [''b'']\<rparr>)])]" by code_simp
  then show ?thesis unfolding buildIndex_raw_def collectEntries_occurrences alias_occurrences Let_def by simp
qed

text \<open>
  The hypothesis of \<open>Lookup_spec\<close> cannot be dropped. When one feed blocks
  8.8.8.0/24 and another annotates the same range written as ::ffff:8.8.8.0/120, both are written to
  the same bucket and the later one replaces the entry: the lookup reports ANNOTATE_ONLY from the
  second feed alone, although the first feed's BLOCK covers the address.
\<close>

lemma Lookup_alias_downgrades:
  "IndexLookup (Some (buildIndex sha alias_snapshots)) (Addr4 0x08080808) =
     \<lparr>mt_found = True, mt_protected = False, mt_action = ActionAnnotateOnly, mt_sources = [''b'']\<rparr> \<and>
   indicates alias_snapshots (Addr4 0x08080808) ''a'' ActionBlock"
proof
  have "Contains (threat_canon alias4) (Addr4 0x08080808)" by code_simp
  then show "indicates alias_snapshots (Addr4 0x08080808) ''a'' ActionBlock"
    unfolding indicates_def alias_occurrences by auto
  have "foldl (lookupStep (Addr4 0x08080808) [(24, [(Addr4 0x08080800, \<lparr>ie_action = ActionAnnotateOnly, ie_sources = [''b'']\<rparr>)])])
     \<lparr>lk_found = False, lk_action = [], lk_sources = []\<rparr> [24] =
     \<lparr>lk_found = True, lk_action = ActionAnnotateOnly, lk_sources = [''b'']\<rparr>" by code_simp
  then show "IndexLookup (Some (buildIndex sha alias_snapshots)) (Addr4 0x08080808) =
     \<lparr>mt_found = True, mt_protected = False, mt_action = ActionAnnotateOnly, mt_sources = [''b'']\<rparr>"
    by (simp add: IndexLookup_def alias_v4 descendingKeys_def)
qed

section \<open>Independence of the map order\<close>

lemma sortedEntries_sorted:
  "distinct (sortedEntries (collectEntries sns))"
  "sort_key (\<lambda>(p, e). PrefixString p) (sortedEntries (collectEntries sns)) = sortedEntries (collectEntries sns)"
proof -
  let ?g = "\<lambda>(p, e). PrefixString p" and ?E = "collectEntries sns"
  have fst: "map fst (sortedEntries ?E) = map fst (sort_key ?g ?E)"
    by (simp add: sortedEntries_def case_prod_beta)
  have "distinct (map fst (sort_key ?g ?E))"
    using collectEntries_ok [of sns] by (simp add: entries_ok_def distinct_map)
  then show "distinct (sortedEntries ?E)" using fst by (metis distinct_map)
  have "map ?g (sortedEntries ?E) = map PrefixString (map fst (sortedEntries ?E))" by (simp add: case_prod_beta comp_def)
  also have "\<dots> = map ?g (sort_key ?g ?E)" unfolding fst by (simp add: case_prod_beta comp_def)
  finally show "sort_key ?g (sortedEntries ?E) = sortedEntries ?E" by (metis sort_key_id_if_sorted sorted_sort_key)
qed

text \<open>
  The snapshots are a Go map. The index, its generation digest and the
  enforcement projection are the same for every order in which the map is ranged over, as long as
  every snapshot carries one of the three actions.
\<close>

lemma buildIndex_any_order:
  assumes "mset sns = mset sns'" and "\<forall>(k, sn)\<in>set sns. 0 < rank (sn_action sn)"
  shows "buildIndex sha sns = buildIndex sha sns'"
proof -
  have occ: "set (occurrences sns) = set (occurrences sns')"
    using mset_eq_setD [OF assms(1)] by (simp add: occurrences_def)
  have pos: "0 < rank a" if "(k, a, p) \<in> set (occurrences sns)" for k a p
    using assms(2) that by (fastforce simp: occurrences_def)
  have uniq: "e = e'" if "(p, e) \<in> set (sortedEntries (collectEntries sns))" "(p, e') \<in> set (sortedEntries (collectEntries sns'))"
    for p e e'
  proof -
    note ok = sortedEntries_ok(1) [OF that(1)] sortedEntries_ok(1) [OF that(2)]
    obtain k k' where k: "(k, ie_action e, p) \<in> set (occurrences sns')" "(k', ie_action e', p) \<in> set (occurrences sns')"
      using ok unfolding entry_ok_def occ by blast
    then have "rank (ie_action e) = rank (ie_action e')" using ok unfolding entry_ok_def occ by (meson order_antisym)
    moreover have "0 < rank (ie_action e)" using pos k(1) unfolding occ by blast
    ultimately have "ie_action e = ie_action e'" by (rule rank_inj)
    moreover have "sorted (ie_sources e)" "sorted (ie_sources e')" using that by (auto simp: sortedEntries_set)
    moreover have "set (ie_sources e) = set (ie_sources e')" "distinct (ie_sources e)" "distinct (ie_sources e')"
      using ok unfolding entry_ok_def occ by auto
    ultimately have "ie_action e = ie_action e' \<and> ie_sources e = ie_sources e'" using sorted_distinct_set_unique by blast
    then show ?thesis by simp
  qed
  let ?S = "sortedEntries (collectEntries sns)" and ?T = "sortedEntries (collectEntries sns')"
  have sub: "set (sortedEntries (collectEntries x)) \<subseteq> set (sortedEntries (collectEntries y))"
    if same: "set (occurrences x) = set (occurrences y)"
      and det: "\<And>p e e'. (p, e) \<in> set (sortedEntries (collectEntries x)) \<Longrightarrow> (p, e') \<in> set (sortedEntries (collectEntries y)) \<Longrightarrow> e = e'"
    for x y
  proof
    fix z assume z: "z \<in> set (sortedEntries (collectEntries x))"
    obtain p e where pe: "z = (p, e)" by (cases z)
    then obtain k where "(k, ie_action e, p) \<in> set (occurrences y)"
      using z sortedEntries_ok(1) same unfolding entry_ok_def by blast
    then obtain e' where "(p, e') \<in> set (sortedEntries (collectEntries y))" using sortedEntries_complete by blast
    then show "z \<in> set (sortedEntries (collectEntries y))" using det z pe by blast
  qed
  have "set ?S = set ?T" using sub [of sns sns'] sub [of sns' sns] occ uniq by blast
  moreover have "inj_on (\<lambda>(p, e). PrefixString p) (set ?S)"
  proof (rule inj_onI, clarify)
    fix p e q d assume *: "(p, e) \<in> set ?S" "(q, d) \<in> set ?S" "PrefixString p = PrefixString q"
    then have "p = q" using PrefixString_inj_feed sortedEntries_ok(2) by (meson inj_onD mem_Collect_eq)
    then show "p = q \<and> e = d" using * uniq [of p e d] \<open>set ?S = set ?T\<close> by simp
  qed
  ultimately have "sort_key (\<lambda>(p, e). PrefixString p) ?S = sort_key (\<lambda>(p, e). PrefixString p) ?T"
    using sort_key_determ sortedEntries_sorted by blast
  then have "?S = ?T" by (simp add: sortedEntries_sorted)
  then show ?thesis by (simp add: buildIndex_def buildIndex_raw_def)
qed

end
