(* ===== verification/Files.thy ===== *)
theory Files
  imports NetipText
begin

text \<open>
  The files of the program as its readers see them, and the hexadecimal encoding of digests.

  A state file is JSON of a struct type. What matters of its bytes is their number and what the
  strict decoder (\<open>DisallowUnknownFields\<close>, then a second \<open>Decode\<close> that must find the end) returns, so a
  file carries exactly these. Writing a value and decoding it gives the value back; a value whose
  encoding fails or has a given size is described by a function \<open>'a \<Rightarrow> nat option\<close>.
\<close>

section \<open>Definitions\<close>

datatype 'a content = Malformed | Trailing | Decoded 'a

datatype 'a stored = Absent | Unreadable | Stored nat bool "'a content"

text \<open>
  \<open>atomicWrite\<close> (\<open>atomic_windows.go\<close>, \<open>atomic_other.go\<close>): a temporary file is written and renamed over
  the target, so a failure leaves the target as it was. Whether it fails is an input.
\<close>

definition atomicWrite :: "bool \<Rightarrow> nat \<Rightarrow> 'a \<Rightarrow> 'a stored \<Rightarrow> 'a stored outcome" where
  "atomicWrite ok bytes x old = (if ok then Inr (Stored bytes True (Decoded x)) else Inl (Err ''write failed''))"

text \<open>A write whose error the caller ignores.\<close>

definition ignoreError :: "'a outcome \<Rightarrow> 'a \<Rightarrow> 'a" where
  "ignoreError r old = (case r of Inl e \<Rightarrow> old | Inr x \<Rightarrow> x)"

lemma ignoreError_simps [simp]: "ignoreError (Inl e) old = old" "ignoreError (Inr x) old = x"
  by (simp_all add: ignoreError_def)

fun hexDecode :: "string \<Rightarrow> nat list option" where
  "hexDecode [] = Some []"
| "hexDecode [c] = None"
| "hexDecode (c # d # s) = (if is_hex c \<and> is_hex d
     then map_option (Cons (hex_value c * 16 + hex_value d)) (hexDecode s) else None)"

text \<open>\<open>fixedHexEqual\<close> and \<open>signatureHMACEqual\<close>: equality of two 32 byte digests in hexadecimal.\<close>

definition fixedHexEqual :: "string \<Rightarrow> string \<Rightarrow> bool" where
  "fixedHexEqual left right =
     (case (hexDecode left, hexDecode right) of
        (Some l, Some r) \<Rightarrow> length l = 32 \<and> length r = 32 \<and> l = r
      | _ \<Rightarrow> False)"

text \<open>The text of a digest: 64 hexadecimal digits.\<close>

definition is_digest :: "string \<Rightarrow> bool" where
  "is_digest s \<longleftrightarrow> length s = 64 \<and> list_all is_hex s"

section \<open>Lemmas\<close>

lemma hexDecode_length: "hexDecode s = Some bs \<Longrightarrow> length s = 2 * length bs"
  by (induction s arbitrary: bs rule: hexDecode.induct) (auto split: if_splits)

lemma hexDecode_defined: "even (length s) \<Longrightarrow> list_all is_hex s \<Longrightarrow> \<exists>bs. hexDecode s = Some bs"
  by (induction s rule: hexDecode.induct) auto

lemma fixedHexEqual_refl: "is_digest s \<Longrightarrow> fixedHexEqual s s"
  using hexDecode_defined [of s] hexDecode_length [of s]
  by (auto simp: fixedHexEqual_def is_digest_def)

text \<open>Every value of the type is encoded in fewer than the given number of bytes.\<close>

definition encodes_within :: "('a \<Rightarrow> nat option) \<Rightarrow> nat \<Rightarrow> bool" where
  "encodes_within enc bound \<longleftrightarrow> (\<forall>x. \<exists>n. enc x = Some n \<and> n < bound)"

section \<open>Durable values\<close>

text \<open>
  What the program relies on for each of its state files: a successful save is what the next start
  loads, a failed one leaves the file alone. Each store of the program is an interpretation; the
  lemma says what a restart finds after any sequence of saves, some of which failed.
\<close>

locale durable_store =
  fixes save :: "bool \<Rightarrow> 'v \<Rightarrow> 'f \<Rightarrow> 'f" and load :: "'f \<Rightarrow> 'v outcome" and storable :: "'v \<Rightarrow> bool"
  assumes load_save: "storable v \<Longrightarrow> load (save True v f) = Inr v"
    and save_fails: "save False v f = f"
begin

fun saves :: "(bool \<times> 'v) list \<Rightarrow> 'f \<Rightarrow> 'f" where
  "saves [] f = f"
| "saves ((ok, v) # ws) f = saves ws (save ok v f)"

lemma saves_append: "saves (ws @ us) f = saves us (saves ws f)"
  by (induction ws arbitrary: f) auto

lemma saves_failed: "\<forall>(ok, v)\<in>set ws. \<not> ok \<Longrightarrow> saves ws f = f"
  by (induction ws arbitrary: f) (auto simp: save_fails)

lemma load_last:
  assumes "storable v" and "\<forall>(ok, u)\<in>set us. \<not> ok"
  shows "load (saves (ws @ (True, v) # us) f) = Inr v"
  using saves_failed [OF assms(2)] load_save [OF assms(1)] by (simp add: saves_append)

end

end
