(* ===== verification/ProtectedPolicy.thy ===== *)
theory ProtectedPolicy
  imports ThreatIndex Files
begin

text \<open>
  \<open>internal/threatintel/protected.go\<close>: the operator's protected networks, their validation and
  their authenticated policy file. Parameters: \<open>sha\<close> is the hexadecimal SHA-256 of a byte string,
  \<open>mac\<close> the hexadecimal HMAC-SHA256 of the JSON encoding of the payload under a key (None when the
  encoding fails), \<open>enc\<close> the size of the encoded policy file. The creation of the key file is not
  modelled; the key is a byte string.
\<close>

section \<open>Definitions\<close>

definition protectedPolicySchemaVersion :: int where "protectedPolicySchemaVersion = 1"
definition maximumProtectedPrefixes :: int where "maximumProtectedPrefixes = 256"
definition minimumProtectedV4Bits :: int where "minimumProtectedV4Bits = 16"
definition minimumProtectedV6Bits :: int where "minimumProtectedV6Bits = 32"

record protectedNetworkPolicy =
  pp_updatedUTC :: gotime
  pp_generationSHA256 :: string
  pp_prefixes :: "string list"

record protectedPolicyMACPayload =
  pm_schemaVersion :: int
  pm_updatedUTC :: gotime
  pm_generationSHA256 :: string
  pm_prefixes :: "string list"

record protectedPolicyDisk =
  pd_schemaVersion :: int
  pd_updatedUTC :: gotime
  pd_generationSHA256 :: string
  pd_prefixes :: "string list"
  pd_mac :: string

text \<open>The two halves of \<open>parseProtectedPrefix\<close>: reading the text and checking the canonical prefix.\<close>

definition readProtectedPrefix :: "string \<Rightarrow> prefix outcome" where
  "readProtectedPrefix value =
     (if CHR ''/'' \<in> set value
      then (case ParsePrefix value of
              None \<Rightarrow> Inl (Err ''protected network prefix rejected'') | Some p \<Rightarrow> Inr p)
      else (case ParseAddr value of
              None \<Rightarrow> Inl (Err ''protected network address rejected'')
            | Some a \<Rightarrow> let address = Unmap a in Inr (PrefixFrom address (int (BitLen address)))))"

definition checkProtectedPrefix :: "prefix \<Rightarrow> prefix outcome" where
  "checkProtectedPrefix prefix =
     (let address = ip prefix in
      if \<not> PrefixIsValid prefix then Inl (Err ''protected network prefix rejected'')
      else if \<not> public_unicast address
      then Inl (Err ''protected network prefix must be public unicast'')
      else if Bits prefix < (if Is4 address then minimumProtectedV4Bits else minimumProtectedV6Bits)
      then Inl (Err ''protected network prefix is too broad'')
      else if list_ex (prefixesOverlap prefix) protectedThreatRanges
      then Inl (Err ''protected network prefix overlaps reserved address space'')
      else Inr prefix)"

definition parseProtectedPrefix :: "string \<Rightarrow> prefix outcome" where
  "parseProtectedPrefix value0 =
     (let value = TrimSpace value0 in
      if length value < 3 \<or> 49 < length value \<or> \<not> isThreatToken value
      then Inl (Err ''protected network prefix rejected'')
      else bind_outcome (readProtectedPrefix value) (\<lambda>prefix0.
           checkProtectedPrefix (canonicalPrefix prefix0)))"

fun parseProtectedPrefixes :: "string list \<Rightarrow> prefix list outcome" where
  "parseProtectedPrefixes [] = Inr []"
| "parseProtectedPrefixes (value # values) =
     bind_outcome (parseProtectedPrefix value) (\<lambda>prefix.
     bind_outcome (parseProtectedPrefixes values) (\<lambda>prefixes. Inr (prefix # prefixes)))"

definition normalizeProtectedPrefixes :: "string list \<Rightarrow> (prefix list \<times> string list) outcome" where
  "normalizeProtectedPrefixes values =
     (if maximumProtectedPrefixes < int (length values)
      then Inl (Err ''protected network prefix boundary exceeded'')
      else bind_outcome (parseProtectedPrefixes values) (\<lambda>prefixes0.
           bind_outcome (compactPrefixUnion prefixes0) (\<lambda>prefixes.
             if maximumProtectedPrefixes < int (length prefixes)
             then Inl (Err ''protected network prefix boundary exceeded'')
             else Inr (prefixes, prefixStrings prefixes))))"

definition protectedPolicyGeneration :: "(string \<Rightarrow> string) \<Rightarrow> string list \<Rightarrow> string" where
  "protectedPolicyGeneration sha prefixes =
     sha (''VGT-GEDEFENSE-PROTECTED-NETWORKS-V1'' @ [CHR 0x0A] @ Join prefixes [CHR 0x0A])"

definition protectedPolicyFromStrings :: "(string \<Rightarrow> string) \<Rightarrow> string list \<Rightarrow> gotime \<Rightarrow> protectedNetworkPolicy" where
  "protectedPolicyFromStrings sha prefixes updatedUTC =
     (let canon = sort prefixes in
      \<lparr>pp_updatedUTC = updatedUTC, pp_generationSHA256 = protectedPolicyGeneration sha canon, pp_prefixes = canon\<rparr>)"

definition protectedPolicyFromPrefixes ::
    "(string \<Rightarrow> string) \<Rightarrow> prefix list \<Rightarrow> gotime \<Rightarrow> protectedNetworkPolicy outcome" where
  "protectedPolicyFromPrefixes sha prefixes updatedUTC =
     bind_outcome (compactPrefixUnion prefixes) (\<lambda>ps.
       Inr (protectedPolicyFromStrings sha (prefixStrings ps) updatedUTC))"

definition protectedPolicyMAC ::
    "(string \<Rightarrow> protectedPolicyMACPayload \<Rightarrow> string option) \<Rightarrow> string \<Rightarrow> protectedPolicyMACPayload \<Rightarrow> string outcome" where
  "protectedPolicyMAC mac key payload =
     (if length key \<noteq> 32 then Inl (Err ''protected network policy key rejected'')
      else case mac key payload of None \<Rightarrow> Inl (Err ''encoding failed'') | Some m \<Rightarrow> Inr m)"

definition loadProtectedPolicy ::
    "(string \<Rightarrow> string) \<Rightarrow> (string \<Rightarrow> protectedPolicyMACPayload \<Rightarrow> string option) \<Rightarrow>
     protectedPolicyDisk stored \<Rightarrow> string \<Rightarrow> (protectedNetworkPolicy \<times> prefix list) outcome" where
  "loadProtectedPolicy sha mac f key =
     (case f of
        Absent \<Rightarrow> bind_outcome (protectedPolicyFromPrefixes sha [] 0) (\<lambda>empty. Inr (empty, []))
      | Unreadable \<Rightarrow> Inl (Err ''read failed'')
      | Stored bytes regular content \<Rightarrow>
          if int bytes < 2 \<or> 65536 < int bytes
          then Inl (Err ''protected network policy size boundary rejected'')
          else case content of
              Malformed \<Rightarrow> Inl (Err ''protected network policy JSON rejected'')
            | Trailing \<Rightarrow> Inl (Err ''protected network policy trailing data rejected'')
            | Decoded disk \<Rightarrow>
                if pd_schemaVersion disk \<noteq> protectedPolicySchemaVersion \<or> pd_updatedUTC disk = 0 \<or>
                   maximumProtectedPrefixes < int (length (pd_prefixes disk)) \<or>
                   length (pd_generationSHA256 disk) \<noteq> 64 \<or> length (pd_mac disk) \<noteq> 64
                then Inl (Err ''protected network policy metadata rejected'')
                else bind_outcome (normalizeProtectedPrefixes (pd_prefixes disk)) (\<lambda>(prefixes, canon).
                  let generation = protectedPolicyGeneration sha canon in
                  if \<not> fixedHexEqual generation (pd_generationSHA256 disk)
                  then Inl (Err ''protected network policy generation rejected'')
                  else case protectedPolicyMAC mac key
                         \<lparr>pm_schemaVersion = pd_schemaVersion disk, pm_updatedUTC = pd_updatedUTC disk,
                          pm_generationSHA256 = generation, pm_prefixes = canon\<rparr> of
                      Inl e \<Rightarrow> Inl (Err ''protected network policy authentication rejected'')
                    | Inr expectedMAC \<Rightarrow>
                        if \<not> fixedHexEqual expectedMAC (pd_mac disk)
                        then Inl (Err ''protected network policy authentication rejected'')
                        else Inr (\<lparr>pp_updatedUTC = pd_updatedUTC disk, pp_generationSHA256 = generation,
                                   pp_prefixes = canon\<rparr>, prefixes)))"

text \<open>Writing returns the policy and the new contents of the file.\<close>

definition writeProtectedPolicy ::
    "(string \<Rightarrow> string) \<Rightarrow> (string \<Rightarrow> protectedPolicyMACPayload \<Rightarrow> string option) \<Rightarrow> (protectedPolicyDisk \<Rightarrow> nat option) \<Rightarrow>
     bool \<Rightarrow> protectedPolicyDisk stored \<Rightarrow> string \<Rightarrow> prefix list \<Rightarrow> gotime \<Rightarrow>
     (protectedNetworkPolicy \<times> protectedPolicyDisk stored) outcome" where
  "writeProtectedPolicy sha mac enc writes f key prefixes updatedUTC =
     bind_outcome (compactPrefixUnion prefixes) (\<lambda>canonicalPrefixes.
     let canon = prefixStrings canonicalPrefixes in
     if maximumProtectedPrefixes < int (length canon)
     then Inl (Err ''protected network policy boundary exceeded'')
     else let policy = protectedPolicyFromStrings sha canon updatedUTC in
       bind_outcome (protectedPolicyMAC mac key
           \<lparr>pm_schemaVersion = protectedPolicySchemaVersion, pm_updatedUTC = pp_updatedUTC policy,
            pm_generationSHA256 = pp_generationSHA256 policy, pm_prefixes = pp_prefixes policy\<rparr>) (\<lambda>m.
       let disk = \<lparr>pd_schemaVersion = protectedPolicySchemaVersion, pd_updatedUTC = pp_updatedUTC policy,
                   pd_generationSHA256 = pp_generationSHA256 policy, pd_prefixes = pp_prefixes policy, pd_mac = m\<rparr> in
       case enc disk of
         None \<Rightarrow> Inl (Err ''encoding failed'')
       | Some bytes \<Rightarrow> bind_outcome (atomicWrite writes (Suc bytes) disk f) (\<lambda>f'. Inr (policy, f'))))"

text \<open>
  \<open>restoreProtectedPolicy\<close> of \<open>manager.go\<close>: the new contents of the file and whether it succeeded.
  Removing a file that does not exist counts as success.
\<close>

definition restoreProtectedPolicy ::
    "(string \<Rightarrow> string) \<Rightarrow> (string \<Rightarrow> protectedPolicyMACPayload \<Rightarrow> string option) \<Rightarrow> (protectedPolicyDisk \<Rightarrow> nat option) \<Rightarrow>
     bool \<Rightarrow> protectedPolicyDisk stored \<Rightarrow> string \<Rightarrow> protectedNetworkPolicy \<Rightarrow> prefix list \<Rightarrow>
     protectedPolicyDisk stored \<times> bool" where
  "restoreProtectedPolicy sha mac enc writes f key policy prefixes =
     (if pp_updatedUTC policy = 0 \<and> pp_prefixes policy = []
      then (if writes \<or> f = Absent then (Absent, True) else (f, False))
      else case writeProtectedPolicy sha mac enc writes f key prefixes (pp_updatedUTC policy) of
          Inl e \<Rightarrow> (f, False)
        | Inr (restored, f') \<Rightarrow> (f', fixedHexEqual (pp_generationSHA256 restored) (pp_generationSHA256 policy)))"

section \<open>The text of a canonical prefix is a token\<close>

lemma length_Join_hex: "groups_ok gs \<Longrightarrow> length (Join (map append_hex gs) '':'') \<le> 5 * length gs"
proof (induction gs)
  case (Cons g gs)
  then have "length (append_hex g) \<le> 4" using append_hex_props(4) by simp
  with Cons show ?case by (cases gs) auto
qed simp

lemma length_string6:
  assumes "length gs = 8" and "groups_ok gs"
  shows "length (string6 gs) \<le> 40"
proof -
  obtain zs ze where z: "zero_scan gs = (zs, ze)" by fastforce
  have span: "zero_span gs (zs, ze)" using zero_scan_span z by metis
  note b = length_Join_hex [OF conjunct1 [OF groups_ok_take_drop [OF assms(2), of zs]]]
    length_Join_hex [OF conjunct2 [OF groups_ok_take_drop [OF assms(2), of ze]]] length_Join_hex [OF assms(2)]
  show ?thesis
  proof (cases "zs = 255")
    case True
    then show ?thesis using b(3) assms(1) z by (simp add: string6_def)
  next
    case False
    then have "zs + 2 \<le> ze" "ze \<le> 8" using span assms(1) by (auto simp: zero_span_def)
    then show ?thesis using b(1,2) z False assms(1) by (simp add: string6_def)
  qed
qed

lemma length_itoa:
  assumes "n < 1000"
  shows "length (itoa n) \<le> 3"
proof -
  have "length (itoa (n div 100)) = 1" using assms by (simp add: itoa.simps [of "n div 100"])
  then have "length (itoa (n div 10)) \<le> 2"
    by (simp add: itoa.simps [of "n div 10"] div_mult2_eq [symmetric])
  then show ?thesis by (simp add: itoa.simps [of n])
qed

lemma length_string4: "length (string4 w) \<le> 15"
proof -
  have "length (itoa (unat (v4 w k))) \<le> 3" for k
  proof -
    have "unat (v4 w k) < 256" using unsigned_less [of "v4 w k"] by simp
    then show ?thesis using length_itoa [of "unat (v4 w k)"] by linarith
  qed
  from this [of 0] this [of 1] this [of 2] this [of 3] show ?thesis by (simp add: string4_def upt_rec numeral_eq_Suc)
qed

lemma PrefixString_token_ok:
  assumes ok: "prefix_ok p" and v: "PrefixIsValid p"
  shows "3 \<le> length (PrefixString p)" and "length (PrefixString p) \<le> 49" and "isThreatToken (PrefixString p)"
    and "CHR ''/'' \<in> set (PrefixString p)"
proof -
  obtain b where b: "bitsPlusOne p = Suc b" "b \<le> BitLen (ip p)"
    using assms by (cases "bitsPlusOne p") (auto simp: prefix_ok_def PrefixIsValid_def)
  have eq: "PrefixString p = AddrString (ip p) @ ''/'' @ itoa b"
    using b v by (simp add: PrefixString_def Bits_def)
  have "b < 1000" using b(2) by (cases "ip p") auto
  note bits = length_itoa [OF this]
  have z: "\<not> hasZone (ip p)" "IsValid (ip p)" using assms by (auto simp: prefix_ok_def)
  have four: "length (string4 w) \<le> 15 \<and> string4 w \<noteq> [] \<and> (\<forall>c\<in>set (string4 w). is_digit c \<or> c = CHR ''.'')" for w
    using set_Join [of "map (\<lambda>k. itoa (unat (v4 w k))) [0..<4]" "''.''"] itoa_digits length_string4 [of w]
    by (fastforce simp: string4_def upt_rec)
  have addr: "length (AddrString (ip p)) \<le> 40 \<and> AddrString (ip p) \<noteq> [] \<and>
      (\<forall>c\<in>set (AddrString (ip p)). is_digit c \<or> is_hex c \<or> c = CHR ''.'' \<or> c = CHR '':'')"
  proof (cases "ip p")
    case (Addr4 w)
    then show ?thesis using four [of w] by auto
  next
    case (Addr6 w z')
    then have z': "z' = []" using z by simp
    have l: "length (groups6 w) = 8" by (simp add: groups6_def)
    have "string6 (groups6 w) \<noteq> []" using string6_has_colon [OF l] by auto
    moreover have "is_hex CHR ''f''" by code_simp
    ultimately show ?thesis
      using Addr6 z' four [of "ucast w"] length_string6 [OF l] set_string6 [of "groups6 w"] by auto
  qed (use z in simp)
  show "3 \<le> length (PrefixString p)" using addr itoa_nonempty [of b] by (cases "AddrString (ip p)"; cases "itoa b") (auto simp: eq)
  show "length (PrefixString p) \<le> 49" using addr bits by (simp add: eq)
  show "isThreatToken (PrefixString p)"
    using addr itoa_digits [of b] by (auto simp: eq isThreatToken_def list_all_iff is_threat_char_def is_hex_def)
  show "CHR ''/'' \<in> set (PrefixString p)" by (simp add: eq)
qed

lemma PrefixString_token:
  assumes "canonical p"
  shows "3 \<le> length (PrefixString p)" and "length (PrefixString p) \<le> 49" and "isThreatToken (PrefixString p)"
    and "CHR ''/'' \<in> set (PrefixString p)"
  using PrefixString_token_ok [OF canonical_ok [OF assms]] assms by (simp_all add: canonical_def)

text \<open>A token does not begin or end with white space, so trimming leaves it.\<close>

lemma drop_spaces_ascii:
  assumes "s = c # t" and "is_threat_char c" and "\<forall>e\<in>set encs. \<exists>d r. e = d # r \<and> \<not> is_threat_char d"
  shows "drop_spaces n encs s = s"
proof (cases n)
  case (Suc m)
  have "find (starts_with s) encs = None"
    using assms by (auto simp: find_None_iff)
  then show ?thesis using Suc by (simp add: space_width_def)
qed simp

lemma space_not_token:
  "\<forall>e\<in>set space_encodings. \<exists>d r. e = d # r \<and> \<not> is_threat_char d"
  "\<forall>e\<in>set (map rev space_encodings). \<exists>d r. e = d # r \<and> \<not> is_threat_char d"
  by (simp_all add: space_encodings_def is_threat_char_def is_digit_def byte_def)

lemma TrimSpace_token:
  assumes "isThreatToken s"
  shows "TrimSpace s = s"
proof (cases s)
  case (Cons c t)
  obtain d u where d: "rev s = d # u" using Cons by (cases "rev s") auto
  have "d \<in> set s" using d by (metis list.set_intros(1) set_rev)
  then have "is_threat_char c" "is_threat_char d" using assms Cons by (auto simp: isThreatToken_def list_all_iff)
  then have "trim_left s = s" "trim_right s = s"
    using drop_spaces_ascii [OF Cons _ space_not_token(1)] drop_spaces_ascii [OF d _ space_not_token(2)]
    by (simp_all add: trim_left_def trim_right_def)
  then show ?thesis by (simp add: TrimSpace_def)
qed (simp add: TrimSpace_def trim_left_def trim_right_def)

section \<open>Validation\<close>

text \<open>What \<open>parseProtectedPrefix\<close> demands of the canonical prefix.\<close>

definition protected_ok :: "prefix \<Rightarrow> bool" where
  "protected_ok p \<longleftrightarrow> canonical p \<and> public_unicast (ip p) \<and> \<not> list_ex (prefixesOverlap p) protectedThreatRanges"

definition narrow_enough :: "prefix \<Rightarrow> bool" where
  "narrow_enough p \<longleftrightarrow> (if Is4 (ip p) then minimumProtectedV4Bits else minimumProtectedV6Bits) \<le> Bits p"

lemma parseProtectedPrefix_ok:
  assumes "parseProtectedPrefix v = Inr p"
  shows "protected_ok p \<and> narrow_enough p"
proof -
  obtain q where q: "readProtectedPrefix (TrimSpace v) = Inr q" "checkProtectedPrefix (canonicalPrefix q) = Inr p"
    using assms by (auto simp: parseProtectedPrefix_def Let_def bind_outcome_eq_Inr split: if_splits)
  have "prefix_ok q"
    using q(1) ParsePrefix_ok(1) by (auto simp: readProtectedPrefix_def Let_def split: if_splits option.splits)
  then show ?thesis
    using q(2) canonicalPrefix_valid
    by (auto simp: checkProtectedPrefix_def Let_def protected_ok_def narrow_enough_def split: if_splits)
qed

lemma parseProtectedPrefix_String:
  assumes "protected_ok p" and "narrow_enough p"
  shows "parseProtectedPrefix (PrefixString p) = Inr p"
proof -
  have c: "canonical p" using assms by (simp add: protected_ok_def)
  note t = PrefixString_token [OF c]
  have "PrefixIsValid p" using c by (simp add: canonical_def)
  then show ?thesis
    using assms t ParsePrefix_String [OF c] TrimSpace_token [OF t(3)] c
    by (auto simp: parseProtectedPrefix_def readProtectedPrefix_def checkProtectedPrefix_def Let_def protected_ok_def narrow_enough_def)
qed

lemma parseProtectedPrefixes_ok: "parseProtectedPrefixes vs = Inr ps \<Longrightarrow> \<forall>p\<in>set ps. protected_ok p \<and> narrow_enough p"
  using parseProtectedPrefix_ok by (induction vs arbitrary: ps) (auto simp: bind_outcome_eq_Inr)

lemma parseProtectedPrefixes_Strings:
  "\<forall>p\<in>set ps. protected_ok p \<and> narrow_enough p \<Longrightarrow> parseProtectedPrefixes (map PrefixString ps) = Inr ps"
  using parseProtectedPrefix_String by (induction ps) auto

lemma protected_public:
  assumes "protected_ok p" and "narrow_enough p" and "plain a" and "Contains p a"
  shows "public_unicast a"
proof -
  have c: "canonical p" and pub: "public_unicast (ip p)" using assms by (auto simp: protected_ok_def)
  have bits: "16 \<le> Bits p"
    using assms(2) by (auto simp: narrow_enough_def minimumProtectedV4Bits_def minimumProtectedV6Bits_def split: if_splits)
  show ?thesis
  proof (cases a)
    case (Addr4 w)
    let ?r = "\<lparr>ip = Addr4 0xF0000000, bitsPlusOne = 5\<rparr>"
    have r: "?r \<in> set protectedThreatRanges" by (simp add: protectedThreatRanges_eq)
    then have "\<not> Contains ?r a"
      using prefixesOverlap_iff [OF c] protectedThreatRanges_canonical assms(1,4) by (auto simp: protected_ok_def list_ex_iff)
    then have "w \<noteq> 0xFFFFFFFF" using Addr4 by (auto simp: Contains_def PrefixIsValid_def Bits_def)
    then show ?thesis using public_unicast_contained4 [OF c pub] assms(4) bits Addr4 by simp
  next
    case (Addr6 w z)
    have "z = []" using assms(3) Addr6 by (simp add: plain_def)
    then show ?thesis using public_unicast_contained6 [OF c pub] assms(3,4) bits Addr6 by blast
  qed (use assms in \<open>simp add: plain_def\<close>)
qed

text \<open>
  An accepted protected network is canonical, at least /16 (IPv4) or
  /32 (IPv6), every address in it is public unicast, and it has no address in common with a reserved
  range.
\<close>

lemma parseProtectedPrefix_sound:
  assumes "parseProtectedPrefix v = Inr p" and "plain a" and "Contains p a"
  shows "canonical p \<and> (if Is4 (ip p) then 16 else 32) \<le> Bits p \<and> public_unicast a \<and>
    list_all (\<lambda>r. \<not> Contains r a) protectedThreatRanges"
proof -
  note ok = parseProtectedPrefix_ok [OF assms(1)]
  then have c: "canonical p" by (simp add: protected_ok_def)
  have "list_all (\<lambda>r. \<not> Contains r a) protectedThreatRanges"
    using ok prefixesOverlap_iff [OF c] protectedThreatRanges_canonical assms(3)
    by (fastforce simp: protected_ok_def list_ex_iff list_all_iff)
  moreover have "public_unicast a" using protected_public ok assms(2,3) by blast
  ultimately show ?thesis
    using ok c by (auto simp: narrow_enough_def minimumProtectedV4Bits_def minimumProtectedV6Bits_def)
qed

section \<open>Persistence\<close>

lemma protected_ok_prefix: "protected_ok p \<Longrightarrow> prefix_ok p \<and> canonicalPrefix p = p"
  by (simp add: protected_ok_def canonical_ok)

lemma compactPrefixUnion_idem:
  assumes "\<forall>p\<in>set ps. prefix_ok p" and "compactPrefixUnion ps = Inr qs"
  shows "compactPrefixUnion qs = Inr qs"
proof -
  obtain qs' where qs': "compactPrefixUnion ps = Inr qs'" "\<forall>q\<in>set qs'. canonical q"
      "\<forall>a. covered qs' a \<longleftrightarrow> (\<exists>p\<in>set ps. Contains (canonicalPrefix p) a)"
    using compactPrefixUnion_spec [OF assms(1)] by blast
  then have q: "\<forall>q\<in>set qs. canonical q" "\<And>a. covered qs a \<longleftrightarrow> covered (map canonicalPrefix ps) a"
    using assms(2) by (simp_all add: covered_def)
  have zero: "\<forall>p\<in>set qs. canonical p \<or> p = PrefixZero" using q(1) by blast
  have "compactPrefixUnion qs = compactPrefixUnion ps"
    by (rule compactPrefixUnion_unique) (use q canonical_or_zero [OF zero] assms(1) in auto)
  then show ?thesis using assms(2) by simp
qed

lemma normalizeProtectedPrefixes_spec:
  assumes "normalizeProtectedPrefixes values = Inr (ps, strs)"
  shows "\<forall>p\<in>set ps. protected_ok p" and "strs = map PrefixString ps" and "compactPrefixUnion ps = Inr ps"
    and "sorted strs" and "int (length ps) \<le> maximumProtectedPrefixes"
proof -
  obtain qs where qs: "parseProtectedPrefixes values = Inr qs" "compactPrefixUnion qs = Inr ps"
    "strs = prefixStrings ps" "int (length ps) \<le> maximumProtectedPrefixes"
    using assms by (auto simp: normalizeProtectedPrefixes_def bind_outcome_eq_Inr split: if_splits)
  have ok: "\<forall>p\<in>set qs. protected_ok p \<and> narrow_enough p" using parseProtectedPrefixes_ok qs(1) by blast
  then have pok: "\<forall>p\<in>set qs. prefix_ok p" using protected_ok_prefix by blast
  obtain ps' where ps': "compactPrefixUnion qs = Inr ps'" "\<forall>p\<in>set ps'. canonical p" "sorted (map PrefixString ps')"
      "\<forall>a. covered ps' a \<longleftrightarrow> (\<exists>p\<in>set qs. Contains (canonicalPrefix p) a)"
    using compactPrefixUnion_spec [OF pok] by blast
  then have c: "\<forall>p\<in>set ps. canonical p" "sorted (map PrefixString ps)" and cov: "\<And>p a. p \<in> set ps \<Longrightarrow> Contains p a \<Longrightarrow> \<exists>q\<in>set qs. Contains q a"
    using qs(2) ok protected_ok_prefix by (auto simp: covered_def)
  show "\<forall>p\<in>set ps. protected_ok p"
  proof
    fix p assume p: "p \<in> set ps"
    have cp: "canonical p" using c(1) p by blast
    obtain q where q: "q \<in> set qs" "Contains q (ip p)" using cov [OF p Contains_self [OF cp]] by blast
    have "public_unicast (ip p)"
      using protected_public q ok cp by (auto simp: canonical_def)
    moreover have "\<not> prefixesOverlap p r" if r: "r \<in> set protectedThreatRanges" for r
    proof
      assume "prefixesOverlap p r"
      then obtain a where a: "Contains p a" "Contains r a"
        using prefixesOverlap_iff [OF cp] protectedThreatRanges_canonical r by blast
      then obtain q where q: "q \<in> set qs" "Contains q a" using cov [OF p] by blast
      then have "prefixesOverlap q r"
        using prefixesOverlap_iff [of q r] ok protectedThreatRanges_canonical r a(2) by (auto simp: protected_ok_def)
      then show False using ok q(1) r by (auto simp: protected_ok_def list_ex_iff)
    qed
    ultimately show "protected_ok p" using cp by (auto simp: protected_ok_def list_ex_iff)
  qed
  show strs: "strs = map PrefixString ps" using prefixStrings_canonical [OF c] qs(3) by simp
  show "compactPrefixUnion ps = Inr ps" by (rule compactPrefixUnion_idem [OF pok qs(2)])
  show "sorted strs" using strs c(2) by simp
  show "int (length ps) \<le> maximumProtectedPrefixes" by (rule qs(4))
qed

text \<open>What the validation says of the text of an accepted prefix that is too broad.\<close>

lemma parseProtectedPrefix_broad:
  assumes "protected_ok p" and "\<not> narrow_enough p"
  shows "parseProtectedPrefix (PrefixString p) = Inl (Err ''protected network prefix is too broad'')"
proof -
  have c: "canonical p" using assms by (simp add: protected_ok_def)
  note t = PrefixString_token [OF c]
  have "PrefixIsValid p" using c by (simp add: canonical_def)
  then show ?thesis
    using assms t ParsePrefix_String [OF c] TrimSpace_token [OF t(3)] c
    by (auto simp: parseProtectedPrefix_def readProtectedPrefix_def checkProtectedPrefix_def Let_def protected_ok_def narrow_enough_def)
qed

lemma parseProtectedPrefixes_broad:
  assumes "\<forall>p\<in>set ps. protected_ok p" and "\<not> list_all narrow_enough ps"
  shows "parseProtectedPrefixes (map PrefixString ps) = Inl (Err ''protected network prefix is too broad'')"
  using assms
proof (induction ps)
  case (Cons p ps)
  then show ?case
    by (cases "narrow_enough p") (auto simp: parseProtectedPrefix_String parseProtectedPrefix_broad)
qed simp

lemma normalizeProtectedPrefixes_again:
  assumes "normalizeProtectedPrefixes values = Inr (ps, strs)"
  shows "normalizeProtectedPrefixes strs =
    (if list_all narrow_enough ps then Inr (ps, strs) else Inl (Err ''protected network prefix is too broad''))"
proof -
  note n = normalizeProtectedPrefixes_spec [OF assms]
  have strings: "prefixStrings ps = strs"
    using prefixStrings_canonical [of ps] n(1,2,4) by (auto simp: protected_ok_def)
  show ?thesis
    using n parseProtectedPrefixes_Strings [of ps] parseProtectedPrefixes_broad [OF n(1)] strings
    by (auto simp: normalizeProtectedPrefixes_def list_all_iff)
qed

text \<open>The file that \<open>writeProtectedPolicy\<close> stores for normalised prefixes.\<close>

lemma writeProtectedPolicy_stores:
  assumes "normalizeProtectedPrefixes values = Inr (ps, strs)" and "length key = 32" and "\<forall>x. is_digest (sha x)"
    and "\<forall>x. \<exists>m. mac key x = Some m \<and> is_digest m"
    and "\<forall>d. pd_prefixes d = strs \<and> is_digest (pd_generationSHA256 d) \<and> is_digest (pd_mac d) \<longrightarrow> (\<exists>n. enc d = Some n \<and> 1 \<le> n \<and> n < 65536)"
  shows "\<exists>policy k m. writeProtectedPolicy sha mac enc True old key ps updatedUTC = Inr (policy, Stored (Suc k) True (Decoded
       \<lparr>pd_schemaVersion = protectedPolicySchemaVersion, pd_updatedUTC = updatedUTC,
        pd_generationSHA256 = protectedPolicyGeneration sha strs, pd_prefixes = strs, pd_mac = m\<rparr>)) \<and>
     policy = \<lparr>pp_updatedUTC = updatedUTC, pp_generationSHA256 = protectedPolicyGeneration sha strs, pp_prefixes = strs\<rparr> \<and>
     mac key \<lparr>pm_schemaVersion = protectedPolicySchemaVersion, pm_updatedUTC = updatedUTC,
       pm_generationSHA256 = protectedPolicyGeneration sha strs, pm_prefixes = strs\<rparr> = Some m \<and> is_digest m \<and> 1 \<le> k \<and> k < 65536"
proof -
  note n = normalizeProtectedPrefixes_spec [OF assms(1)]
  have strings: "prefixStrings ps = strs"
    using prefixStrings_canonical [of ps] n(1,2,4) by (auto simp: protected_ok_def)
  have policy: "protectedPolicyFromStrings sha strs updatedUTC =
      \<lparr>pp_updatedUTC = updatedUTC, pp_generationSHA256 = protectedPolicyGeneration sha strs, pp_prefixes = strs\<rparr>"
    using n(4) by (simp add: protectedPolicyFromStrings_def sorted_sort_id)
  obtain m where m: "mac key \<lparr>pm_schemaVersion = protectedPolicySchemaVersion, pm_updatedUTC = updatedUTC,
      pm_generationSHA256 = protectedPolicyGeneration sha strs, pm_prefixes = strs\<rparr> = Some m" "is_digest m"
    using assms(4) by blast
  let ?disk = "\<lparr>pd_schemaVersion = protectedPolicySchemaVersion, pd_updatedUTC = updatedUTC,
     pd_generationSHA256 = protectedPolicyGeneration sha strs, pd_prefixes = strs, pd_mac = m\<rparr>"
  obtain k where k: "enc ?disk = Some k" "1 \<le> k" "k < 65536"
    using assms(5) [rule_format, of ?disk] assms(3) m(2) by (auto simp: protectedPolicyGeneration_def)
  have "int (length strs) \<le> maximumProtectedPrefixes" using n(2,5) by simp
  then show ?thesis
    using n(3) m k assms(2) by (simp add: writeProtectedPolicy_def strings policy protectedPolicyMAC_def atomicWrite_def)
qed

lemma merge_example:
  "normalizeProtectedPrefixes [''8.8.0.0/16'', ''8.9.0.0/16''] =
     Inr ([\<lparr>ip = Addr4 0x08080000, bitsPlusOne = 16\<rparr>], [''8.8.0.0/15''])"
  "\<not> narrow_enough \<lparr>ip = Addr4 0x08080000, bitsPlusOne = 16\<rparr>"
  by code_simp+

text \<open>
  C39 [protectedPolicy_reload]: the protected networks that an operator sets are written in compacted
  form, and the written file is accepted again, with the same policy and the same prefixes, exactly
  when every compacted prefix is still narrow enough for the validation (/16 or /32). Otherwise the
  file just written is refused as too broad, although each network of the request was accepted: the
  compaction merges adjacent networks. Hypotheses: the key has 32 bytes, digests and MACs are 64
  hexadecimal digits, and the policy with these prefixes is encoded within 64 KiB.
\<close>

theorem protectedPolicy_reload:
  assumes "normalizeProtectedPrefixes values = Inr (ps, strs)" and "length key = 32" and "updatedUTC \<noteq> 0"
    and "\<forall>x. is_digest (sha x)" and "\<forall>x. \<exists>m. mac key x = Some m \<and> is_digest m"
    and "\<forall>d. pd_prefixes d = strs \<and> is_digest (pd_generationSHA256 d) \<and> is_digest (pd_mac d) \<longrightarrow> (\<exists>n. enc d = Some n \<and> 1 \<le> n \<and> n < 65536)"
  shows "\<exists>policy f. writeProtectedPolicy sha mac enc True old key ps updatedUTC = Inr (policy, f) \<and> pp_prefixes policy = strs \<and>
    loadProtectedPolicy sha mac f key =
      (if list_all narrow_enough ps then Inr (policy, ps) else Inl (Err ''protected network prefix is too broad''))"
proof -
  have gen: "is_digest (protectedPolicyGeneration sha strs)" using assms(4) by (simp add: protectedPolicyGeneration_def)
  have len: "int (length strs) \<le> maximumProtectedPrefixes" using normalizeProtectedPrefixes_spec(2,5) [OF assms(1)] by simp
  obtain policy k m where w: "writeProtectedPolicy sha mac enc True old key ps updatedUTC = Inr (policy, Stored (Suc k) True (Decoded
       \<lparr>pd_schemaVersion = protectedPolicySchemaVersion, pd_updatedUTC = updatedUTC,
        pd_generationSHA256 = protectedPolicyGeneration sha strs, pd_prefixes = strs, pd_mac = m\<rparr>))"
      "policy = \<lparr>pp_updatedUTC = updatedUTC, pp_generationSHA256 = protectedPolicyGeneration sha strs, pp_prefixes = strs\<rparr>"
      "mac key \<lparr>pm_schemaVersion = protectedPolicySchemaVersion, pm_updatedUTC = updatedUTC,
       pm_generationSHA256 = protectedPolicyGeneration sha strs, pm_prefixes = strs\<rparr> = Some m" "is_digest m" "1 \<le> k" "k < 65536"
    using writeProtectedPolicy_stores [where mac = mac and key = key, OF assms(1,2,4,5,6), of old updatedUTC] by blast
  have "loadProtectedPolicy sha mac (Stored (Suc k) True (Decoded
       \<lparr>pd_schemaVersion = protectedPolicySchemaVersion, pd_updatedUTC = updatedUTC,
        pd_generationSHA256 = protectedPolicyGeneration sha strs, pd_prefixes = strs, pd_mac = m\<rparr>)) key =
      (if list_all narrow_enough ps then Inr (policy, ps) else Inl (Err ''protected network prefix is too broad''))"
    using len w(2-6) assms(2,3) gen normalizeProtectedPrefixes_again [OF assms(1)] fixedHexEqual_refl [OF gen] fixedHexEqual_refl [OF w(4)]
    by (simp add: loadProtectedPolicy_def protectedPolicyMAC_def is_digest_def)
  then show ?thesis using w(1,2) by auto
qed

theorem protectedPolicy_reload_witness:
  "\<exists>policy f. writeProtectedPolicy (\<lambda>x. replicate 64 CHR ''a'') (\<lambda>k x. Some (replicate 64 CHR ''b'')) (\<lambda>d. Some 300) True Absent
       (replicate 32 CHR ''k'') [\<lparr>ip = Addr4 0x08080000, bitsPlusOne = 16\<rparr>] hour = Inr (policy, f) \<and> pp_prefixes policy = [''8.8.0.0/15''] \<and>
     loadProtectedPolicy (\<lambda>x. replicate 64 CHR ''a'') (\<lambda>k x. Some (replicate 64 CHR ''b'')) f (replicate 32 CHR ''k'') =
       Inl (Err ''protected network prefix is too broad'')"
proof -
  have d: "is_digest (replicate 64 CHR ''a'')" "is_digest (replicate 64 CHR ''b'')" by code_simp+
  have "hour \<noteq> 0" by (simp add: duration_defs)
  then show ?thesis
    using protectedPolicy_reload [OF merge_example(1), of "replicate 32 CHR ''k''" hour "\<lambda>x. replicate 64 CHR ''a''"
        "\<lambda>k x. Some (replicate 64 CHR ''b'')" "\<lambda>d. Some 300" Absent] d merge_example(2) by simp
qed

end
