(* ===== verification/ThreatStore.thy ===== *)
theory ThreatStore
  imports ProtectedPolicy
begin

text \<open>
  \<open>internal/threatintel/store.go\<close>: the persisted generation of a feed and the enforcement snapshot that
  the firewall layer consumes. Parameters: \<open>sha\<close> the hexadecimal SHA-256 of a byte string, \<open>enc\<close> the
  size of the JSON encoding of a value (None when it fails). Whether a write succeeds is an input.
\<close>

section \<open>Definitions\<close>

definition digestIndicators :: "(string \<Rightarrow> string) \<Rightarrow> string \<Rightarrow> action \<Rightarrow> string list \<Rightarrow> string" where
  "digestIndicators sha key act indicators =
     sha (key @ [CHR 0x0A] @ act @ [CHR 0x0A] @ Join indicators [CHR 0x0A])"

definition writeSourceSnapshot ::
    "(sourceSnapshot \<Rightarrow> nat option) \<Rightarrow> bool \<Rightarrow> sourceSnapshot \<Rightarrow> sourceSnapshot stored \<Rightarrow> sourceSnapshot stored outcome" where
  "writeSourceSnapshot enc ok snapshot f =
     (case enc snapshot of
        None \<Rightarrow> Inl (Err ''encoding failed'')
      | Some bytes \<Rightarrow> atomicWrite ok (Suc bytes) snapshot f)"

fun canonicalIndicators :: "string list \<Rightarrow> string list outcome" where
  "canonicalIndicators [] = Inr []"
| "canonicalIndicators (value # values) =
     (case parseThreatToken value of
        Inl e \<Rightarrow> Inl (Err ''cached threat source indicator rejected'')
      | Inr prefix \<Rightarrow> bind_outcome (canonicalIndicators values) (\<lambda>rest. Inr (PrefixString prefix # rest)))"

definition readSourceSnapshot :: "(string \<Rightarrow> string) \<Rightarrow> sourceSnapshot stored \<Rightarrow> source \<Rightarrow> sourceSnapshot outcome" where
  "readSourceSnapshot sha f source =
     (case f of
        Absent \<Rightarrow> Inl (Err ''file does not exist'')
      | Unreadable \<Rightarrow> Inl (Err ''read failed'')
      | Stored bytes regular content \<Rightarrow>
          (case content of
             Malformed \<Rightarrow> Inl (Err ''cached threat source JSON rejected'')
           | Trailing \<Rightarrow> Inl (Err ''cached threat source trailing data rejected'')
           | Decoded snapshot \<Rightarrow>
               if sn_schemaVersion snapshot \<noteq> SchemaVersion \<or> sn_key snapshot \<noteq> s_key source \<or>
                  sn_action snapshot \<noteq> s_action source \<or> sn_generatedUTC snapshot = 0 \<or>
                  sn_indicators snapshot = [] \<or> maximumSourceIndicators < int (length (sn_indicators snapshot))
               then Inl (Err ''cached threat source metadata rejected'')
               else bind_outcome (canonicalIndicators (sn_indicators snapshot)) (\<lambda>unsorted.
                 let canon = sort unsorted in
                 if digestIndicators sha (s_key source) (s_action source) canon \<noteq> sn_generationSHA256 snapshot
                 then Inl (Err ''cached threat source generation rejected'')
                 else Inr (snapshot\<lparr>sn_indicators := canon\<rparr>))))"

definition writeEnforcementSnapshot ::
    "(string \<Rightarrow> string) \<Rightarrow> (enforcementSnapshot \<Rightarrow> nat option) \<Rightarrow> bool \<Rightarrow> gotime \<Rightarrow> index option \<Rightarrow> int \<Rightarrow>
     protectedNetworkPolicy \<Rightarrow> enforcementSnapshot stored \<Rightarrow> enforcementSnapshot stored outcome" where
  "writeEnforcementSnapshot sha enc ok generatedUTC idx blockingFeeds policy f =
     (case idx of
        None \<Rightarrow> Inl (Err ''threat enforcement snapshot rejected'')
      | Some i \<Rightarrow>
          if ix_blocking i = 0 \<or> maximumEnforcementIndicators < ix_blocking i \<or>
             length (ix_enforcementGeneration i) \<noteq> 64 \<or> blockingFeeds \<le> 0
          then Inl (Err ''threat enforcement snapshot rejected'')
          else if maximumProtectedPrefixes < int (length (pp_prefixes policy)) \<or>
             length (pp_generationSHA256 policy) \<noteq> 64 \<or>
             \<not> fixedHexEqual (pp_generationSHA256 policy) (protectedPolicyGeneration sha (pp_prefixes policy))
          then Inl (Err ''threat enforcement protection policy rejected'')
          else let snapshot = \<lparr>es_schemaVersion = SchemaVersion, es_generatedUTC = generatedUTC,
                     es_generationSHA256 = ix_enforcementGeneration i,
                     es_protectionGenerationSHA256 = pp_generationSHA256 policy,
                     es_protectedPrefixCount = int (length (pp_prefixes policy)),
                     es_blockIndicators = ix_blockIndicators i, es_blockingFeedCount = blockingFeeds\<rparr> in
            (case enc snapshot of
               None \<Rightarrow> Inl (Err ''encoding failed'')
             | Some bytes \<Rightarrow> atomicWrite ok (Suc bytes) snapshot f))"

section \<open>Round trip of a feed generation\<close>

lemma parseThreatToken_String:
  assumes "feed_prefix p"
  shows "parseThreatToken (PrefixString p) = Inr p"
proof -
  have ok: "prefix_ok p" "PrefixIsValid p" "validThreatPrefix p" "Masked p = p"
    using assms feed_prefix_valid by (auto simp: feed_prefix_def)
  note t = PrefixString_token_ok [OF ok(1,2)]
  show ?thesis
    using t ParsePrefix_String_ok [OF ok(1,2)] TrimSpace_token [OF t(3)] ok(3,4)
    by (simp add: parseThreatToken_def)
qed

lemma canonicalIndicators_Strings:
  "\<forall>p\<in>set ps. feed_prefix p \<Longrightarrow> canonicalIndicators (map PrefixString ps) = Inr (map PrefixString ps)"
  using parseThreatToken_String by (induction ps) auto

lemma canonicalIndicators_feed:
  "canonicalIndicators vs = Inr ss \<Longrightarrow> \<exists>ps. ss = map PrefixString ps \<and> (\<forall>p\<in>set ps. feed_prefix p) \<and> length ps = length vs"
proof (induction vs arbitrary: ss)
  case (Cons v vs)
  then obtain p rest where p: "parseThreatToken v = Inr p" "canonicalIndicators vs = Inr rest" "ss = PrefixString p # rest"
    by (auto simp: bind_outcome_eq_Inr split: sum.splits)
  then obtain ps where "rest = map PrefixString ps" "\<forall>p\<in>set ps. feed_prefix p" "length ps = length vs" using Cons.IH by blast
  with p parseThreatToken_feed [OF p(1)] show ?case by (intro exI [of _ "p # ps"]) simp
qed simp

text \<open>
  A generation that a synchronisation stores for a catalog feed (the
  sorted texts of the prefixes \<open>parseSource\<close> returned, with their digest) is accepted unchanged when the
  service starts again.
\<close>

lemma sourceSnapshot_roundtrip:
  assumes "parseSource unmarshal src body = Inr (ps, attr)"
    and "snapshot = \<lparr>sn_schemaVersion = SchemaVersion, sn_key = s_key src, sn_generatedUTC = attempt,
      sn_action = s_action src, sn_attribution = attr,
      sn_generationSHA256 = digestIndicators sha (s_key src) (s_action src) (sort (map PrefixString ps)),
      sn_indicators = sort (map PrefixString ps), sn_authority = doc\<rparr>"
    and "attempt \<noteq> 0" and "writeSourceSnapshot enc ok snapshot old = Inr f"
  shows "readSourceSnapshot sha f src = Inr snapshot"
proof -
  note ps = parseSource_feed [OF assms(1)]
  have sorted: "sort (map PrefixString ps) = map PrefixString ps" using ps by (simp add: sorted_sort_id)
  have canon: "canonicalIndicators (map PrefixString ps) = Inr (map PrefixString ps)"
    using ps canonicalIndicators_Strings by (simp add: list_all_iff)
  obtain n where "f = Stored n True (Decoded snapshot)"
    using assms(4) by (auto simp: writeSourceSnapshot_def atomicWrite_def split: option.splits if_splits)
  then show ?thesis
    using ps canon sorted assms(2,3) by (simp add: readSourceSnapshot_def Let_def)
qed

section \<open>What is accepted\<close>

text \<open>An indicator that stands for itself: the text of a masked, valid threat prefix.\<close>

definition indicator_ok :: "string \<Rightarrow> bool" where
  "indicator_ok v \<longleftrightarrow> (case ParsePrefix v of None \<Rightarrow> False | Some p \<Rightarrow> feed_prefix p \<and> PrefixString p = v)"

definition snapshot_ok :: "(string \<Rightarrow> string) \<Rightarrow> source \<Rightarrow> sourceSnapshot \<Rightarrow> bool" where
  "snapshot_ok sha src sn \<longleftrightarrow> sn_key sn = s_key src \<and> sn_action sn = s_action src \<and>
     sn_indicators sn \<noteq> [] \<and> int (length (sn_indicators sn)) \<le> maximumSourceIndicators \<and>
     sorted (sn_indicators sn) \<and> list_all indicator_ok (sn_indicators sn) \<and>
     sn_generationSHA256 sn = digestIndicators sha (s_key src) (s_action src) (sn_indicators sn)"

lemma indicator_ok_String: "feed_prefix p \<Longrightarrow> indicator_ok (PrefixString p)"
  using ParsePrefix_String_ok feed_prefix_valid by (simp add: indicator_ok_def feed_prefix_def)

lemma indicators_ok_Strings: "\<forall>p\<in>set ps. feed_prefix p \<Longrightarrow> list_all indicator_ok (sort (map PrefixString ps))"
  using indicator_ok_String by (simp add: list_all_iff)

text \<open>
  A cached generation that is accepted for a feed carries that feed's key
  and catalog authority, between 1 and 500000 indicators in ascending order, each the canonical text
  of a valid threat prefix, and the digest of exactly these indicators.
\<close>

lemma readSourceSnapshot_ok:
  assumes "readSourceSnapshot sha f src = Inr sn"
  shows "snapshot_ok sha src sn \<and> sn_generatedUTC sn \<noteq> 0"
proof -
  obtain raw unsorted where raw: "sn_indicators raw \<noteq> []" "int (length (sn_indicators raw)) \<le> maximumSourceIndicators"
    "sn_key raw = s_key src" "sn_action raw = s_action src" "sn_generatedUTC raw \<noteq> 0"
    and un: "canonicalIndicators (sn_indicators raw) = Inr unsorted" "sn = raw\<lparr>sn_indicators := sort unsorted\<rparr>"
    and gen: "digestIndicators sha (s_key src) (s_action src) (sort unsorted) = sn_generationSHA256 raw"
    using assms by (auto simp: readSourceSnapshot_def Let_def bind_outcome_eq_Inr not_less split: stored.splits content.splits if_splits)
  obtain ps where ps: "unsorted = map PrefixString ps" "\<forall>p\<in>set ps. feed_prefix p" "length ps = length (sn_indicators raw)"
    using canonicalIndicators_feed [OF un(1)] by blast
  have l: "length (sort unsorted) = length (sn_indicators raw)" using ps by simp
  then have "sort unsorted \<noteq> []" using raw(1) by (metis length_0_conv)
  moreover have "list_all indicator_ok (sort unsorted)" using indicators_ok_Strings ps(1,2) by simp
  ultimately show ?thesis using raw un(2) gen l by (simp add: snapshot_ok_def)
qed

lemma writeEnforcementSnapshot_stored:
  assumes "writeEnforcementSnapshot sha enc ok t (Some i) n policy f = Inr f'"
  shows "\<exists>b. f' = Stored b True (Decoded \<lparr>es_schemaVersion = SchemaVersion, es_generatedUTC = t,
      es_generationSHA256 = ix_enforcementGeneration i, es_protectionGenerationSHA256 = pp_generationSHA256 policy,
      es_protectedPrefixCount = int (length (pp_prefixes policy)), es_blockIndicators = ix_blockIndicators i,
      es_blockingFeedCount = n\<rparr>)"
    and "ix_blocking i \<noteq> 0" and "ix_blocking i \<le> maximumEnforcementIndicators" and "0 < n"
  using assms by (auto simp: writeEnforcementSnapshot_def atomicWrite_def Let_def not_less split: if_splits option.splits)

end
