(* ===== verification/FeedClock.thy ===== *)
theory FeedClock
  imports ThreatIndex Files
begin

text \<open>
  \<open>internal/threatintel/clock.go\<close>, \<open>polling.go\<close> and the freshness test of \<open>manager_guards.go\<close>: the trusted
  high-water mark of the wall clock, the operator's polling interval and the hard freshness limit
  derived from it. The fields of \<open>Manager\<close> that each mutex guards are one record. The current time is
  an argument of every function that calls \<open>time.Now\<close>.
\<close>

section \<open>The wall clock\<close>

definition feedClockSchemaVersion :: int where "feedClockSchemaVersion = 1"
definition feedClockTolerance :: duration where "feedClockTolerance = 5 * minute"

record feedClockState =
  cs_schemaVersion :: int
  cs_highWaterUTC :: gotime

record clock_trust =
  ck_highWater :: gotime
  ck_rollback :: bool

definition loadFeedClock :: "feedClockState stored \<Rightarrow> gotime outcome" where
  "loadFeedClock f =
     (case f of
        Absent \<Rightarrow> Inr 0
      | Unreadable \<Rightarrow> Inl (Err ''read failed'')
      | Stored bytes regular content \<Rightarrow>
          if bytes = 0 \<or> 4096 < int bytes then Inl (Err ''feed clock state size rejected'')
          else (case content of
              Decoded state \<Rightarrow>
                if cs_schemaVersion state \<noteq> feedClockSchemaVersion then Inl (Err ''feed clock state rejected'')
                else Inr (cs_highWaterUTC state)
            | Malformed \<Rightarrow> Inl (Err ''feed clock state rejected'')
            | Trailing \<Rightarrow> Inl (Err ''feed clock state rejected'')))"

definition persistFeedClock ::
    "(feedClockState \<Rightarrow> nat option) \<Rightarrow> bool \<Rightarrow> gotime \<Rightarrow> feedClockState stored \<Rightarrow> feedClockState stored" where
  "persistFeedClock enc ok now f =
     (let state = \<lparr>cs_schemaVersion = feedClockSchemaVersion, cs_highWaterUTC = now\<rparr> in
      case enc state of
        None \<Rightarrow> f
      | Some bytes \<Rightarrow> ignoreError (atomicWrite ok (Suc bytes) state f) f)"

definition observeClock :: "clock_trust \<Rightarrow> gotime \<Rightarrow> clock_trust \<times> bool" where
  "observeClock c now =
     (if ck_highWater c = 0 then (c\<lparr>ck_highWater := now\<rparr>, False)
      else if now + feedClockTolerance < ck_highWater c then (c\<lparr>ck_rollback := True\<rparr>, True)
      else if ck_highWater c < now then (c\<lparr>ck_highWater := now\<rparr>, ck_rollback c)
      else (c, ck_rollback c))"

definition effectiveNowUTC :: "clock_trust \<Rightarrow> gotime \<Rightarrow> gotime" where
  "effectiveNowUTC c now = (if now < ck_highWater c then ck_highWater c else now)"

definition clockRollbackDetected :: "clock_trust \<Rightarrow> bool" where
  "clockRollbackDetected c = ck_rollback c"

text \<open>How \<open>NewManager\<close> starts the clock: the persisted mark counts when it can be read.\<close>

definition startClock :: "feedClockState stored \<Rightarrow> gotime \<Rightarrow> clock_trust" where
  "startClock f now =
     (case loadFeedClock f of
        Inl e \<Rightarrow> \<lparr>ck_highWater = 0, ck_rollback = False\<rparr>
      | Inr highWater \<Rightarrow>
          if highWater = 0 then \<lparr>ck_highWater = 0, ck_rollback = False\<rparr>
          else \<lparr>ck_highWater = highWater, ck_rollback = now + feedClockTolerance < highWater\<rparr>)"

section \<open>The polling interval\<close>

definition PollingSchemaVersion :: int where "PollingSchemaVersion = 1"
definition MinPollInterval :: duration where "MinPollInterval = 15 * minute"
definition MaxPollInterval :: duration where "MaxPollInterval = 7 * 24 * hour"
definition DefaultPollInterval :: duration where "DefaultPollInterval = SyncInterval"
definition maximumPollingStateBytes :: int where "maximumPollingStateBytes = 4096"

definition pollingSourceDefault :: string where "pollingSourceDefault = ''DEFAULT''"
definition pollingSourcePersisted :: string where "pollingSourcePersisted = ''PERSISTED''"
definition pollingSourceInvalid :: string where "pollingSourceInvalid = ''INVALID_DEFAULT''"

record pollingState =
  ps_schemaVersion :: int
  ps_intervalSeconds :: int
  ps_updatedUTC :: gotime

record polling_policy =
  pl_every :: duration
  pl_source :: string
  pl_updatedUTC :: gotime
  pl_loadError :: string

definition pollIntervalRange :: "int \<times> int" where
  "pollIntervalRange = (MinPollInterval div second, MaxPollInterval div second)"

definition validatePollIntervalSeconds :: "int \<Rightarrow> unit outcome" where
  "validatePollIntervalSeconds seconds =
     (if seconds < fst pollIntervalRange \<or> snd pollIntervalRange < seconds
      then Inl (Err ''threat intelligence polling interval outside its range'') else Inr ())"

definition rejectPolling :: "polling_policy \<Rightarrow> polling_policy" where
  "rejectPolling p = p\<lparr>pl_source := pollingSourceInvalid,
     pl_loadError := ''persisted polling interval rejected; default cadence active''\<rparr>"

definition loadPollingConfig :: "pollingState stored \<Rightarrow> polling_policy \<Rightarrow> polling_policy" where
  "loadPollingConfig f p =
     (case f of
        Absent \<Rightarrow> p
      | Unreadable \<Rightarrow> rejectPolling p
      | Stored bytes regular content \<Rightarrow>
          if bytes = 0 \<or> maximumPollingStateBytes < int bytes then rejectPolling p
          else (case content of
              Malformed \<Rightarrow> rejectPolling p
            | Trailing \<Rightarrow> rejectPolling p
            | Decoded state \<Rightarrow>
                if ps_schemaVersion state \<noteq> PollingSchemaVersion \<or>
                   validatePollIntervalSeconds (ps_intervalSeconds state) \<noteq> Inr ()
                then rejectPolling p
                else \<lparr>pl_every = ps_intervalSeconds state * second, pl_source = pollingSourcePersisted,
                      pl_updatedUTC = ps_updatedUTC state, pl_loadError = []\<rparr>))"

definition pollInterval :: "polling_policy \<Rightarrow> duration" where
  "pollInterval p = (if pl_every p \<le> 0 then DefaultPollInterval else pl_every p)"

definition pollingFields :: "polling_policy \<Rightarrow> int \<times> string \<times> gotime \<times> string" where
  "pollingFields p =
     (pollInterval p div second, (if pl_source p = [] then pollingSourceDefault else pl_source p),
      pl_updatedUTC p, pl_loadError p)"

text \<open>The persistence of \<open>SetPollingIntervalSeconds\<close>.\<close>

definition persistPolling ::
    "(pollingState \<Rightarrow> nat option) \<Rightarrow> bool \<Rightarrow> int \<Rightarrow> gotime \<Rightarrow> pollingState stored \<Rightarrow> pollingState stored outcome" where
  "persistPolling enc ok seconds updatedUTC f =
     (let state = \<lparr>ps_schemaVersion = PollingSchemaVersion, ps_intervalSeconds = seconds, ps_updatedUTC = updatedUTC\<rparr> in
      case enc state of
        None \<Rightarrow> Inl (Err ''encoding failed'')
      | Some bytes \<Rightarrow> atomicWrite ok (Suc bytes) state f)"

definition activatePolling :: "int \<Rightarrow> gotime \<Rightarrow> polling_policy" where
  "activatePolling seconds updatedUTC =
     \<lparr>pl_every = seconds * second, pl_source = pollingSourcePersisted, pl_updatedUTC = updatedUTC, pl_loadError = []\<rparr>"

section \<open>The hard freshness limit\<close>

definition maxFeedAge :: "polling_policy \<Rightarrow> duration" where
  "maxFeedAge p =
     (let age = 2 * pollInterval p;
          age' = (if age < SyncInterval then SyncInterval else age) in
      if 48 * hour < age' then 48 * hour else age')"

definition snapshotExpired :: "polling_policy \<Rightarrow> sourceSnapshot \<Rightarrow> gotime \<Rightarrow> bool" where
  "snapshotExpired p snapshot now \<longleftrightarrow>
     sn_generatedUTC snapshot = 0 \<or> maxFeedAge p < time_sub now (sn_generatedUTC snapshot)"

section \<open>Lemmas on the clock\<close>

lemma feedClockTolerance_pos [simp]: "0 < feedClockTolerance"
  by (simp add: feedClockTolerance_def duration_defs)

lemma observeClock_high:
  assumes "0 < now" and "0 \<le> ck_highWater c"
  shows "ck_highWater (fst (observeClock c now)) = max (ck_highWater c) now"
  using assms by (auto simp: observeClock_def max_def feedClockTolerance_def duration_defs)

lemma observeClock_rollback:
  assumes "ck_highWater c \<noteq> 0"
  shows "ck_rollback (fst (observeClock c now)) \<longleftrightarrow> ck_rollback c \<or> now + feedClockTolerance < ck_highWater c"
    and "snd (observeClock c now) \<longleftrightarrow> ck_rollback (fst (observeClock c now))"
  using assms by (auto simp: observeClock_def)

lemma observeClock_sticky: "ck_rollback c \<Longrightarrow> ck_rollback (fst (observeClock c now))"
  by (simp add: observeClock_def)

definition observeAll :: "clock_trust \<Rightarrow> gotime list \<Rightarrow> clock_trust" where
  "observeAll c ts = foldl (\<lambda>c t. fst (observeClock c t)) c ts"

lemma observeAll_simps [simp]:
  "observeAll c [] = c" "observeAll c (ts @ [t]) = fst (observeClock (observeAll c ts) t)"
  "observeAll c (t # ts) = observeAll (fst (observeClock c t)) ts"
  by (simp_all add: observeAll_def)

interpretation clock_mark: high_water "\<lambda>c t. fst (observeClock c t)" ck_highWater "\<lambda>t. t" "\<lambda>t. 0 < t" "\<lambda>c. 0 \<le> ck_highWater c"
  by unfold_locales (auto simp: observeClock_high)

lemmas observeAll_high =
  clock_mark.mark_mono [folded observeAll_def] clock_mark.level_le_mark [folded observeAll_def]

text \<open>A sequence of readings jumps back when some reading is more than the tolerance before an earlier one.\<close>

definition jumpsBack :: "gotime list \<Rightarrow> bool" where
  "jumpsBack ts \<longleftrightarrow> list_ex (\<lambda>i. list_ex (\<lambda>j. ts ! i + feedClockTolerance < ts ! j) [0..<i]) [0..<length ts]"

lemma jumpsBack_snoc: "jumpsBack (ts @ [t]) \<longleftrightarrow> jumpsBack ts \<or> (\<exists>u\<in>set ts. t + feedClockTolerance < u)"
proof -
  have "list_ex (\<lambda>j. (ts @ [t]) ! i + feedClockTolerance < (ts @ [t]) ! j) [0..<i] \<longleftrightarrow>
      list_ex (\<lambda>j. ts ! i + feedClockTolerance < ts ! j) [0..<i]" if "i < length ts" for i
    using that by (auto simp: list_ex_iff nth_append)
  then have "list_ex (\<lambda>i. list_ex (\<lambda>j. (ts @ [t]) ! i + feedClockTolerance < (ts @ [t]) ! j) [0..<i]) [0..<length ts] \<longleftrightarrow>
      jumpsBack ts"
    by (auto simp: jumpsBack_def list_ex_iff)
  moreover have "list_ex (\<lambda>j. t + feedClockTolerance < (ts @ [t]) ! j) [0..<length ts] \<longleftrightarrow> (\<exists>u\<in>set ts. t + feedClockTolerance < u)"
    by (force simp: list_ex_iff nth_append in_set_conv_nth Bex_def)
  ultimately show ?thesis by (simp add: jumpsBack_def)
qed

text \<open>
  Whatever sequence of wall clock readings a fresh manager observes, its
  high-water mark is the latest reading, and it reports a rollback exactly when some reading was more
  than five minutes before an earlier one. The report never goes away again.
\<close>

lemma observeClock_run:
  assumes "\<forall>t\<in>set ts. 0 < t"
  defines "c \<equiv> observeAll \<lparr>ck_highWater = 0, ck_rollback = False\<rparr> ts"
  shows "ck_highWater c = foldr max ts 0 \<and> (ck_rollback c \<longleftrightarrow> jumpsBack ts)"
proof -
  let ?c = "\<lambda>ts. observeAll \<lparr>ck_highWater = 0, ck_rollback = False\<rparr> ts"
  have fm: "foldr max (ts @ [t]) 0 = max (foldr max ts 0) t" if "0 < t" for t :: int and ts
    using that by (induction ts) (auto simp: max_def)
  have up: "u \<le> foldr max ts 0" if "u \<in> set ts" for u :: int and ts using that by (induction ts) auto
  have att: "foldr max ts 0 \<in> set ts" if "\<forall>t\<in>set ts. 0 < t" "ts \<noteq> []" for ts :: "int list"
    using that by (induction ts) (fastforce simp: max_def)+
  have "ck_highWater (?c ts) = foldr max ts 0 \<and> (ck_rollback (?c ts) \<longleftrightarrow> jumpsBack ts)" using assms(1)
  proof (induction ts rule: rev_induct)
    case Nil
    show ?case by (simp add: jumpsBack_def)
  next
    case (snoc t ts)
    then have pos: "0 < t" "\<forall>t\<in>set ts. 0 < t" and ih: "ck_highWater (?c ts) = foldr max ts 0" "ck_rollback (?c ts) \<longleftrightarrow> jumpsBack ts"
      by auto
    have "0 \<le> foldr max ts 0" by (induction ts) auto
    then have "ck_highWater (?c (ts @ [t])) = foldr max (ts @ [t]) 0"
      using observeClock_high [OF pos(1), of "?c ts"] ih(1) fm [OF pos(1)] by simp
    moreover have "ck_rollback (?c (ts @ [t])) \<longleftrightarrow> jumpsBack (ts @ [t])"
    proof (cases "ts = []")
      case True
      then show ?thesis by (simp add: jumpsBack_def observeClock_def)
    next
      case False
      then have "ck_highWater (?c ts) \<noteq> 0" using ih(1) att [OF pos(2)] pos(2) by fastforce
      then show ?thesis
        using observeClock_rollback(1) ih jumpsBack_snoc att [OF pos(2) False] up [of _ ts] by fastforce
    qed
    ultimately show ?case by blast
  qed
  then show ?thesis by (simp add: c_def)
qed

lemma effectiveNowUTC_max: "effectiveNowUTC c now = max (ck_highWater c) now"
  by (simp add: effectiveNowUTC_def)

section \<open>Freshness\<close>

text \<open>
  The hard freshness limit is two polling intervals, but at least 12 and at most
  48 hours, whatever the polling policy holds.
\<close>

lemma maxFeedAge_bounds:
  "12 * hour \<le> maxFeedAge p \<and> maxFeedAge p \<le> 48 * hour \<and>
   maxFeedAge p = max (12 * hour) (min (48 * hour) (2 * pollInterval p))"
  by (auto simp: maxFeedAge_def SyncInterval_def Let_def duration_defs)

lemma maxFeedAge_range: "0 \<le> maxFeedAge p" "maxFeedAge p < max_duration"
  by (auto simp: maxFeedAge_def SyncInterval_def Let_def duration_defs max_duration_def)

lemma snapshotExpired_iff:
  "snapshotExpired p sn now \<longleftrightarrow> sn_generatedUTC sn = 0 \<or> maxFeedAge p < now - sn_generatedUTC sn"
  using time_sub_gt [OF maxFeedAge_range] by (simp add: snapshotExpired_def)

text \<open>
  Once a generation is older than the limit at an observed time, no later
  reading of the wall clock makes it young again: turning the clock back does not help.
\<close>

lemma expired_stays_expired:
  assumes "0 \<le> ck_highWater c" and "\<forall>u\<in>set (t # ts). 0 < u" and "snapshotExpired p sn t"
  shows "snapshotExpired p sn (effectiveNowUTC (observeAll c (t # ts)) now)"
proof -
  have "t \<le> ck_highWater (observeAll c (t # ts))" by (rule observeAll_high(2) [OF assms(1,2)]) simp
  then show ?thesis using assms(3) by (auto simp: snapshotExpired_iff effectiveNowUTC_max)
qed

section \<open>The state files\<close>

definition polling_ok :: "polling_policy \<Rightarrow> bool" where
  "polling_ok p \<longleftrightarrow> MinPollInterval \<le> pl_every p \<and> pl_every p \<le> MaxPollInterval"

lemma validatePollIntervalSeconds_iff:
  "validatePollIntervalSeconds s = Inr () \<longleftrightarrow> MinPollInterval \<le> s * second \<and> s * second \<le> MaxPollInterval"
  by (auto simp: validatePollIntervalSeconds_def pollIntervalRange_def MinPollInterval_def MaxPollInterval_def duration_defs)

lemma loadPollingConfig_ok: "polling_ok p \<Longrightarrow> polling_ok (loadPollingConfig f p)"
  using validatePollIntervalSeconds_iff
  by (auto simp: loadPollingConfig_def polling_ok_def rejectPolling_def split: stored.splits content.splits)

lemma polling_ok_interval: "polling_ok p \<Longrightarrow> pollInterval p = pl_every p"
  by (auto simp: polling_ok_def pollInterval_def MinPollInterval_def duration_defs)

interpretation clock_store: durable_store "persistFeedClock enc" loadFeedClock
    "\<lambda>t. \<exists>n. enc \<lparr>cs_schemaVersion = feedClockSchemaVersion, cs_highWaterUTC = t\<rparr> = Some n \<and> n < 4096"
  for enc
  by unfold_locales (auto simp: persistFeedClock_def loadFeedClock_def atomicWrite_def Let_def split: option.splits)

interpretation polling_store: durable_store
    "\<lambda>ok p f. ignoreError (persistPolling enc ok (pl_every p div second) (pl_updatedUTC p) f) f"
    "\<lambda>f. Inr (loadPollingConfig f dflt)"
    "\<lambda>p. \<exists>s t n. p = activatePolling s t \<and> validatePollIntervalSeconds s = Inr () \<and> n < 4096 \<and>
       enc \<lparr>ps_schemaVersion = PollingSchemaVersion, ps_intervalSeconds = s, ps_updatedUTC = t\<rparr> = Some n"
  for enc dflt
  by unfold_locales
    (auto simp: persistPolling_def loadPollingConfig_def atomicWrite_def activatePolling_def
      maximumPollingStateBytes_def second_def Let_def split: option.splits)

text \<open>
  Whatever synchronisations persisted before, the manager starts with the mark of the
  last write that succeeded, and it starts in rollback exactly when the wall clock is more than five
  minutes before that mark.
\<close>

lemma clock_restart:
  assumes "enc \<lparr>cs_schemaVersion = feedClockSchemaVersion, cs_highWaterUTC = t\<rparr> = Some n" and "n < 4096" and "t \<noteq> 0"
    and "\<forall>(ok, u)\<in>set later. \<not> ok"
  shows "startClock (clock_store.saves enc (earlier @ (True, t) # later) f) now =
    \<lparr>ck_highWater = t, ck_rollback = now + feedClockTolerance < t\<rparr>"
  using clock_store.load_last [of enc t later earlier f] assms by (simp add: startClock_def)

text \<open>
  A polling interval that was set and persisted is the one the next start uses;
  failed attempts to change it in between leave no trace.
\<close>

lemma polling_restart:
  assumes "validatePollIntervalSeconds s = Inr ()" and "n < 4096"
    and "enc \<lparr>ps_schemaVersion = PollingSchemaVersion, ps_intervalSeconds = s, ps_updatedUTC = t\<rparr> = Some n"
    and "\<forall>(ok, p)\<in>set later. \<not> ok"
  shows "loadPollingConfig (polling_store.saves enc (earlier @ (True, activatePolling s t) # later) f) p0 = activatePolling s t"
  using polling_store.load_last [where enc = enc and v = "activatePolling s t" and us = later and ws = earlier and f = f and dflt = p0]
    assms by auto

end
