(* ===== verification/FeedAuthority.thy ===== *)
theory FeedAuthority
  imports ThreatStore FeedClock
begin

text \<open>
  \<open>internal/threatintel/feed_authority.go\<close>: the pinned key ring, the signed authority document and the
  anti-rollback state. The fields of \<open>Manager\<close> guarded by \<open>authorityMu\<close> are the record \<open>authority\<close>.

  Parameters: \<open>verify key message signature\<close> is \<open>ed25519.Verify\<close>, \<open>marshal\<close> the JSON of the signed message
  (empty when the encoding fails, as the code ignores that error), \<open>rfc3339Nano\<close> the text of a time,
  \<open>rawStd\<close> and \<open>std\<close> the two base64 decoders, \<open>sha\<close> the hexadecimal SHA-256. The key ring and the document
  are files the service only reads; their contents are arguments.
\<close>

section \<open>Definitions\<close>

text \<open>\<open>validFeedAction\<close> and the bound on feed identifiers come from \<open>feed_policy.go\<close>.\<close>

definition MaximumFeedIDBytes :: int where "MaximumFeedIDBytes = 32"

definition validFeedAction :: "action \<Rightarrow> bool" where
  "validFeedAction act \<longleftrightarrow> act = ActionBlock \<or> act = ActionCorrelateOnly \<or> act = ActionAnnotateOnly"

definition feedAuthoritySchemaVersion :: int where "feedAuthoritySchemaVersion = 1"
definition feedAuthorityKeyringSchema :: int where "feedAuthorityKeyringSchema = 1"
definition maximumFeedAuthorityDocBytes :: int where "maximumFeedAuthorityDocBytes = 262144"
definition maximumFeedAuthorityKeyring :: int where "maximumFeedAuthorityKeyring = 65536"
definition maximumFeedAuthorityValidity :: duration where "maximumFeedAuthorityValidity = 30 * 24 * hour"
definition feedAuthorityFutureTolerance :: duration where "feedAuthorityFutureTolerance = 5 * minute"
definition feedAuthorityStateSchemaVersion :: int where "feedAuthorityStateSchemaVersion = 1"
definition ed25519_SignatureSize :: int where "ed25519_SignatureSize = 64"
definition ed25519_PublicKeySize :: int where "ed25519_PublicKeySize = 32"

record feedAuthorityMessage =
  ms_schemaVersion :: int
  ms_sequence :: "64 word"
  ms_keyID :: string
  ms_generatedUTC :: string
  ms_feeds :: "feedAuthorityAttestation list"

record feedAuthorityKey =
  ky_keyID :: string
  ky_publicKeyBase64 :: string

record feedAuthorityKeyring =
  kr_schemaVersion :: int
  kr_keys :: "feedAuthorityKey list"

record feedAuthorityState =
  as_schemaVersion :: int
  as_lastSequence :: "64 word"
  as_lastGeneratedUTC :: gotime

definition zeroAuthorityState :: feedAuthorityState where
  "zeroAuthorityState = \<lparr>as_schemaVersion = 0, as_lastSequence = 0, as_lastGeneratedUTC = 0\<rparr>"

type_synonym keymap = "(string \<times> string) list"

record authority =
  au_keys :: keymap
  au_configured :: bool
  au_error :: string
  au_state :: feedAuthorityState

fun err_text :: "goerr \<Rightarrow> string" where
  "err_text Panic = ''panic''"
| "err_text (Err s) = s"

definition decodePublicKey :: "(string \<Rightarrow> string option) \<Rightarrow> (string \<Rightarrow> string option) \<Rightarrow> string \<Rightarrow> string outcome" where
  "decodePublicKey rawStd std text =
     (case (case rawStd (TrimSpace text) of None \<Rightarrow> std (TrimSpace text) | Some k \<Rightarrow> Some k) of
        None \<Rightarrow> Inl (Err ''feed authority public key rejected'')
      | Some k \<Rightarrow> if int (length k) \<noteq> ed25519_PublicKeySize
                  then Inl (Err ''feed authority public key rejected'') else Inr k)"

fun collectKeys :: "(string \<Rightarrow> string option) \<Rightarrow> (string \<Rightarrow> string option) \<Rightarrow> keymap \<Rightarrow> feedAuthorityKey list \<Rightarrow> keymap outcome" where
  "collectKeys rawStd std keys [] = Inr keys"
| "collectKeys rawStd std keys (key # rest) =
     (if ky_keyID key = [] \<or> 32 < length (ky_keyID key) \<or>
         list_ex (\<lambda>c. c \<in> {CHR 0x0D, CHR 0x0A, CHR 0x00}) (ky_keyID key)
      then Inl (Err ''feed authority key identifier rejected'')
      else bind_outcome (decodePublicKey rawStd std (ky_publicKeyBase64 key)) (\<lambda>publicKey.
        if map_of keys (ky_keyID key) \<noteq> None then Inl (Err ''feed authority public key duplicated'')
        else collectKeys rawStd std (AList.update (ky_keyID key) publicKey keys) rest))"

text \<open>The result carries \<open>configured\<close>: true whenever the file exists, even when it is rejected.\<close>

definition loadFeedAuthorityKeyring ::
    "(string \<Rightarrow> string option) \<Rightarrow> (string \<Rightarrow> string option) \<Rightarrow> feedAuthorityKeyring stored \<Rightarrow> keymap outcome \<times> bool" where
  "loadFeedAuthorityKeyring rawStd std f =
     (case f of
        Absent \<Rightarrow> (Inr [], False)
      | Unreadable \<Rightarrow> (Inl (Err ''read failed''), True)
      | Stored bytes regular content \<Rightarrow>
          (if \<not> regular then Inl (Err ''feed authority keyring must be a regular non-reparse file'')
           else if bytes = 0 \<or> maximumFeedAuthorityKeyring < int bytes
           then Inl (Err ''feed authority keyring size rejected'')
           else case content of
               Malformed \<Rightarrow> Inl (Err ''feed authority keyring JSON rejected'')
             | Trailing \<Rightarrow> Inl (Err ''feed authority keyring trailing data rejected'')
             | Decoded keyring \<Rightarrow>
                 if kr_schemaVersion keyring \<noteq> feedAuthorityKeyringSchema \<or> kr_keys keyring = [] \<or>
                    8 < length (kr_keys keyring)
                 then Inl (Err ''feed authority keyring metadata rejected'')
                 else collectKeys rawStd std [] (kr_keys keyring), True))"

definition loadFeedAuthorityState :: "feedAuthorityState stored \<Rightarrow> feedAuthorityState outcome" where
  "loadFeedAuthorityState f =
     (case f of
        Absent \<Rightarrow> Inr zeroAuthorityState
      | Unreadable \<Rightarrow> Inl (Err ''read failed'')
      | Stored bytes regular content \<Rightarrow>
          if bytes = 0 \<or> 8192 < int bytes then Inl (Err ''feed authority state size rejected'')
          else (case content of
              Decoded state \<Rightarrow>
                if as_schemaVersion state \<noteq> feedAuthorityStateSchemaVersion then Inl (Err ''feed authority state rejected'')
                else Inr state
            | Malformed \<Rightarrow> Inl (Err ''feed authority state rejected'')
            | Trailing \<Rightarrow> Inl (Err ''feed authority state rejected'')))"

definition loadFeedAuthority ::
    "(string \<Rightarrow> string option) \<Rightarrow> (string \<Rightarrow> string option) \<Rightarrow> feedAuthorityKeyring stored \<Rightarrow> feedAuthorityState stored \<Rightarrow>
     authority \<Rightarrow> authority" where
  "loadFeedAuthority rawStd std ring stateFile au =
     (let (keys, configured) = loadFeedAuthorityKeyring rawStd std ring;
          au' = au\<lparr>au_keys := (case keys of Inl e \<Rightarrow> [] | Inr ks \<Rightarrow> ks), au_configured := configured,
                   au_error := (case keys of Inl e \<Rightarrow> ''feed authenticity trust anchor rejected: '' @ err_text e | Inr ks \<Rightarrow> [])\<rparr> in
      if \<not> configured then au'\<lparr>au_state := zeroAuthorityState\<rparr>
      else (case loadFeedAuthorityState stateFile of Inl e \<Rightarrow> au' | Inr state \<Rightarrow> au'\<lparr>au_state := state\<rparr>))"

definition persistFeedAuthorityState ::
    "(feedAuthorityState \<Rightarrow> nat option) \<Rightarrow> bool \<Rightarrow> feedAuthorityState \<Rightarrow> feedAuthorityState stored \<Rightarrow> feedAuthorityState stored outcome" where
  "persistFeedAuthorityState enc ok state0 f =
     (let state = state0\<lparr>as_schemaVersion := feedAuthorityStateSchemaVersion\<rparr> in
      case enc state of
        None \<Rightarrow> Inl (Err ''encoding failed'')
      | Some bytes \<Rightarrow> atomicWrite ok (Suc bytes) state f)"

definition feedAuthorityDocumentMessage ::
    "(feedAuthorityMessage \<Rightarrow> string) \<Rightarrow> (gotime \<Rightarrow> string) \<Rightarrow> feedAuthorityDocument \<Rightarrow> string" where
  "feedAuthorityDocumentMessage marshal rfc3339Nano document =
     marshal \<lparr>ms_schemaVersion = fd_schemaVersion document, ms_sequence = fd_sequence document,
       ms_keyID = fd_keyID document, ms_generatedUTC = rfc3339Nano (fd_generatedUTC document),
       ms_feeds = sort_key fa_feedKey (fd_feeds document)\<rparr>"

text \<open>The message function of a document, \<open>msg\<close> below, is \<open>feedAuthorityDocumentMessage marshal rfc3339Nano\<close>.\<close>

definition verifyFeedAuthorityDocument ::
    "(string \<Rightarrow> string \<Rightarrow> nat list \<Rightarrow> bool) \<Rightarrow> (feedAuthorityDocument \<Rightarrow> string) \<Rightarrow> feedAuthorityDocument option \<Rightarrow> keymap \<Rightarrow> unit outcome" where
  "verifyFeedAuthorityDocument verify msg document keys =
     (case document of
        None \<Rightarrow> Inl (Err ''signed feed authority document is missing'')
      | Some d \<Rightarrow>
          if fd_schemaVersion d \<noteq> feedAuthoritySchemaVersion \<or> fd_sequence d = 0 \<or> fd_feeds d = [] \<or>
             length catalog < length (fd_feeds d) \<or> fd_generatedUTC d = 0 \<or>
             int (length (fd_signatureEd25519 d)) \<noteq> ed25519_SignatureSize * 2
          then Inl (Err ''signed feed authority document metadata rejected'')
          else (case hexDecode (fd_signatureEd25519 d) of
              None \<Rightarrow> Inl (Err ''signed feed authority signature encoding rejected'')
            | Some signature \<Rightarrow>
                if int (length signature) \<noteq> ed25519_SignatureSize
                then Inl (Err ''signed feed authority signature encoding rejected'')
                else if list_ex (\<lambda>(keyID, key). verify key (msg d) signature) keys then Inr ()
                else Inl (Err ''signed feed authority signature invalid'')))"

definition authorityAttestationFor :: "feedAuthorityDocument option \<Rightarrow> string \<Rightarrow> feedAuthorityAttestation option" where
  "authorityAttestationFor document feedKey =
     (case document of None \<Rightarrow> None | Some d \<Rightarrow> find (\<lambda>a. fa_feedKey a = feedKey) (fd_feeds d))"

text \<open>\<open>strings.EqualFold\<close>, exact when one side is ASCII without the letters k and s, as all callers have it.\<close>

definition ascii_lower :: "char \<Rightarrow> char" where
  "ascii_lower c = (if is_upper c then char_of (byte c + 32) else c)"

definition EqualFold :: "string \<Rightarrow> string \<Rightarrow> bool" where
  "EqualFold a b \<longleftrightarrow> map ascii_lower a = map ascii_lower b"

definition matchFeedAuthorityAttestation ::
    "(string \<Rightarrow> string) \<Rightarrow> feedAuthorityDocument \<Rightarrow> string \<Rightarrow> action \<Rightarrow> string list \<Rightarrow> gotime \<Rightarrow> feedAuthorityAttestation outcome" where
  "matchFeedAuthorityAttestation sha d key act indicators now =
     (case authorityAttestationFor (Some d) key of
        None \<Rightarrow> Inl (Err (''signed feed authority has no attestation for '' @ key))
      | Some attestation \<Rightarrow>
          if fa_action attestation \<noteq> act
          then Inl (Err ''signed feed authority action does not match the catalog authority'')
          else if fa_sequence attestation = 0
          then Inl (Err ''signed feed authority attestation sequence rejected'')
          else if maximumFeedAuthorityValidity < time_sub (fa_validUntilUTC attestation) (fd_generatedUTC d)
          then Inl (Err ''signed feed authority validity window exceeds the maximum'')
          else if now + feedAuthorityFutureTolerance < fd_generatedUTC d
          then Inl (Err ''signed feed authority generation is issued in the future'')
          else if fa_validUntilUTC attestation < now
          then Inl (Err ''signed feed authority attestation has expired'')
          else if \<not> EqualFold (digestIndicators sha key act indicators) (fa_contentSHA256 attestation)
          then Inl (Err ''signed feed authority content digest mismatch'')
          else Inr attestation)"

fun checkAttestations :: "string list \<Rightarrow> feedAuthorityAttestation list \<Rightarrow> unit outcome" where
  "checkAttestations seen [] = Inr ()"
| "checkAttestations seen (a # rest) =
     (if fa_feedKey a = [] \<or> MaximumFeedIDBytes < int (length (fa_feedKey a))
      then Inl (Err ''signed feed authority attestation feed rejected'')
      else if fa_feedKey a \<in> set seen then Inl (Err ''signed feed authority attestation duplicated'')
      else if \<not> validFeedAction (fa_action a) \<or> length (fa_contentSHA256 a) \<noteq> 64 \<or> fa_validUntilUTC a = 0
      then Inl (Err ''signed feed authority attestation metadata rejected'')
      else checkAttestations (fa_feedKey a # seen) rest)"

definition loadFeedAuthorityDocument :: "feedAuthorityDocument stored \<Rightarrow> feedAuthorityDocument outcome" where
  "loadFeedAuthorityDocument f =
     (case f of
        Absent \<Rightarrow> Inl (Err ''signed feed authority document is not provisioned'')
      | Unreadable \<Rightarrow> Inl (Err ''read failed'')
      | Stored bytes regular content \<Rightarrow>
          if \<not> regular then Inl (Err ''signed feed authority document must be a regular non-reparse file'')
          else if bytes = 0 \<or> maximumFeedAuthorityDocBytes < int bytes
          then Inl (Err ''signed feed authority document size rejected'')
          else (case content of
              Malformed \<Rightarrow> Inl (Err ''signed feed authority document JSON rejected'')
            | Trailing \<Rightarrow> Inl (Err ''signed feed authority document trailing data rejected'')
            | Decoded document \<Rightarrow> bind_outcome (checkAttestations [] (fd_feeds document)) (\<lambda>_. Inr document)))"

definition verifyFetchedAuthority ::
    "(string \<Rightarrow> string \<Rightarrow> nat list \<Rightarrow> bool) \<Rightarrow> (feedAuthorityDocument \<Rightarrow> string) \<Rightarrow> (string \<Rightarrow> string) \<Rightarrow> authority \<Rightarrow> clock_trust \<Rightarrow>
     gotime \<Rightarrow> feedAuthorityDocument stored \<Rightarrow> source \<Rightarrow> string list \<Rightarrow> sourceSnapshot option \<Rightarrow> feedAuthorityDocument option outcome" where
  "verifyFetchedAuthority verify msg sha au c wall f source indicators previous =
     (if \<not> au_configured au then Inr None
      else if au_error au \<noteq> [] then Inl (Err (au_error au))
      else bind_outcome (loadFeedAuthorityDocument f) (\<lambda>document.
        bind_outcome (verifyFeedAuthorityDocument verify msg (Some document) (au_keys au)) (\<lambda>_.
        if fd_sequence document < as_lastSequence (au_state au)
        then Inl (Err ''signed feed authority rollback rejected'')
        else if as_lastGeneratedUTC (au_state au) \<noteq> 0 \<and>
            fd_generatedUTC document + feedClockTolerance < as_lastGeneratedUTC (au_state au)
        then Inl (Err ''signed feed authority generation rollback rejected'')
        else let now = effectiveNowUTC c wall in
          if now + feedAuthorityFutureTolerance < fd_generatedUTC document
          then Inl (Err ''signed feed authority is issued in the future'')
          else bind_outcome (matchFeedAuthorityAttestation sha document (s_key source) (s_action source) indicators now) (\<lambda>attestation.
            case (case previous of None \<Rightarrow> None | Some p \<Rightarrow> authorityAttestationFor (sn_authority p) (s_key source)) of
              Some previousAttestation \<Rightarrow>
                if fa_sequence attestation < fa_sequence previousAttestation
                then Inl (Err ''signed feed authority attestation rollback rejected'') else Inr (Some document)
            | None \<Rightarrow> Inr (Some document)))))"

definition verifyCachedAuthority ::
    "(string \<Rightarrow> string \<Rightarrow> nat list \<Rightarrow> bool) \<Rightarrow> (feedAuthorityDocument \<Rightarrow> string) \<Rightarrow> (string \<Rightarrow> string) \<Rightarrow> authority \<Rightarrow> clock_trust \<Rightarrow>
     gotime \<Rightarrow> sourceSnapshot \<Rightarrow> unit outcome" where
  "verifyCachedAuthority verify msg sha au c wall snapshot =
     (if \<not> au_configured au then Inr ()
      else if au_error au \<noteq> [] then Inl (Err (au_error au))
      else case sn_authority snapshot of
          None \<Rightarrow> Inl (Err ''cached feed generation has no signed authority attestation'')
        | Some document \<Rightarrow>
            if fd_schemaVersion document \<noteq> feedAuthoritySchemaVersion \<or> fd_sequence document < as_lastSequence (au_state au)
            then Inl (Err ''cached feed authority sequence rejected'')
            else bind_outcome (verifyFeedAuthorityDocument verify msg (Some document) (au_keys au)) (\<lambda>_.
              bind_outcome (matchFeedAuthorityAttestation sha document (sn_key snapshot) (sn_action snapshot)
                  (sn_indicators snapshot) (effectiveNowUTC c wall)) (\<lambda>attestation.
                if fa_sequence attestation = 0 then Inl (Err ''cached feed authority attestation sequence rejected'')
                else Inr ())))"

definition updateFeedAuthorityState ::
    "(feedAuthorityState \<Rightarrow> nat option) \<Rightarrow> bool \<Rightarrow> feedAuthorityDocument option \<Rightarrow>
     authority \<times> feedAuthorityState stored \<Rightarrow> authority \<times> feedAuthorityState stored" where
  "updateFeedAuthorityState enc ok document = (\<lambda>(au, f).
     case document of
       None \<Rightarrow> (au, f)
     | Some d \<Rightarrow>
         let st = au_state au;
             newer = as_lastSequence st < fd_sequence d;
             later = as_lastGeneratedUTC st < fd_generatedUTC d;
             st' = st\<lparr>as_lastSequence := (if newer then fd_sequence d else as_lastSequence st),
                      as_lastGeneratedUTC := (if later then fd_generatedUTC d else as_lastGeneratedUTC st)\<rparr> in
         (au\<lparr>au_state := st'\<rparr>,
          if newer \<or> later then ignoreError (persistFeedAuthorityState enc ok st' f) f else f))"

text \<open>\<open>applyFeedAuthorityState\<close> of \<open>manager_guards.go\<close>: the attestation shown in the status of a feed.\<close>

definition applyFeedAuthorityState :: "feedState \<Rightarrow> sourceSnapshot \<Rightarrow> feedState" where
  "applyFeedAuthorityState state snapshot =
     (case authorityAttestationFor (sn_authority snapshot) (sn_key snapshot) of
        None \<Rightarrow> state
      | Some attestation \<Rightarrow>
          state\<lparr>f_authorityVerified := True, f_authoritySequence := fa_sequence attestation,
                f_authorityValidUntilUTC := fa_validUntilUTC attestation\<rparr>)"

text \<open>\<open>feedPolicyMACKey\<close>: \<open>hmac\<close> is HMAC-SHA256 of a byte string under a key.\<close>

definition feedPolicyMACKey :: "(string \<Rightarrow> string \<Rightarrow> string) \<Rightarrow> string \<Rightarrow> string" where
  "feedPolicyMACKey hmac rawKey = hmac rawKey ''VGT-GEDEFENSE-FEED-POLICY-MAC-V1''"

definition signatureHMACEqual :: "string \<Rightarrow> string \<Rightarrow> bool" where
  "signatureHMACEqual left right = fixedHexEqual left right"

section \<open>What an accepted document guarantees\<close>

text \<open>\<open>signed\<close>: some pinned key verifies the signature over the canonical message of the document.\<close>

definition signed :: "(string \<Rightarrow> string \<Rightarrow> nat list \<Rightarrow> bool) \<Rightarrow> (feedAuthorityDocument \<Rightarrow> string) \<Rightarrow> keymap \<Rightarrow> feedAuthorityDocument \<Rightarrow> bool" where
  "signed verify msg keys d \<longleftrightarrow>
     (case hexDecode (fd_signatureEd25519 d) of None \<Rightarrow> False | Some s \<Rightarrow> list_ex (\<lambda>(keyID, key). verify key (msg d) s) keys)"

text \<open>\<open>attests\<close>: the attestation of a feed covers exactly these indicators and is in force at this time.\<close>

definition attests :: "(string \<Rightarrow> string) \<Rightarrow> feedAuthorityDocument \<Rightarrow> string \<Rightarrow> action \<Rightarrow> string list \<Rightarrow> gotime \<Rightarrow> feedAuthorityAttestation \<Rightarrow> bool" where
  "attests sha d key act indicators now a \<longleftrightarrow>
     a \<in> set (fd_feeds d) \<and> fa_feedKey a = key \<and> fa_action a = act \<and> fa_sequence a \<noteq> 0 \<and>
     EqualFold (digestIndicators sha key act indicators) (fa_contentSHA256 a) \<and>
     now \<le> fa_validUntilUTC a \<and> fd_generatedUTC d \<le> now + feedAuthorityFutureTolerance \<and>
     fa_validUntilUTC a - fd_generatedUTC d \<le> maximumFeedAuthorityValidity"

lemma validity_range: "0 \<le> maximumFeedAuthorityValidity" "maximumFeedAuthorityValidity < max_duration"
  by (simp_all add: maximumFeedAuthorityValidity_def max_duration_def duration_defs)

lemma matchFeedAuthorityAttestation_iff:
  "matchFeedAuthorityAttestation sha d key act inds now = Inr a \<longleftrightarrow>
     authorityAttestationFor (Some d) key = Some a \<and> attests sha d key act inds now a"
proof -
  have "a \<in> set (fd_feeds d) \<and> fa_feedKey a = key" if "authorityAttestationFor (Some d) key = Some a"
    using that by (auto simp: authorityAttestationFor_def find_Some_iff)
  then show ?thesis
    using time_sub_gt [OF validity_range]
    by (auto simp: matchFeedAuthorityAttestation_def attests_def not_less split: option.splits if_splits)
qed

lemma verifyFeedAuthorityDocument_signed:
  "verifyFeedAuthorityDocument verify msg (Some d) keys = Inr () \<Longrightarrow> signed verify msg keys d \<and> fd_sequence d \<noteq> 0"
  by (auto simp: verifyFeedAuthorityDocument_def signed_def split: if_splits option.splits)

lemma loadFeedAuthorityDocument_decoded:
  "loadFeedAuthorityDocument f = Inr d \<Longrightarrow> \<exists>n. f = Stored n True (Decoded d) \<and> checkAttestations [] (fd_feeds d) = Inr ()"
  by (auto simp: loadFeedAuthorityDocument_def bind_outcome_eq_Inr split: stored.splits content.splits if_splits)

lemma checkAttestations_distinct:
  "checkAttestations seen as = Inr () \<Longrightarrow> distinct (map fa_feedKey as) \<and> set (map fa_feedKey as) \<inter> set seen = {}"
proof (induction as arbitrary: seen)
  case (Cons a as)
  then have "checkAttestations (fa_feedKey a # seen) as = Inr ()" "fa_feedKey a \<notin> set seen" by (auto split: if_splits)
  with Cons.IH show ?case by fastforce
qed simp

text \<open>
  C32 [verifyFetchedAuthority_sound]: with a key ring in place, a download is accepted only with a document
  that a pinned key signed, that is not older than the last accepted one, and whose attestation
  covers exactly the downloaded indicators under the catalog authority and is in force at the
  trusted time. Without a key ring every download is accepted without a document.
\<close>

theorem verifyFetchedAuthority_sound:
  assumes "verifyFetchedAuthority verify msg sha au c wall f src inds previous = Inr r"
  shows "if au_configured au
    then au_error au = [] \<and> (\<exists>n d a. f = Stored n True (Decoded d) \<and> r = Some d \<and>
      signed verify msg (au_keys au) d \<and> as_lastSequence (au_state au) \<le> fd_sequence d \<and>
      attests sha d (s_key src) (s_action src) inds (max (ck_highWater c) wall) a)
    else r = None"
proof (cases "au_configured au")
  case True
  obtain d where d: "loadFeedAuthorityDocument f = Inr d" "verifyFeedAuthorityDocument verify msg (Some d) (au_keys au) = Inr ()"
    "as_lastSequence (au_state au) \<le> fd_sequence d" "r = Some d" "au_error au = []"
    and a: "\<exists>a. matchFeedAuthorityAttestation sha d (s_key src) (s_action src) inds (effectiveNowUTC c wall) = Inr a"
    using assms True
    by (auto simp: verifyFetchedAuthority_def Let_def bind_outcome_eq_Inr not_less split: if_splits option.splits)
  then show ?thesis
    using True loadFeedAuthorityDocument_decoded [OF d(1)] verifyFeedAuthorityDocument_signed [OF d(2)]
    by (auto simp: matchFeedAuthorityAttestation_iff effectiveNowUTC_max)
qed (use assms in \<open>simp add: verifyFetchedAuthority_def\<close>)

text \<open>
  The signed message does not depend on the order in which the
  document lists the feeds, so a document is verified or refused as a set of attestations.
\<close>

lemma authorityMessage_any_order:
  assumes "mset (fd_feeds d) = mset feeds" and "distinct (map fa_feedKey (fd_feeds d))"
  shows "feedAuthorityDocumentMessage marshal fmt (d\<lparr>fd_feeds := feeds\<rparr>) = feedAuthorityDocumentMessage marshal fmt d \<and>
    verifyFeedAuthorityDocument verify (feedAuthorityDocumentMessage marshal fmt) (Some (d\<lparr>fd_feeds := feeds\<rparr>)) keys =
    verifyFeedAuthorityDocument verify (feedAuthorityDocumentMessage marshal fmt) (Some d) keys"
proof -
  have "inj_on fa_feedKey (set (fd_feeds d))" using assms(2) by (simp add: distinct_map)
  then have "sort_key fa_feedKey feeds = sort_key fa_feedKey (fd_feeds d)"
    using sort_key_determ [of "fd_feeds d" feeds fa_feedKey] assms mset_eq_setD [OF assms(1)] mset_eq_imp_distinct_iff [OF assms(1)]
    by (simp add: distinct_map)
  then have m: "feedAuthorityDocumentMessage marshal fmt (d\<lparr>fd_feeds := feeds\<rparr>) = feedAuthorityDocumentMessage marshal fmt d"
    by (simp add: feedAuthorityDocumentMessage_def)
  have "length feeds = length (fd_feeds d)" "feeds = [] \<longleftrightarrow> fd_feeds d = []"
    using assms(1) by (metis size_mset, metis mset_zero_iff)
  with m show ?thesis by (simp add: verifyFeedAuthorityDocument_def split: option.split)
qed

text \<open>A document for the first feed of the catalog, for the examples.\<close>

definition sampleIndicators :: "string list" where "sampleIndicators = [''8.8.8.8/32'']"

definition sampleDigest :: string where "sampleDigest = replicate 64 CHR ''a''"

definition sampleDocument :: "64 word \<Rightarrow> feedAuthorityDocument" where
  "sampleDocument n = \<lparr>fd_schemaVersion = 1, fd_sequence = n, fd_keyID = ''k'', fd_generatedUTC = 10 * hour,
     fd_feeds = [\<lparr>fa_feedKey = ''feodo'', fa_sequence = n, fa_contentSHA256 = sampleDigest, fa_action = ActionBlock,
                  fa_validUntilUTC = 20 * hour\<rparr>],
     fd_signatureEd25519 = replicate 128 CHR ''0''\<rparr>"

definition sampleAuthority :: authority where
  "sampleAuthority = \<lparr>au_keys = [(''k'', ''key'')], au_configured = True, au_error = [], au_state = zeroAuthorityState\<rparr>"

theorem verifyFetchedAuthority_sound_witness:
  "signed (\<lambda>k m s. k = ''key'' \<and> m = ''m'') (\<lambda>d. ''m'') (au_keys sampleAuthority) (sampleDocument 3)"
proof -
  have "verifyFetchedAuthority (\<lambda>k m s. k = ''key'' \<and> m = ''m'') (\<lambda>d. ''m'') (\<lambda>x. sampleDigest) sampleAuthority
      \<lparr>ck_highWater = 11 * hour, ck_rollback = False\<rparr> (12 * hour) (Stored 400 True (Decoded (sampleDocument 3)))
      (feed ''feodo'' ''n'' ''u'' FormatPlain ActionBlock False) sampleIndicators None = Inr (Some (sampleDocument 3))"
    by code_simp
  then have "as_lastSequence (au_state sampleAuthority) \<le> fd_sequence (sampleDocument 3) \<and>
      signed (\<lambda>k m s. k = ''key'' \<and> m = ''m'') (\<lambda>d. ''m'') (au_keys sampleAuthority) (sampleDocument 3)"
    using verifyFetchedAuthority_sound by (fastforce simp: sampleAuthority_def)
  then show ?thesis by blast
qed

section \<open>Replays\<close>

definition acceptAll :: "(feedAuthorityState \<Rightarrow> nat option) \<Rightarrow> authority \<times> feedAuthorityState stored \<Rightarrow>
    (bool \<times> feedAuthorityDocument) list \<Rightarrow> authority \<times> feedAuthorityState stored" where
  "acceptAll enc = foldl (\<lambda>s (ok, d). updateFeedAuthorityState enc ok (Some d) s)"

interpretation sequence_mark: high_water "\<lambda>s (ok, d). updateFeedAuthorityState enc ok (Some d) s"
    "\<lambda>(au, f). as_lastSequence (au_state au)" "\<lambda>(ok, d). fd_sequence d" "\<lambda>_. True" "\<lambda>_. True"
  for enc
  by unfold_locales (auto simp: updateFeedAuthorityState_def Let_def max_def split: prod.splits)

lemma updateFeedAuthorityState_keeps:
  "au_keys (fst (updateFeedAuthorityState enc ok doc s)) = au_keys (fst s)"
  "au_configured (fst (updateFeedAuthorityState enc ok doc s)) = au_configured (fst s)"
  "au_error (fst (updateFeedAuthorityState enc ok doc s)) = au_error (fst s)"
  by (auto simp: updateFeedAuthorityState_def Let_def split: prod.splits option.splits)

lemma acceptAll_configured: "au_configured (fst (acceptAll enc s docs)) = au_configured (fst s)"
  unfolding acceptAll_def
  by (induction docs arbitrary: s) (simp_all add: updateFeedAuthorityState_keeps case_prod_beta)

lemma old_document_rejected:
  assumes "au_configured au" and "fd_sequence old < as_lastSequence (au_state au)"
  shows "verifyFetchedAuthority verify msg sha au c wall (Stored n b (Decoded old)) src inds previous \<noteq> Inr r"
    and "sn_authority sn = Some old \<Longrightarrow> verifyCachedAuthority verify msg sha au c wall sn \<noteq> Inr ()"
  using assms loadFeedAuthorityDocument_decoded [of "Stored n b (Decoded old)"]
  by (auto simp: verifyFetchedAuthority_def verifyCachedAuthority_def bind_outcome_eq_Inr Let_def split: if_splits)

text \<open>
  After any sequence of accepted documents, a document with a smaller sequence than
  one of them is refused, both as the document of a download and inside a cached generation,
  whether or not the state could be persisted.
\<close>

lemma replay_rejected:
  fixes enc :: "feedAuthorityState \<Rightarrow> nat option" and f :: "feedAuthorityState stored"
  assumes "au_configured au" and "(ok, d) \<in> set docs" and "fd_sequence old < fd_sequence d"
  defines "au' \<equiv> fst (acceptAll enc (au, f) docs)"
  shows "verifyFetchedAuthority verify msg sha au' c wall (Stored n b (Decoded old)) src inds previous \<noteq> Inr r \<and>
    verifyCachedAuthority verify msg sha au' c wall (sn\<lparr>sn_authority := Some old\<rparr>) \<noteq> Inr ()"
proof -
  have "fd_sequence d \<le> as_lastSequence (au_state au')"
    using sequence_mark.level_le_mark [where s = "(au, f)" and es = docs and e = "(ok, d)" and enc = enc] assms(2)
    by (auto simp: au'_def acceptAll_def split: prod.splits)
  then have "fd_sequence old < as_lastSequence (au_state au')" using assms(3) by simp
  moreover have "au_configured au'" using assms(1) acceptAll_configured [of enc "(au, f)" docs] by (simp add: au'_def)
  ultimately show ?thesis using old_document_rejected by simp
qed

lemma schemaVersion_id: "as_schemaVersion st = v \<Longrightarrow> st\<lparr>as_schemaVersion := v\<rparr> = st"
  by (cases st) simp

interpretation authority_store: durable_store
    "\<lambda>ok st f. ignoreError (persistFeedAuthorityState enc ok st f) f" loadFeedAuthorityState
    "\<lambda>st. as_schemaVersion st = feedAuthorityStateSchemaVersion \<and> (\<exists>n. enc st = Some n \<and> n < 8192)"
  for enc
  by unfold_locales
    (auto simp: persistFeedAuthorityState_def loadFeedAuthorityState_def atomicWrite_def Let_def schemaVersion_id split: option.splits)

text \<open>The state file holds the marks of the memory.\<close>

definition synced :: "authority \<times> feedAuthorityState stored \<Rightarrow> bool" where
  "synced s \<longleftrightarrow> (case loadFeedAuthorityState (snd s) of Inl e \<Rightarrow> False
     | Inr st \<Rightarrow> as_lastSequence st = as_lastSequence (au_state (fst s)) \<and> as_lastGeneratedUTC st = as_lastGeneratedUTC (au_state (fst s)))"

lemma persist_loads:
  assumes "encodes_within enc 8192"
  shows "loadFeedAuthorityState (ignoreError (persistFeedAuthorityState enc True st f) f) =
    Inr (st\<lparr>as_schemaVersion := feedAuthorityStateSchemaVersion\<rparr>)"
proof -
  obtain n where "enc (st\<lparr>as_schemaVersion := feedAuthorityStateSchemaVersion\<rparr>) = Some n" "n < 8192" using assms by (auto simp: encodes_within_def)
  then show ?thesis by (simp add: persistFeedAuthorityState_def loadFeedAuthorityState_def atomicWrite_def)
qed

lemma update_synced:
  assumes "encodes_within enc 8192" and "synced (au, f)"
  shows "synced (updateFeedAuthorityState enc True (Some d) (au, f))"
  using assms(2) by (auto simp: updateFeedAuthorityState_def Let_def synced_def persist_loads [OF assms(1)] split: sum.splits)

lemma acceptAll_synced:
  assumes "encodes_within enc 8192" and "synced s" and "\<forall>(ok, d)\<in>set docs. ok"
  shows "synced (acceptAll enc s docs)"
  using assms(2,3) unfolding acceptAll_def
proof (induction docs arbitrary: s)
  case (Cons x docs)
  obtain ok d where x: "x = (ok, d)" by (cases x)
  then have "synced (updateFeedAuthorityState enc ok (Some d) s)"
    using Cons.prems update_synced [OF assms(1)] by (cases s) auto
  then show ?case using Cons.IH Cons.prems(2) x by auto
qed simp

text \<open>
  C33 [replay_rejected_after_restart]: when the state file was in step with the memory at the start and
  every write of it succeeded, the memory of accepted sequences survives a restart: the freshly
  loaded authority refuses every document older than one accepted before. The code ignores the error
  of a failed write, after which the file may be behind.
\<close>

theorem replay_rejected_after_restart:
  assumes "encodes_within enc 8192" and "\<forall>(ok, d)\<in>set docs. ok" and "synced (au, f)"
    and "(True, d) \<in> set docs" and "fd_sequence old < fd_sequence d"
    and "loadFeedAuthority rawStd std ring (snd (acceptAll enc (au, f) docs)) fresh = au'" and "au_configured au'"
  shows "verifyFetchedAuthority verify msg sha au' c wall (Stored n b (Decoded old)) src inds previous \<noteq> Inr r \<and>
    verifyCachedAuthority verify msg sha au' c wall (sn\<lparr>sn_authority := Some old\<rparr>) \<noteq> Inr ()"
proof -
  let ?s = "acceptAll enc (au, f) docs"
  have "fd_sequence d \<le> as_lastSequence (au_state (fst ?s))"
    using sequence_mark.level_le_mark [where s = "(au, f)" and es = docs and e = "(True, d)" and enc = enc] assms(4)
    by (auto simp: acceptAll_def split: prod.splits)
  moreover obtain st where st: "loadFeedAuthorityState (snd ?s) = Inr st" "as_lastSequence st = as_lastSequence (au_state (fst ?s))"
    using acceptAll_synced [OF assms(1,3,2)] by (auto simp: synced_def split: sum.splits)
  moreover have "au_state au' = st"
    using assms(6,7) st(1) by (auto simp: loadFeedAuthority_def Let_def split: prod.splits if_splits)
  ultimately have "fd_sequence old < as_lastSequence (au_state au')" using assms(5) by simp
  then show ?thesis using old_document_rejected [OF assms(7)] by simp
qed

definition sampleRing :: "feedAuthorityKeyring stored" where
  "sampleRing = Stored 200 True (Decoded \<lparr>kr_schemaVersion = 1, kr_keys = [\<lparr>ky_keyID = ''k'', ky_publicKeyBase64 = ''AA''\<rparr>]\<rparr>)"

theorem replay_rejected_after_restart_witness:
  "verifyCachedAuthority (\<lambda>k m s. True) (\<lambda>d. []) (\<lambda>x. sampleDigest)
     (loadFeedAuthority (\<lambda>x. Some (replicate 32 CHR ''p'')) (\<lambda>x. None) sampleRing
        (snd (acceptAll (\<lambda>x. Some 90) (sampleAuthority, Absent) [(True, sampleDocument 7)])) sampleAuthority)
     \<lparr>ck_highWater = 0, ck_rollback = False\<rparr> (12 * hour) (snapshotOf ActionBlock sampleIndicators\<lparr>sn_authority := Some (sampleDocument 6)\<rparr>) \<noteq> Inr ()"
proof -
  have "au_configured (loadFeedAuthority (\<lambda>x. Some (replicate 32 CHR ''p'')) (\<lambda>x. None) sampleRing
        (snd (acceptAll (\<lambda>x. Some 90) (sampleAuthority, Absent) [(True, sampleDocument 7)])) sampleAuthority)" by code_simp
  moreover have "synced (sampleAuthority, Absent)" by code_simp
  moreover have "fd_sequence (sampleDocument 6) < fd_sequence (sampleDocument 7)" by code_simp
  ultimately show ?thesis
    using replay_rejected_after_restart [of "\<lambda>x. Some 90" "[(True, sampleDocument 7)]" sampleAuthority Absent "sampleDocument 7"]
    by (simp add: encodes_within_def)
qed

section \<open>A damaged trust anchor\<close>

text \<open>
  A key ring file that exists but is rejected, for whatever reason, does
  not disable verification: no download and no cached generation is accepted.
\<close>

lemma broken_keyring_fails_closed:
  fixes au :: authority and stateFile :: "feedAuthorityState stored"
  assumes "fst (loadFeedAuthorityKeyring rawStd std ring) = Inl e"
  defines "au' \<equiv> loadFeedAuthority rawStd std ring stateFile au"
  shows "verifyFetchedAuthority verify msg sha au' c wall f src inds previous = Inl (Err (au_error au')) \<and>
    verifyCachedAuthority verify msg sha au' c wall sn = Inl (Err (au_error au')) \<and> au_keys au' = []"
proof -
  obtain conf where l: "loadFeedAuthorityKeyring rawStd std ring = (Inl e, conf)" using assms(1) by (metis prod.collapse)
  then have "conf" by (auto simp: loadFeedAuthorityKeyring_def split: stored.splits)
  with l have "au_configured au'" "au_error au' \<noteq> []" "au_keys au' = []"
    by (auto simp: au'_def loadFeedAuthority_def Let_def split: sum.splits)
  then show ?thesis by (simp add: verifyFetchedAuthority_def verifyCachedAuthority_def)
qed

text \<open>
  An unreadable or corrupt state file, by contrast, is not an error: the
  service starts with no memory of the accepted sequences, reports no error, and accepts a document
  that it had refused as a rollback before.
\<close>

lemma corrupt_state_forgets:
  "\<exists>good. let before = loadFeedAuthority (\<lambda>x. Some (replicate 32 CHR ''p'')) (\<lambda>x. None) sampleRing good sampleAuthority;
       after = loadFeedAuthority (\<lambda>x. Some (replicate 32 CHR ''p'')) (\<lambda>x. None) sampleRing (Stored 1 True Malformed) sampleAuthority;
       accepts = (\<lambda>au. verifyFetchedAuthority (\<lambda>k m s. True) (\<lambda>d. []) (\<lambda>x. sampleDigest) au
         \<lparr>ck_highWater = 0, ck_rollback = False\<rparr> (12 * hour) (Stored 400 True (Decoded (sampleDocument 6)))
         (feed ''feodo'' ''n'' ''u'' FormatPlain ActionBlock False) sampleIndicators None) in
     accepts before = Inl (Err ''signed feed authority rollback rejected'') \<and>
     accepts after = Inr (Some (sampleDocument 6)) \<and> au_error after = [] \<and> as_lastSequence (au_state after) = 0"
  by (rule exI [of _ "Stored 90 True (Decoded \<lparr>as_schemaVersion = 1, as_lastSequence = 7, as_lastGeneratedUTC = 10 * hour\<rparr>)"])
    code_simp

text \<open>
  Without a key ring nothing is verified, and a cached generation may
  carry any document with any signature. The status of its feed nevertheless says
  \<open>AuthorityVerified\<close>.
\<close>

lemma unverified_shown_verified:
  "verifyCachedAuthority (\<lambda>k m s. False) msg sha (sampleAuthority\<lparr>au_configured := False\<rparr>) c wall
      (snapshotOf ActionBlock sampleIndicators\<lparr>sn_key := ''feodo'', sn_authority := Some (sampleDocument 6)\<rparr>) = Inr () \<and>
   f_authorityVerified (applyFeedAuthorityState st
      (snapshotOf ActionBlock sampleIndicators\<lparr>sn_key := ''feodo'', sn_authority := Some (sampleDocument 6)\<rparr>))"
  by (simp add: verifyCachedAuthority_def applyFeedAuthorityState_def authorityAttestationFor_def sampleDocument_def)

end
