(* ===== verification/FeedPolicy.thy ===== *)
theory FeedPolicy
  imports FeedAuthority
begin

text \<open>
  \<open>internal/threatintel/feed_policy.go\<close>: the operator's per-feed overrides, their authenticated store
  and the effective authority of every feed. The fields of \<open>Manager\<close> guarded by \<open>policyMu\<close> are the record
  \<open>policy_layer\<close>; the override map is an association list. The operations that also touch the index and
  the status (\<open>FeedPolicy\<close>, \<open>SetFeedActions\<close>) are in the manager's theory.

  Parameters: \<open>mac\<close> is the hexadecimal HMAC-SHA256 of the JSON of the payload (None when the encoding
  fails), \<open>hmac\<close> the one that derives its key, \<open>enc\<close> the size of the encoded store.
\<close>

section \<open>Definitions\<close>

definition FeedPolicySchemaVersion :: int where "FeedPolicySchemaVersion = 1"
definition maximumFeedPolicyBytes :: int where "maximumFeedPolicyBytes = 16384"
definition maximumFeedPolicyOverrides :: int where "maximumFeedPolicyOverrides = 64"

definition feedPolicySourceDefault :: string where "feedPolicySourceDefault = ''DEFAULT''"
definition feedPolicySourcePersisted :: string where "feedPolicySourcePersisted = ''PERSISTED''"
definition feedPolicySourceInvalid :: string where "feedPolicySourceInvalid = ''INVALID_DEFAULT''"
definition feedPolicyEntrySource :: string where "feedPolicyEntrySource = ''OVERRIDE''"

record feedPolicyOverride =
  po_feedKey :: string
  po_action :: action
  po_updatedUTC :: gotime
  po_reasonSHA256 :: string

record feedActionChange =
  fc_feedKey :: string
  fc_action :: "action option"

record feedPolicyLimits =
  lm_maxOverrides :: int
  lm_maximumFeedIDBytes :: int
  lm_allowedActions :: "action list"

record feedPolicyEntry =
  en_feedKey :: string
  en_name :: string
  en_defaultAction :: action
  en_configuredAction :: action
  en_effectiveAction :: action
  en_source :: string
  en_updatedUTC :: gotime
  en_blocking :: bool
  en_indicators :: int
  en_ready :: bool
  en_feedState :: string
  en_enforcementImpact :: string

record feedPolicySnapshot =
  pn_schemaVersion :: int
  pn_storeState :: string
  pn_storeError :: string
  pn_updatedUTC :: gotime
  pn_generation :: string
  pn_enforcementGeneration :: string
  pn_indicators :: int
  pn_blockingIndicators :: int
  pn_blockingFeedsTotal :: int
  pn_blockingFeedsReady :: int
  pn_enforcementChanged :: bool
  pn_limits :: feedPolicyLimits
  pn_entries :: "feedPolicyEntry list"

record feedPolicyState =
  fs_schemaVersion :: int
  fs_overrides :: "feedPolicyOverride list"
  fs_updatedUTC :: gotime
  fs_mac :: string

record feedPolicyMACPayload =
  fp_schemaVersion :: int
  fp_overrides :: "feedPolicyOverride list"
  fp_updatedUTC :: gotime

type_synonym overrides = "(string \<times> feedPolicyOverride) list"

record policy_layer =
  ov_overrides :: overrides
  ov_source :: string
  ov_updatedUTC :: gotime
  ov_storeError :: string

definition feedPolicyStoreMAC ::
    "(string \<Rightarrow> feedPolicyMACPayload \<Rightarrow> string option) \<Rightarrow> (string \<Rightarrow> string \<Rightarrow> string) \<Rightarrow> string \<Rightarrow> feedPolicyMACPayload \<Rightarrow> string outcome" where
  "feedPolicyStoreMAC mac hmac key payload =
     (case mac (feedPolicyMACKey hmac key) payload of None \<Rightarrow> Inl (Err ''encoding failed'') | Some m \<Rightarrow> Inr m)"

definition canonicalFeedPolicyOverrides :: "feedPolicyOverride list \<Rightarrow> feedPolicyOverride list" where
  "canonicalFeedPolicyOverrides os = sort_key po_feedKey os"

definition allowedFeedActions :: "action list" where
  "allowedFeedActions = [ActionBlock, ActionCorrelateOnly, ActionAnnotateOnly]"

definition FeedPolicyLimitsForAPI :: feedPolicyLimits where
  "FeedPolicyLimitsForAPI =
     \<lparr>lm_maxOverrides = min (int (length catalog)) maximumFeedPolicyOverrides,
      lm_maximumFeedIDBytes = MaximumFeedIDBytes, lm_allowedActions = allowedFeedActions\<rparr>"

definition validReasonDigest :: "string \<Rightarrow> bool" where
  "validReasonDigest digest \<longleftrightarrow> length digest = 64 \<and> hexDecode digest \<noteq> None"

definition ErrNotExist :: goerr where "ErrNotExist = Err ''file does not exist''"

fun checkOverrides :: "gotime \<Rightarrow> string list \<Rightarrow> feedPolicyOverride list \<Rightarrow> unit outcome" where
  "checkOverrides now seen [] = Inr ()"
| "checkOverrides now seen (override # rest) =
     (if sourceByKey (po_feedKey override) = None \<or> MaximumFeedIDBytes < int (length (po_feedKey override))
      then Inl (Err ''feed policy store feed identifier rejected'')
      else if \<not> validFeedAction (po_action override) then Inl (Err ''feed policy store action rejected'')
      else if po_feedKey override \<in> set seen then Inl (Err ''feed policy store duplicate feed rejected'')
      else if po_reasonSHA256 override \<noteq> [] \<and> \<not> validReasonDigest (po_reasonSHA256 override)
      then Inl (Err ''feed policy store reason digest rejected'')
      else if po_updatedUTC override \<noteq> 0 \<and> now + 24 * hour < po_updatedUTC override
      then Inl (Err ''feed policy store timestamp rejected'')
      else checkOverrides now (po_feedKey override # seen) rest)"

definition readFeedPolicyStore ::
    "(string \<Rightarrow> feedPolicyMACPayload \<Rightarrow> string option) \<Rightarrow> (string \<Rightarrow> string \<Rightarrow> string) \<Rightarrow> string \<Rightarrow> gotime \<Rightarrow> feedPolicyState stored \<Rightarrow>
     feedPolicyState outcome" where
  "readFeedPolicyStore mac hmac key now f =
     (case f of
        Absent \<Rightarrow> Inl ErrNotExist
      | Unreadable \<Rightarrow> Inl (Err ''read failed'')
      | Stored bytes regular content \<Rightarrow>
          if \<not> regular then Inl (Err ''feed policy store must be a regular non-symlink file'')
          else if bytes = 0 \<or> maximumFeedPolicyBytes < int bytes then Inl (Err ''feed policy store size rejected'')
          else (case content of
              Malformed \<Rightarrow> Inl (Err ''feed policy store decoding rejected'')
            | Trailing \<Rightarrow> Inl (Err ''feed policy store trailing data rejected'')
            | Decoded state \<Rightarrow>
                if fs_schemaVersion state \<noteq> FeedPolicySchemaVersion \<or>
                   maximumFeedPolicyOverrides < int (length (fs_overrides state)) \<or> length catalog < length (fs_overrides state)
                then Inl (Err ''feed policy store schema rejected'')
                else if length key \<noteq> 32 \<or> length (fs_mac state) \<noteq> 64
                then Inl (Err ''feed policy store authentication is missing'')
                else (case feedPolicyStoreMAC mac hmac key \<lparr>fp_schemaVersion = fs_schemaVersion state,
                         fp_overrides = canonicalFeedPolicyOverrides (fs_overrides state), fp_updatedUTC = fs_updatedUTC state\<rparr> of
                    Inl e \<Rightarrow> Inl (Err ''feed policy store authentication rejected'')
                  | Inr expectedMAC \<Rightarrow>
                      if \<not> signatureHMACEqual expectedMAC (fs_mac state)
                      then Inl (Err ''feed policy store authentication rejected'')
                      else bind_outcome (checkOverrides now [] (fs_overrides state)) (\<lambda>_. Inr state))))"

definition loadFeedPolicy ::
    "(string \<Rightarrow> feedPolicyMACPayload \<Rightarrow> string option) \<Rightarrow> (string \<Rightarrow> string \<Rightarrow> string) \<Rightarrow> string \<Rightarrow> gotime \<Rightarrow> feedPolicyState stored \<Rightarrow> policy_layer" where
  "loadFeedPolicy mac hmac key now f =
     (let empty = \<lparr>ov_overrides = [], ov_source = feedPolicySourceDefault, ov_updatedUTC = 0, ov_storeError = []\<rparr> in
      case readFeedPolicyStore mac hmac key now f of
        Inl e \<Rightarrow> if e = ErrNotExist then empty
                 else empty\<lparr>ov_source := feedPolicySourceInvalid, ov_storeError := err_text e\<rparr>
      | Inr state \<Rightarrow>
          \<lparr>ov_overrides = foldl (\<lambda>m o1. AList.update (po_feedKey o1) o1 m) [] (fs_overrides state),
           ov_source = feedPolicySourcePersisted, ov_updatedUTC = fs_updatedUTC state, ov_storeError = []\<rparr>)"

definition effectiveAction :: "overrides \<Rightarrow> string \<Rightarrow> action" where
  "effectiveAction os key =
     (case map_of os key of
        Some override \<Rightarrow> po_action override
      | None \<Rightarrow> (case sourceByKey key of None \<Rightarrow> [] | Some source \<Rightarrow> s_action source))"

definition applyEffectiveActionsToSnapshots :: "snapshots \<Rightarrow> overrides \<Rightarrow> snapshots" where
  "applyEffectiveActionsToSnapshots sns os =
     map (\<lambda>(key, snapshot). (key, case map_of os key of
            None \<Rightarrow> snapshot | Some override \<Rightarrow> snapshot\<lparr>sn_action := po_action override\<rparr>)) sns"

definition coverageStep :: "snapshots \<Rightarrow> overrides \<Rightarrow> int \<times> int \<Rightarrow> source \<Rightarrow> int \<times> int" where
  "coverageStep sns os = (\<lambda>(total, ready) source.
     let act = (case map_of os (s_key source) of None \<Rightarrow> s_action source | Some override \<Rightarrow> po_action override) in
     if act \<noteq> ActionBlock then (total, ready)
     else (total + 1,
           case map_of sns (s_key source) of
             None \<Rightarrow> ready
           | Some snapshot \<Rightarrow> if sn_indicators snapshot \<noteq> [] then ready + 1 else ready))"

definition effectiveBlockingCoverage :: "snapshots \<Rightarrow> overrides \<Rightarrow> int \<times> int" where
  "effectiveBlockingCoverage sns os = foldl (coverageStep sns os) (0, 0) catalog"

definition feedEnforcementImpact :: "action \<Rightarrow> action \<Rightarrow> string" where
  "feedEnforcementImpact defaultAction effective =
     (if defaultAction = effective then ''NONE''
      else if defaultAction \<noteq> ActionBlock \<and> effective = ActionBlock then ''ADDS_BLOCK''
      else if defaultAction = ActionBlock \<and> effective \<noteq> ActionBlock then ''REMOVES_BLOCK''
      else ''CORRELATION_ONLY'')"

text \<open>The loop of \<open>SetFeedActions\<close> over the requested changes.\<close>

fun applyChanges :: "string \<Rightarrow> gotime \<Rightarrow> string list \<Rightarrow> overrides \<Rightarrow> feedActionChange list \<Rightarrow> overrides outcome" where
  "applyChanges reason updatedUTC seen next [] = Inr next"
| "applyChanges reason updatedUTC seen next (change # rest) =
     (let key = fc_feedKey change in
      if key = [] \<or> MaximumFeedIDBytes < int (length key) then Inl (Err ''feed policy feed identifier rejected'')
      else if key \<in> set seen then Inl (Err ''feed policy duplicate feed rejected'')
      else case sourceByKey key of
          None \<Rightarrow> Inl (Err ''unknown threat feed'')
        | Some source \<Rightarrow>
            (case fc_action change of
               None \<Rightarrow> applyChanges reason updatedUTC (key # seen) (AList.delete key next) rest
             | Some act \<Rightarrow>
                 if act = s_action source then applyChanges reason updatedUTC (key # seen) (AList.delete key next) rest
                 else if \<not> validFeedAction act then Inl (Err ''feed policy action rejected'')
                 else applyChanges reason updatedUTC (key # seen)
                        (AList.update key \<lparr>po_feedKey = key, po_action = act, po_updatedUTC = updatedUTC, po_reasonSHA256 = reason\<rparr> next) rest))"

text \<open>The result is the encoded store: its size with the final newline, and its value.\<close>

definition marshalFeedPolicyState ::
    "(string \<Rightarrow> feedPolicyMACPayload \<Rightarrow> string option) \<Rightarrow> (string \<Rightarrow> string \<Rightarrow> string) \<Rightarrow> (feedPolicyState \<Rightarrow> nat option) \<Rightarrow>
     overrides \<Rightarrow> gotime \<Rightarrow> string \<Rightarrow> (nat \<times> feedPolicyState) outcome" where
  "marshalFeedPolicyState mac hmac enc os updatedUTC key =
     (if length key \<noteq> 32 then Inl (Err ''feed policy key rejected'')
      else let normalized = canonicalFeedPolicyOverrides (map snd os) in
        bind_outcome (feedPolicyStoreMAC mac hmac key
            \<lparr>fp_schemaVersion = FeedPolicySchemaVersion, fp_overrides = normalized, fp_updatedUTC = updatedUTC\<rparr>) (\<lambda>m.
          let state = \<lparr>fs_schemaVersion = FeedPolicySchemaVersion, fs_overrides = normalized, fs_updatedUTC = updatedUTC, fs_mac = m\<rparr> in
          case enc state of
            None \<Rightarrow> Inl (Err ''encoding failed'')
          | Some bytes \<Rightarrow>
              if maximumFeedPolicyBytes < int bytes then Inl (Err ''feed policy store boundary exceeded'')
              else Inr (Suc bytes, state)))"

section \<open>Well-formed overrides\<close>

definition override_ok :: "string \<times> feedPolicyOverride \<Rightarrow> bool" where
  "override_ok = (\<lambda>(key, override). po_feedKey override = key \<and> sourceByKey key \<noteq> None \<and> validFeedAction (po_action override) \<and>
     (po_reasonSHA256 override = [] \<or> validReasonDigest (po_reasonSHA256 override)))"

definition overrides_ok :: "overrides \<Rightarrow> bool" where
  "overrides_ok os \<longleftrightarrow> distinct (map fst os) \<and> list_all override_ok os"

lemma set_alist_update: "x \<in> set (AList.update k v al) \<Longrightarrow> x = (k, v) \<or> x \<in> set al"
  by (induction al) (auto split: if_splits)

lemma set_alist_delete: "set (AList.delete k al) = {x \<in> set al. fst x \<noteq> k}"
  by (auto simp: AList.delete_eq)

lemma overrides_okD: "overrides_ok os \<Longrightarrow> map_of os k = Some v \<Longrightarrow> override_ok (k, v)"
  by (auto simp: overrides_ok_def list_all_iff dest: map_of_SomeD)

lemma overrides_ok_Nil [simp]: "overrides_ok []"
  by (simp add: overrides_ok_def)

lemma overrides_ok_delete: "overrides_ok os \<Longrightarrow> overrides_ok (AList.delete k os)"
  by (auto simp: overrides_ok_def distinct_delete list_all_iff set_alist_delete)

lemma overrides_ok_update: "overrides_ok os \<Longrightarrow> override_ok (k, v) \<Longrightarrow> overrides_ok (AList.update k v os)"
  by (auto simp: overrides_ok_def distinct_update list_all_iff dest: set_alist_update)

lemma catalog_actions: "\<forall>s\<in>set catalog. validFeedAction (s_action s)" "\<forall>s\<in>set catalog. int (length (s_key s)) \<le> MaximumFeedIDBytes"
  by code_simp+

lemma validFeedAction_rank: "validFeedAction act \<longleftrightarrow> 0 < rank act"
  by (auto simp: validFeedAction_def rank_def)

text \<open>The authority a request asks for a feed.\<close>

definition requested :: "feedActionChange list \<Rightarrow> string \<Rightarrow> action option" where
  "requested cs key = (case find (\<lambda>c. fc_feedKey c = key) cs of
     None \<Rightarrow> None
   | Some c \<Rightarrow> Some (case fc_action c of Some act \<Rightarrow> act | None \<Rightarrow> effectiveAction [] key))"

text \<open>One round of the loop, without its error checks.\<close>

definition changeOne :: "string \<Rightarrow> gotime \<Rightarrow> source \<Rightarrow> feedActionChange \<Rightarrow> overrides \<Rightarrow> overrides" where
  "changeOne reason t src c os =
     (let key = fc_feedKey c; act = (case fc_action c of None \<Rightarrow> s_action src | Some act \<Rightarrow> act) in
      if act = s_action src then AList.delete key os
      else AList.update key \<lparr>po_feedKey = key, po_action = act, po_updatedUTC = t, po_reasonSHA256 = reason\<rparr> os)"

lemma applyChanges_Cons:
  assumes "applyChanges reason t seen os (c # cs) = Inr os'"
  obtains src where "sourceByKey (fc_feedKey c) = Some src" and "fc_feedKey c \<notin> set seen"
    and "fc_action c = None \<or> fc_action c = Some (s_action src) \<or> validFeedAction (the (fc_action c))"
    and "applyChanges reason t (fc_feedKey c # seen) (changeOne reason t src c os) cs = Inr os'"
proof (cases "fc_action c")
  case None
  then show ?thesis using assms that by (auto simp: Let_def changeOne_def split: if_splits option.splits)
next
  case (Some act)
  then show ?thesis using assms that by (auto simp: Let_def changeOne_def split: if_splits option.splits)
qed

lemma changeOne_other: "key \<noteq> fc_feedKey c \<Longrightarrow> map_of (changeOne reason t src c os) key = map_of os key"
  by (simp add: changeOne_def Let_def update_conv' delete_conv')

lemma changeOne_effective:
  "sourceByKey (fc_feedKey c) = Some src \<Longrightarrow>
   effectiveAction (changeOne reason t src c os) (fc_feedKey c) = (case fc_action c of None \<Rightarrow> s_action src | Some act \<Rightarrow> act)"
  by (simp add: changeOne_def effectiveAction_def Let_def update_conv' delete_conv')

lemma applyChanges_seen:
  "applyChanges reason t seen os cs = Inr os' \<Longrightarrow> key \<in> set seen \<Longrightarrow> map_of os' key = map_of os key"
proof (induction cs arbitrary: seen os)
  case (Cons c cs)
  then obtain src where "fc_feedKey c \<notin> set seen"
    "applyChanges reason t (fc_feedKey c # seen) (changeOne reason t src c os) cs = Inr os'"
    by (metis applyChanges_Cons)
  then show ?case using Cons.IH changeOne_other Cons.prems(2) by (metis list.set_intros(2))
qed simp

lemma applyChanges_ok:
  assumes "applyChanges reason t seen os cs = Inr os'" and "overrides_ok os" and "reason = [] \<or> validReasonDigest reason"
  shows "overrides_ok os'"
  using assms(1,2)
proof (induction cs arbitrary: seen os)
  case (Cons c cs)
  then obtain src where m: "sourceByKey (fc_feedKey c) = Some src"
    "fc_action c = None \<or> fc_action c = Some (s_action src) \<or> validFeedAction (the (fc_action c))"
    "applyChanges reason t (fc_feedKey c # seen) (changeOne reason t src c os) cs = Inr os'"
    by (metis applyChanges_Cons)
  then have "overrides_ok (changeOne reason t src c os)"
    using Cons.prems(2) assms(3)
    by (auto simp: override_ok_def changeOne_def Let_def split: option.splits intro!: overrides_ok_delete overrides_ok_update)
  then show ?case using Cons.IH m(3) by blast
qed simp

text \<open>
  A request that is accepted changes the effective authority of exactly the
  feeds it names: to the requested action, or back to the catalog's for a reset. No other feed
  changes.
\<close>

lemma applyChanges_effective:
  assumes "applyChanges reason t seen os cs = Inr os'"
  shows "effectiveAction os' key = (case requested cs key of None \<Rightarrow> effectiveAction os key | Some act \<Rightarrow> act)"
  using assms
proof (induction cs arbitrary: seen os)
  case Nil
  then show ?case by (simp add: requested_def)
next
  case (Cons c cs)
  then obtain src where m: "sourceByKey (fc_feedKey c) = Some src"
    "applyChanges reason t (fc_feedKey c # seen) (changeOne reason t src c os) cs = Inr os'"
    by (metis applyChanges_Cons)
  show ?case
  proof (cases "key = fc_feedKey c")
    case True
    then have "effectiveAction os' key = effectiveAction (changeOne reason t src c os) key"
      using applyChanges_seen [OF m(2)] by (simp add: effectiveAction_def)
    then show ?thesis using True m(1) changeOne_effective [OF m(1)]
      by (simp add: requested_def effectiveAction_def [of "[]"] split: option.split)
  next
    case False
    then have "effectiveAction (changeOne reason t src c os) key = effectiveAction os key" "requested (c # cs) key = requested cs key"
      by (auto simp: effectiveAction_def requested_def changeOne_other)
    then show ?thesis unfolding Cons.IH [OF m(2)] by (simp split: option.split)
  qed
qed

section \<open>Coverage\<close>

text \<open>
  The two counters are the number of catalog feeds whose effective authority is
  BLOCK, and how many of those have indicators. So the test \<open>ready = total\<close> of \<open>SetFeedActions\<close> holds
  exactly when every blocking feed has a validated generation.
\<close>

lemma coverage_counts:
  "effectiveBlockingCoverage sns os =
     (int (length (filter (\<lambda>s. effectiveAction os (s_key s) = ActionBlock) catalog)),
      int (length (filter (\<lambda>s. effectiveAction os (s_key s) = ActionBlock \<and>
        (\<exists>sn. map_of sns (s_key s) = Some sn \<and> sn_indicators sn \<noteq> [])) catalog)))"
proof -
  have act: "(case map_of os (s_key s) of None \<Rightarrow> s_action s | Some override \<Rightarrow> po_action override) = effectiveAction os (s_key s)"
    if "s \<in> set catalog" for s
    using that sourceByKey_iff [of "s_key s" s] by (simp add: effectiveAction_def split: option.split)
  have "set ss \<subseteq> set catalog \<Longrightarrow> foldl (coverageStep sns os) (t, r) ss =
      (t + int (length (filter (\<lambda>s. effectiveAction os (s_key s) = ActionBlock) ss)),
       r + int (length (filter (\<lambda>s. effectiveAction os (s_key s) = ActionBlock \<and>
         (\<exists>sn. map_of sns (s_key s) = Some sn \<and> sn_indicators sn \<noteq> [])) ss)))" for ss t r
    by (induction ss arbitrary: t r) (auto simp: coverageStep_def act Let_def split: option.splits)
  from this [of catalog 0 0] show ?thesis by (simp add: effectiveBlockingCoverage_def)
qed

section \<open>The store\<close>

definition timely :: "gotime \<Rightarrow> feedPolicyOverride \<Rightarrow> bool" where
  "timely now x \<longleftrightarrow> po_updatedUTC x = 0 \<or> po_updatedUTC x \<le> now + 24 * hour"

lemma checkOverrides_Cons:
  "checkOverrides now seen (x # xs) = Inr () \<longleftrightarrow> override_ok (po_feedKey x, x) \<and> timely now x \<and> po_feedKey x \<notin> set seen \<and>
     checkOverrides now (po_feedKey x # seen) xs = Inr ()"
proof -
  have "sourceByKey (po_feedKey x) \<noteq> None \<Longrightarrow> \<not> MaximumFeedIDBytes < int (length (po_feedKey x))"
    using sourceByKey_iff catalog_actions(2) by fastforce
  then show ?thesis by (cases "sourceByKey (po_feedKey x)") (auto simp: override_ok_def timely_def not_less)
qed

lemma checkOverrides_iff:
  "checkOverrides now seen xs = Inr () \<longleftrightarrow> distinct (map po_feedKey xs) \<and> set (map po_feedKey xs) \<inter> set seen = {} \<and>
     (\<forall>x\<in>set xs. override_ok (po_feedKey x, x) \<and> timely now x)"
proof (induction xs arbitrary: seen)
  case (Cons x xs)
  show ?case unfolding checkOverrides_Cons Cons.IH by auto
qed simp

lemma foldl_update_distinct:
  assumes "distinct (map po_feedKey xs)" and "set (map po_feedKey xs) \<inter> fst ` set m = {}"
  shows "foldl (\<lambda>m o1. AList.update (po_feedKey o1) o1 m) m xs = m @ map (\<lambda>x. (po_feedKey x, x)) xs"
  using assms
proof (induction xs arbitrary: m)
  case (Cons x xs)
  have "AList.update (po_feedKey x) x m = m @ [(po_feedKey x, x)]"
    using Cons.prems(2) by (induction m) auto
  then show ?case using Cons by simp
qed simp

lemma readFeedPolicyStore_ok:
  assumes "readFeedPolicyStore mac hmac key now f = Inr state"
  shows "distinct (map po_feedKey (fs_overrides state)) \<and> (\<forall>x\<in>set (fs_overrides state). override_ok (po_feedKey x, x))"
    and "\<exists>m. mac (feedPolicyMACKey hmac key) \<lparr>fp_schemaVersion = FeedPolicySchemaVersion,
      fp_overrides = canonicalFeedPolicyOverrides (fs_overrides state), fp_updatedUTC = fs_updatedUTC state\<rparr> = Some m \<and>
      fixedHexEqual m (fs_mac state)"
  using assms
  by (auto simp: readFeedPolicyStore_def bind_outcome_eq_Inr checkOverrides_iff feedPolicyStoreMAC_def signatureHMACEqual_def
      split: stored.splits content.splits if_splits sum.splits option.splits)

lemma loadFeedPolicy_ok: "overrides_ok (ov_overrides (loadFeedPolicy mac hmac key now f))"
proof (cases "readFeedPolicyStore mac hmac key now f")
  case (Inr state)
  note ok = readFeedPolicyStore_ok(1) [OF Inr]
  then have "overrides_ok (map (\<lambda>x. (po_feedKey x, x)) (fs_overrides state))"
    by (simp add: overrides_ok_def list_all_iff comp_def)
  then show ?thesis using Inr foldl_update_distinct [of "fs_overrides state" "[]"] ok by (simp add: loadFeedPolicy_def)
qed (simp add: loadFeedPolicy_def Let_def)

lemma overrides_bound:
  assumes "overrides_ok os"
  shows "length os \<le> length catalog"
proof -
  have "fst ` set os \<subseteq> s_key ` set catalog"
  proof
    fix k assume "k \<in> fst ` set os"
    then obtain src where "sourceByKey k = Some src" using assms by (auto simp: overrides_ok_def list_all_iff override_ok_def)
    then have "src \<in> set catalog" "s_key src = k" by (simp_all add: sourceByKey_iff)
    then show "k \<in> s_key ` set catalog" by (rule rev_image_eqI [OF _ sym])
  qed
  then have "card (set (map fst os)) \<le> card (s_key ` set catalog)" by (simp add: card_mono)
  also have "\<dots> \<le> length catalog" using card_image_le [of "set catalog" s_key] card_length [of catalog] by simp
  finally show ?thesis using distinct_card [of "map fst os"] assms by (simp add: overrides_ok_def)
qed

text \<open>
  A store that was written with well-formed overrides is accepted at the next
  start and gives every feed the same override, provided the file fits the reader's limit (the
  writer checks the size without the final newline), no override is dated more than a day ahead,
  and the MAC is 64 hexadecimal digits.
\<close>

lemma feedPolicy_roundtrip:
  assumes "marshalFeedPolicyState mac hmac enc os t key = Inr (bytes, state)" and "overrides_ok os"
    and "\<forall>(k, x)\<in>set os. timely now x" and "int bytes \<le> maximumFeedPolicyBytes"
    and "\<And>k p m. mac k p = Some m \<Longrightarrow> is_digest m"
  defines "layer \<equiv> loadFeedPolicy mac hmac key now (Stored bytes True (Decoded state))"
  shows "map_of (ov_overrides layer) = map_of os \<and> ov_source layer = feedPolicySourcePersisted \<and>
    ov_updatedUTC layer = t \<and> ov_storeError layer = []"
proof -
  let ?norm = "canonicalFeedPolicyOverrides (map snd os)"
  obtain m where m: "mac (feedPolicyMACKey hmac key) \<lparr>fp_schemaVersion = FeedPolicySchemaVersion, fp_overrides = ?norm, fp_updatedUTC = t\<rparr> = Some m"
    and st: "state = \<lparr>fs_schemaVersion = FeedPolicySchemaVersion, fs_overrides = ?norm, fs_updatedUTC = t, fs_mac = m\<rparr>"
    and key: "length key = 32" and pos: "bytes \<noteq> 0"
    using assms(1) by (auto simp: marshalFeedPolicyState_def Let_def bind_outcome_eq_Inr feedPolicyStoreMAC_def split: if_splits option.splits)
  have keys: "map po_feedKey (map snd os) = map fst os"
    using assms(2) by (auto simp: overrides_ok_def list_all_iff override_ok_def)
  have set: "set ?norm = snd ` set os" by (simp add: canonicalFeedPolicyOverrides_def)
  have ms: "mset (map po_feedKey ?norm) = mset (map fst os)"
    unfolding keys [symmetric] by (simp add: canonicalFeedPolicyOverrides_def multiset.map_comp)
  then have dist: "distinct (map po_feedKey ?norm)" using mset_eq_imp_distinct_iff [OF ms] assms(2) by (simp add: overrides_ok_def)
  have good: "\<forall>x\<in>set ?norm. override_ok (po_feedKey x, x) \<and> timely now x"
    using assms(2,3) unfolding set by (auto simp: overrides_ok_def list_all_iff override_ok_def)
  have again: "canonicalFeedPolicyOverrides ?norm = ?norm"
    by (simp add: canonicalFeedPolicyOverrides_def sort_key_id_if_sorted)
  have len: "length ?norm \<le> length catalog" using overrides_bound [OF assms(2)] by (simp add: canonicalFeedPolicyOverrides_def)
  have check: "checkOverrides now [] ?norm = Inr ()" using dist good by (simp add: checkOverrides_iff)
  have "readFeedPolicyStore mac hmac key now (Stored bytes True (Decoded state)) = Inr state"
    using assms(4) key pos m len check fixedHexEqual_refl [OF assms(5) [OF m]] assms(5) [OF m] catalog_keys(2)
    by (simp add: readFeedPolicyStore_def st again feedPolicyStoreMAC_def signatureHMACEqual_def
        maximumFeedPolicyOverrides_def is_digest_def)
  moreover have "map_of (map (\<lambda>x. (po_feedKey x, x)) ?norm) = map_of os"
  proof (rule map_of_eqI)
    show "set (map fst (map (\<lambda>x. (po_feedKey x, x)) ?norm)) = set (map fst os)" using mset_eq_setD [OF ms] by (simp add: image_image)
    have ok: "k = po_feedKey x" if "(k, x) \<in> set os" for k x using assms(2) that by (auto simp: overrides_ok_def list_all_iff override_ok_def)
    have d: "distinct (map fst (map (\<lambda>x. (po_feedKey x, x)) ?norm))" using dist by (simp add: comp_def)
    have do: "distinct (map fst os)" using assms(2) by (simp add: overrides_ok_def)
    have "set (map (\<lambda>x. (po_feedKey x, x)) ?norm) = set os" using ok set by force
    then show "\<forall>k\<in>set (map fst (map (\<lambda>x. (po_feedKey x, x)) ?norm)). map_of (map (\<lambda>x. (po_feedKey x, x)) ?norm) k = map_of os k"
      using map_of_inject_set [OF d do] by simp
  qed
  ultimately show ?thesis
    using foldl_update_distinct [OF dist, of "[]"] by (simp add: layer_def loadFeedPolicy_def st)
qed

end
