(* ===== verification/ThreatManager.thy ===== *)
theory ThreatManager
  imports FeedPolicy
begin

text \<open>
  \<open>internal/threatintel/manager.go\<close>, with the operations of \<open>feed_policy.go\<close>, \<open>polling.go\<close> and
  \<open>manager_guards.go\<close> that act on the whole manager.

  The state of the service is a \<open>manager\<close> (the struct \<open>Manager\<close>, its fields grouped by the mutex that
  guards them) and a \<open>disk\<close> (the state files it writes). An operation takes both, and the answers of
  the outside world as arguments: the time, whether each write or removal succeeds, the responses of
  the feed servers. It returns the new state and the Go result. Files the service only reads (the key
  ring, the signed document) are arguments too. \<open>TryLock\<close> on \<open>syncMu\<close> is the argument \<open>busy\<close>.

  A \<open>platform\<close> holds the functions that stand for cryptography and encodings.
\<close>

section \<open>State\<close>

record platform =
  pf_sha :: "string \<Rightarrow> string"
  pf_hmac :: "string \<Rightarrow> string \<Rightarrow> string"
  pf_protectedMAC :: "string \<Rightarrow> protectedPolicyMACPayload \<Rightarrow> string option"
  pf_feedMAC :: "string \<Rightarrow> feedPolicyMACPayload \<Rightarrow> string option"
  pf_verify :: "string \<Rightarrow> string \<Rightarrow> nat list \<Rightarrow> bool"
  pf_marshal :: "feedAuthorityMessage \<Rightarrow> string"
  pf_rfc3339Nano :: "gotime \<Rightarrow> string"
  pf_rawStd :: "string \<Rightarrow> string option"
  pf_std :: "string \<Rightarrow> string option"
  pf_unmarshal :: "string \<Rightarrow> ndjson_record option"
  pf_mediaType :: "string \<Rightarrow> string option"
  pf_protectedSize :: "protectedPolicyDisk \<Rightarrow> nat option"
  pf_feedPolicySize :: "feedPolicyState \<Rightarrow> nat option"
  pf_sourceSize :: "sourceSnapshot \<Rightarrow> nat option"
  pf_enforcementSize :: "enforcementSnapshot \<Rightarrow> nat option"
  pf_clockSize :: "feedClockState \<Rightarrow> nat option"
  pf_pollingSize :: "pollingState \<Rightarrow> nat option"
  pf_authoritySize :: "feedAuthorityState \<Rightarrow> nat option"

abbreviation message :: "platform \<Rightarrow> feedAuthorityDocument \<Rightarrow> string" where
  "message P \<equiv> feedAuthorityDocumentMessage (pf_marshal P) (pf_rfc3339Nano P)"

record manager =
  m_polling :: polling_policy
  m_policy :: policy_layer
  m_status :: status
  m_snapshots :: snapshots
  m_protectedPolicy :: protectedNetworkPolicy
  m_protectedPrefixes :: "prefix list"
  m_protectedTrie :: prefixTrie
  m_protectedKey :: string
  m_index :: "index option"
  m_authority :: authority
  m_clock :: clock_trust
  m_feedPolicyKey :: string

record disk =
  d_protected :: "protectedPolicyDisk stored"
  d_sources :: "string \<Rightarrow> sourceSnapshot stored"
  d_enforcement :: "enforcementSnapshot stored"
  d_clock :: "feedClockState stored"
  d_polling :: "pollingState stored"
  d_feedPolicy :: "feedPolicyState stored"
  d_authorityState :: "feedAuthorityState stored"

abbreviation m_overrides :: "manager \<Rightarrow> overrides" where
  "m_overrides m \<equiv> ov_overrides (m_policy m)"

definition maximumAggregateIndicators :: int where "maximumAggregateIndicators = 750000"
definition minimumRetainedRatio :: int where "minimumRetainedRatio = 10"
definition ErrSyncInProgress :: goerr where
  "ErrSyncInProgress = Err ''threat intelligence synchronization already in progress''"

definition feedAuthenticityUnconfigured :: string where "feedAuthenticityUnconfigured = ''UNCONFIGURED''"
definition feedAuthenticityEnforced :: string where "feedAuthenticityEnforced = ''ENFORCED''"
definition feedAuthenticityFailed :: string where "feedAuthenticityFailed = ''FAILED''"

section \<open>Small operations\<close>

text \<open>\<open>os.Remove\<close> with the error ignored.\<close>

definition removeFile :: "bool \<Rightarrow> 'a stored \<Rightarrow> 'a stored" where
  "removeFile ok f = (if ok then Absent else f)"

definition setStatus :: "status \<Rightarrow> manager \<Rightarrow> manager" where
  "setStatus st m = m\<lparr>m_status := st\<rparr>"

definition fail :: "gotime \<Rightarrow> manager \<Rightarrow> manager" where
  "fail attempt m = m\<lparr>m_status := (m_status m)\<lparr>
      st_lastAttemptUTC := attempt, st_nextSyncUTC := attempt + FailureRetryInterval,
      st_state := (if 0 < st_indicators (m_status m) then ''STALE'' else ''FAILED''),
      st_error := ''synchronization failed; validated last-known-good data remains active when available''\<rparr>\<rparr>"

definition suspiciousShrink :: "int \<Rightarrow> int \<Rightarrow> bool" where
  "suspiciousShrink previous current =
     (if previous < 100 \<or> previous \<le> current then False else current * 100 < previous * minimumRetainedRatio)"

definition latestSnapshotTime :: "snapshots \<Rightarrow> gotime" where
  "latestSnapshotTime values = foldl (\<lambda>latest (key, snapshot).
     if latest < sn_generatedUTC snapshot then sn_generatedUTC snapshot else latest) 0 values"

definition validFetchAddress :: "addr \<Rightarrow> bool" where
  "validFetchAddress address0 =
     (if \<not> IsValid address0 then False
      else let address = Unmap address0 in
        if \<not> public_unicast address then False
        else \<not> list_ex (prefixesOverlap (PrefixFrom address (int (BitLen address)))) protectedThreatRanges)"

definition newFeedState :: "manager \<Rightarrow> source \<Rightarrow> gotime \<Rightarrow> feedState" where
  "newFeedState m source attempt =
     (let state = \<lparr>f_key = s_key source, f_name = s_name source, f_action = s_action source, f_state = [],
        f_indicators = 0, f_lastAttemptUTC = attempt, f_lastSuccessUTC = 0, f_error = [],
        f_defaultAction = s_action source, f_configuredAction = s_action source, f_effectiveAction = s_action source,
        f_actionSource = feedPolicySourceDefault, f_authorityVerified = False, f_authoritySequence = 0,
        f_authorityValidUntilUTC = 0\<rparr> in
      case map_of (m_overrides m) (s_key source) of
        None \<Rightarrow> state
      | Some override \<Rightarrow> state\<lparr>f_configuredAction := po_action override, f_effectiveAction := po_action override,
                               f_actionSource := feedPolicyEntrySource\<rparr>)"

definition enrichOne :: "overrides \<Rightarrow> feedState \<Rightarrow> feedState" where
  "enrichOne os state =
     (case sourceByKey (f_key state) of
        None \<Rightarrow> state
      | Some source \<Rightarrow>
          let (configured, actionSource) =
            (case map_of os (f_key state) of
               None \<Rightarrow> (s_action source, feedPolicySourceDefault)
             | Some override \<Rightarrow> (po_action override, feedPolicyEntrySource)) in
          state\<lparr>f_defaultAction := s_action source, f_configuredAction := configured,
                f_effectiveAction := configured, f_actionSource := actionSource\<rparr>)"

definition enrichFeedStates :: "feedState list \<Rightarrow> overrides \<Rightarrow> feedState list" where
  "enrichFeedStates states os = map (enrichOne os) states"

section \<open>Lookup and status\<close>

definition ManagerLookup :: "manager \<Rightarrow> addr \<Rightarrow> match_result" where
  "ManagerLookup m address0 =
     (case m_index m of
        None \<Rightarrow> noMatch
      | Some i \<Rightarrow>
          let match = IndexLookup (Some i) address0 in
          if \<not> mt_found match \<or> \<not> IsValid address0 then match
          else let address = Unmap address0;
                   (node, covered) = nodeFor (m_protectedTrie m) (PrefixFrom address (int (BitLen address))) in
               match\<lparr>mt_protected := covered\<rparr>)"

definition ManagerContains :: "manager \<Rightarrow> addr \<Rightarrow> bool" where
  "ManagerContains m address = mt_found (ManagerLookup m address)"

definition expireFeed :: "bool \<Rightarrow> gotime \<Rightarrow> duration \<Rightarrow> feedState \<Rightarrow> feedState \<times> bool" where
  "expireFeed rollback now maxAge fs =
     (if f_lastSuccessUTC fs = 0 then (fs, False)
      else if rollback \<or> maxAge < time_sub now (f_lastSuccessUTC fs)
      then (fs\<lparr>f_state := ''EXPIRED'', f_error := ''feed generation exceeds the hard freshness TTL'', f_indicators := 0\<rparr>,
            f_effectiveAction fs = ActionBlock)
      else (fs, False))"

definition applyFreshnessAndAuthenticity :: "manager \<Rightarrow> gotime \<Rightarrow> status \<Rightarrow> status" where
  "applyFreshnessAndAuthenticity m wall status =
     (let now = effectiveNowUTC (m_clock m) wall;
          maxAge = maxFeedAge (m_polling m);
          rollback = clockRollbackDetected (m_clock m);
          feeds = map (expireFeed rollback now maxAge) (st_feeds status);
          expiredBlocking = list_ex snd feeds;
          status1 = status\<lparr>st_feeds := map fst feeds\<rparr>;
          status2 = (if expiredBlocking \<or> rollback
            then status1\<lparr>st_blockingIndicators := 0, st_blockingFeedsReady := 0, st_enforcementGeneration := [],
                   st_state := (if st_state status1 \<in> {''CURRENT'', ''CACHED'', ''DEGRADED''} then ''DEGRADED'' else st_state status1),
                   st_error := (if rollback
                     then ''wall-clock rollback detected: feed freshness is not trusted; blocking enforcement withdrawn''
                     else ''hard feed freshness TTL exceeded: stale blocking generations are not enforced'')\<rparr>
            else status1);
          au = m_authority m in
      status2\<lparr>st_feedAuthenticity :=
                (if \<not> au_configured au then feedAuthenticityUnconfigured
                 else if au_error au \<noteq> [] then feedAuthenticityFailed else feedAuthenticityEnforced),
              st_feedAuthorityKeys := int (length (au_keys au)),
              st_feedAuthoritySequence := as_lastSequence (au_state au),
              st_feedAuthorityError := au_error au,
              st_feedClockRollback := rollback,
              st_maxFeedAgeSeconds := maxAge div second\<rparr>)"

definition readyState :: "string \<Rightarrow> bool" where
  "readyState s \<longleftrightarrow> s = ''CURRENT'' \<or> s = ''STALE'' \<or> s = ''CACHED''"

definition countBlocking :: "feedState list \<Rightarrow> int \<times> int" where
  "countBlocking feeds = foldl (\<lambda>(total, ready) fs.
     if f_effectiveAction fs \<noteq> ActionBlock then (total, ready)
     else (total + 1, if 0 < f_indicators fs \<and> readyState (f_state fs) then ready + 1 else ready)) (0, 0) feeds"

text \<open>\<open>Status\<close> up to the call of \<open>applyFreshnessAndAuthenticity\<close>.\<close>

definition statusView :: "manager \<Rightarrow> status" where
  "statusView m =
     (let (intervalSeconds, pollingSource, pollingUpdatedUTC, pollingLoadError) = pollingFields (m_polling m);
          (minimum, maximum) = pollIntervalRange;
          status = m_status m;
          status1 = status\<lparr>st_pollingIntervalSeconds := intervalSeconds, st_pollingIntervalSource := pollingSource,
             st_pollingIntervalMinSeconds := minimum, st_pollingIntervalMaxSeconds := maximum,
             st_pollingIntervalDefaultSeconds := DefaultPollInterval div second,
             st_pollingUpdatedUTC := pollingUpdatedUTC,
             st_error := (if pollingLoadError \<noteq> [] \<and> st_error status = [] then pollingLoadError else st_error status)\<rparr>;
          os = m_overrides m;
          feeds = enrichFeedStates (st_feeds status1) os;
          status2 = status1\<lparr>st_feeds := feeds, st_feedPolicySource := ov_source (m_policy m),
             st_feedPolicyUpdatedUTC := ov_updatedUTC (m_policy m), st_feedPolicyOverrides := int (length os),
             st_feedPolicyError := ov_storeError (m_policy m)\<rparr> in
      if feeds = [] then status2
      else let (total, ready) = countBlocking feeds in
        status2\<lparr>st_blockingFeedsTotal := total, st_blockingFeedsReady := ready\<rparr>)"

definition statusOf :: "manager \<Rightarrow> gotime \<Rightarrow> status" where
  "statusOf m wall = applyFreshnessAndAuthenticity m wall (statusView m)"

text \<open>The receiver may be nil.\<close>

definition Status :: "manager option \<Rightarrow> gotime \<Rightarrow> status" where
  "Status mo wall = (case mo of None \<Rightarrow> zeroStatus | Some m \<Rightarrow> statusOf m wall)"

definition markProtectionPolicyStatus :: "protectedNetworkPolicy \<Rightarrow> goerr option \<Rightarrow> gotime \<Rightarrow> manager \<Rightarrow> manager" where
  "markProtectionPolicyStatus policy policyErr now m =
     (let st = (m_status m)\<lparr>st_protectedPrefixes := int (length (pp_prefixes policy)),
                            st_protectionGeneration := pp_generationSHA256 policy\<rparr>;
          st1 = (case m_index m of
              None \<Rightarrow> st
            | Some current \<Rightarrow> st\<lparr>st_blockingIndicators := ix_blocking current,
                                 st_enforcementGeneration := ix_enforcementGeneration current\<rparr>);
          st2 = (case policyErr of
              None \<Rightarrow> st1
            | Some e \<Rightarrow> st1\<lparr>st_state := ''DEGRADED'',
                st_error := ''protected network policy changed but enforcement reconciliation is incomplete'',
                st_nextSyncUTC := now\<rparr>) in
      m\<lparr>m_status := st2\<rparr>)"

section \<open>Synchronisation\<close>

text \<open>
  The answer of a feed server. \<open>hr_body\<close> is the whole body; \<open>hr_readOK\<close> says that reading up to the
  limit succeeds, \<open>hr_closeOK\<close> that closing the body does.
\<close>

record http_response =
  hr_statusCode :: int
  hr_contentType :: string
  hr_contentLength :: int
  hr_body :: string
  hr_readOK :: bool
  hr_closeOK :: bool

datatype fetch_answer = RequestRejected | TransportFailed | Answered http_response

definition looksLikeHTML :: "string \<Rightarrow> bool" where
  "looksLikeHTML body =
     (let trimmed = map ascii_lower (TrimSpace (take 256 body)) in
      HasPrefix trimmed ''<!doctype html'' \<or> HasPrefix trimmed ''<html'')"

definition fetchLimit :: "source \<Rightarrow> int" where
  "fetchLimit source = (if s_maximumBytes source \<le> 0 \<or> defaultMaximumFeedBytes < s_maximumBytes source
     then defaultMaximumFeedBytes else s_maximumBytes source)"

text \<open>\<open>io.ReadAll\<close> of an \<open>io.LimitReader\<close>; the second equation is the one that is evaluated.\<close>

definition limitReader :: "int \<Rightarrow> string \<Rightarrow> string" where
  "limitReader limit s = take (nat limit) s"

lemma limitReader_code [code]: "limitReader limit s = (if int (length s) \<le> limit then s else take (nat limit) s)"
  by (simp add: limitReader_def)

text \<open>A failing \<open>Close\<close> of the response body turns the result into an error (\<open>cleanup.CloseInto\<close>).\<close>

definition fetchSource :: "platform \<Rightarrow> source \<Rightarrow> fetch_answer \<Rightarrow> (prefix list \<times> attribution) outcome" where
  "fetchSource P source answer =
     (case answer of
        RequestRejected \<Rightarrow> Inl (Err ''request rejected'')
      | TransportFailed \<Rightarrow> Inl (Err (''fetch '' @ s_name source))
      | Answered r \<Rightarrow>
          let contentType = TrimSpace (hr_contentType r);
              limit = fetchLimit source;
              body = limitReader (limit + 1) (hr_body r);
              result =
                (if hr_statusCode r \<noteq> 200 then Inl (Err (''fetch '' @ s_name source @ '': HTTP '' @ itoa (nat (hr_statusCode r))))
                 else if contentType \<noteq> [] \<and>
                   (case pf_mediaType P contentType of None \<Rightarrow> False | Some t \<Rightarrow> EqualFold t ''text/html'')
                 then Inl (Err ''threat feed returned HTML content'')
                 else if limit < hr_contentLength r then Inl (Err ''threat feed declared size boundary rejected'')
                 else if \<not> hr_readOK r then Inl (Err (''read '' @ s_name source))
                 else if body = [] \<or> limit < int (length body) then Inl (Err ''threat feed size boundary rejected'')
                 else if looksLikeHTML body then Inl (Err ''threat feed HTML body rejected'')
                 else parseSource (pf_unmarshal P) source body) in
          if hr_closeOK r then result
          else (case result of Inl e \<Rightarrow> Inl e | Inr x \<Rightarrow> Inl (Err ''close resource'')))"

record worker_input =
  wi_cancelled :: bool
  wi_answer :: fetch_answer
  wi_document :: "feedAuthorityDocument stored"
  wi_now :: gotime
  wi_writeOK :: bool

text \<open>One download worker: the snapshot or the error, and the feed's snapshot file afterwards.\<close>

definition syncWorker ::
    "platform \<Rightarrow> manager \<Rightarrow> gotime \<Rightarrow> snapshots \<Rightarrow> source \<Rightarrow> worker_input \<Rightarrow> sourceSnapshot stored \<Rightarrow>
     sourceSnapshot outcome \<times> sourceSnapshot stored" where
  "syncWorker P m attempt candidate source w f =
     (if wi_cancelled w then (Inl (Err ''context cancelled''), f)
      else let previous = map_of candidate (s_key source) in
        case fetchSource P source (wi_answer w) of
          Inl e \<Rightarrow> (Inl e, f)
        | Inr (prefixes, attribution) \<Rightarrow>
            if (case previous of None \<Rightarrow> False
                | Some p \<Rightarrow> suspiciousShrink (int (length (sn_indicators p))) (int (length prefixes)))
            then (Inl (Err ''threat feed shrinkage safety gate rejected generation''), f)
            else let indicators = sort (map PrefixString prefixes) in
              case verifyFetchedAuthority (pf_verify P) (message P) (pf_sha P) (m_authority m) (m_clock m)
                     (wi_now w) (wi_document w) source indicators previous of
                Inl e \<Rightarrow> (Inl e, f)
              | Inr authorityDocument \<Rightarrow>
                  let snapshot = \<lparr>sn_schemaVersion = SchemaVersion, sn_key = s_key source, sn_generatedUTC = attempt,
                        sn_action = s_action source, sn_attribution = attribution,
                        sn_generationSHA256 = digestIndicators (pf_sha P) (s_key source) (s_action source) indicators,
                        sn_indicators = indicators, sn_authority = authorityDocument\<rparr> in
                  case writeSourceSnapshot (pf_sourceSize P) (wi_writeOK w) snapshot f of
                    Inl e \<Rightarrow> (Inl e, f)
                  | Inr f' \<Rightarrow> (Inr snapshot, f'))"

record sync_input =
  si_attempt :: gotime
  si_worker :: "string \<Rightarrow> worker_input"
  si_authorityOK :: "string \<Rightarrow> bool"
  si_removeOK :: bool
  si_enforcementOK :: bool
  si_clockOK :: bool

record sync_acc =
  sa_candidate :: snapshots
  sa_states :: "feedState list"
  sa_fresh :: int
  sa_ready :: int
  sa_aggregate :: int

text \<open>
  The second loop of \<open>Sync\<close>, for one feed. \<open>candidate\<close> is the map before the loop: the generations still
  within the freshness limit.
\<close>

definition feedResult ::
    "manager \<Rightarrow> gotime \<Rightarrow> snapshots \<Rightarrow> source \<Rightarrow> sourceSnapshot outcome \<Rightarrow> feedState" where
  "feedResult m attempt candidate source result =
     (let state = newFeedState m source attempt in
      case result of
        Inr snapshot \<Rightarrow>
          applyFeedAuthorityState (state\<lparr>f_state := ''CURRENT'', f_indicators := int (length (sn_indicators snapshot)),
            f_lastSuccessUTC := attempt\<rparr>) snapshot
      | Inl e \<Rightarrow>
          (case map_of candidate (s_key source) of
             Some previous \<Rightarrow>
               if \<not> snapshotExpired (m_polling m) previous attempt
               then applyFeedAuthorityState (state\<lparr>f_state := ''STALE'', f_indicators := int (length (sn_indicators previous)),
                 f_lastSuccessUTC := sn_generatedUTC previous,
                 f_error := ''last-known-good generation retained within the hard freshness TTL''\<rparr>) previous
               else (case map_of (m_snapshots m) (s_key source) of
                   Some old \<Rightarrow> applyFeedAuthorityState (state\<lparr>f_state := ''EXPIRED'',
                     f_error := ''last-known-good generation exceeded the hard freshness TTL''\<rparr>) old
                 | None \<Rightarrow> state\<lparr>f_state := ''UNAVAILABLE'', f_error := ''no validated generation available''\<rparr>)
           | None \<Rightarrow>
               (case map_of (m_snapshots m) (s_key source) of
                  Some old \<Rightarrow> applyFeedAuthorityState (state\<lparr>f_state := ''EXPIRED'',
                    f_error := ''last-known-good generation exceeded the hard freshness TTL''\<rparr>) old
                | None \<Rightarrow> state\<lparr>f_state := ''UNAVAILABLE'', f_error := ''no validated generation available''\<rparr>)))"

fun collectResults ::
    "manager \<Rightarrow> gotime \<Rightarrow> snapshots \<Rightarrow> sync_acc \<Rightarrow> (source \<times> sourceSnapshot outcome) list \<Rightarrow> sync_acc outcome" where
  "collectResults m attempt candidate acc [] = Inr acc"
| "collectResults m attempt candidate acc ((source, result) # rest) =
     (let state = feedResult m attempt candidate source result;
          ready = effectiveAction (m_overrides m) (s_key source) = ActionBlock \<and> 0 < f_indicators state \<and>
                  (f_state state = ''CURRENT'' \<or> f_state state = ''STALE'');
          aggregate = sa_aggregate acc + f_indicators state in
      if maximumAggregateIndicators < aggregate then Inl (Err ''aggregate threat intelligence boundary exceeded'')
      else collectResults m attempt candidate
        \<lparr>sa_candidate = (case result of Inl e \<Rightarrow> sa_candidate acc | Inr snapshot \<Rightarrow> AList.update (s_key source) snapshot (sa_candidate acc)),
         sa_states = sa_states acc @ [state],
         sa_fresh = (case result of Inl e \<Rightarrow> sa_fresh acc | Inr snapshot \<Rightarrow> sa_fresh acc + 1),
         sa_ready = (if ready then sa_ready acc + 1 else sa_ready acc),
         sa_aggregate = aggregate\<rparr> rest)"

definition runWorkers ::
    "platform \<Rightarrow> manager \<Rightarrow> sync_input \<Rightarrow> snapshots \<Rightarrow> disk \<Rightarrow> (source \<times> sourceSnapshot outcome) list \<times> (string \<Rightarrow> sourceSnapshot stored)" where
  "runWorkers P m inp candidate d =
     (let run = (\<lambda>source. syncWorker P m (si_attempt inp) candidate source (si_worker inp (s_key source)) (d_sources d (s_key source))) in
      (map (\<lambda>source. (source, fst (run source))) catalog,
       foldl (\<lambda>files source. files(s_key source := snd (run source))) (d_sources d) catalog))"

definition acceptResults ::
    "platform \<Rightarrow> sync_input \<Rightarrow> (source \<times> sourceSnapshot outcome) list \<Rightarrow> authority \<times> feedAuthorityState stored \<Rightarrow>
     authority \<times> feedAuthorityState stored" where
  "acceptResults P inp results s = foldl (\<lambda>s (source, result). case result of
       Inl e \<Rightarrow> s
     | Inr snapshot \<Rightarrow> updateFeedAuthorityState (pf_authoritySize P) (si_authorityOK inp (s_key source)) (sn_authority snapshot) s)
     s results"

definition blockingTotalOf :: "manager \<Rightarrow> int" where
  "blockingTotalOf m = int (length (filter (\<lambda>s. effectiveAction (m_overrides m) (s_key s) = ActionBlock) catalog))"

definition syncStatus :: "manager \<Rightarrow> gotime \<Rightarrow> index \<Rightarrow> sync_acc \<Rightarrow> status" where
  "syncStatus m attempt i acc =
     (let complete = sa_fresh acc = int (length catalog) in
      zeroStatus\<lparr>st_lastAttemptUTC := attempt, st_lastSuccessUTC := attempt,
        st_nextSyncUTC := attempt + (if complete then pollInterval (m_polling m) else FailureRetryInterval),
        st_indicators := ix_indicators i, st_blockingIndicators := ix_blocking i,
        st_blockingFeedsReady := sa_ready acc, st_blockingFeedsTotal := blockingTotalOf m,
        st_correlationIndicators := ix_correlation i, st_annotationIndicators := ix_annotation i,
        st_generation := ix_generation i, st_enforcementGeneration := ix_enforcementGeneration i,
        st_protectedPrefixes := int (length (pp_prefixes (m_protectedPolicy m))),
        st_protectionGeneration := pp_generationSHA256 (m_protectedPolicy m),
        st_state := (if complete then ''CURRENT'' else ''DEGRADED''),
        st_error := (if complete then [] else itoa (nat (sa_fresh acc)) @ '' of '' @ itoa (length catalog) @
          '' feeds refreshed; last-known-good data retained where available''),
        st_feeds := sa_states acc\<rparr>)"

text \<open>The part of \<open>Sync\<close> after the downloads: collect, build, compile, commit.\<close>

definition syncCommit ::
    "platform \<Rightarrow> sync_input \<Rightarrow> snapshots \<Rightarrow> (source \<times> sourceSnapshot outcome) list \<Rightarrow> manager \<Rightarrow> disk \<Rightarrow> manager \<times> disk \<times> unit outcome" where
  "syncCommit P inp candidate results m d =
     (let attempt = si_attempt inp in
      case collectResults m attempt candidate \<lparr>sa_candidate = candidate, sa_states = [], sa_fresh = 0, sa_ready = 0, sa_aggregate = 0\<rparr> results of
        Inl e \<Rightarrow> (fail attempt m, d, Inl e)
      | Inr acc \<Rightarrow>
          (case compileEnforcement (pf_sha P) (m_protectedPrefixes m)
                  (buildIndex (pf_sha P) (applyEffectiveActionsToSnapshots (sa_candidate acc) (m_overrides m))) of
             Inl e \<Rightarrow> (fail attempt m, d, Inl e)
           | Inr i \<Rightarrow>
               if maximumEnforcementIndicators < ix_blocking i
               then (fail attempt m, d, Inl (Err ''blocking threat intelligence boundary exceeded''))
               else if ix_blocking i = 0
               then (fail attempt m, d\<lparr>d_enforcement := removeFile (si_removeOK inp) (d_enforcement d)\<rparr>,
                     Inl (Err ''no validated blocking threat intelligence is available''))
               else if sa_fresh acc = 0 then (fail attempt m, d, Inl (Err ''no threat intelligence feed refreshed''))
               else (case writeEnforcementSnapshot (pf_sha P) (pf_enforcementSize P) (si_enforcementOK inp) attempt (Some i)
                            (sa_ready acc) (m_protectedPolicy m) (d_enforcement d) of
                   Inl e \<Rightarrow> (fail attempt m, d, Inl e)
                 | Inr f \<Rightarrow>
                     (m\<lparr>m_snapshots := sa_candidate acc, m_index := Some i, m_status := syncStatus m attempt i acc\<rparr>,
                      d\<lparr>d_enforcement := f, d_clock := persistFeedClock (pf_clockSize P) (si_clockOK inp) attempt (d_clock d)\<rparr>,
                      Inr ()))))"

definition freshSnapshots :: "manager \<Rightarrow> gotime \<Rightarrow> snapshots" where
  "freshSnapshots m attempt = filter (\<lambda>(key, snapshot). \<not> snapshotExpired (m_polling m) snapshot attempt) (m_snapshots m)"

definition Sync :: "platform \<Rightarrow> bool \<Rightarrow> bool \<Rightarrow> sync_input \<Rightarrow> manager \<Rightarrow> disk \<Rightarrow> manager \<times> disk \<times> unit outcome" where
  "Sync P nilContext busy inp m d =
     (if nilContext then (m, d, Inl (Err ''threat intelligence synchronization requires context''))
      else if busy then (m, d, Inl ErrSyncInProgress)
      else let attempt = si_attempt inp; (c, rollback) = observeClock (m_clock m) attempt; m1 = m\<lparr>m_clock := c\<rparr> in
        if rollback
        then (fail attempt m1, d\<lparr>d_enforcement := removeFile (si_removeOK inp) (d_enforcement d)\<rparr>,
              Inl (Err ''threat feed synchronization refused: wall-clock rollback detected; feed freshness cannot be established''))
        else let candidate = freshSnapshots m1 attempt;
                 (results, files) = runWorkers P m1 inp candidate d;
                 (au, authorityFile) = acceptResults P inp results (m_authority m1, d_authorityState d) in
             syncCommit P inp candidate results (m1\<lparr>m_authority := au\<rparr>)
               (d\<lparr>d_sources := files, d_authorityState := authorityFile\<rparr>))"

section \<open>Start\<close>

record load_input =
  li_now :: "string \<Rightarrow> gotime"
  li_verifyNow :: "string \<Rightarrow> gotime"
  li_finish :: gotime
  li_removeOK :: bool
  li_enforcementOK :: bool

record load_acc =
  la_snapshots :: snapshots
  la_states :: "feedState list"
  la_ready :: int
  la_total :: int
  la_aggregate :: int

text \<open>
  One round of the loop of \<open>loadCached\<close> over the catalog; \<open>Inl\<close> is the accumulated state at the return
  inside the loop.
\<close>

definition loadOne :: "platform \<Rightarrow> manager \<Rightarrow> disk \<Rightarrow> load_input \<Rightarrow> load_acc \<Rightarrow> source \<Rightarrow> load_acc + load_acc" where
  "loadOne P m d inp acc0 source =
     (let key = s_key source;
          blocking = effectiveAction (m_overrides m) key = ActionBlock;
          acc = acc0\<lparr>la_total := (if blocking then la_total acc0 + 1 else la_total acc0)\<rparr>;
          state = newFeedState m source 0 in
      if clockRollbackDetected (m_clock m)
      then Inr (acc\<lparr>la_states := la_states acc @ [state\<lparr>f_state := ''UNAVAILABLE'',
                 f_error := ''wall-clock rollback detected; cached generations are not trusted''\<rparr>]\<rparr>)
      else case readSourceSnapshot (pf_sha P) (d_sources d key) source of
          Inl e \<Rightarrow> Inr (acc\<lparr>la_states := la_states acc @ [state\<lparr>f_state := ''UNAVAILABLE''\<rparr>]\<rparr>)
        | Inr snapshot \<Rightarrow>
            let count = int (length (sn_indicators snapshot)) in
            if snapshotExpired (m_polling m) snapshot (effectiveNowUTC (m_clock m) (li_now inp key))
            then Inr (acc\<lparr>la_states := la_states acc @ [applyFeedAuthorityState (state\<lparr>f_state := ''EXPIRED'',
                       f_error := ''cached generation exceeded the hard freshness TTL'', f_indicators := count,
                       f_lastSuccessUTC := sn_generatedUTC snapshot\<rparr>) snapshot]\<rparr>)
            else (case verifyCachedAuthority (pf_verify P) (message P) (pf_sha P) (m_authority m) (m_clock m)
                         (li_verifyNow inp key) snapshot of
                Inl e \<Rightarrow> Inr (acc\<lparr>la_states := la_states acc @ [state\<lparr>f_state := ''UNAVAILABLE'',
                           f_error := ''cached generation rejected by signed feed authority: '' @ err_text e\<rparr>]\<rparr>)
              | Inr u \<Rightarrow>
                  let aggregate = la_aggregate acc + count in
                  if maximumAggregateIndicators < aggregate then Inl acc
                  else Inr (acc\<lparr>la_snapshots := AList.update key snapshot (la_snapshots acc),
                         la_ready := (if blocking then la_ready acc + 1 else la_ready acc),
                         la_states := la_states acc @ [applyFeedAuthorityState (state\<lparr>f_state := ''CACHED'',
                           f_indicators := count, f_lastSuccessUTC := sn_generatedUTC snapshot\<rparr>) snapshot],
                         la_aggregate := aggregate\<rparr>)))"

fun loadLoop :: "platform \<Rightarrow> manager \<Rightarrow> disk \<Rightarrow> load_input \<Rightarrow> load_acc \<Rightarrow> source list \<Rightarrow> load_acc + load_acc" where
  "loadLoop P m d inp acc [] = Inr acc"
| "loadLoop P m d inp acc (source # rest) =
     (case loadOne P m d inp acc source of Inl acc' \<Rightarrow> Inl acc' | Inr acc' \<Rightarrow> loadLoop P m d inp acc' rest)"

definition loadCached :: "platform \<Rightarrow> load_input \<Rightarrow> manager \<Rightarrow> disk \<Rightarrow> manager \<times> disk" where
  "loadCached P inp m d =
     (case loadLoop P m d inp \<lparr>la_snapshots = m_snapshots m, la_states = [], la_ready = 0, la_total = 0, la_aggregate = 0\<rparr> catalog of
        Inl acc \<Rightarrow>
          (m\<lparr>m_snapshots := [], m_status := zeroStatus\<lparr>st_state := ''FAILED'',
               st_error := ''cached threat intelligence boundary rejected'',
               st_blockingFeedsTotal := la_total acc, st_feeds := la_states acc\<rparr>\<rparr>, d)
      | Inr acc \<Rightarrow>
          let policy = m_protectedPolicy m; total = la_total acc; states = la_states acc;
              snapshots = la_snapshots acc; rollback = clockRollbackDetected (m_clock m) in
          (case compileEnforcement (pf_sha P) (m_protectedPrefixes m)
                  (buildIndex (pf_sha P) (applyEffectiveActionsToSnapshots snapshots (m_overrides m))) of
             Inl e \<Rightarrow>
               (m\<lparr>m_snapshots := [], m_status := zeroStatus\<lparr>st_state := ''FAILED'',
                    st_error := ''cached protected-network compilation rejected'', st_blockingFeedsTotal := total,
                    st_protectedPrefixes := int (length (pp_prefixes policy)),
                    st_protectionGeneration := pp_generationSHA256 policy, st_feeds := states\<rparr>\<rparr>, d)
           | Inr i \<Rightarrow>
               if maximumEnforcementIndicators < ix_blocking i
               then (m\<lparr>m_snapshots := [], m_status := zeroStatus\<lparr>st_state := ''FAILED'',
                    st_error := ''cached blocking threat intelligence boundary rejected'',
                    st_blockingFeedsTotal := total, st_feeds := states\<rparr>\<rparr>, d)
               else if ix_indicators i = 0
               then (m\<lparr>m_snapshots := snapshots, m_status := zeroStatus\<lparr>st_state := (if rollback then ''DEGRADED'' else ''INITIALIZING''),
                    st_error := (if rollback then ''wall-clock rollback detected; cached feed generations were withdrawn'' else []),
                    st_blockingFeedsTotal := total, st_feeds := states\<rparr>\<rparr>,
                     d\<lparr>d_enforcement := removeFile (li_removeOK inp) (d_enforcement d)\<rparr>)
               else let latest = latestSnapshotTime snapshots;
                        incomplete = la_ready acc \<noteq> total \<or> ix_blocking i = 0;
                        written = (if incomplete then Inr (d_enforcement d)
                          else writeEnforcementSnapshot (pf_sha P) (pf_enforcementSize P) (li_enforcementOK inp) latest (Some i)
                                 (la_ready acc) policy (d_enforcement d));
                        degraded = incomplete \<or> (case written of Inl e \<Rightarrow> True | Inr f \<Rightarrow> False) in
                 (m\<lparr>m_snapshots := snapshots, m_index := Some i,
                    m_status := zeroStatus\<lparr>st_lastSuccessUTC := latest,
                      st_nextSyncUTC := (if degraded then li_finish inp else latest + pollInterval (m_polling m)),
                      st_indicators := ix_indicators i, st_blockingIndicators := ix_blocking i,
                      st_blockingFeedsReady := la_ready acc, st_blockingFeedsTotal := total,
                      st_correlationIndicators := ix_correlation i, st_annotationIndicators := ix_annotation i,
                      st_generation := ix_generation i, st_enforcementGeneration := ix_enforcementGeneration i,
                      st_protectedPrefixes := int (length (pp_prefixes policy)),
                      st_protectionGeneration := pp_generationSHA256 policy,
                      st_state := (if degraded then ''DEGRADED'' else ''CACHED''),
                      st_error := (if incomplete then ''blocking coverage incomplete; immediate synchronization required''
                        else if degraded then ''cached enforcement snapshot could not be reconstructed'' else []),
                      st_feeds := states\<rparr>\<rparr>,
                  d\<lparr>d_enforcement := ignoreError written (d_enforcement d)\<rparr>)))"

record start_input =
  sr_absolute :: bool
  sr_mkdirOK :: bool
  sr_protectedKey :: "string outcome"
  sr_feedPolicyKey :: "string outcome"
  sr_keyring :: "feedAuthorityKeyring stored"
  sr_clockNow :: gotime
  sr_policyNow :: gotime
  sr_load :: load_input

definition NewManager :: "platform \<Rightarrow> start_input \<Rightarrow> disk \<Rightarrow> (manager \<times> disk) outcome" where
  "NewManager P inp d =
     (if \<not> sr_absolute inp then Inl (Err ''threat intelligence root must be absolute'')
      else if \<not> sr_mkdirOK inp then Inl (Err ''directory not created'')
      else bind_outcome (sr_protectedKey inp) (\<lambda>protectedKey.
        bind_outcome (sr_feedPolicyKey inp) (\<lambda>feedPolicyKey.
        bind_outcome (loadProtectedPolicy (pf_sha P) (pf_protectedMAC P) (d_protected d) protectedKey) (\<lambda>(policy, prefixes).
          let m0 = \<lparr>m_polling = \<lparr>pl_every = DefaultPollInterval, pl_source = pollingSourceDefault, pl_updatedUTC = 0, pl_loadError = []\<rparr>,
                m_policy = \<lparr>ov_overrides = [], ov_source = feedPolicySourceDefault, ov_updatedUTC = 0, ov_storeError = []\<rparr>,
                m_status = zeroStatus\<lparr>st_state := ''INITIALIZING'', st_protectedPrefixes := int (length (pp_prefixes policy)),
                  st_protectionGeneration := pp_generationSHA256 policy\<rparr>,
                m_snapshots = [], m_protectedPolicy = policy, m_protectedPrefixes = prefixes,
                m_protectedTrie = buildPrefixTrie prefixes, m_protectedKey = protectedKey, m_index = None,
                m_authority = loadFeedAuthority (pf_rawStd P) (pf_std P) (sr_keyring inp) (d_authorityState d)
                  \<lparr>au_keys = [], au_configured = False, au_error = [], au_state = zeroAuthorityState\<rparr>,
                m_clock = startClock (d_clock d) (sr_clockNow inp), m_feedPolicyKey = feedPolicyKey\<rparr>;
              m1 = m0\<lparr>m_polling := loadPollingConfig (d_polling d) (m_polling m0)\<rparr>;
              m2 = m1\<lparr>m_policy := loadFeedPolicy (pf_feedMAC P) (pf_hmac P) feedPolicyKey (sr_policyNow inp) (d_feedPolicy d)\<rparr> in
          Inr (loadCached P (sr_load inp) m2 d)))))"

section \<open>Protected networks\<close>

definition zeroProtectedPolicy :: protectedNetworkPolicy where
  "zeroProtectedPolicy = \<lparr>pp_updatedUTC = 0, pp_generationSHA256 = [], pp_prefixes = []\<rparr>"

record protect_input =
  pi_now :: gotime
  pi_policyOK :: bool
  pi_enforcementOK :: bool
  pi_restoreOK :: bool
  pi_statusNow :: gotime

text \<open>The enforcement snapshot of the two policy operations is written only when there is an indicator.\<close>

definition publishEnforcement ::
    "platform \<Rightarrow> bool \<Rightarrow> gotime \<Rightarrow> index \<Rightarrow> int \<Rightarrow> protectedNetworkPolicy \<Rightarrow> enforcementSnapshot stored \<Rightarrow> enforcementSnapshot stored outcome" where
  "publishEnforcement P ok t i ready policy f =
     (if 0 < ix_indicators i then writeEnforcementSnapshot (pf_sha P) (pf_enforcementSize P) ok t (Some i) ready policy f
      else Inr f)"

text \<open>Everything before the first write.\<close>

definition prepareProtectedPrefixes ::
    "platform \<Rightarrow> bool \<Rightarrow> string list \<Rightarrow> manager \<Rightarrow> (prefix list \<times> index \<times> int) outcome" where
  "prepareProtectedPrefixes P busy values m =
     (if busy then Inl ErrSyncInProgress
      else bind_outcome (normalizeProtectedPrefixes values) (\<lambda>(prefixes, strings).
        bind_outcome (compileEnforcement (pf_sha P) prefixes
            (buildIndex (pf_sha P) (applyEffectiveActionsToSnapshots (m_snapshots m) (m_overrides m)))) (\<lambda>i.
          let ready = snd (effectiveBlockingCoverage (m_snapshots m) (m_overrides m)) in
          if 0 < ix_indicators i \<and> (ix_blocking i = 0 \<or> ready = 0)
          then Inl (Err ''protected network policy would remove all blocking enforcement indicators'')
          else Inr (prefixes, i, ready))))"

definition SetProtectedPrefixes ::
    "platform \<Rightarrow> bool \<Rightarrow> protect_input \<Rightarrow> string list \<Rightarrow> manager \<Rightarrow> disk \<Rightarrow> manager \<times> disk \<times> protectedNetworkPolicy \<times> goerr option" where
  "SetProtectedPrefixes P busy inp values m d =
     (case prepareProtectedPrefixes P busy values m of
        Inl e \<Rightarrow> (m, d, zeroProtectedPolicy, Some e)
      | Inr (prefixes, i, ready) \<Rightarrow>
          (case writeProtectedPolicy (pf_sha P) (pf_protectedMAC P) (pf_protectedSize P) (pi_policyOK inp)
                  (d_protected d) (m_protectedKey m) prefixes (pi_now inp) of
             Inl e \<Rightarrow> (m, d, zeroProtectedPolicy, Some e)
           | Inr (persisted, pf) \<Rightarrow>
               (case publishEnforcement P (pi_enforcementOK inp) (pi_now inp) i ready persisted (d_enforcement d) of
                  Inl e \<Rightarrow>
                    let (pf', restored) = restoreProtectedPolicy (pf_sha P) (pf_protectedMAC P) (pf_protectedSize P)
                          (pi_restoreOK inp) pf (m_protectedKey m) (m_protectedPolicy m) (m_protectedPrefixes m) in
                    (markProtectionPolicyStatus (m_protectedPolicy m) (Some e) (pi_statusNow inp) m,
                     d\<lparr>d_protected := pf'\<rparr>, m_protectedPolicy m,
                     Some (if restored then e
                       else Err ''protected network enforcement snapshot failed and policy rollback failed''))
                | Inr ef \<Rightarrow>
                    let m1 = m\<lparr>m_protectedPolicy := persisted, m_protectedPrefixes := prefixes,
                               m_protectedTrie := buildPrefixTrie prefixes,
                               m_index := (if 0 < ix_indicators i then Some i else m_index m)\<rparr> in
                    (markProtectionPolicyStatus persisted None (pi_statusNow inp) m1,
                     d\<lparr>d_protected := pf, d_enforcement := ef\<rparr>, persisted, None))))"

section \<open>Feed policy\<close>

definition policyEntry :: "overrides \<Rightarrow> feedState list \<Rightarrow> source \<Rightarrow> feedPolicyEntry" where
  "policyEntry os feeds source =
     (let entry0 = \<lparr>en_feedKey = s_key source, en_name = s_name source, en_defaultAction = s_action source,
            en_configuredAction = s_action source, en_effectiveAction = s_action source, en_source = feedPolicySourceDefault,
            en_updatedUTC = 0, en_blocking = False, en_indicators = 0, en_ready = False, en_feedState = [], en_enforcementImpact = []\<rparr>;
          entry1 = (case map_of os (s_key source) of
              None \<Rightarrow> entry0
            | Some override \<Rightarrow> entry0\<lparr>en_configuredAction := po_action override, en_effectiveAction := po_action override,
                en_source := feedPolicyEntrySource, en_updatedUTC := po_updatedUTC override\<rparr>);
          entry2 = entry1\<lparr>en_blocking := en_effectiveAction entry1 = ActionBlock,
            en_enforcementImpact := feedEnforcementImpact (en_defaultAction entry1) (en_effectiveAction entry1)\<rparr> in
      case map_of (map (\<lambda>fs. (f_key fs, fs)) (rev feeds)) (s_key source) of
        None \<Rightarrow> entry2
      | Some fs \<Rightarrow> entry2\<lparr>en_indicators := f_indicators fs, en_feedState := f_state fs,
          en_ready := 0 < f_indicators fs \<and> readyState (f_state fs)\<rparr>)"

definition emptyPolicySnapshot :: feedPolicySnapshot where
  "emptyPolicySnapshot = \<lparr>pn_schemaVersion = FeedPolicySchemaVersion, pn_storeState = feedPolicySourceDefault, pn_storeError = [],
     pn_updatedUTC = 0, pn_generation = [], pn_enforcementGeneration = [], pn_indicators = 0, pn_blockingIndicators = 0,
     pn_blockingFeedsTotal = 0, pn_blockingFeedsReady = 0, pn_enforcementChanged = False,
     pn_limits = FeedPolicyLimitsForAPI, pn_entries = []\<rparr>"

definition FeedPolicy :: "manager option \<Rightarrow> gotime \<Rightarrow> feedPolicySnapshot" where
  "FeedPolicy mo wall =
     (case mo of
        None \<Rightarrow> emptyPolicySnapshot\<lparr>pn_storeState := feedPolicySourceInvalid,
                  pn_storeError := ''threat intelligence manager unavailable''\<rparr>
      | Some m \<Rightarrow>
          let layer = m_policy m;
              status = Status (Some m) wall;
              snapshot0 = emptyPolicySnapshot\<lparr>pn_storeState := ov_source layer, pn_storeError := ov_storeError layer,
                pn_updatedUTC := ov_updatedUTC layer\<rparr>;
              snapshot1 = (case m_index m of
                  None \<Rightarrow> snapshot0
                | Some i \<Rightarrow> snapshot0\<lparr>pn_generation := ix_generation i, pn_indicators := ix_indicators i,
                    pn_blockingIndicators := ix_blocking i,
                    pn_enforcementGeneration := (if 0 < ix_blocking i then ix_enforcementGeneration i else [])\<rparr>);
              entries = map (policyEntry (ov_overrides layer) (st_feeds status)) catalog in
          snapshot1\<lparr>pn_entries := entries,
            pn_enforcementChanged := list_ex (\<lambda>e. 0 < en_indicators e \<and>
              (en_defaultAction e = ActionBlock) \<noteq> (en_effectiveAction e = ActionBlock)) entries,
            pn_blockingFeedsTotal := int (length (filter (\<lambda>e. en_effectiveAction e = ActionBlock) entries)),
            pn_blockingFeedsReady := int (length (filter (\<lambda>e. en_effectiveAction e = ActionBlock \<and> en_ready e) entries))\<rparr>)"

definition applyFeedPolicyToStatus :: "index \<Rightarrow> int \<Rightarrow> int \<Rightarrow> manager \<Rightarrow> manager" where
  "applyFeedPolicyToStatus i blockingTotal blockingReady m =
     m\<lparr>m_status := (m_status m)\<lparr>st_indicators := ix_indicators i, st_blockingIndicators := ix_blocking i,
        st_correlationIndicators := ix_correlation i, st_annotationIndicators := ix_annotation i,
        st_generation := ix_generation i, st_enforcementGeneration := ix_enforcementGeneration i,
        st_blockingFeedsTotal := blockingTotal, st_blockingFeedsReady := blockingReady\<rparr>\<rparr>"

text \<open>
  The rollback of \<open>SetFeedActions\<close>: the previous bytes are written back when they could be read and are
  within the size limit; otherwise the file is removed. Both errors are ignored.
\<close>

definition rollbackStore :: "bool \<Rightarrow> feedPolicyState stored \<Rightarrow> feedPolicyState stored \<Rightarrow> feedPolicyState stored" where
  "rollbackStore ok previous f =
     (case previous of
        Stored bytes regular content \<Rightarrow>
          if int bytes \<le> maximumFeedPolicyBytes then (if ok then Stored bytes True content else f)
          else removeFile ok f
      | Absent \<Rightarrow> removeFile ok f
      | Unreadable \<Rightarrow> removeFile ok f)"

record action_input =
  ai_updatedUTC :: gotime
  ai_storeOK :: bool
  ai_enforcementOK :: bool
  ai_rollbackOK :: bool
  ai_statusNow :: gotime

text \<open>Everything before the first write: the validated overrides, the index they give, the counters, the store.\<close>

definition prepareFeedActions ::
    "platform \<Rightarrow> bool \<Rightarrow> action_input \<Rightarrow> feedActionChange list \<Rightarrow> string \<Rightarrow> manager \<Rightarrow>
     (overrides \<times> index \<times> int \<times> int \<times> nat \<times> feedPolicyState) outcome" where
  "prepareFeedActions P busy inp changes reason m =
     (if changes = [] \<or> length catalog < length changes \<or> maximumFeedPolicyOverrides < int (length changes)
      then Inl (Err ''feed policy change count rejected'')
      else if reason \<noteq> [] \<and> \<not> validReasonDigest reason then Inl (Err ''feed policy reason digest rejected'')
      else if busy then Inl ErrSyncInProgress
      else bind_outcome (applyChanges reason (ai_updatedUTC inp) [] (m_overrides m) changes) (\<lambda>next.
        bind_outcome (compileEnforcement (pf_sha P) (m_protectedPrefixes m)
            (buildIndex (pf_sha P) (applyEffectiveActionsToSnapshots (m_snapshots m) next))) (\<lambda>i.
          let (total, ready) = effectiveBlockingCoverage (m_snapshots m) next in
          if maximumEnforcementIndicators < ix_blocking i
          then Inl (Err ''blocking threat intelligence boundary exceeded'')
          else if 0 < ix_indicators i \<and> ix_blocking i = 0
          then Inl (Err ''feed policy would remove all blocking enforcement indicators'')
          else if 0 < ix_indicators i \<and> (total \<le> 0 \<or> ready \<noteq> total)
          then Inl (Err ''feed policy requires validated indicators for all blocking feeds'')
          else bind_outcome (marshalFeedPolicyState (pf_feedMAC P) (pf_hmac P) (pf_feedPolicySize P) next
                 (ai_updatedUTC inp) (m_feedPolicyKey m)) (\<lambda>(bytes, payload).
               Inr (next, i, total, ready, bytes, payload)))))"

definition SetFeedActions ::
    "platform \<Rightarrow> bool \<Rightarrow> action_input \<Rightarrow> feedActionChange list \<Rightarrow> string \<Rightarrow> manager \<Rightarrow> disk \<Rightarrow>
     manager \<times> disk \<times> feedPolicySnapshot outcome" where
  "SetFeedActions P busy inp changes reason m d =
     (case prepareFeedActions P busy inp changes reason m of
        Inl e \<Rightarrow> (m, d, Inl e)
      | Inr (next, i, blockingTotal, blockingReady, bytes, payload) \<Rightarrow>
          (case atomicWrite (ai_storeOK inp) bytes payload (d_feedPolicy d) of
             Inl e \<Rightarrow> (m, d, Inl (Err ''feed policy persistence''))
           | Inr f \<Rightarrow>
               (case publishEnforcement P (ai_enforcementOK inp) (ai_updatedUTC inp) i blockingReady (m_protectedPolicy m) (d_enforcement d) of
                  Inl e \<Rightarrow> (m, d\<lparr>d_feedPolicy := rollbackStore (ai_rollbackOK inp) (d_feedPolicy d) f\<rparr>,
                            Inl (Err ''feed policy enforcement snapshot''))
                | Inr ef \<Rightarrow>
                    let m1 = applyFeedPolicyToStatus i blockingTotal blockingReady
                          (m\<lparr>m_policy := \<lparr>ov_overrides = next, ov_source = feedPolicySourcePersisted,
                                ov_updatedUTC = ai_updatedUTC inp, ov_storeError = []\<rparr>, m_index := Some i\<rparr>) in
                    (m1, d\<lparr>d_feedPolicy := f, d_enforcement := ef\<rparr>, Inr (FeedPolicy (Some m1) (ai_statusNow inp))))))"

section \<open>Polling\<close>

record polling_config =
  pc_intervalSeconds :: int
  pc_defaultIntervalSeconds :: int
  pc_minIntervalSeconds :: int
  pc_maxIntervalSeconds :: int
  pc_source :: string
  pc_updatedUTC :: gotime
  pc_lastAttemptUTC :: gotime
  pc_lastSyncUTC :: gotime
  pc_nextPollUTC :: gotime
  pc_error :: string

definition PollingConfig :: "manager option \<Rightarrow> gotime \<Rightarrow> polling_config" where
  "PollingConfig mo wall =
     (let (minimum, maximum) = pollIntervalRange in
      case mo of
        None \<Rightarrow> \<lparr>pc_intervalSeconds = DefaultPollInterval div second, pc_defaultIntervalSeconds = DefaultPollInterval div second,
                 pc_minIntervalSeconds = minimum, pc_maxIntervalSeconds = maximum, pc_source = pollingSourceDefault,
                 pc_updatedUTC = 0, pc_lastAttemptUTC = 0, pc_lastSyncUTC = 0, pc_nextPollUTC = 0, pc_error = []\<rparr>
      | Some m \<Rightarrow>
          let status = Status (Some m) wall; (interval, source, updated, loadError) = pollingFields (m_polling m) in
          \<lparr>pc_intervalSeconds = st_pollingIntervalSeconds status, pc_defaultIntervalSeconds = DefaultPollInterval div second,
           pc_minIntervalSeconds = minimum, pc_maxIntervalSeconds = maximum, pc_source = st_pollingIntervalSource status,
           pc_updatedUTC = st_pollingUpdatedUTC status, pc_lastAttemptUTC = st_lastAttemptUTC status,
           pc_lastSyncUTC = st_lastSuccessUTC status, pc_nextPollUTC = st_nextSyncUTC status, pc_error = loadError\<rparr>)"

record poll_input =
  qi_now :: gotime
  qi_writeOK :: bool
  qi_statusNow :: gotime

definition SetPollingIntervalSeconds ::
    "platform \<Rightarrow> poll_input \<Rightarrow> int \<Rightarrow> manager \<Rightarrow> disk \<Rightarrow> manager \<times> disk \<times> polling_config \<times> goerr option" where
  "SetPollingIntervalSeconds P inp seconds m d =
     (case validatePollIntervalSeconds seconds of
        Inl e \<Rightarrow> (m, d, PollingConfig (Some m) (qi_statusNow inp), Some e)
      | Inr u \<Rightarrow>
          (case persistPolling (pf_pollingSize P) (qi_writeOK inp) seconds (qi_now inp) (d_polling d) of
             Inl e \<Rightarrow> (m, d, PollingConfig (Some m) (qi_statusNow inp), Some e)
           | Inr f \<Rightarrow>
               let st = m_status m;
                   next = (if st_nextSyncUTC st = 0 then 0
                     else if st_lastAttemptUTC st \<noteq> 0 then st_lastAttemptUTC st + seconds * second
                     else if st_lastSuccessUTC st \<noteq> 0 then st_lastSuccessUTC st + seconds * second
                     else st_nextSyncUTC st);
                   m1 = m\<lparr>m_polling := activatePolling seconds (qi_now inp), m_status := st\<lparr>st_nextSyncUTC := next\<rparr>\<rparr> in
               (m1, d\<lparr>d_polling := f\<rparr>, PollingConfig (Some m1) (qi_statusNow inp), None)))"

section \<open>Outgoing connections\<close>

text \<open>
  \<open>hardenedDialContext\<close>: the host and port of the endpoint (None when they are rejected), the addresses
  the resolver returns (None when it fails), the network, and which addresses accept a connection.
  The result is the address of the connection.
\<close>

fun addr_As16 :: "addr \<Rightarrow> 128 word" where
  "addr_As16 AddrZero = 0"
| "addr_As16 (Addr4 w) = 0xFFFF00000000 + ucast w"
| "addr_As16 (Addr6 w z) = w"

definition dialAddress :: "addr \<Rightarrow> addr" where
  "dialAddress resolved = Unmap (Addr6 (addr_As16 resolved) [])"

fun dialLoop :: "string \<Rightarrow> (addr \<Rightarrow> bool) \<Rightarrow> bool \<Rightarrow> addr list \<Rightarrow> addr outcome" where
  "dialLoop network dial failed [] =
     (if failed then Inl (Err ''threat feed connection failed'')
      else Inl (Err ''threat feed DNS resolved only to rejected address space''))"
| "dialLoop network dial failed (resolved # rest) =
     (let a = dialAddress resolved in
      if \<not> validFetchAddress a then dialLoop network dial failed rest
      else if network = ''tcp4'' \<and> \<not> Is4 a then dialLoop network dial failed rest
      else if network = ''tcp6'' \<and> \<not> Is6 a then dialLoop network dial failed rest
      else if dial a then Inr a else dialLoop network dial True rest)"

definition hardenedDialContext ::
    "string \<Rightarrow> (string \<times> string) option \<Rightarrow> (string \<Rightarrow> addr list option) \<Rightarrow> (addr \<Rightarrow> bool) \<Rightarrow> addr outcome" where
  "hardenedDialContext network hostPort resolve dial =
     (case hostPort of
        None \<Rightarrow> Inl (Err ''threat feed endpoint rejected'')
      | Some (host, port) \<Rightarrow>
          if host = [] \<or> port = [] then Inl (Err ''threat feed endpoint rejected'')
          else (case resolve host of
              None \<Rightarrow> Inl (Err ''threat feed DNS resolution failed'')
            | Some addresses \<Rightarrow> dialLoop network dial False addresses))"

lemma Contains_family: "Contains r a \<Longrightarrow> Is4 (ip r) = Is4 a"
  by (cases "ip r"; cases a) (auto simp: Contains_def)

lemma Unmap_plain: "plain a \<Longrightarrow> Unmap a = a"
  by (cases a) (auto simp: plain_def)

lemma overlap_host:
  assumes "plain a" and "canonical r" and "Contains r a"
  shows "prefixesOverlap (PrefixFrom a (int (BitLen a))) r"
proof -
  have "ip (PrefixFrom a (int (BitLen a))) = a" "PrefixIsValid (PrefixFrom a (int (BitLen a)))"
    using assms(1) by (cases a; simp add: PrefixFrom_def PrefixIsValid_def plain_def)+
  moreover have "Unmap (ip r) = ip r" "PrefixIsValid r" using assms(2) Unmap_plain by (auto simp: canonical_def)
  ultimately show ?thesis using assms Contains_family [OF assms(3)] Unmap_plain by (simp add: prefixesOverlap_def)
qed

lemma validFetchAddress_sound:
  assumes "validFetchAddress a" and "plain a"
  shows "public_unicast a \<and> list_all (\<lambda>r. \<not> Contains r a) protectedThreatRanges"
  using assms overlap_host [OF assms(2)] protectedThreatRanges_canonical
  by (auto simp: validFetchAddress_def Let_def list_ex_iff list_all_iff Unmap_plain split: if_splits)

lemma plain_dialAddress: "plain (dialAddress r)"
  by (simp add: plain_def dialAddress_def)

lemma dialLoop_sound:
  "dialLoop network dial failed as = Inr a \<Longrightarrow> validFetchAddress a \<and> plain a \<and> dial a \<and>
     (network = ''tcp4'' \<longrightarrow> Is4 a) \<and> (network = ''tcp6'' \<longrightarrow> Is6 a) \<and> a \<in> dialAddress ` set as"
  by (induction as arbitrary: failed) (auto simp: Let_def plain_dialAddress split: if_splits)

text \<open>
  C37 [dial_only_public]: the service never connects to anything but a public unicast address outside
  every reserved range, whatever the DNS answers are; the address is one of the answers and of the
  requested family.
\<close>

theorem dial_only_public:
  assumes "hardenedDialContext network hostPort resolve dial = Inr a"
  shows "public_unicast a \<and> list_all (\<lambda>r. \<not> Contains r a) protectedThreatRanges \<and>
    (network = ''tcp4'' \<longrightarrow> Is4 a) \<and> (network = ''tcp6'' \<longrightarrow> Is6 a) \<and>
    (\<exists>host answers. resolve host = Some answers \<and> a \<in> dialAddress ` set answers)"
proof -
  obtain host failed as where "dialLoop network dial failed as = Inr a" "resolve host = Some as"
    using assms by (auto simp: hardenedDialContext_def split: option.splits if_splits)
  with dialLoop_sound [OF this(1)] show ?thesis using validFetchAddress_sound by blast
qed

theorem dial_only_public_witness: "public_unicast (Addr4 0x08080808)"
proof -
  have "hardenedDialContext ''tcp'' (Some (''h'', ''443'')) (\<lambda>h. Some [Addr4 0x7F000001, Addr4 0x08080808]) (\<lambda>a. True) = Inr (Addr4 0x08080808)"
    by code_simp
  from dial_only_public [OF this] show ?thesis by blast
qed

end
