(* ===== verification/ManagerSafety.thy ===== *)
theory ManagerSafety
  imports ThreatManager
begin

text \<open>
  The invariant of the threat intelligence manager and its consequences. \<open>manager_ok\<close> holds for what
  \<open>NewManager\<close> returns and is kept by every operation, whatever the outside world answers; the step
  relation \<open>steps\<close> then carries it to every state the service can reach.
\<close>

section \<open>The invariant\<close>

definition snapshots_ok :: "(string \<Rightarrow> string) \<Rightarrow> snapshots \<Rightarrow> bool" where
  "snapshots_ok sha sns \<longleftrightarrow> distinct (map fst sns) \<and>
     list_all (\<lambda>(k, sn). case sourceByKey k of None \<Rightarrow> False | Some src \<Rightarrow> snapshot_ok sha src sn) sns"

definition protection_ok :: "(string \<Rightarrow> string) \<Rightarrow> manager \<Rightarrow> bool" where
  "protection_ok sha m \<longleftrightarrow> list_all protected_ok (m_protectedPrefixes m) \<and>
     m_protectedTrie m = buildPrefixTrie (m_protectedPrefixes m) \<and>
     pp_prefixes (m_protectedPolicy m) = prefixStrings (m_protectedPrefixes m) \<and>
     pp_generationSHA256 (m_protectedPolicy m) = protectedPolicyGeneration sha (pp_prefixes (m_protectedPolicy m))"

text \<open>The index that the current generations, overrides and protected networks stand for.\<close>

definition effectiveSnapshots :: "manager \<Rightarrow> snapshots" where
  "effectiveSnapshots m = applyEffectiveActionsToSnapshots (m_snapshots m) (m_overrides m)"

definition compiledIndex :: "(string \<Rightarrow> string) \<Rightarrow> manager \<Rightarrow> index outcome" where
  "compiledIndex sha m = compileEnforcement sha (m_protectedPrefixes m) (buildIndex sha (effectiveSnapshots m))"

definition index_ok :: "(string \<Rightarrow> string) \<Rightarrow> manager \<Rightarrow> bool" where
  "index_ok sha m \<longleftrightarrow> (case m_index m of
     None \<Rightarrow> ix_indicators (buildIndex sha (effectiveSnapshots m)) = 0
   | Some i \<Rightarrow> compiledIndex sha m = Inr i)"

definition manager_ok :: "(string \<Rightarrow> string) \<Rightarrow> manager \<Rightarrow> bool" where
  "manager_ok sha m \<longleftrightarrow> polling_ok (m_polling m) \<and> overrides_ok (m_overrides m) \<and> snapshots_ok sha (m_snapshots m) \<and>
     protection_ok sha m \<and> index_ok sha m"

lemmas manager_defs = manager_ok_def protection_ok_def index_ok_def compiledIndex_def effectiveSnapshots_def

lemma manager_ok_status [simp]:
  "manager_ok sha (m\<lparr>m_status := st\<rparr>) = manager_ok sha m"
  "manager_ok sha (m\<lparr>m_clock := c\<rparr>) = manager_ok sha m"
  "manager_ok sha (m\<lparr>m_authority := au\<rparr>) = manager_ok sha m"
  "manager_ok sha (fail t m) = manager_ok sha m"
  "manager_ok sha (markProtectionPolicyStatus p e t m) = manager_ok sha m"
  "manager_ok sha (applyFeedPolicyToStatus i a b m) = manager_ok sha m"
  by (simp_all add: manager_defs fail_def markProtectionPolicyStatus_def applyFeedPolicyToStatus_def Let_def
      cong: option.case_cong)

lemma snapshots_okI:
  assumes "distinct (map fst sns)" and "\<And>k sn. (k, sn) \<in> set sns \<Longrightarrow> \<exists>src. sourceByKey k = Some src \<and> snapshot_ok sha src sn"
  shows "snapshots_ok sha sns"
  using assms by (fastforce simp: snapshots_ok_def list_all_iff split: option.splits)

lemma snapshots_okD:
  "snapshots_ok sha sns \<Longrightarrow> (k, sn) \<in> set sns \<Longrightarrow> \<exists>src. sourceByKey k = Some src \<and> snapshot_ok sha src sn"
  by (fastforce simp: snapshots_ok_def list_all_iff split: option.splits)

lemma snapshots_ok_Nil [simp]: "snapshots_ok sha []"
  by (simp add: snapshots_ok_def)

lemma snapshots_ok_filter: "snapshots_ok sha sns \<Longrightarrow> snapshots_ok sha (filter p sns)"
  by (simp add: snapshots_ok_def list_all_iff distinct_map_filter)

lemma snapshots_ok_update:
  "snapshots_ok sha sns \<Longrightarrow> sourceByKey k = Some src \<Longrightarrow> snapshot_ok sha src sn \<Longrightarrow> snapshots_ok sha (AList.update k sn sns)"
  by (auto simp: snapshots_ok_def distinct_update list_all_iff dest!: set_alist_update)

section \<open>Downloads\<close>

lemma fetchSource_parsed:
  assumes "fetchSource P src answer = Inr (ps, attr)"
  shows "\<exists>body. parseSource (pf_unmarshal P) src body = Inr (ps, attr) \<and> int (length body) \<le> fetchLimit src"
  using assms by (auto simp: fetchSource_def Let_def not_less split: fetch_answer.splits if_splits sum.splits)

text \<open>What a worker's accepted generation satisfies.\<close>

lemma syncWorker_accepted:
  assumes "syncWorker P m attempt cand src w f = (Inr sn, f')"
  shows "snapshot_ok (pf_sha P) src sn" and "sn_generatedUTC sn = attempt"
    and "map_of cand (s_key src) = Some old \<Longrightarrow> \<not> suspiciousShrink (int (length (sn_indicators old))) (int (length (sn_indicators sn)))"
    and "verifyFetchedAuthority (pf_verify P) (message P) (pf_sha P) (m_authority m) (m_clock m) (wi_now w) (wi_document w) src
      (sn_indicators sn) (map_of cand (s_key src)) = Inr (sn_authority sn)"
    and "\<exists>n. f' = Stored n True (Decoded sn)" and "\<not> wi_cancelled w"
proof -
  obtain ps attr doc where run: "fetchSource P src (wi_answer w) = Inr (ps, attr)"
    and shrink: "\<not> (case map_of cand (s_key src) of None \<Rightarrow> False | Some p \<Rightarrow> suspiciousShrink (int (length (sn_indicators p))) (int (length ps)))"
    and doc: "verifyFetchedAuthority (pf_verify P) (message P) (pf_sha P) (m_authority m) (m_clock m) (wi_now w) (wi_document w) src
      (sort (map PrefixString ps)) (map_of cand (s_key src)) = Inr doc"
    and sn: "sn = \<lparr>sn_schemaVersion = SchemaVersion, sn_key = s_key src, sn_generatedUTC = attempt, sn_action = s_action src,
      sn_attribution = attr, sn_generationSHA256 = digestIndicators (pf_sha P) (s_key src) (s_action src) (sort (map PrefixString ps)),
      sn_indicators = sort (map PrefixString ps), sn_authority = doc\<rparr>"
    and wr: "writeSourceSnapshot (pf_sourceSize P) (wi_writeOK w) sn f = Inr f'" and nc: "\<not> wi_cancelled w"
    using assms by (auto simp: syncWorker_def Let_def split: if_splits sum.splits prod.splits)
  obtain body where "parseSource (pf_unmarshal P) src body = Inr (ps, attr)" using fetchSource_parsed [OF run] by blast
  note ps = parseSource_feed [OF this]
  have l: "length (sort (map PrefixString ps)) = length ps" by simp
  have ne: "sort (map PrefixString ps) \<noteq> []" using ps l by (metis length_0_conv)
  have "list_all indicator_ok (sort (map PrefixString ps))" using ps indicators_ok_Strings [of ps] by (simp add: list_all_iff)
  with ne l show "snapshot_ok (pf_sha P) src sn" using ps sn by (simp add: snapshot_ok_def)
  show "sn_generatedUTC sn = attempt" using sn by simp
  show "\<not> suspiciousShrink (int (length (sn_indicators old))) (int (length (sn_indicators sn)))" if "map_of cand (s_key src) = Some old"
    using shrink that sn l by simp
  show "verifyFetchedAuthority (pf_verify P) (message P) (pf_sha P) (m_authority m) (m_clock m) (wi_now w) (wi_document w) src
      (sn_indicators sn) (map_of cand (s_key src)) = Inr (sn_authority sn)" using doc sn by simp
  show "\<exists>n. f' = Stored n True (Decoded sn)" using wr by (auto simp: writeSourceSnapshot_def atomicWrite_def split: option.splits if_splits)
  show "\<not> wi_cancelled w" by (rule nc)
qed

lemma runWorkers_results:
  assumes "runWorkers P m inp cand d = (results, files)" and "(src, r) \<in> set results"
  shows "src \<in> set catalog \<and> (\<exists>f'. syncWorker P m (si_attempt inp) cand src (si_worker inp (s_key src)) (d_sources d (s_key src)) = (r, f'))"
  using assms by (auto simp: runWorkers_def Let_def prod_eq_iff)

lemma collectResults_Cons:
  assumes "collectResults m t cand acc ((src, r) # rest) = Inr acc'"
  obtains acc1 where "collectResults m t cand acc1 rest = Inr acc'"
    and "sa_candidate acc1 = (case r of Inl e \<Rightarrow> sa_candidate acc | Inr sn \<Rightarrow> AList.update (s_key src) sn (sa_candidate acc))"
    and "sa_states acc1 = sa_states acc @ [feedResult m t cand src r]"
    and "sa_fresh acc1 = (case r of Inl e \<Rightarrow> sa_fresh acc | Inr sn \<Rightarrow> sa_fresh acc + 1)"
    and "sa_ready acc1 = (if effectiveAction (m_overrides m) (s_key src) = ActionBlock \<and> 0 < f_indicators (feedResult m t cand src r) \<and>
      (f_state (feedResult m t cand src r) = ''CURRENT'' \<or> f_state (feedResult m t cand src r) = ''STALE'') then sa_ready acc + 1 else sa_ready acc)"
    and "sa_aggregate acc1 = sa_aggregate acc + f_indicators (feedResult m t cand src r)"
    and "sa_aggregate acc1 \<le> maximumAggregateIndicators"
  using assms that by (simp add: Let_def not_less split: if_splits)

lemma collectResults_all:
  assumes "collectResults m t cand acc rs = Inr acc'" and "\<forall>x\<in>set (sa_candidate acc). Q x"
    and "\<forall>(src, r)\<in>set rs. \<forall>sn. r = Inr sn \<longrightarrow> Q (s_key src, sn)"
  shows "\<forall>x\<in>set (sa_candidate acc'). Q x"
  using assms
proof (induction rs arbitrary: acc)
  case (Cons x rest)
  obtain src r where x: "x = (src, r)" by (cases x)
  obtain acc1 where a: "collectResults m t cand acc1 rest = Inr acc'"
    "sa_candidate acc1 = (case r of Inl e \<Rightarrow> sa_candidate acc | Inr sn \<Rightarrow> AList.update (s_key src) sn (sa_candidate acc))"
    using collectResults_Cons Cons.prems(1) x by metis
  have "\<forall>x\<in>set (sa_candidate acc1). Q x"
    using a(2) Cons.prems(2,3) x by (auto split: sum.splits dest!: set_alist_update)
  then show ?case using Cons.IH a(1) Cons.prems(3) by simp
qed simp

lemma collectResults_distinct:
  assumes "collectResults m t cand acc rs = Inr acc'" and "distinct (map fst (sa_candidate acc))"
  shows "distinct (map fst (sa_candidate acc'))"
  using assms
proof (induction rs arbitrary: acc)
  case (Cons x rest)
  obtain src r where x: "x = (src, r)" by (cases x)
  obtain acc1 where a: "collectResults m t cand acc1 rest = Inr acc'"
    "sa_candidate acc1 = (case r of Inl e \<Rightarrow> sa_candidate acc | Inr sn \<Rightarrow> AList.update (s_key src) sn (sa_candidate acc))"
    using collectResults_Cons Cons.prems(1) x by metis
  then have "distinct (map fst (sa_candidate acc1))" using Cons.prems(2) by (auto simp: distinct_update split: sum.splits)
  then show ?case using Cons.IH a(1) by simp
qed simp

section \<open>An index without indicators\<close>

lemma ib_indicators_foldl: "ib_indicators (foldl indexStep st es) = ib_indicators st + int (length es)"
  by (induction es arbitrary: st) (auto simp: indexStep_def Let_def)

lemma ix_indicators_eq: "ix_indicators (buildIndex sha sns) = int (length (sortedEntries (collectEntries sns)))"
  by (auto simp: buildIndex_def buildIndex_raw_def compileEnforcement_def bind_outcome_def Let_def ib_indicators_foldl split: sum.split)

lemma compile_empty:
  assumes "\<forall>p\<in>set protected. prefix_ok p"
  shows "compileEnforcementIndicators [] protected = Inr []"
proof -
  obtain qs where "compactPrefixUnion protected = Inr qs" using compactPrefixUnion_spec [OF assms] by blast
  moreover have "compactPrefixUnion [] = Inr []" by code_simp
  ultimately show ?thesis
    by (simp add: compileEnforcementIndicators_def prefixStrings_def maximumEnforcementIndicators_def)
qed

lemma compileEnforcement_empty:
  assumes "ix_indicators (buildIndex sha sns) = 0" and "\<forall>p\<in>set ps. prefix_ok p" and "\<forall>p\<in>set qs. prefix_ok p"
  shows "compileEnforcement sha ps (buildIndex sha sns) = compileEnforcement sha qs (buildIndex sha sns)"
proof -
  have "ix_rawBlockIndicators (buildIndex sha sns) = []" using assms(1) by (simp add: ix_indicators_eq rawBlockIndicators_eq)
  then show ?thesis using compile_empty assms(2,3) by (simp add: compileEnforcement_def)
qed

lemma compileEnforcement_indicators:
  "compileEnforcement sha ps i = Inr i' \<Longrightarrow> ix_indicators i' = ix_indicators i"
  by (auto simp: compileEnforcement_def bind_outcome_eq_Inr)

lemma protection_prefix_ok: "protection_ok sha m \<Longrightarrow> \<forall>p\<in>set (m_protectedPrefixes m). prefix_ok p"
  using protected_ok_prefix by (auto simp: protection_ok_def list_all_iff)

section \<open>The operations keep the invariant\<close>

lemma Sync_cases:
  assumes "Sync P nilContext busy inp m d = (m', d', r)"
  obtains (refused) e where "r = Inl e" and "m' = m" and "d' = d"
  | (rollback) e c where "r = Inl e" and "observeClock (m_clock m) (si_attempt inp) = (c, True)"
      and "m' = fail (si_attempt inp) (m\<lparr>m_clock := c\<rparr>)"
      and "d' = d\<lparr>d_enforcement := removeFile (si_removeOK inp) (d_enforcement d)\<rparr>"
  | (commit) c results files au af where "observeClock (m_clock m) (si_attempt inp) = (c, False)"
      and "runWorkers P (m\<lparr>m_clock := c\<rparr>) inp (freshSnapshots (m\<lparr>m_clock := c\<rparr>) (si_attempt inp)) d = (results, files)"
      and "acceptResults P inp results (m_authority m, d_authorityState d) = (au, af)"
      and "syncCommit P inp (freshSnapshots (m\<lparr>m_clock := c\<rparr>) (si_attempt inp)) results (m\<lparr>m_clock := c, m_authority := au\<rparr>)
        (d\<lparr>d_sources := files, d_authorityState := af\<rparr>) = (m', d', r)"
proof (cases "nilContext \<or> busy")
  case True
  then show ?thesis using assms refused by (auto simp: Sync_def split: if_splits)
next
  case False
  obtain c rb where c: "observeClock (m_clock m) (si_attempt inp) = (c, rb)" by fastforce
  show ?thesis
  proof (cases rb)
    case True
    then show ?thesis using assms rollback c False by (auto simp: Sync_def Let_def)
  next
    case no: False
    obtain results files where w: "runWorkers P (m\<lparr>m_clock := c\<rparr>) inp (freshSnapshots (m\<lparr>m_clock := c\<rparr>) (si_attempt inp)) d = (results, files)"
      by fastforce
    obtain au af where a: "acceptResults P inp results (m_authority m, d_authorityState d) = (au, af)" by fastforce
    show ?thesis using assms commit [OF _ w a] c no False w a by (simp add: Sync_def Let_def)
  qed
qed

lemma syncCommit_cases:
  assumes "syncCommit P inp cand results m d = (m', d', r)"
  obtains (failed) e where "r = Inl e" and "m' = fail (si_attempt inp) m"
      and "d' = d \<or> d' = d\<lparr>d_enforcement := removeFile (si_removeOK inp) (d_enforcement d)\<rparr>"
  | (success) acc i f where "r = Inr ()"
      and "collectResults m (si_attempt inp) cand \<lparr>sa_candidate = cand, sa_states = [], sa_fresh = 0, sa_ready = 0, sa_aggregate = 0\<rparr> results = Inr acc"
      and "compileEnforcement (pf_sha P) (m_protectedPrefixes m)
        (buildIndex (pf_sha P) (applyEffectiveActionsToSnapshots (sa_candidate acc) (m_overrides m))) = Inr i"
      and "sa_fresh acc \<noteq> 0"
      and "writeEnforcementSnapshot (pf_sha P) (pf_enforcementSize P) (si_enforcementOK inp) (si_attempt inp) (Some i)
        (sa_ready acc) (m_protectedPolicy m) (d_enforcement d) = Inr f"
      and "m' = m\<lparr>m_snapshots := sa_candidate acc, m_index := Some i, m_status := syncStatus m (si_attempt inp) i acc\<rparr>"
      and "d' = d\<lparr>d_enforcement := f, d_clock := persistFeedClock (pf_clockSize P) (si_clockOK inp) (si_attempt inp) (d_clock d)\<rparr>"
proof (cases "collectResults m (si_attempt inp) cand \<lparr>sa_candidate = cand, sa_states = [], sa_fresh = 0, sa_ready = 0, sa_aggregate = 0\<rparr> results")
  case (Inl e)
  then show ?thesis using assms by (intro failed [of e]) (auto simp: syncCommit_def Let_def)
next
  case (Inr acc)
  note acc = this
  show ?thesis
  proof (cases "compileEnforcement (pf_sha P) (m_protectedPrefixes m)
      (buildIndex (pf_sha P) (applyEffectiveActionsToSnapshots (sa_candidate acc) (m_overrides m)))")
    case (Inl e)
    then show ?thesis using assms acc by (intro failed [of e]) (auto simp: syncCommit_def Let_def)
  next
    case (Inr i)
    note i = this
    show ?thesis
    proof (cases "maximumEnforcementIndicators < ix_blocking i \<or> ix_blocking i = 0 \<or> sa_fresh acc = 0")
      case True
      then obtain e where "r = Inl e \<and> m' = fail (si_attempt inp) m \<and>
          (d' = d \<or> d' = d\<lparr>d_enforcement := removeFile (si_removeOK inp) (d_enforcement d)\<rparr>)"
        using assms acc i by (auto simp: syncCommit_def Let_def split: if_splits)
      then show ?thesis using failed by blast
    next
      case False
      show ?thesis
      proof (cases "writeEnforcementSnapshot (pf_sha P) (pf_enforcementSize P) (si_enforcementOK inp) (si_attempt inp) (Some i)
          (sa_ready acc) (m_protectedPolicy m) (d_enforcement d)")
        case (Inl e)
        then show ?thesis using assms acc i False by (intro failed [of e]) (auto simp: syncCommit_def Let_def)
      next
        case (Inr f)
        then show ?thesis using assms acc i False by (intro success [of acc i f]) (auto simp: syncCommit_def Let_def)
      qed
    qed
  qed
qed

lemma freshSnapshots_ok: "snapshots_ok sha (m_snapshots m) \<Longrightarrow> snapshots_ok sha (freshSnapshots m t)"
  by (simp add: freshSnapshots_def snapshots_ok_filter)

lemma results_ok:
  assumes "runWorkers P m inp cand d = (results, files)" and "(src, Inr sn) \<in> set results"
  shows "sourceByKey (s_key src) = Some src \<and> snapshot_ok (pf_sha P) src sn \<and> sn_generatedUTC sn = si_attempt inp"
proof -
  obtain f' where "src \<in> set catalog"
    "syncWorker P m (si_attempt inp) cand src (si_worker inp (s_key src)) (d_sources d (s_key src)) = (Inr sn, f')"
    using runWorkers_results [OF assms] by blast
  then show ?thesis using syncWorker_accepted(1,2) by (simp add: sourceByKey_iff)
qed

lemma collected_ok:
  assumes "runWorkers P m0 inp cand d = (results, files)" and "snapshots_ok (pf_sha P) cand"
    and "collectResults m t cand acc results = Inr acc'" and "sa_candidate acc = cand"
  shows "snapshots_ok (pf_sha P) (sa_candidate acc')"
proof (rule snapshots_okI)
  show "distinct (map fst (sa_candidate acc'))"
    using collectResults_distinct [OF assms(3)] assms(2,4) by (simp add: snapshots_ok_def)
  have "\<forall>x\<in>set (sa_candidate acc'). case x of (k, sn) \<Rightarrow> \<exists>src. sourceByKey k = Some src \<and> snapshot_ok (pf_sha P) src sn"
    by (rule collectResults_all [OF assms(3)]) (use results_ok [OF assms(1)] snapshots_okD [OF assms(2)] assms(4) in blast)+
  then show "\<exists>src. sourceByKey k = Some src \<and> snapshot_ok (pf_sha P) src sn" if "(k, sn) \<in> set (sa_candidate acc')" for k sn
    using that by blast
qed

lemma Sync_ok:
  assumes "Sync P nilContext busy inp m d = (m', d', r)" and ok: "manager_ok (pf_sha P) m"
  shows "manager_ok (pf_sha P) m'"
  using assms(1)
proof (cases rule: Sync_cases)
  case (commit c results files au af)
  from commit(4) show ?thesis
  proof (cases rule: syncCommit_cases)
    case (failed e)
    then show ?thesis using ok by (simp add: manager_ok_def protection_ok_def index_ok_def compiledIndex_def effectiveSnapshots_def fail_def cong: option.case_cong)
  next
    case (success acc i f)
    have "snapshots_ok (pf_sha P) (freshSnapshots (m\<lparr>m_clock := c\<rparr>) (si_attempt inp))"
      using ok freshSnapshots_ok [of "pf_sha P" "m\<lparr>m_clock := c\<rparr>"] by (simp add: manager_ok_def)
    then have "snapshots_ok (pf_sha P) (sa_candidate acc)" using collected_ok [OF commit(2) _ success(2)] by simp
    then show ?thesis using ok success(3,6) by (simp add: manager_defs)
  qed
qed (use ok in simp_all)

lemma SetPollingIntervalSeconds_ok:
  assumes "SetPollingIntervalSeconds P inp seconds m d = (m', d', r)" and "manager_ok sha m"
  shows "manager_ok sha m'"
  using assms validatePollIntervalSeconds_iff [of seconds]
  by (auto simp: SetPollingIntervalSeconds_def Let_def manager_defs polling_ok_def activatePolling_def split: sum.splits cong: option.case_cong)

lemma SetFeedActions_cases:
  assumes "SetFeedActions P busy inp changes reason m d = (m', d', r)"
  obtains (rejected) e where "r = Inl e" and "m' = m" and "d' = d"
  | (rolledBack) e f where "r = Inl e" and "m' = m" and "d' = d\<lparr>d_feedPolicy := rollbackStore (ai_rollbackOK inp) (d_feedPolicy d) f\<rparr>"
  | (accepted) os i tot ready n payload ef where "prepareFeedActions P busy inp changes reason m = Inr (os, i, tot, ready, n, payload)"
      and "publishEnforcement P (ai_enforcementOK inp) (ai_updatedUTC inp) i ready (m_protectedPolicy m) (d_enforcement d) = Inr ef"
      and "m' = applyFeedPolicyToStatus i tot ready (m\<lparr>m_policy := \<lparr>ov_overrides = os, ov_source = feedPolicySourcePersisted,
        ov_updatedUTC = ai_updatedUTC inp, ov_storeError = []\<rparr>, m_index := Some i\<rparr>)"
      and "d' = d\<lparr>d_feedPolicy := Stored n True (Decoded payload), d_enforcement := ef\<rparr>"
      and "r = Inr (FeedPolicy (Some m') (ai_statusNow inp))"
proof (cases "prepareFeedActions P busy inp changes reason m")
  case (Inl e)
  then show ?thesis using assms rejected by (auto simp: SetFeedActions_def)
next
  case (Inr x)
  obtain os i tot ready n payload where x: "x = (os, i, tot, ready, n, payload)" by (cases x)
  show ?thesis
  proof (cases "ai_storeOK inp")
    case False
    then show ?thesis using assms Inr x rejected by (auto simp: SetFeedActions_def atomicWrite_def)
  next
    case True
    show ?thesis
    proof (cases "publishEnforcement P (ai_enforcementOK inp) (ai_updatedUTC inp) i ready (m_protectedPolicy m) (d_enforcement d)")
      case (Inl e)
      then show ?thesis using assms Inr x True rolledBack by (auto simp: SetFeedActions_def atomicWrite_def)
    next
      case p: (Inr ef)
      then show ?thesis using assms Inr x True by (intro accepted [OF _ p]) (auto simp: SetFeedActions_def atomicWrite_def Let_def)
    qed
  qed
qed

lemma prepareFeedActions_Inr:
  assumes "prepareFeedActions P busy inp changes reason m = Inr (os, i, tot, ready, n, payload)"
  shows "reason = [] \<or> validReasonDigest reason" and "\<not> busy"
    and "applyChanges reason (ai_updatedUTC inp) [] (m_overrides m) changes = Inr os"
    and "compileEnforcement (pf_sha P) (m_protectedPrefixes m) (buildIndex (pf_sha P) (applyEffectiveActionsToSnapshots (m_snapshots m) os)) = Inr i"
    and "effectiveBlockingCoverage (m_snapshots m) os = (tot, ready)"
    and "0 < ix_indicators i \<Longrightarrow> ix_blocking i \<noteq> 0 \<and> 0 < tot \<and> ready = tot"
    and "marshalFeedPolicyState (pf_feedMAC P) (pf_hmac P) (pf_feedPolicySize P) os (ai_updatedUTC inp) (m_feedPolicyKey m) = Inr (n, payload)"
  using assms by (auto simp: prepareFeedActions_def bind_outcome_eq_Inr case_prod_beta Let_def not_le prod_eq_iff split: if_splits)

lemma SetFeedActions_ok:
  assumes "SetFeedActions P busy inp changes reason m d = (m', d', r)" and ok: "manager_ok (pf_sha P) m"
  shows "manager_ok (pf_sha P) m'"
  using assms(1)
proof (cases rule: SetFeedActions_cases)
  case (accepted os i tot ready n payload ef)
  note p = prepareFeedActions_Inr [OF accepted(1)]
  have "overrides_ok os" using applyChanges_ok [OF p(3) _ p(1)] ok by (simp add: manager_ok_def)
  then show ?thesis using ok accepted(3) p(4) by (simp add: manager_defs applyFeedPolicyToStatus_def)
qed (use ok in simp_all)

lemma SetProtectedPrefixes_cases:
  assumes "SetProtectedPrefixes P busy inp vals m d = (m', d', policy, err)"
  obtains (rejected) e where "err = Some e" and "m' = m" and "d' = d"
  | (rolledBack) e pf persisted prefixes i ready where "err \<noteq> None" and "policy = m_protectedPolicy m"
      and "prepareProtectedPrefixes P busy vals m = Inr (prefixes, i, ready)"
      and "writeProtectedPolicy (pf_sha P) (pf_protectedMAC P) (pf_protectedSize P) (pi_policyOK inp) (d_protected d) (m_protectedKey m)
        prefixes (pi_now inp) = Inr (persisted, pf)"
      and "m' = markProtectionPolicyStatus (m_protectedPolicy m) (Some e) (pi_statusNow inp) m"
      and "d' = d\<lparr>d_protected := fst (restoreProtectedPolicy (pf_sha P) (pf_protectedMAC P) (pf_protectedSize P) (pi_restoreOK inp) pf
        (m_protectedKey m) (m_protectedPolicy m) (m_protectedPrefixes m))\<rparr>"
  | (accepted) prefixes i ready pf ef where "prepareProtectedPrefixes P busy vals m = Inr (prefixes, i, ready)"
      and "writeProtectedPolicy (pf_sha P) (pf_protectedMAC P) (pf_protectedSize P) (pi_policyOK inp) (d_protected d) (m_protectedKey m)
        prefixes (pi_now inp) = Inr (policy, pf)"
      and "publishEnforcement P (pi_enforcementOK inp) (pi_now inp) i ready policy (d_enforcement d) = Inr ef"
      and "m' = markProtectionPolicyStatus policy None (pi_statusNow inp) (m\<lparr>m_protectedPolicy := policy, m_protectedPrefixes := prefixes,
        m_protectedTrie := buildPrefixTrie prefixes, m_index := (if 0 < ix_indicators i then Some i else m_index m)\<rparr>)"
      and "d' = d\<lparr>d_protected := pf, d_enforcement := ef\<rparr>" and "err = None"
proof (cases "prepareProtectedPrefixes P busy vals m")
  case (Inl e)
  then show ?thesis using assms rejected by (auto simp: SetProtectedPrefixes_def)
next
  case (Inr x)
  obtain prefixes i ready where x: "x = (prefixes, i, ready)" by (cases x)
  show ?thesis
  proof (cases "writeProtectedPolicy (pf_sha P) (pf_protectedMAC P) (pf_protectedSize P) (pi_policyOK inp) (d_protected d) (m_protectedKey m)
        prefixes (pi_now inp)")
    case (Inl e)
    then show ?thesis using assms Inr x rejected by (auto simp: SetProtectedPrefixes_def)
  next
    case w: (Inr y)
    obtain persisted pf where y: "y = (persisted, pf)" by fastforce
    show ?thesis
    proof (cases "publishEnforcement P (pi_enforcementOK inp) (pi_now inp) i ready persisted (d_enforcement d)")
      case (Inl e)
      then show ?thesis using assms Inr x w y
        by (intro rolledBack [of prefixes i ready persisted pf e]) (auto simp: SetProtectedPrefixes_def split: prod.splits)
    next
      case p: (Inr ef)
      then show ?thesis using assms Inr x w y
        by (intro accepted [of prefixes i ready pf ef]) (auto simp: SetProtectedPrefixes_def Let_def)
    qed
  qed
qed

lemma prepareProtectedPrefixes_Inr:
  assumes "prepareProtectedPrefixes P busy vals m = Inr (prefixes, i, ready)"
  shows "\<exists>strs. normalizeProtectedPrefixes vals = Inr (prefixes, strs)" and "\<not> busy"
    and "compileEnforcement (pf_sha P) prefixes (buildIndex (pf_sha P) (effectiveSnapshots m)) = Inr i"
    and "ready = snd (effectiveBlockingCoverage (m_snapshots m) (m_overrides m))"
    and "0 < ix_indicators i \<Longrightarrow> ix_blocking i \<noteq> 0 \<and> ready \<noteq> 0"
  using assms by (auto simp: prepareProtectedPrefixes_def bind_outcome_eq_Inr effectiveSnapshots_def Let_def split: if_splits prod.splits)

lemma writeProtectedPolicy_policy:
  assumes "writeProtectedPolicy sha mac enc w f key prefixes t = Inr (policy, f')" and "compactPrefixUnion prefixes = Inr prefixes"
  shows "pp_prefixes policy = prefixStrings prefixes" and "pp_generationSHA256 policy = protectedPolicyGeneration sha (prefixStrings prefixes)"
proof -
  have "sort (prefixStrings prefixes) = prefixStrings prefixes" by (simp add: prefixStrings_def sorted_sort_id)
  then show "pp_prefixes policy = prefixStrings prefixes" "pp_generationSHA256 policy = protectedPolicyGeneration sha (prefixStrings prefixes)"
    using assms by (auto simp: writeProtectedPolicy_def Let_def bind_outcome_eq_Inr protectedPolicyFromStrings_def split: if_splits option.splits)
qed

lemma SetProtectedPrefixes_ok:
  assumes "SetProtectedPrefixes P busy inp vals m d = (m', d', policy, err)" and ok: "manager_ok (pf_sha P) m"
  shows "manager_ok (pf_sha P) m'"
  using assms(1)
proof (cases rule: SetProtectedPrefixes_cases)
  case (accepted prefixes i ready pf ef)
  note p = prepareProtectedPrefixes_Inr [OF accepted(1)]
  obtain strs where n: "normalizeProtectedPrefixes vals = Inr (prefixes, strs)" using p(1) by blast
  note ps = normalizeProtectedPrefixes_spec [OF n]
  note pol = writeProtectedPolicy_policy [OF accepted(2) ps(3)]
  let ?b = "buildIndex (pf_sha P) (effectiveSnapshots m)"
  have pok: "\<forall>p\<in>set prefixes. prefix_ok p" using ps(1) protected_ok_prefix by blast
  have same: "compileEnforcement (pf_sha P) prefixes ?b = Inr j" if "\<not> 0 < ix_indicators i" "m_index m = Some j" for j
  proof -
    have "ix_indicators ?b = 0" using that(1) compileEnforcement_indicators [OF p(3)] by (simp add: ix_indicators_eq)
    moreover have "\<forall>p\<in>set (m_protectedPrefixes m). prefix_ok p"
      using ok protection_prefix_ok [of "pf_sha P" m] by (simp add: manager_ok_def)
    ultimately have "compileEnforcement (pf_sha P) prefixes ?b = compileEnforcement (pf_sha P) (m_protectedPrefixes m) ?b"
      using compileEnforcement_empty pok by blast
    then show ?thesis using that(2) ok by (simp add: manager_defs)
  qed
  have empty: "ix_indicators ?b = 0" if "m_index m = None" using that ok by (simp add: manager_ok_def index_ok_def)
  have "index_ok (pf_sha P) m'"
    using p(3) same empty compileEnforcement_indicators [OF p(3)] accepted(4)
    by (cases "m_index m") (auto simp: index_ok_def compiledIndex_def effectiveSnapshots_def markProtectionPolicyStatus_def Let_def)
  moreover have "protection_ok (pf_sha P) m'"
    using ps(1) pol accepted(4) by (simp add: protection_ok_def markProtectionPolicyStatus_def list_all_iff Let_def)
  ultimately show ?thesis using ok accepted(4) by (simp add: manager_ok_def markProtectionPolicyStatus_def Let_def)
qed (use ok in simp_all)

section \<open>Start\<close>

lemma loadOne_ok:
  assumes "loadOne P m d inp acc src = Inr acc'" and "src \<in> set catalog" and "snapshots_ok (pf_sha P) (la_snapshots acc)"
  shows "snapshots_ok (pf_sha P) (la_snapshots acc')"
proof -
  have src: "sourceByKey (s_key src) = Some src" using assms(2) by (simp add: sourceByKey_iff)
  have "la_snapshots acc' = la_snapshots acc \<or>
      (\<exists>sn. readSourceSnapshot (pf_sha P) (d_sources d (s_key src)) src = Inr sn \<and> la_snapshots acc' = AList.update (s_key src) sn (la_snapshots acc))"
    using assms(1) by (auto simp: loadOne_def Let_def split: if_splits sum.splits)
  then show ?thesis
  proof (elim disjE exE conjE)
    fix sn assume "readSourceSnapshot (pf_sha P) (d_sources d (s_key src)) src = Inr sn"
      "la_snapshots acc' = AList.update (s_key src) sn (la_snapshots acc)"
    then show ?thesis using snapshots_ok_update [OF assms(3) src] readSourceSnapshot_ok by metis
  qed (use assms(3) in simp)
qed

lemma loadLoop_ok:
  "loadLoop P m d inp acc srcs = Inr acc' \<Longrightarrow> set srcs \<subseteq> set catalog \<Longrightarrow> snapshots_ok (pf_sha P) (la_snapshots acc) \<Longrightarrow>
   snapshots_ok (pf_sha P) (la_snapshots acc')"
proof (induction srcs arbitrary: acc)
  case (Cons src srcs)
  then obtain acc1 where "loadOne P m d inp acc src = Inr acc1" "loadLoop P m d inp acc1 srcs = Inr acc'"
    by (auto split: sum.splits)
  then show ?case using Cons loadOne_ok by fastforce
qed simp

lemma effectiveSnapshots_Nil: "m_snapshots m = [] \<Longrightarrow> ix_indicators (buildIndex sha (effectiveSnapshots m)) = 0"
  by (simp add: effectiveSnapshots_def applyEffectiveActionsToSnapshots_def ix_indicators_eq collectEntries_def sortedEntries_def)

text \<open>\<open>loadCached\<close> establishes the index invariant, whatever it finds on disk.\<close>

lemma loadCached_ok:
  assumes "loadCached P inp m d = (m', d')" and "m_index m = None" and "m_snapshots m = []"
    and "polling_ok (m_polling m)" and "overrides_ok (m_overrides m)" and "protection_ok (pf_sha P) m"
  shows "manager_ok (pf_sha P) m'"
proof (cases "loadLoop P m d inp \<lparr>la_snapshots = m_snapshots m, la_states = [], la_ready = 0, la_total = 0, la_aggregate = 0\<rparr> catalog")
  case (Inl acc)
  then show ?thesis using assms effectiveSnapshots_Nil [of m'] by (auto simp: loadCached_def manager_ok_def protection_ok_def index_ok_def)
next
  case (Inr acc)
  note acc = this
  have sns: "snapshots_ok (pf_sha P) (la_snapshots acc)" using loadLoop_ok [OF acc] assms(3) by simp
  let ?b = "buildIndex (pf_sha P) (applyEffectiveActionsToSnapshots (la_snapshots acc) (m_overrides m))"
  show ?thesis
  proof (cases "compileEnforcement (pf_sha P) (m_protectedPrefixes m) ?b")
    case (Inl e)
    then show ?thesis using assms acc effectiveSnapshots_Nil [of m']
      by (auto simp: loadCached_def manager_ok_def protection_ok_def index_ok_def Let_def)
  next
    case (Inr i)
    have ind: "ix_indicators i = ix_indicators ?b" using compileEnforcement_indicators [OF Inr] .
    show ?thesis
    proof (cases "maximumEnforcementIndicators < ix_blocking i")
      case True
      then show ?thesis using assms acc Inr effectiveSnapshots_Nil [of m']
        by (auto simp: loadCached_def manager_ok_def protection_ok_def index_ok_def Let_def)
    next
      case False
      then have "m_snapshots m' = la_snapshots acc \<and> m_index m' = (if ix_indicators i = 0 then None else Some i) \<and>
          m_policy m' = m_policy m \<and> m_polling m' = m_polling m \<and> m_protectedPrefixes m' = m_protectedPrefixes m \<and>
          m_protectedTrie m' = m_protectedTrie m \<and> m_protectedPolicy m' = m_protectedPolicy m"
        using assms(1,2) acc Inr by (auto simp: loadCached_def Let_def split: if_splits)
      then show ?thesis using assms(4-6) sns Inr ind by (simp add: manager_defs)
    qed
  qed
qed

lemma loadProtectedPolicy_ok:
  assumes "loadProtectedPolicy sha mac f key = Inr (policy, prefixes)"
  shows "list_all protected_ok prefixes" and "pp_prefixes policy = prefixStrings prefixes"
    and "pp_generationSHA256 policy = protectedPolicyGeneration sha (pp_prefixes policy)"
proof -
  have empty: "prefixStrings [] = []" by (simp add: prefixStrings_def)
  have "list_all protected_ok prefixes \<and> pp_prefixes policy = prefixStrings prefixes \<and>
      pp_generationSHA256 policy = protectedPolicyGeneration sha (pp_prefixes policy)"
  proof (cases f)
    case Absent
    have "compactPrefixUnion [] = Inr []" by code_simp
    then show ?thesis using Absent assms empty
      by (auto simp: loadProtectedPolicy_def protectedPolicyFromPrefixes_def protectedPolicyFromStrings_def)
  next
    case (Stored n b c)
    then obtain disk where disk: "c = Decoded disk"
      using assms by (cases c) (auto simp: loadProtectedPolicy_def split: if_splits)
    obtain canon where n: "normalizeProtectedPrefixes (pd_prefixes disk) = Inr (prefixes, canon)"
      and policy: "pp_prefixes policy = canon" "pp_generationSHA256 policy = protectedPolicyGeneration sha canon"
      using assms Stored disk by (auto simp: loadProtectedPolicy_def bind_outcome_eq_Inr Let_def split: if_splits sum.splits)
    note s = normalizeProtectedPrefixes_spec [OF n]
    have "prefixStrings prefixes = map PrefixString prefixes"
      using prefixStrings_canonical s by (metis protected_ok_def)
    then show ?thesis using s policy by (simp add: list_all_iff)
  qed (use assms in \<open>simp add: loadProtectedPolicy_def\<close>)
  then show "list_all protected_ok prefixes" "pp_prefixes policy = prefixStrings prefixes"
    "pp_generationSHA256 policy = protectedPolicyGeneration sha (pp_prefixes policy)" by simp_all
qed

lemma DefaultPollInterval_ok:
  "polling_ok \<lparr>pl_every = DefaultPollInterval, pl_source = s, pl_updatedUTC = t, pl_loadError = e\<rparr>"
  by (simp add: polling_ok_def DefaultPollInterval_def SyncInterval_def MinPollInterval_def MaxPollInterval_def duration_defs)

lemma NewManager_ok:
  assumes "NewManager P inp d = Inr (m, d')"
  shows "manager_ok (pf_sha P) m"
proof -
  obtain pk policy prefixes where pp: "loadProtectedPolicy (pf_sha P) (pf_protectedMAC P) (d_protected d) pk = Inr (policy, prefixes)"
    and run: "\<exists>m0. loadCached P (sr_load inp) m0 d = (m, d') \<and> m_index m0 = None \<and> m_snapshots m0 = [] \<and>
      polling_ok (m_polling m0) \<and> overrides_ok (m_overrides m0) \<and> m_protectedPolicy m0 = policy \<and>
      m_protectedPrefixes m0 = prefixes \<and> m_protectedTrie m0 = buildPrefixTrie prefixes"
    using assms DefaultPollInterval_ok loadPollingConfig_ok loadFeedPolicy_ok
    by (fastforce simp: NewManager_def bind_outcome_eq_Inr Let_def split: if_splits prod.splits)
  from run show ?thesis using loadCached_ok loadProtectedPolicy_ok [OF pp] by (fastforce simp: protection_ok_def)
qed

end
