(* ===== verification/ManagerRuns.thy ===== *)
theory ManagerRuns
  imports ManagerSafety
begin

text \<open>
  The states the service can reach and what holds in all of them: an operation is a step of
  \<open>step\<close>, the invariant of \<open>ManagerSafety\<close> holds in every reachable state, and the claims
  about whole runs rest on it. A small sample service serves the witnesses.
\<close>

section \<open>Reachable states\<close>

text \<open>
  One operation of the service, with any answers of the outside world. The operations hold \<open>syncMu\<close>
  or are short critical sections, so each is one step; a call that finds the mutex taken is a step
  with \<open>busy\<close>.
\<close>

inductive step :: "platform \<Rightarrow> manager \<times> disk \<Rightarrow> manager \<times> disk \<Rightarrow> bool" for P where
  sync: "Sync P nilContext busy inp m d = (m', d', r) \<Longrightarrow> 0 < si_attempt inp \<Longrightarrow> step P (m, d) (m', d')"
| protect: "SetProtectedPrefixes P busy inp vals m d = (m', d', policy, err) \<Longrightarrow> step P (m, d) (m', d')"
| actions: "SetFeedActions P busy inp changes reason m d = (m', d', r) \<Longrightarrow> step P (m, d) (m', d')"
| poll: "SetPollingIntervalSeconds P inp seconds m d = (m', d', r) \<Longrightarrow> step P (m, d) (m', d')"

inductive_cases stepE: "step P s s'"

inductive steps :: "platform \<Rightarrow> manager \<times> disk \<Rightarrow> manager \<times> disk \<Rightarrow> bool" for P where
  refl: "steps P s s"
| snoc: "steps P s s' \<Longrightarrow> step P s' s'' \<Longrightarrow> steps P s s''"

inductive reachable :: "platform \<Rightarrow> manager \<times> disk \<Rightarrow> bool" for P where
  start: "NewManager P inp d = Inr s \<Longrightarrow> reachable P s"
| again: "reachable P s \<Longrightarrow> step P s s' \<Longrightarrow> reachable P s'"

lemma step_ok:
  assumes "step P s s'" and "manager_ok (pf_sha P) (fst s)"
  shows "manager_ok (pf_sha P) (fst s')"
  using assms(1)
proof (cases rule: step.cases)
  case (sync nilContext busy inp m d m' d' r)
  then show ?thesis using Sync_ok assms(2) by simp
next
  case (protect busy inp vals m d m' d' policy err)
  then show ?thesis using SetProtectedPrefixes_ok assms(2) by simp
next
  case (actions busy inp changes reason m d m' d' r)
  then show ?thesis using SetFeedActions_ok assms(2) by simp
next
  case (poll inp seconds m d m' d' r)
  then show ?thesis using SetPollingIntervalSeconds_ok assms(2) by simp
qed

lemma reachable_manager_ok: "reachable P s \<Longrightarrow> manager_ok (pf_sha P) (fst s)"
proof (induction rule: reachable.induct)
  case (start inp d s)
  then show ?case using NewManager_ok [of P inp d "fst s" "snd s"] by simp
qed (rule step_ok)

section \<open>What is enforced\<close>

lemma enforced_difference:
  assumes "manager_ok sha m" and "m_index m = Some i"
    and "\<not> (\<exists>k. indicates (effectiveSnapshots m) mapped_base k ActionBlock)"
  shows "indicator_covers (ix_blockIndicators i) a \<longleftrightarrow>
    (\<exists>k. indicates (effectiveSnapshots m) a k ActionBlock) \<and> \<not> covered (m_protectedPrefixes m) a"
proof -
  have prot: "\<forall>p\<in>set (m_protectedPrefixes m). prefix_ok p \<and> canonicalPrefix p = p"
    using assms(1) protected_ok_prefix by (auto simp: manager_ok_def protection_ok_def list_all_iff)
  then have "map canonicalPrefix (m_protectedPrefixes m) = m_protectedPrefixes m" by (simp add: map_idI)
  moreover have "compileEnforcement sha (m_protectedPrefixes m) (buildIndex sha (effectiveSnapshots m)) = Inr i"
    using assms(1,2) by (simp add: manager_ok_def index_ok_def compiledIndex_def)
  ultimately show ?thesis using compileEnforcement_difference [OF _ _ assms(3)] prot by simp
qed

text \<open>
  C1 [reachable_enforced]: in every reachable state the published index blocks exactly the addresses
  that a feed whose effective authority is BLOCK names and no protected network contains, provided
  no BLOCK indicator contains the base of the IPv4-mapped range (\<open>::ffff:0:0\<close>).
\<close>

theorem reachable_enforced:
  assumes "reachable P (m, d)" and "m_index m = Some i"
    and "\<not> (\<exists>k. indicates (effectiveSnapshots m) mapped_base k ActionBlock)"
  shows "indicator_covers (ix_blockIndicators i) a \<longleftrightarrow>
    (\<exists>k. indicates (effectiveSnapshots m) a k ActionBlock) \<and> \<not> covered (m_protectedPrefixes m) a"
  using enforced_difference [OF _ assms(2,3)] reachable_manager_ok [OF assms(1)] by simp

lemma nodeFor_loop_open: "nodeFor_loop k d node a = (x, False) \<Longrightarrow> \<not> terminal x"
  by (induction k arbitrary: d node) (auto simp: Let_def split: if_splits)

text \<open>The host prefix of an address, as \<open>Lookup\<close> builds it, and how the trie answers for it.\<close>

lemma host_prefix:
  assumes "plain a"
  shows "canonical (PrefixFrom a (int (BitLen a)))" and "bitsPlusOne (PrefixFrom a (int (BitLen a))) = Suc (BitLen a)"
    and "Contains (PrefixFrom a (int (BitLen a))) a" and "ip (PrefixFrom a (int (BitLen a))) = a"
proof -
  have a: "IsValid a" "WithoutZone a = a" using assms by (cases a; simp add: plain_def)+
  note s = PrefixFrom_sel [OF a(1) order_refl]
  show c: "canonical (PrefixFrom a (int (BitLen a)))"
    using assms s a abit_beyond [of a] by (auto simp: canonical_def PrefixIsValid_def)
  show "bitsPlusOne (PrefixFrom a (int (BitLen a))) = Suc (BitLen a)" "ip (PrefixFrom a (int (BitLen a))) = a"
    using s a by simp_all
  then show "Contains (PrefixFrom a (int (BitLen a))) a" using Contains_self [OF c] by simp
qed

lemma nodeFor_host:
  assumes "prefixTrie_ok trie" and "plain a"
  shows "snd (nodeFor trie (PrefixFrom a (int (BitLen a)))) \<longleftrightarrow> prefixTrie_has trie a"
proof -
  let ?p = "PrefixFrom a (int (BitLen a))"
  note h = host_prefix [OF assms(2)]
  obtain node cov where n: "nodeFor trie ?p = (node, cov)" by fastforce
  note spec = nodeFor_spec [OF assms(1) h(1,2) n]
  have "\<not> prefixTrie_has trie a" if no: "\<not> cov"
  proof -
    have "trie_ok 0 node" using spec(3) [OF no] h(4) by simp
    moreover have "\<not> terminal node"
      using n no nodeFor_loop_open by (auto simp: nodeFor_def Let_def split: if_splits)
    ultimately have "node = NilNode" by (cases node) (auto split: if_splits)
    then show ?thesis using spec(2) [OF no h(3)] by simp
  qed
  then show ?thesis using spec(1) h(3) n by auto
qed

lemma plain_lookup: "IsValid a \<Longrightarrow> plain (WithoutZone (Unmap a))"
  by (cases a) (auto simp: plain_def)

section \<open>Lookups agree with what is enforced\<close>

lemma IndexLookup_compiled:
  "compileEnforcement sha ps i = Inr i' \<Longrightarrow> IndexLookup (Some i') a = IndexLookup (Some i) a"
  by (auto simp: compileEnforcement_def bind_outcome_eq_Inr IndexLookup_def Let_def)

lemma PrefixFrom_zone: "PrefixFrom (WithoutZone a) n = PrefixFrom a n"
  by (cases a) (simp_all add: PrefixFrom_def)

lemma ManagerLookup_protected:
  assumes "manager_ok sha m" and "IsValid address" and "mt_found (ManagerLookup m address)"
  shows "mt_protected (ManagerLookup m address) \<longleftrightarrow> covered (m_protectedPrefixes m) (WithoutZone (Unmap address))"
proof -
  let ?a = "WithoutZone (Unmap address)"
  have prot: "\<forall>p\<in>set (m_protectedPrefixes m). prefix_ok p \<and> canonicalPrefix p = p" and
    trie: "m_protectedTrie m = buildPrefixTrie (m_protectedPrefixes m)"
    using assms(1) protected_ok_prefix by (auto simp: manager_ok_def protection_ok_def list_all_iff)
  have "mt_protected (ManagerLookup m address) \<longleftrightarrow> snd (nodeFor (m_protectedTrie m) (PrefixFrom ?a (int (BitLen ?a))))"
    using assms(2,3) by (auto simp: ManagerLookup_def noMatch_def Let_def PrefixFrom_zone split: option.splits if_splits prod.splits)
  also have "\<dots> \<longleftrightarrow> prefixTrie_has (buildPrefixTrie (m_protectedPrefixes m)) ?a"
    unfolding trie using nodeFor_host plain_lookup [OF assms(2)] buildPrefixTrie_spec(1) prot by blast
  also have "\<dots> \<longleftrightarrow> covered (m_protectedPrefixes m) ?a"
    using buildPrefixTrie_spec(2) [of "m_protectedPrefixes m" ?a] prot by (simp add: covered_def)
  finally show ?thesis .
qed

lemma ManagerLookup_index:
  "m_index m = Some i \<Longrightarrow> mt_found (ManagerLookup m a) = mt_found (IndexLookup (Some i) a) \<and>
     mt_action (ManagerLookup m a) = mt_action (IndexLookup (Some i) a)"
  by (auto simp: ManagerLookup_def Let_def split: prod.splits)

lemma rank_Block: "rank ActionBlock \<le> rank act \<Longrightarrow> act = ActionBlock"
  by (auto simp: rank_def split: if_splits)

lemma Lookup_action_Block:
  fixes sha :: "string \<Rightarrow> string"
  assumes "unaliased sns" and "IsValid address"
  shows "mt_action (IndexLookup (Some (buildIndex sha sns)) address) = ActionBlock \<longleftrightarrow>
      (\<exists>k. indicates sns (WithoutZone (Unmap address)) k ActionBlock)"
    and "(\<exists>k. indicates sns (WithoutZone (Unmap address)) k ActionBlock) \<Longrightarrow> mt_found (IndexLookup (Some (buildIndex sha sns)) address)"
proof -
  note L = Lookup_walks [OF assms, of sha]
  have ne: "ActionBlock \<noteq> []" by (simp add: ActionBlock_def)
  show "mt_action (IndexLookup (Some (buildIndex sha sns)) address) = ActionBlock \<longleftrightarrow>
      (\<exists>k. indicates sns (WithoutZone (Unmap address)) k ActionBlock)"
    using L ne rank_Block by metis
  show "(\<exists>k. indicates sns (WithoutZone (Unmap address)) k ActionBlock) \<Longrightarrow> mt_found (IndexLookup (Some (buildIndex sha sns)) address)"
    using L by blast
qed

lemma lookup_enforced:
  assumes ok: "manager_ok sha m" and "m_index m = Some i" and "IsValid address"
    and "unaliased (effectiveSnapshots m)" and "\<not> (\<exists>k. indicates (effectiveSnapshots m) mapped_base k ActionBlock)"
  shows "indicator_covers (ix_blockIndicators i) (WithoutZone (Unmap address)) \<longleftrightarrow>
    mt_action (ManagerLookup m address) = ActionBlock \<and> \<not> mt_protected (ManagerLookup m address)"
proof -
  have i: "IndexLookup (Some i) address = IndexLookup (Some (buildIndex sha (effectiveSnapshots m))) address"
    using ok assms(2) IndexLookup_compiled by (fastforce simp: manager_ok_def index_ok_def compiledIndex_def)
  show ?thesis
    using enforced_difference [OF ok assms(2,5)] Lookup_action_Block [OF assms(4,3), of sha] i
      ManagerLookup_index [OF assms(2), of address] ManagerLookup_protected [OF ok assms(3)] by auto
qed

text \<open>
  C2 [lookup_agrees]: in every reachable state the two readers of the threat intelligence agree: the
  address is among the indicators handed to the firewall exactly when \<open>Lookup\<close> answers BLOCK and
  does not report the address as protected. IPv4-mapped addresses are looked up as IPv4 and zones
  are ignored. It is provided that no prefix of the effective generations is the IPv4-mapped alias
  of another one (\<open>Lookup_alias_downgrades\<close> shows why), and that no BLOCK indicator contains
  \<open>::ffff:0:0\<close>.
\<close>

theorem lookup_agrees:
  assumes "reachable P (m, d)" and "m_index m = Some i" and "IsValid address"
    and "unaliased (effectiveSnapshots m)" and "\<not> (\<exists>k. indicates (effectiveSnapshots m) mapped_base k ActionBlock)"
  shows "indicator_covers (ix_blockIndicators i) (WithoutZone (Unmap address)) \<longleftrightarrow>
    mt_action (ManagerLookup m address) = ActionBlock \<and> \<not> mt_protected (ManagerLookup m address)"
  using lookup_enforced [OF _ assms(2-5), of "pf_sha P"] reachable_manager_ok [OF assms(1)] by simp

section \<open>Synchronisation as a whole\<close>

text \<open>
  C5 [Sync_failure_keeps]: a synchronisation that reports an error leaves the generations, the index,
  the overrides, the protected networks, the polling interval and the keys as they were; of the files
  it may have touched only the feed snapshots, the authority state and the enforcement snapshot, and
  the last one at most by removing it.
\<close>

theorem Sync_failure_keeps:
  assumes "Sync P nilContext busy inp m d = (m', d', Inl e)"
  shows "m_snapshots m' = m_snapshots m \<and> m_index m' = m_index m \<and> m_policy m' = m_policy m \<and>
    m_polling m' = m_polling m \<and> m_protectedPolicy m' = m_protectedPolicy m \<and> m_protectedPrefixes m' = m_protectedPrefixes m \<and>
    m_protectedTrie m' = m_protectedTrie m \<and> m_protectedKey m' = m_protectedKey m \<and> m_feedPolicyKey m' = m_feedPolicyKey m \<and>
    d_protected d' = d_protected d \<and> d_feedPolicy d' = d_feedPolicy d \<and> d_polling d' = d_polling d \<and> d_clock d' = d_clock d \<and>
    (d_enforcement d' = d_enforcement d \<or> d_enforcement d' = Absent)"
  using assms
proof (cases rule: Sync_cases)
  case (commit c results files au af)
  from commit(4) show ?thesis by (cases rule: syncCommit_cases) (auto simp: fail_def removeFile_def)
qed (auto simp: fail_def removeFile_def)

lemma writeEnforcementSnapshot_Inr:
  assumes "writeEnforcementSnapshot sha enc w t (Some i) ready policy f = Inr f'"
  shows "\<exists>n es. f' = Stored n True (Decoded es) \<and> es_blockIndicators es = ix_blockIndicators i \<and>
      es_generationSHA256 es = ix_enforcementGeneration i \<and> es_protectionGenerationSHA256 es = pp_generationSHA256 policy \<and>
      es_generatedUTC es = t \<and> es_blockingFeedCount es = ready"
    and "ix_blocking i \<noteq> 0" and "ix_blocking i \<le> maximumEnforcementIndicators" and "0 < ready" and "length (ix_enforcementGeneration i) = 64"
  using assms by (auto simp: writeEnforcementSnapshot_def atomicWrite_def Let_def not_less split: option.splits if_splits)

lemma compileEnforcement_blocking:
  "compileEnforcement sha ps i = Inr i' \<Longrightarrow> ix_blocking i' = int (length (ix_blockIndicators i'))"
  by (auto simp: compileEnforcement_def bind_outcome_eq_Inr)

lemma current_not_expired:
  assumes "t \<noteq> 0" and "sn_generatedUTC sn = t"
  shows "\<not> snapshotExpired p sn t"
  using assms maxFeedAge_range(1) [of p] by (simp add: snapshotExpired_iff)

text \<open>
  C4 [Sync_success]: after a synchronisation that reports success every generation in use is within the
  hard freshness limit, at least one indicator and at most the maximum is enforced, and the
  enforcement snapshot on disk is the projection of exactly the index in memory and of the
  protected-network policy in force, stamped with the time of the attempt.
\<close>

theorem Sync_success:
  assumes "Sync P nilContext busy inp m d = (m', d', Inr ())" and "si_attempt inp \<noteq> 0"
  shows "list_all (\<lambda>(k, sn). \<not> snapshotExpired (m_polling m') sn (si_attempt inp)) (m_snapshots m') \<and>
    (\<exists>i n es. m_index m' = Some i \<and> ix_blocking i = int (length (ix_blockIndicators i)) \<and> ix_blockIndicators i \<noteq> [] \<and>
      ix_blocking i \<le> maximumEnforcementIndicators \<and> d_enforcement d' = Stored n True (Decoded es) \<and>
      es_blockIndicators es = ix_blockIndicators i \<and> es_generationSHA256 es = ix_enforcementGeneration i \<and>
      es_protectionGenerationSHA256 es = pp_generationSHA256 (m_protectedPolicy m') \<and> es_generatedUTC es = si_attempt inp)"
  using assms(1)
proof (cases rule: Sync_cases)
  case (commit c results files au af)
  from commit(4) show ?thesis
  proof (cases rule: syncCommit_cases)
    case (success acc i f)
    let ?t = "si_attempt inp"
    have "\<forall>x\<in>set (sa_candidate acc). case x of (k, sn) \<Rightarrow> \<not> snapshotExpired (m_polling m) sn ?t"
      by (rule collectResults_all [OF success(2)])
        (use results_ok [OF commit(2)] current_not_expired [OF assms(2)] in \<open>auto simp: freshSnapshots_def\<close>)
    then have "list_all (\<lambda>(k, sn). \<not> snapshotExpired (m_polling m') sn ?t) (m_snapshots m')"
      using success(6) by (simp add: list_all_iff)
    moreover have "ix_blockIndicators i \<noteq> []"
      using writeEnforcementSnapshot_Inr(2) [OF success(5)] compileEnforcement_blocking [OF success(3)] by auto
    ultimately show ?thesis
      using writeEnforcementSnapshot_Inr [OF success(5)] compileEnforcement_blocking [OF success(3)] success(6,7) by auto
  qed simp
qed simp_all

section \<open>The status fails closed\<close>

text \<open>A feed of the stored status whose last success is older than the limit at the trusted time.\<close>

definition feedStale :: "manager \<Rightarrow> gotime \<Rightarrow> feedState \<Rightarrow> bool" where
  "feedStale m wall fs \<longleftrightarrow> f_lastSuccessUTC fs \<noteq> 0 \<and>
     maxFeedAge (m_polling m) < effectiveNowUTC (m_clock m) wall - f_lastSuccessUTC fs"

lemma enrichOne_key [simp]: "f_key (enrichOne os fs) = f_key fs" "f_lastSuccessUTC (enrichOne os fs) = f_lastSuccessUTC fs"
  by (auto simp: enrichOne_def Let_def split: option.splits prod.splits)

lemma enrichOne_action:
  "sourceByKey (f_key fs) \<noteq> None \<Longrightarrow> f_effectiveAction (enrichOne os fs) = effectiveAction os (f_key fs)"
  by (auto simp: enrichOne_def effectiveAction_def split: option.splits)

lemma expireFeed_blocking:
  "snd (expireFeed rb (effectiveNowUTC (m_clock m) wall) (maxFeedAge (m_polling m)) fs) \<longleftrightarrow>
     f_effectiveAction fs = ActionBlock \<and> f_lastSuccessUTC fs \<noteq> 0 \<and> (rb \<or> feedStale m wall fs)"
  using time_sub_gt [OF maxFeedAge_range] by (auto simp: expireFeed_def feedStale_def)

lemma applyFreshness_withdraws:
  assumes "clockRollbackDetected (m_clock m) \<or> list_ex (\<lambda>fs. snd (expireFeed (clockRollbackDetected (m_clock m))
    (effectiveNowUTC (m_clock m) wall) (maxFeedAge (m_polling m)) fs)) (st_feeds st)"
  shows "st_blockingIndicators (applyFreshnessAndAuthenticity m wall st) = 0" and "st_blockingFeedsReady (applyFreshnessAndAuthenticity m wall st) = 0"
    and "st_enforcementGeneration (applyFreshnessAndAuthenticity m wall st) = []"
    and "st_state (applyFreshnessAndAuthenticity m wall st) \<noteq> ''CURRENT''" and "st_state (applyFreshnessAndAuthenticity m wall st) \<noteq> ''CACHED''"
    and "st_error (applyFreshnessAndAuthenticity m wall st) \<noteq> []"
  using assms by (simp_all add: applyFreshnessAndAuthenticity_def Let_def list_ex_iff disj_commute)

lemma statusView_feeds: "st_feeds (statusView m) = enrichFeedStates (st_feeds (m_status m)) (m_overrides m)"
  by (simp add: statusView_def Let_def case_prod_beta)

lemma statusOf_withdraws:
  assumes "clockRollbackDetected (m_clock m) \<or>
    list_ex (\<lambda>fs. sourceByKey (f_key fs) \<noteq> None \<and> effectiveAction (m_overrides m) (f_key fs) = ActionBlock \<and> feedStale m wall fs)
      (st_feeds (m_status m))"
  shows "st_blockingIndicators (statusOf m wall) = 0 \<and> st_blockingFeedsReady (statusOf m wall) = 0 \<and>
    st_enforcementGeneration (statusOf m wall) = [] \<and> st_state (statusOf m wall) \<noteq> ''CURRENT'' \<and>
    st_state (statusOf m wall) \<noteq> ''CACHED'' \<and> st_error (statusOf m wall) \<noteq> []"
proof -
  let ?rb = "clockRollbackDetected (m_clock m)" and ?x = "expireFeed (clockRollbackDetected (m_clock m)) (effectiveNowUTC (m_clock m) wall) (maxFeedAge (m_polling m))"
  have "list_ex (\<lambda>fs. snd (?x (enrichOne (m_overrides m) fs))) (st_feeds (m_status m)) \<or> ?rb"
  proof (cases ?rb)
    case False
    then obtain fs where fs: "fs \<in> set (st_feeds (m_status m))" "sourceByKey (f_key fs) \<noteq> None"
        "effectiveAction (m_overrides m) (f_key fs) = ActionBlock" "feedStale m wall fs"
      using assms by (auto simp: list_ex_iff)
    then have "snd (?x (enrichOne (m_overrides m) fs))"
      using enrichOne_action [OF fs(2), of "m_overrides m"] by (simp add: expireFeed_blocking) (simp add: feedStale_def)
    then show ?thesis using fs(1) by (auto simp: list_ex_iff)
  qed simp
  then show ?thesis unfolding statusOf_def using applyFreshness_withdraws [of m wall "statusView m"]
    by (simp add: statusView_feeds enrichFeedStates_def list_ex_iff disj_commute)
qed

text \<open>
  C6 [status_fail_closed]: when the clock was turned back, or when one feed with blocking authority is
  older than the hard freshness limit, the status withdraws all enforcement: no blocking indicator,
  no ready feed and no generation is reported, and the state is not one that counts as healthy.
\<close>

theorem status_fail_closed:
  assumes "clockRollbackDetected (m_clock m) \<or>
    list_ex (\<lambda>fs. sourceByKey (f_key fs) \<noteq> None \<and> effectiveAction (m_overrides m) (f_key fs) = ActionBlock \<and> feedStale m wall fs)
      (st_feeds (m_status m))"
  shows "st_blockingIndicators (statusOf m wall) = 0 \<and> st_blockingFeedsReady (statusOf m wall) = 0 \<and>
    st_enforcementGeneration (statusOf m wall) = [] \<and> st_state (statusOf m wall) \<noteq> ''CURRENT'' \<and>
    st_state (statusOf m wall) \<noteq> ''CACHED'' \<and> st_error (statusOf m wall) \<noteq> []"
  using statusOf_withdraws [OF assms] .

section \<open>Policy changes are atomic\<close>

text \<open>
  A rejected change of feed actions leaves the manager exactly as it was, and
  the state directory too, except for the override store when the enforcement snapshot could not be
  written: then the previous store is written back if it could be read, is within the size limit and
  the write succeeds.
\<close>

lemma SetFeedActions_atomic:
  assumes "SetFeedActions P busy inp changes reason m d = (m', d', Inl e)"
    and "ai_rollbackOK inp" and "case d_feedPolicy d of Absent \<Rightarrow> True | Unreadable \<Rightarrow> False | Stored n regular c \<Rightarrow> regular \<and> int n \<le> maximumFeedPolicyBytes"
  shows "m' = m \<and> d' = d"
  using assms(1)
proof (cases rule: SetFeedActions_cases)
  case (rolledBack e f)
  have "rollbackStore (ai_rollbackOK inp) (d_feedPolicy d) f = d_feedPolicy d"
    using assms(2,3) by (auto simp: rollbackStore_def removeFile_def split: stored.splits)
  then show ?thesis using rolledBack by simp
qed simp_all

text \<open>
  An accepted change of feed actions takes effect completely. The overrides
  in memory are the requested ones and the store on disk holds exactly them; the index in memory is
  the one the new overrides give. If it has an indicator at all, then it blocks something, every
  feed with blocking authority has indicators, and the enforcement snapshot on disk is the
  projection of that index.
\<close>

lemma SetFeedActions_accepted:
  assumes "SetFeedActions P busy inp changes reason m d = (m', d', Inr snapshot)"
  shows "applyChanges reason (ai_updatedUTC inp) [] (m_overrides m) changes = Inr (m_overrides m') \<and>
    (\<exists>n s. d_feedPolicy d' = Stored n True (Decoded s) \<and> fs_overrides s = canonicalFeedPolicyOverrides (map snd (m_overrides m'))) \<and>
    (\<exists>i. m_index m' = Some i \<and> compiledIndex (pf_sha P) m' = Inr i \<and>
      (0 < ix_indicators i \<longrightarrow> ix_blockIndicators i \<noteq> [] \<and>
        fst (effectiveBlockingCoverage (m_snapshots m') (m_overrides m')) = snd (effectiveBlockingCoverage (m_snapshots m') (m_overrides m')) \<and>
        (\<exists>n es. d_enforcement d' = Stored n True (Decoded es) \<and> es_blockIndicators es = ix_blockIndicators i)))"
  using assms
proof (cases rule: SetFeedActions_cases)
  case (accepted os i tot ready n payload ef)
  note p = prepareFeedActions_Inr [OF accepted(1)]
  have m': "m_overrides m' = os" "m_index m' = Some i" "m_snapshots m' = m_snapshots m" "compiledIndex (pf_sha P) m' = Inr i"
    using accepted(3) p(4) by (simp_all add: applyFeedPolicyToStatus_def compiledIndex_def effectiveSnapshots_def)
  have "fs_overrides payload = canonicalFeedPolicyOverrides (map snd os)"
    using p(7) by (auto simp: marshalFeedPolicyState_def bind_outcome_eq_Inr Let_def split: if_splits option.splits)
  moreover have "ix_blockIndicators i \<noteq> [] \<and> ready = tot \<and> (\<exists>n es. ef = Stored n True (Decoded es) \<and> es_blockIndicators es = ix_blockIndicators i)"
    if "0 < ix_indicators i"
    using that p(6) [OF that] compileEnforcement_blocking [OF p(4)] accepted(2)
    by (auto simp: publishEnforcement_def dest!: writeEnforcementSnapshot_Inr(1))
  ultimately show ?thesis using accepted(4) m' p(3,5) by simp
qed simp_all

text \<open>
  A rejected change of the protected networks leaves everything but the
  displayed status and possibly the policy file as it was: the networks in force, the trie, the
  index, the generations, the overrides and every other file, the enforcement snapshot included.
\<close>

lemma SetProtectedPrefixes_atomic:
  assumes "SetProtectedPrefixes P busy inp vals m d = (m', d', policy, Some e)"
  shows "m_protectedPolicy m' = m_protectedPolicy m \<and> m_protectedPrefixes m' = m_protectedPrefixes m \<and> m_protectedTrie m' = m_protectedTrie m \<and>
    m_index m' = m_index m \<and> m_snapshots m' = m_snapshots m \<and> m_policy m' = m_policy m \<and>
    (d' = d \<or> (\<exists>f. d' = d\<lparr>d_protected := f\<rparr>))"
  using assms
proof (cases rule: SetProtectedPrefixes_cases)
  case (rolledBack e' pf persisted prefixes i ready)
  then show ?thesis by (auto simp: markProtectionPolicyStatus_def Let_def)
qed auto

text \<open>
  An accepted change of the protected networks is in force at once:
  the networks in memory are the normalised input, the index no longer blocks any address in them
  and blocks the same addresses outside them, and the enforcement snapshot on disk, when there is an
  indicator, is the projection of that index under the new policy.
\<close>

lemma SetProtectedPrefixes_accepted:
  assumes "SetProtectedPrefixes P busy inp vals m d = (m', d', policy, None)" and "manager_ok (pf_sha P) m"
    and "m_index m = Some i" and "\<not> (\<exists>k. indicates (effectiveSnapshots m) mapped_base k ActionBlock)" and "0 < ix_indicators i"
  shows "(\<exists>strings. normalizeProtectedPrefixes vals = Inr (m_protectedPrefixes m', strings)) \<and>
    (\<exists>i' n es. m_index m' = Some i' \<and> d_enforcement d' = Stored n True (Decoded es) \<and> es_blockIndicators es = ix_blockIndicators i' \<and>
      es_protectionGenerationSHA256 es = pp_generationSHA256 (m_protectedPolicy m') \<and>
      (indicator_covers (ix_blockIndicators i') a \<longleftrightarrow>
        (\<exists>k. indicates (effectiveSnapshots m) a k ActionBlock) \<and> \<not> covered (m_protectedPrefixes m') a))"
  using assms(1)
proof (cases rule: SetProtectedPrefixes_cases)
  case (accepted prefixes i' ready pf ef)
  note p = prepareProtectedPrefixes_Inr [OF accepted(1)]
  have "ix_indicators i' = ix_indicators i"
    using p(3) assms(2,3) compileEnforcement_indicators by (fastforce simp: manager_ok_def index_ok_def compiledIndex_def)
  then have pos: "0 < ix_indicators i'" using assms(5) by simp
  have m': "m_protectedPrefixes m' = prefixes" "m_protectedPolicy m' = policy" "m_index m' = Some i'" "effectiveSnapshots m' = effectiveSnapshots m"
    using accepted(4) pos by (simp_all add: markProtectionPolicyStatus_def Let_def effectiveSnapshots_def)
  have "manager_ok (pf_sha P) m'" using SetProtectedPrefixes_ok [OF assms(1,2)] .
  from enforced_difference [OF this m'(3)] assms(4) m'(1,4)
  have "indicator_covers (ix_blockIndicators i') a \<longleftrightarrow> (\<exists>k. indicates (effectiveSnapshots m) a k ActionBlock) \<and> \<not> covered prefixes a" by simp
  moreover have "writeEnforcementSnapshot (pf_sha P) (pf_enforcementSize P) (pi_enforcementOK inp) (pi_now inp) (Some i') ready policy (d_enforcement d) = Inr ef"
    using accepted(3) pos by (simp add: publishEnforcement_def)
  then obtain n es where "ef = Stored n True (Decoded es)" "es_blockIndicators es = ix_blockIndicators i'"
      "es_protectionGenerationSHA256 es = pp_generationSHA256 policy"
    using writeEnforcementSnapshot_Inr(1) by blast
  ultimately show ?thesis using p(1) m' accepted(5) by simp
qed simp_all

section \<open>Nothing is forgotten\<close>

lemma acceptResults_mono:
  "as_lastSequence (au_state (fst s)) \<le> as_lastSequence (au_state (fst (acceptResults P inp rs s)))"
proof (induction rs arbitrary: s)
  case (Cons x rs)
  have up: "as_lastSequence (au_state (fst s)) \<le> as_lastSequence (au_state (fst (updateFeedAuthorityState enc ok doc s)))" for enc ok doc s
    by (cases doc) (auto simp: updateFeedAuthorityState_def Let_def split: prod.splits)
  show ?case
  proof (cases "snd x")
    case (Inl e)
    then show ?thesis using Cons.IH [of s] by (simp add: acceptResults_def case_prod_beta)
  next
    case (Inr sn)
    let ?s = "updateFeedAuthorityState (pf_authoritySize P) (si_authorityOK inp (s_key (fst x))) (sn_authority sn) s"
    have "acceptResults P inp (x # rs) s = acceptResults P inp rs ?s" using Inr by (simp add: acceptResults_def case_prod_beta)
    then show ?thesis using order_trans [OF up Cons.IH [of ?s]] by simp
  qed
qed (simp add: acceptResults_def)

lemma observeClock_mono:
  "0 < t \<Longrightarrow> ck_highWater c \<le> ck_highWater (fst (observeClock c t))"
  "ck_rollback c \<Longrightarrow> ck_rollback (fst (observeClock c t))"
  by (auto simp: observeClock_def)

definition memory_le :: "manager \<Rightarrow> manager \<Rightarrow> bool" where
  "memory_le m m' \<longleftrightarrow> ck_highWater (m_clock m) \<le> ck_highWater (m_clock m') \<and> (ck_rollback (m_clock m) \<longrightarrow> ck_rollback (m_clock m')) \<and>
     as_lastSequence (au_state (m_authority m)) \<le> as_lastSequence (au_state (m_authority m'))"

lemma memory_le_refl [simp]: "memory_le m m"
  by (simp add: memory_le_def)

lemma memory_le_trans: "memory_le m m' \<Longrightarrow> memory_le m' m'' \<Longrightarrow> memory_le m m''"
  unfolding memory_le_def by (meson order_trans)

lemma Sync_memory:
  assumes "Sync P nilContext busy inp m d = (m', d', r)" and "0 < si_attempt inp"
  shows "memory_le m m'"
  using assms(1)
proof (cases rule: Sync_cases)
  case (rollback e c)
  then show ?thesis using observeClock_mono [where t = "si_attempt inp" and c = "m_clock m"] assms(2) by (simp add: memory_le_def fail_def)
next
  case (commit c results files au af)
  have "as_lastSequence (au_state (m_authority m)) \<le> as_lastSequence (au_state au)"
    using acceptResults_mono [of "(m_authority m, d_authorityState d)" P inp results] commit(3) by simp
  then have "memory_le m (m\<lparr>m_clock := c, m_authority := au\<rparr>)"
    using observeClock_mono [where t = "si_attempt inp" and c = "m_clock m"] assms(2) commit(1) by (simp add: memory_le_def)
  moreover have "m_clock m' = c \<and> m_authority m' = au"
    using commit(4) by (cases rule: syncCommit_cases) (simp_all add: fail_def)
  ultimately show ?thesis by (simp add: memory_le_def)
qed simp

lemma step_memory:
  assumes "step P s s'"
  shows "memory_le (fst s) (fst s')"
  using assms
proof (cases rule: step.cases)
  case (protect busy inp vals m d m' d' policy err)
  from protect(3) have "m_clock m' = m_clock m \<and> m_authority m' = m_authority m"
    by (cases rule: SetProtectedPrefixes_cases) (auto simp: markProtectionPolicyStatus_def Let_def)
  then show ?thesis using protect(1,2) by (simp add: memory_le_def)
next
  case (actions busy inp changes reason m d m' d' r)
  from actions(3) have "m_clock m' = m_clock m \<and> m_authority m' = m_authority m"
    by (cases rule: SetFeedActions_cases) (auto simp: applyFeedPolicyToStatus_def)
  then show ?thesis using actions(1,2) by (simp add: memory_le_def)
next
  case (poll inp seconds m d m' d' r)
  from poll(3) have "m_clock m' = m_clock m \<and> m_authority m' = m_authority m"
    by (auto simp: SetPollingIntervalSeconds_def Let_def split: sum.splits)
  then show ?thesis using poll(1,2) by (simp add: memory_le_def)
qed (use Sync_memory in auto)

text \<open>
  C35 [memory_monotone]: over any sequence of operations the trusted clock never goes back, a detected
  clock rollback is never forgotten, and the highest accepted attestation sequence never decreases.
\<close>

theorem memory_monotone:
  assumes "steps P (m, d) (m', d')"
  shows "ck_highWater (m_clock m) \<le> ck_highWater (m_clock m') \<and> (clockRollbackDetected (m_clock m) \<longrightarrow> clockRollbackDetected (m_clock m')) \<and>
    as_lastSequence (au_state (m_authority m)) \<le> as_lastSequence (au_state (m_authority m'))"
proof -
  have "memory_le (fst s) (fst s')" if "steps P s s'" for s s'
    using that by (induction rule: steps.induct) (auto intro: memory_le_trans step_memory)
  from this [OF assms] show ?thesis by (simp add: memory_le_def clockRollbackDetected_def)
qed

section \<open>A sample service\<close>

text \<open>
  A concrete platform and state directory for the witnesses: every digest is 64 letters, one cached
  generation of the first feed blocks \<open>8.0.0.0/8\<close>, everything else is absent.
\<close>

definition samplePlatform :: platform where
  "samplePlatform = \<lparr>pf_sha = (\<lambda>s. sampleDigest), pf_hmac = (\<lambda>k s. sampleDigest), pf_protectedMAC = (\<lambda>k p. Some sampleDigest),
     pf_feedMAC = (\<lambda>k p. Some sampleDigest), pf_verify = (\<lambda>k s sig. True), pf_marshal = (\<lambda>x. []), pf_rfc3339Nano = (\<lambda>t. []),
     pf_rawStd = (\<lambda>s. None), pf_std = (\<lambda>s. None), pf_unmarshal = (\<lambda>s. None), pf_mediaType = (\<lambda>s. None),
     pf_protectedSize = (\<lambda>x. Some 90), pf_feedPolicySize = (\<lambda>x. Some 90), pf_sourceSize = (\<lambda>x. Some 90),
     pf_enforcementSize = (\<lambda>x. Some 90), pf_clockSize = (\<lambda>x. Some 90), pf_pollingSize = (\<lambda>x. Some 90),
     pf_authoritySize = (\<lambda>x. Some 90)\<rparr>"

definition sampleSnapshot :: "gotime \<Rightarrow> string list \<Rightarrow> sourceSnapshot" where
  "sampleSnapshot t indicators = \<lparr>sn_schemaVersion = SchemaVersion, sn_key = ''feodo'', sn_generatedUTC = t, sn_action = ActionBlock,
     sn_attribution = \<lparr>at_name = [], at_url = [], at_copyright = [], at_terms = [], at_sourceTimestampUnix = 0\<rparr>, sn_generationSHA256 = sampleDigest,
     sn_indicators = indicators, sn_authority = None\<rparr>"

definition sampleDisk :: disk where
  "sampleDisk = \<lparr>d_protected = Absent,
     d_sources = (\<lambda>k. if k = ''feodo'' then Stored 90 True (Decoded (sampleSnapshot (1000 * hour) [''8.0.0.0/8''])) else Absent),
     d_enforcement = Absent, d_clock = Absent, d_polling = Absent, d_feedPolicy = Absent, d_authorityState = Absent\<rparr>"

definition sampleStart :: start_input where
  "sampleStart = \<lparr>sr_absolute = True, sr_mkdirOK = True, sr_protectedKey = Inr (replicate 32 CHR ''k''),
     sr_feedPolicyKey = Inr (replicate 32 CHR ''k''), sr_keyring = Absent, sr_clockNow = 1000 * hour, sr_policyNow = 1000 * hour,
     sr_load = \<lparr>li_now = (\<lambda>k. 1000 * hour), li_verifyNow = (\<lambda>k. 1000 * hour), li_finish = 1000 * hour,
       li_removeOK = True, li_enforcementOK = True\<rparr>\<rparr>"

definition sampleState :: "manager \<times> disk" where
  "sampleState = projr (NewManager samplePlatform sampleStart sampleDisk)"

lemma sampleState_start: "NewManager samplePlatform sampleStart sampleDisk = Inr sampleState"
proof -
  have "isl (NewManager samplePlatform sampleStart sampleDisk) = False" by code_simp
  then show ?thesis by (cases "NewManager samplePlatform sampleStart sampleDisk") (simp_all add: sampleState_def)
qed

lemma sampleState_reachable: "reachable samplePlatform (fst sampleState, snd sampleState)"
  using reachable.start [OF sampleState_start] by simp

definition sampleIndex :: index where
  "sampleIndex = \<lparr>ix_v4 = [(8, [(Addr4 0x08000000, \<lparr>ie_action = ActionBlock, ie_sources = [''feodo'']\<rparr>)])], ix_v6 = [],
     ix_v4Lengths = [8], ix_v6Lengths = [], ix_generation = sampleDigest, ix_enforcementGeneration = sampleDigest,
     ix_indicators = 1, ix_blocking = 1, ix_correlation = 0, ix_annotation = 0, ix_rawBlockIndicators = [''8.0.0.0/8''],
     ix_blockIndicators = [''8.0.0.0/8'']\<rparr>"

definition enforcementView :: "manager \<Rightarrow> index option \<times> snapshots \<times> overrides \<times> prefix list" where
  "enforcementView m = (m_index m, m_snapshots m, m_overrides m, m_protectedPrefixes m)"

lemma sampleState_view:
  "enforcementView (fst sampleState) = (Some sampleIndex, [(''feodo'', sampleSnapshot (1000 * hour) [''8.0.0.0/8''])], [], [])"
  by code_simp

lemma sampleState_sel [simp]:
  "m_index (fst sampleState) = Some sampleIndex" "m_protectedPrefixes (fst sampleState) = []"
  "effectiveSnapshots (fst sampleState) = [(''feodo'', sampleSnapshot (1000 * hour) [''8.0.0.0/8''])]"
  using sampleState_view by (simp_all add: enforcementView_def effectiveSnapshots_def applyEffectiveActionsToSnapshots_def)

lemma sample_occurrences:
  "occurrences [(''feodo'', sampleSnapshot (1000 * hour) [''8.0.0.0/8''])] = [(''feodo'', ActionBlock, PrefixFrom (Addr4 0x08000000) 8)]"
  by code_simp

lemma sample_indicates:
  "\<not> (\<exists>k. indicates (effectiveSnapshots (fst sampleState)) mapped_base k ActionBlock)"
  "indicates (effectiveSnapshots (fst sampleState)) (Addr4 0x08080808) ''feodo'' ActionBlock"
proof -
  have c: "Contains (threat_canon (PrefixFrom (Addr4 0x08000000) 8)) mapped_base = False"
    "Contains (threat_canon (PrefixFrom (Addr4 0x08000000) 8)) (Addr4 0x08080808)" by code_simp+
  then show "\<not> (\<exists>k. indicates (effectiveSnapshots (fst sampleState)) mapped_base k ActionBlock)"
    "indicates (effectiveSnapshots (fst sampleState)) (Addr4 0x08080808) ''feodo'' ActionBlock"
    by (auto simp: indicates_def sample_occurrences)
qed

theorem reachable_enforced_witness: "indicator_covers (ix_blockIndicators sampleIndex) (Addr4 0x08080808)"
  using reachable_enforced [OF sampleState_reachable sampleState_sel(1) sample_indicates(1), of "Addr4 0x08080808"] sample_indicates(2) by auto

theorem lookup_agrees_witness:
  "mt_action (ManagerLookup (fst sampleState) (Addr6 0xFFFF08080808 ''eth0'')) = ActionBlock \<and>
   \<not> mt_protected (ManagerLookup (fst sampleState) (Addr6 0xFFFF08080808 ''eth0''))"
proof -
  have u: "unaliased (effectiveSnapshots (fst sampleState))" by (simp add: unaliased_def sample_occurrences)
  have "indicator_covers (ix_blockIndicators sampleIndex) (WithoutZone (Unmap (Addr6 0xFFFF08080808 ''eth0'')))"
    by code_simp
  then show ?thesis
    using lookup_agrees [OF sampleState_reachable sampleState_sel(1) _ u sample_indicates(1), of "Addr6 0xFFFF08080808 ''eth0''"]
    by simp
qed

section \<open>Sample runs\<close>

text \<open>A service with an empty state directory, and one synchronisation in which only the first feed answers.\<close>

definition emptyDisk :: disk where
  "emptyDisk = sampleDisk\<lparr>d_sources := (\<lambda>k. Absent)\<rparr>"

definition emptyState :: "manager \<times> disk" where
  "emptyState = projr (NewManager samplePlatform sampleStart emptyDisk)"

definition sampleWorker :: "fetch_answer \<Rightarrow> worker_input" where
  "sampleWorker answer = \<lparr>wi_cancelled = False, wi_answer = answer, wi_document = Absent, wi_now = 1001 * hour, wi_writeOK = True\<rparr>"

definition sampleSync :: "string \<Rightarrow> sync_input" where
  "sampleSync body = \<lparr>si_attempt = 1001 * hour,
     si_worker = (\<lambda>k. sampleWorker (if k = ''feodo'' then Answered \<lparr>hr_statusCode = 200, hr_contentType = [], hr_contentLength = -1,
       hr_body = body, hr_readOK = True, hr_closeOK = True\<rparr> else TransportFailed)),
     si_authorityOK = (\<lambda>k. True), si_removeOK = True, si_enforcementOK = True, si_clockOK = True\<rparr>"

definition syncedState :: "manager \<times> disk \<times> unit outcome" where
  "syncedState = Sync samplePlatform False False (sampleSync ''8.0.0.0/8'') (fst emptyState) (snd emptyState)"

lemma syncedState_ok: "snd (snd syncedState) = Inr ()"
  by code_simp

theorem Sync_success_witness:
  "list_all (\<lambda>(k, sn). \<not> snapshotExpired (m_polling (fst syncedState)) sn (1001 * hour)) (m_snapshots (fst syncedState)) \<and>
   (\<exists>i n es. m_index (fst syncedState) = Some i \<and> ix_blocking i = int (length (ix_blockIndicators i)) \<and> ix_blockIndicators i \<noteq> [] \<and>
      ix_blocking i \<le> maximumEnforcementIndicators \<and> d_enforcement (fst (snd syncedState)) = Stored n True (Decoded es) \<and>
      es_blockIndicators es = ix_blockIndicators i \<and> es_generationSHA256 es = ix_enforcementGeneration i \<and>
      es_protectionGenerationSHA256 es = pp_generationSHA256 (m_protectedPolicy (fst syncedState)) \<and> es_generatedUTC es = 1001 * hour)"
proof -
  have s: "si_attempt (sampleSync ''8.0.0.0/8'') = 1001 * hour" by (simp add: sampleSync_def)
  then have t: "si_attempt (sampleSync ''8.0.0.0/8'') \<noteq> 0" by (simp add: duration_defs)
  have "Sync samplePlatform False False (sampleSync ''8.0.0.0/8'') (fst emptyState) (snd emptyState) =
      (fst syncedState, fst (snd syncedState), Inr ())"
    using syncedState_ok by (metis prod.collapse syncedState_def)
  from Sync_success [OF this t] show ?thesis unfolding s .
qed

theorem Sync_failure_keeps_witness:
  "m_index (fst (Sync samplePlatform False False (sampleSync ''<html>'') (fst emptyState) (snd emptyState))) = m_index (fst emptyState)"
proof -
  let ?r = "Sync samplePlatform False False (sampleSync ''<html>'') (fst emptyState) (snd emptyState)"
  have "snd (snd ?r) = Inl (Err ''no validated blocking threat intelligence is available'')" by code_simp
  then have "?r = (fst ?r, fst (snd ?r), Inl (Err ''no validated blocking threat intelligence is available''))" by (metis prod.collapse)
  from Sync_failure_keeps [OF this] show ?thesis by blast
qed

theorem status_fail_closed_witness:
  "st_blockingIndicators (statusOf ((fst sampleState)\<lparr>m_clock := \<lparr>ck_highWater = 1000 * hour, ck_rollback = True\<rparr>\<rparr>) (990 * hour)) = 0"
  using status_fail_closed [of "(fst sampleState)\<lparr>m_clock := \<lparr>ck_highWater = 1000 * hour, ck_rollback = True\<rparr>\<rparr>" "990 * hour"]
  by (simp add: clockRollbackDetected_def)

theorem memory_monotone_witness:
  "ck_highWater (m_clock (fst emptyState)) \<le> ck_highWater (m_clock (fst syncedState))"
proof -
  have "0 < si_attempt (sampleSync ''8.0.0.0/8'')" by (simp add: sampleSync_def duration_defs)
  then have "step samplePlatform emptyState (fst syncedState, fst (snd syncedState))"
    by (intro step.sync [of _ False False _ "fst emptyState" "snd emptyState" _ _ "snd (snd syncedState)", simplified prod.collapse])
      (simp_all add: syncedState_def)
  then have "steps samplePlatform emptyState (fst syncedState, fst (snd syncedState))" by (metis steps.refl steps.snoc)
  then show ?thesis using memory_monotone [of samplePlatform "fst emptyState" "snd emptyState"] by simp
qed

end
