(* ===== verification/ThreatRuntime.thy ===== *)
theory ThreatRuntime
  imports ManagerRuns
begin

text \<open>
  \<open>internal/mhx/threat_runtime.go\<close> and \<open>internal/mhx/feed_policy.go\<close>: how the MHX engine hands the threat
  intelligence of the manager to the Windows firewall, and what it reports about it.

  An \<open>engine\<close> holds the fields of \<open>Engine\<close> that these files use: the manager with its state directory,
  the enforcement status, the evidence ledger and the pending wake-up of the scheduler. \<open>None\<close> stands
  for a nil engine or one without a manager. The firewall script is a parameter (\<open>rt_firewall\<close>): a
  function of the enforcement snapshot it reads and of the expected generation and count it is given.
  Whether the policy gate can be entered, and whether the n-th append to the ledger succeeds, are
  parameters too.
\<close>

section \<open>State\<close>

record firewallResult =
  fw_timestampUTC :: string
  fw_indicators :: int
  fw_rules :: int
  fw_shards :: int
  fw_generation :: string
  fw_mode :: string
  fw_cleanupPending :: bool
  fw_protectionGeneration :: string
  fw_protectedPrefixCount :: int

record threatEnforcementStatus =
  te_state :: string
  te_desiredGeneration :: string
  te_activeGeneration :: string
  te_indicators :: int
  te_rules :: int
  te_shards :: int
  te_mode :: string
  te_cleanupPending :: bool
  te_verifiedUTC :: gotime
  te_error :: string

type_synonym ledger_entry = "string \<times> string \<times> string"

record engine =
  eg_feeds :: manager
  eg_disk :: disk
  eg_enforcement :: threatEnforcementStatus
  eg_ledger :: "ledger_entry list"
  eg_appends :: nat
  eg_wake :: bool

record runtime_env =
  rt_platform :: platform
  rt_firewall :: "enforcementSnapshot stored \<Rightarrow> string \<Rightarrow> int \<Rightarrow> firewallResult outcome"
  rt_gateOK :: bool
  rt_ledgerOK :: "nat \<Rightarrow> bool"
  rt_statusNow :: gotime
  rt_verifiedNow :: gotime

text \<open>How \<open>NewEngine\<close> starts these fields.\<close>

definition newEngine :: "manager \<Rightarrow> disk \<Rightarrow> engine" where
  "newEngine m d = \<lparr>eg_feeds = m, eg_disk = d,
     eg_enforcement = \<lparr>te_state = ''UNVERIFIED'', te_desiredGeneration = [], te_activeGeneration = [], te_indicators = 0, te_rules = 0,
       te_shards = 0, te_mode = [], te_cleanupPending = False, te_verifiedUTC = 0, te_error = []\<rparr>,
     eg_ledger = [], eg_appends = 0, eg_wake = False\<rparr>"

text \<open>\<open>Ledger.Append\<close>: the entry is added unless the append fails.\<close>

definition ledgerAppend :: "runtime_env \<Rightarrow> ledger_entry \<Rightarrow> engine \<Rightarrow> engine \<times> bool" where
  "ledgerAppend env entry e =
     (let ok = rt_ledgerOK env (eg_appends e) in
      (e\<lparr>eg_appends := Suc (eg_appends e), eg_ledger := (if ok then eg_ledger e @ [entry] else eg_ledger e)\<rparr>, ok))"

text \<open>The method \<open>Engine.ledgerAppend\<close>, and the calls of \<open>Append\<close> whose error is ignored.\<close>

definition noteLedger :: "runtime_env \<Rightarrow> ledger_entry \<Rightarrow> engine \<Rightarrow> engine" where
  "noteLedger env entry e = fst (ledgerAppend env entry e)"

definition ledgerError :: goerr where "ledgerError = Err ''evidence ledger append failed''"

definition mhx_intelligence :: string where "mhx_intelligence = ''mhx.intelligence''"

section \<open>Enforcement\<close>

definition setThreatEnforcementApplying :: "status \<Rightarrow> engine \<Rightarrow> engine" where
  "setThreatEnforcementApplying status e = e\<lparr>eg_enforcement := (eg_enforcement e)\<lparr>te_state := ''APPLYING'',
     te_desiredGeneration := st_enforcementGeneration status, te_error := []\<rparr>\<rparr>"

definition setThreatEnforcementFailure :: "string \<Rightarrow> string \<Rightarrow> engine \<Rightarrow> engine" where
  "setThreatEnforcementFailure desiredGeneration reason e = e\<lparr>eg_enforcement := (eg_enforcement e)\<lparr>te_state := ''DEGRADED'',
     te_desiredGeneration := desiredGeneration, te_error := reason\<rparr>\<rparr>"

definition setThreatEnforcementVerified :: "gotime \<Rightarrow> status \<Rightarrow> firewallResult \<Rightarrow> engine \<Rightarrow> engine" where
  "setThreatEnforcementVerified now status result e = e\<lparr>eg_enforcement :=
     \<lparr>te_state = (if fw_cleanupPending result then ''VERIFIED_CLEANUP_PENDING'' else ''VERIFIED''),
      te_desiredGeneration = st_enforcementGeneration status, te_activeGeneration = fw_generation result,
      te_indicators = fw_indicators result, te_rules = fw_rules result, te_shards = fw_shards result,
      te_mode = fw_mode result, te_cleanupPending = fw_cleanupPending result, te_verifiedUTC = now, te_error = []\<rparr>\<rparr>"

definition verificationReasons :: "status \<Rightarrow> firewallResult \<Rightarrow> string list" where
  "verificationReasons status result =
     (if fw_indicators result \<noteq> st_blockingIndicators status
      then [''indicators mismatch ('' @ formatInt (fw_indicators result) @ '' != '' @ formatInt (st_blockingIndicators status) @ '')''] else []) @
     (if fw_generation result \<noteq> st_enforcementGeneration status
      then [''generation mismatch ('' @ fw_generation result @ '' != '' @ st_enforcementGeneration status @ '')''] else []) @
     (if fw_protectionGeneration result \<noteq> st_protectionGeneration status
      then [''protection generation mismatch ('' @ fw_protectionGeneration result @ '' != '' @ st_protectionGeneration status @ '')''] else []) @
     (if fw_protectedPrefixCount result \<noteq> st_protectedPrefixes status
      then [''protected prefixes mismatch ('' @ formatInt (fw_protectedPrefixCount result) @ '' != '' @ formatInt (st_protectedPrefixes status) @ '')''] else []) @
     (if fw_rules result \<le> 0 then [''rules <= 0''] else []) @
     (if fw_shards result \<le> 0 then [''shards <= 0''] else [])"

definition resultMismatch :: "status \<Rightarrow> firewallResult \<Rightarrow> bool" where
  "resultMismatch status result \<longleftrightarrow> fw_indicators result \<noteq> st_blockingIndicators status \<or>
     fw_generation result \<noteq> st_enforcementGeneration status \<or> fw_protectionGeneration result \<noteq> st_protectionGeneration status \<or>
     fw_protectedPrefixCount result \<noteq> st_protectedPrefixes status \<or> fw_rules result \<le> 0 \<or> fw_shards result \<le> 0"

definition applyThreatEnforcement :: "runtime_env \<Rightarrow> status \<Rightarrow> engine \<Rightarrow> engine \<times> unit outcome" where
  "applyThreatEnforcement env status e =
     (if st_blockingIndicators status \<le> 0 \<or> st_blockingFeedsTotal status \<le> 0 \<or>
         st_blockingFeedsReady status \<noteq> st_blockingFeedsTotal status \<or> length (st_enforcementGeneration status) \<noteq> 64
      then (noteLedger env (mhx_intelligence, ''enforcement-snapshot'', ''rejected'')
              (setThreatEnforcementFailure (st_enforcementGeneration status) ''threat intelligence enforcement snapshot is not ready'' e),
            Inl (Err ''threat intelligence enforcement snapshot is not ready''))
      else let e1 = setThreatEnforcementApplying status e in
        if \<not> rt_gateOK env
        then (setThreatEnforcementFailure (st_enforcementGeneration status) ''policy gate unavailable'' e1,
              Inl (Err ''threat-intelligence policy gate unavailable''))
        else let failed = (\<lambda>err. (noteLedger env (mhx_intelligence, ''firewall-enforcement'', ''failed'')
                   (setThreatEnforcementFailure (st_enforcementGeneration status) (err_text err) e1), Inl err)) in
          (case rt_firewall env (d_enforcement (eg_disk e1)) (st_enforcementGeneration status) (st_blockingIndicators status) of
             Inl err \<Rightarrow> failed err
           | Inr result \<Rightarrow>
               if resultMismatch status result
               then failed (Err (''firewall enforcement verification failed: '' @ Join (verificationReasons status result) '', ''))
               else let (e2, ok) = ledgerAppend env (mhx_intelligence, ''firewall-enforcement'', ''verified-'' @ map ascii_lower (fw_mode result))
                          (setThreatEnforcementVerified (rt_verifiedNow env) status result e1) in
                 (e2, if ok then Inr () else Inl ledgerError)))"

definition threatEnforcementNeedsReconcile :: "status \<Rightarrow> engine \<Rightarrow> bool" where
  "threatEnforcementNeedsReconcile status e =
     (if st_blockingIndicators status \<le> 0 \<or> st_blockingFeedsReady status \<noteq> st_blockingFeedsTotal status \<or>
         length (st_enforcementGeneration status) \<noteq> 64
      then False
      else te_activeGeneration (eg_enforcement e) \<noteq> st_enforcementGeneration status \<or>
        (te_state (eg_enforcement e) \<noteq> ''VERIFIED'' \<and> te_state (eg_enforcement e) \<noteq> ''VERIFIED_CLEANUP_PENDING''))"

abbreviation engineStatus :: "runtime_env \<Rightarrow> engine \<Rightarrow> status" where
  "engineStatus env e \<equiv> statusOf (eg_feeds e) (rt_statusNow env)"

definition SyncFeeds :: "runtime_env \<Rightarrow> bool \<Rightarrow> bool \<Rightarrow> sync_input \<Rightarrow> engine \<Rightarrow> engine \<times> unit outcome" where
  "SyncFeeds env nilContext busy inp e =
     (let (m, d, r) = Sync (rt_platform env) nilContext busy inp (eg_feeds e) (eg_disk e);
          e1 = e\<lparr>eg_feeds := m, eg_disk := d\<rparr> in
      case r of
        Inl err \<Rightarrow> (noteLedger env (mhx_intelligence, ''12h-sync'', ''failed'') e1, Inl err)
      | Inr u \<Rightarrow>
          (case applyThreatEnforcement env (engineStatus env e1) e1 of
             (e2, Inl err) \<Rightarrow> (e2, Inl err)
           | (e2, Inr u) \<Rightarrow>
               let (e3, ok) = ledgerAppend env (mhx_intelligence, ''12h-sync'', ''verified'') e2 in
               (e3, if ok then Inr () else Inl ledgerError)))"

section \<open>The scheduler\<close>

text \<open>
  The decisions of one round of \<open>intelligenceLoop\<close>. A round starts with a status and the current time;
  either a synchronisation or an enforcement attempt is due, or the loop sleeps for the delay.
\<close>

definition feedDue :: "gotime \<Rightarrow> status \<Rightarrow> bool" where
  "feedDue now status \<longleftrightarrow> st_nextSyncUTC status = 0 \<or> \<not> now < st_nextSyncUTC status"

definition enforcementDue :: "gotime \<Rightarrow> gotime \<Rightarrow> status \<Rightarrow> engine \<Rightarrow> bool" where
  "enforcementDue now enforcementRetryUTC status e \<longleftrightarrow>
     threatEnforcementNeedsReconcile status e \<and> (enforcementRetryUTC = 0 \<or> \<not> now < enforcementRetryUTC)"

definition enforcementRetry :: "gotime \<Rightarrow> status \<Rightarrow> engine \<Rightarrow> unit outcome \<Rightarrow> gotime" where
  "enforcementRetry now status e r =
     (case r of Inl err \<Rightarrow> if threatEnforcementNeedsReconcile status e then now + FailureRetryInterval else 0 | Inr u \<Rightarrow> 0)"

definition nextWake :: "gotime \<Rightarrow> status \<Rightarrow> engine \<Rightarrow> gotime" where
  "nextWake enforcementRetryUTC status e =
     (if threatEnforcementNeedsReconcile status e \<and> enforcementRetryUTC \<noteq> 0 \<and>
         (st_nextSyncUTC status = 0 \<or> enforcementRetryUTC < st_nextSyncUTC status)
      then enforcementRetryUTC else st_nextSyncUTC status)"

definition wakeDelay :: "gotime \<Rightarrow> gotime \<Rightarrow> duration" where
  "wakeDelay now wake = (let delay = time_sub wake now in if delay < 0 then 0 else delay)"

text \<open>\<open>wakeIntelligence\<close>: the channel holds at most one signal.\<close>

definition wakeIntelligence :: "engine \<Rightarrow> engine" where
  "wakeIntelligence e = e\<lparr>eg_wake := True\<rparr>"

section \<open>Operator requests\<close>

definition zeroPollingConfig :: polling_config where
  "zeroPollingConfig = \<lparr>pc_intervalSeconds = 0, pc_defaultIntervalSeconds = 0, pc_minIntervalSeconds = 0, pc_maxIntervalSeconds = 0,
     pc_source = [], pc_updatedUTC = 0, pc_lastAttemptUTC = 0, pc_lastSyncUTC = 0, pc_nextPollUTC = 0, pc_error = []\<rparr>"

definition ThreatIntelPolling :: "runtime_env \<Rightarrow> engine option \<Rightarrow> polling_config" where
  "ThreatIntelPolling env eo = (case eo of None \<Rightarrow> zeroPollingConfig
     | Some e \<Rightarrow> PollingConfig (Some (eg_feeds e)) (rt_statusNow env))"

text \<open>\<open>rollback\<close> is the second call of \<open>SetPollingIntervalSeconds\<close>, with its own answers.\<close>

definition SetThreatIntelPolling ::
    "runtime_env \<Rightarrow> bool \<Rightarrow> poll_input \<Rightarrow> poll_input \<Rightarrow> int \<Rightarrow> engine option \<Rightarrow> engine option \<times> polling_config \<times> goerr option" where
  "SetThreatIntelPolling env active inp rollback seconds eo =
     (case eo of
        None \<Rightarrow> (None, zeroPollingConfig, Some (Err ''threat intelligence manager unavailable''))
      | Some e \<Rightarrow>
          if \<not> active then (Some e, PollingConfig (Some (eg_feeds e)) (rt_statusNow env),
                            Some (Err ''threat intelligence polling update requires an active request''))
          else let previous = PollingConfig (Some (eg_feeds e)) (rt_statusNow env);
                   (m, d, config, err) = SetPollingIntervalSeconds (rt_platform env) inp seconds (eg_feeds e) (eg_disk e);
                   e1 = e\<lparr>eg_feeds := m, eg_disk := d\<rparr> in
            (case err of
               Some x \<Rightarrow> (Some (noteLedger env (mhx_intelligence, ''polling-interval'', ''rejected'') e1), previous, Some x)
             | None \<Rightarrow>
                 let (e2, ok) = ledgerAppend env (mhx_intelligence, ''polling-interval'', formatInt (pc_intervalSeconds config) @ ''s'') e1 in
                 if ok then (Some (wakeIntelligence e2), config, None)
                 else let (m', d', c', err') = SetPollingIntervalSeconds (rt_platform env) rollback (pc_intervalSeconds previous) (eg_feeds e2) (eg_disk e2);
                          e3 = e2\<lparr>eg_feeds := m', eg_disk := d'\<rparr> in
                   (case err' of
                      Some x \<Rightarrow> (Some e3, config, Some (Err ''threat intelligence polling evidence failed and rollback failed''))
                    | None \<Rightarrow> (Some e3, previous, Some (Err ''threat intelligence polling evidence failed'')))))"

definition SetProtectedNetworkPolicy ::
    "runtime_env \<Rightarrow> bool \<Rightarrow> bool \<Rightarrow> protect_input \<Rightarrow> string list \<Rightarrow> engine \<Rightarrow> engine \<times> protectedNetworkPolicy \<times> goerr option" where
  "SetProtectedNetworkPolicy env nilContext busy inp prefixes e =
     (if nilContext then (e, zeroProtectedPolicy, Some (Err ''protected network policy requires context''))
      else let (m, d, policy, err) = SetProtectedPrefixes (rt_platform env) busy inp prefixes (eg_feeds e) (eg_disk e);
               e1 = e\<lparr>eg_feeds := m, eg_disk := d\<rparr> in
        (case err of
           Some x \<Rightarrow> (noteLedger env (mhx_intelligence, ''protected-networks'', ''rejected'') e1, policy, Some x)
         | None \<Rightarrow>
             let status = engineStatus env e1 in
             if 0 < st_blockingIndicators status \<and> st_blockingFeedsReady status = st_blockingFeedsTotal status
             then (case applyThreatEnforcement env status e1 of
                 (e2, Inl x) \<Rightarrow> (noteLedger env (mhx_intelligence, ''protected-networks'', ''enforcement-pending'') e2, policy, Some x)
               | (e2, Inr u) \<Rightarrow> (noteLedger env (mhx_intelligence, ''protected-networks'', ''verified'') e2, policy, None))
             else (noteLedger env (mhx_intelligence, ''protected-networks'', ''verified'') e1, policy, None)))"

section \<open>Feed policy reports\<close>

definition maximumFeedPolicyUpdates :: int where "maximumFeedPolicyUpdates = 16"
definition minimumFeedPolicyReasonBytes :: int where "minimumFeedPolicyReasonBytes = 8"
definition maximumFeedPolicyReasonBytes :: int where "maximumFeedPolicyReasonBytes = 512"
definition feedPolicyDefaultSentinel :: string where "feedPolicyDefaultSentinel = ''DEFAULT''"

record feedActionUpdate =
  fu_feedID :: string
  fu_action :: string

record engineFeedPolicyLimits =
  el_maxUpdates :: int
  el_maxOverrides :: int
  el_maximumFeedIDBytes :: int
  el_minimumReasonBytes :: int
  el_maximumReasonBytes :: int
  el_allowedActions :: "action list"

record engineFeedPolicyEntry =
  ee_entry :: feedPolicyEntry
  ee_enforcement :: string

record engineFeedPolicySnapshot =
  ep_schemaVersion :: int
  ep_storeState :: string
  ep_storeError :: string
  ep_policyUpdatedUTC :: gotime
  ep_generation :: string
  ep_enforcementGeneration :: string
  ep_previousEnforcementGeneration :: string
  ep_enforcementChanged :: bool
  ep_activeGeneration :: string
  ep_enforcementState :: string
  ep_enforcementError :: string
  ep_wfpVerified :: bool
  ep_pending :: bool
  ep_warnings :: "string list"
  ep_limits :: engineFeedPolicyLimits
  ep_feeds :: "engineFeedPolicyEntry list"

definition defaultFeedPolicyLimits :: engineFeedPolicyLimits where
  "defaultFeedPolicyLimits = \<lparr>el_maxUpdates = maximumFeedPolicyUpdates, el_maxOverrides = lm_maxOverrides FeedPolicyLimitsForAPI,
     el_maximumFeedIDBytes = lm_maximumFeedIDBytes FeedPolicyLimitsForAPI, el_minimumReasonBytes = minimumFeedPolicyReasonBytes,
     el_maximumReasonBytes = maximumFeedPolicyReasonBytes, el_allowedActions = lm_allowedActions FeedPolicyLimitsForAPI\<rparr>"

definition stateVerified :: "string \<Rightarrow> bool" where
  "stateVerified st \<longleftrightarrow> st = ''VERIFIED'' \<or> st = ''VERIFIED_CLEANUP_PENDING''"

definition enforcementGenerationVerified :: "threatEnforcementStatus \<Rightarrow> string \<Rightarrow> int \<Rightarrow> bool" where
  "enforcementGenerationVerified enforcement desiredGeneration blockingIndicators \<longleftrightarrow>
     stateVerified (te_state enforcement) \<and> 0 < blockingIndicators \<and> desiredGeneration \<noteq> [] \<and>
     length (te_activeGeneration enforcement) = 64 \<and> te_activeGeneration enforcement = desiredGeneration"

text \<open>The fields that \<open>FeedPolicyEntry\<close> copies are the nested entry.\<close>

definition convertEntry :: "bool \<Rightarrow> feedPolicyEntry \<Rightarrow> engineFeedPolicyEntry" where
  "convertEntry verified entry = \<lparr>ee_entry = entry, ee_enforcement =
     (if en_blocking entry then (if verified then ''VERIFIED_BLOCK'' else ''PENDING_WFP_VERIFICATION'') else ''NOT_BLOCKING'')\<rparr>"

definition buildFeedPolicySnapshot :: "feedPolicySnapshot \<Rightarrow> threatEnforcementStatus \<Rightarrow> engineFeedPolicySnapshot" where
  "buildFeedPolicySnapshot base enforcement =
     (let verified = enforcementGenerationVerified enforcement (pn_enforcementGeneration base) (pn_blockingIndicators base);
          pending = 0 < pn_blockingIndicators base \<and> \<not> verified in
      \<lparr>ep_schemaVersion = pn_schemaVersion base, ep_storeState = pn_storeState base, ep_storeError = pn_storeError base,
       ep_policyUpdatedUTC = pn_updatedUTC base, ep_generation = pn_generation base,
       ep_enforcementGeneration = pn_enforcementGeneration base, ep_previousEnforcementGeneration = [], ep_enforcementChanged = False,
       ep_activeGeneration = te_activeGeneration enforcement, ep_enforcementState = te_state enforcement,
       ep_enforcementError = te_error enforcement, ep_wfpVerified = verified, ep_pending = pending,
       ep_warnings = (if pn_storeState base = ''INVALID_DEFAULT''
           then [''persisted feed policy is unreadable; catalog defaults are active and the invalid store was preserved for forensics''] else []) @
         (if pending then [''blocking authority is not reported effective until the active WFP generation verifies'' @
           (if te_state enforcement = [] then [] else '' (enforcement state '' @ take 64 (te_state enforcement) @ '')'')] else []),
       ep_limits = defaultFeedPolicyLimits, ep_feeds = map (convertEntry verified) (pn_entries base)\<rparr>)"

definition unavailableFeedPolicy :: engineFeedPolicySnapshot where
  "unavailableFeedPolicy = \<lparr>ep_schemaVersion = FeedPolicySchemaVersion, ep_storeState = ''UNAVAILABLE'', ep_storeError = [],
     ep_policyUpdatedUTC = 0, ep_generation = [], ep_enforcementGeneration = [], ep_previousEnforcementGeneration = [],
     ep_enforcementChanged = False, ep_activeGeneration = [], ep_enforcementState = ''UNAVAILABLE'', ep_enforcementError = [],
     ep_wfpVerified = False, ep_pending = False, ep_warnings = [''threat intelligence manager unavailable''],
     ep_limits = defaultFeedPolicyLimits, ep_feeds = []\<rparr>"

definition EngineFeedPolicy :: "runtime_env \<Rightarrow> engine option \<Rightarrow> engineFeedPolicySnapshot" where
  "EngineFeedPolicy env eo = (case eo of
     None \<Rightarrow> unavailableFeedPolicy
   | Some e \<Rightarrow> buildFeedPolicySnapshot (FeedPolicy (Some (eg_feeds e)) (rt_statusNow env)) (eg_enforcement e))"

text \<open>\<open>utf8.ValidString\<close>, on the bytes of a string.\<close>

abbreviation continuation :: "nat \<Rightarrow> bool" where
  "continuation b \<equiv> 0x80 \<le> b \<and> b \<le> 0xBF"

fun utf8_tail :: "nat \<Rightarrow> nat list \<Rightarrow> nat list option" where
  "utf8_tail 0 bs = Some bs"
| "utf8_tail (Suc k) [] = None"
| "utf8_tail (Suc k) (b # bs) = (if continuation b then utf8_tail k bs else None)"

text \<open>For a leading byte: the range of the second byte and the number of bytes after it.\<close>

definition utf8_lead :: "nat \<Rightarrow> (nat \<times> nat \<times> nat) option" where
  "utf8_lead b =
     (if 0xC2 \<le> b \<and> b \<le> 0xDF then Some (0x80, 0xBF, 0)
      else if b = 0xE0 then Some (0xA0, 0xBF, 1)
      else if b = 0xED then Some (0x80, 0x9F, 1)
      else if 0xE1 \<le> b \<and> b \<le> 0xEF then Some (0x80, 0xBF, 1)
      else if b = 0xF0 then Some (0x90, 0xBF, 2)
      else if 0xF1 \<le> b \<and> b \<le> 0xF3 then Some (0x80, 0xBF, 2)
      else if b = 0xF4 then Some (0x80, 0x8F, 2)
      else None)"

lemma utf8_tail_length: "utf8_tail k bs = Some rest \<Longrightarrow> length rest \<le> length bs"
  by (induction k bs rule: utf8_tail.induct) (auto split: if_splits)

function validUTF8 :: "nat list \<Rightarrow> bool" where
  "validUTF8 [] = True"
| "validUTF8 (b # bs) =
     (if b < 0x80 then validUTF8 bs
      else case utf8_lead b of
          None \<Rightarrow> False
        | Some (lo, hi, left) \<Rightarrow>
            (case bs of
               [] \<Rightarrow> False
             | c # cs \<Rightarrow> lo \<le> c \<and> c \<le> hi \<and> (case utf8_tail left cs of None \<Rightarrow> False | Some rest \<Rightarrow> validUTF8 rest)))"
  by pat_completeness auto
termination
  by (relation "measure length") (auto dest!: utf8_tail_length)

definition validateFeedPolicyReason :: "(string \<Rightarrow> string) \<Rightarrow> string \<Rightarrow> (string \<times> string) outcome" where
  "validateFeedPolicyReason sha reason =
     (let trimmed = TrimSpace reason in
      if int (length trimmed) < minimumFeedPolicyReasonBytes \<or> maximumFeedPolicyReasonBytes < int (length trimmed)
      then Inl (Err ''feed policy reason must be 8..512 bytes'')
      else if \<not> validUTF8 (map byte trimmed) then Inl (Err ''feed policy reason is not valid UTF-8'')
      else if list_ex (\<lambda>c. byte c < 0x20 \<or> byte c = 0x7F) trimmed then Inl (Err ''feed policy reason contains control characters'')
      else Inr (trimmed, sha trimmed))"

text \<open>\<open>strings.ToUpper\<close> on ASCII letters; no other rune becomes a letter of an action name.\<close>

definition ascii_upper :: "char \<Rightarrow> char" where
  "ascii_upper c = (if 97 \<le> byte c \<and> byte c \<le> 122 then char_of (byte c - 32) else c)"

definition normalizeFeedAction :: "string \<Rightarrow> action option outcome" where
  "normalizeFeedAction value =
     (let normalized = map ascii_upper (TrimSpace value) in
      if normalized = feedPolicyDefaultSentinel then Inr None
      else if normalized = ActionBlock then Inr (Some ActionBlock)
      else if normalized = ActionCorrelateOnly then Inr (Some ActionCorrelateOnly)
      else if normalized = ActionAnnotateOnly then Inr (Some ActionAnnotateOnly)
      else Inl (Err ''unsupported feed authority action''))"

definition feedPolicyRequestSummary :: "feedActionUpdate list \<Rightarrow> string" where
  "feedPolicyRequestSummary updates =
     take 240 (Join (map (\<lambda>u. TrimSpace (fu_feedID u) @ ''='' @ map ascii_upper (TrimSpace (fu_action u))) updates) '','')"

text \<open>The loop over the requested updates.\<close>

fun collectUpdates :: "string list \<Rightarrow> feedActionUpdate list \<Rightarrow> feedActionChange list outcome" where
  "collectUpdates seen [] = Inr []"
| "collectUpdates seen (u # us) =
     (let feedID = TrimSpace (fu_feedID u) in
      if feedID = [] \<or> MaximumFeedIDBytes < int (length feedID) then Inl (Err ''feed policy feed identifier rejected'')
      else if feedID \<in> set seen then Inl (Err ''duplicate feed policy entry'')
      else bind_outcome (normalizeFeedAction (fu_action u)) (\<lambda>act.
           bind_outcome (collectUpdates (feedID # seen) us) (\<lambda>rest. Inr (\<lparr>fc_feedKey = feedID, fc_action = act\<rparr> # rest))))"

definition zeroEngineSnapshot :: engineFeedPolicySnapshot where
  "zeroEngineSnapshot = unavailableFeedPolicy\<lparr>ep_schemaVersion := 0, ep_storeState := [], ep_enforcementState := [], ep_warnings := [],
     ep_limits := \<lparr>el_maxUpdates = 0, el_maxOverrides = 0, el_maximumFeedIDBytes = 0, el_minimumReasonBytes = 0,
       el_maximumReasonBytes = 0, el_allowedActions = []\<rparr>\<rparr>"

definition feed_policy_kind :: string where "feed_policy_kind = ''threat-intelligence.feed-policy''"

text \<open>What the change leads to after the manager accepted it: the synchronous attempt to verify it.\<close>

definition enforceChange :: "runtime_env \<Rightarrow> engine \<Rightarrow> engine" where
  "enforceChange env e =
     (let status = engineStatus env e in
      if 0 < st_blockingIndicators status
      then (case applyThreatEnforcement env status e of
          (e1, Inl x) \<Rightarrow> noteLedger env (feed_policy_kind, ''change'', ''pending-wfp-verification'') e1
        | (e1, Inr u) \<Rightarrow> noteLedger env (feed_policy_kind, ''change'', ''verified'') e1)
      else noteLedger env (feed_policy_kind, ''change'', ''pending-no-validated-blocking'') e)"

definition EngineSetFeedActions ::
    "runtime_env \<Rightarrow> bool \<Rightarrow> bool \<Rightarrow> action_input \<Rightarrow> feedActionUpdate list \<Rightarrow> string \<Rightarrow> engine option \<Rightarrow>
     engine option \<times> engineFeedPolicySnapshot \<times> goerr option" where
  "EngineSetFeedActions env active busy inp updates reason eo =
     (case eo of
        None \<Rightarrow> (None, zeroEngineSnapshot, Some (Err ''threat intelligence manager unavailable''))
      | Some e \<Rightarrow>
          let reject = (\<lambda>e err. (Some e, EngineFeedPolicy env (Some e), Some err));
              rejected = noteLedger env (feed_policy_kind, ''request'', ''rejected'') in
          if \<not> active then reject e (Err ''feed policy update requires an active request'')
          else if updates = [] \<or> maximumFeedPolicyUpdates < int (length updates)
          then reject e (Err ''feed policy update count must be 1..16'')
          else (case validateFeedPolicyReason (pf_sha (rt_platform env)) reason of
             Inl err \<Rightarrow> reject (rejected e) err
           | Inr (trimmed, reasonDigest) \<Rightarrow>
               (case collectUpdates [] updates of
                  Inl err \<Rightarrow> reject (rejected e) err
                | Inr changes \<Rightarrow>
                    let previous = pn_enforcementGeneration (FeedPolicy (Some (eg_feeds e)) (rt_statusNow env));
                        (e1, ok) = ledgerAppend env (feed_policy_kind, ''request'',
                          feedPolicyRequestSummary updates @ '';reason-sha256='' @ reasonDigest) e in
                    if \<not> ok then reject e1 (Err ''feed policy evidence preflight failed'')
                    else let (m, d, r) = SetFeedActions (rt_platform env) busy inp changes reasonDigest (eg_feeds e1) (eg_disk e1);
                             e2 = e1\<lparr>eg_feeds := m, eg_disk := d\<rparr> in
                      (case r of
                         Inl err \<Rightarrow> reject (noteLedger env (feed_policy_kind, ''change'', ''rejected'') e2) err
                       | Inr snapshot \<Rightarrow>
                           let e3 = wakeIntelligence (enforceChange env e2);
                               result = EngineFeedPolicy env (Some e3) in
                           (Some e3, result\<lparr>ep_previousEnforcementGeneration := previous,
                              ep_enforcementChanged := previous \<noteq> ep_enforcementGeneration result\<rparr>, None)))))"

section \<open>What verification means\<close>

lemma noteLedger_sel [simp]:
  "eg_feeds (noteLedger env x e) = eg_feeds e" "eg_disk (noteLedger env x e) = eg_disk e"
  "eg_enforcement (noteLedger env x e) = eg_enforcement e"
  "eg_feeds (fst (ledgerAppend env x e)) = eg_feeds e" "eg_disk (fst (ledgerAppend env x e)) = eg_disk e"
  "eg_enforcement (fst (ledgerAppend env x e)) = eg_enforcement e"
  by (simp_all add: noteLedger_def ledgerAppend_def Let_def)

lemma wakeIntelligence_sel [simp]:
  "eg_feeds (wakeIntelligence e) = eg_feeds e" "eg_disk (wakeIntelligence e) = eg_disk e"
  "eg_enforcement (wakeIntelligence e) = eg_enforcement e"
  by (simp_all add: wakeIntelligence_def)

definition readyStatus :: "status \<Rightarrow> bool" where
  "readyStatus status \<longleftrightarrow> 0 < st_blockingIndicators status \<and> 0 < st_blockingFeedsTotal status \<and>
     st_blockingFeedsReady status = st_blockingFeedsTotal status \<and> length (st_enforcementGeneration status) = 64"

lemma applyThreatEnforcement_cases:
  assumes "applyThreatEnforcement env status e = (e', r)"
  obtains (rejected) err where "\<not> readyStatus status \<or> \<not> rt_gateOK env \<or>
        (\<forall>result. rt_firewall env (d_enforcement (eg_disk e)) (st_enforcementGeneration status) (st_blockingIndicators status) = Inr result \<longrightarrow>
          resultMismatch status result)"
      and "r = Inl err" and "eg_feeds e' = eg_feeds e" and "eg_disk e' = eg_disk e"
      and "te_state (eg_enforcement e') = ''DEGRADED''" and "te_activeGeneration (eg_enforcement e') = te_activeGeneration (eg_enforcement e)"
  | (verified) result where "readyStatus status"
      and "rt_firewall env (d_enforcement (eg_disk e)) (st_enforcementGeneration status) (st_blockingIndicators status) = Inr result"
      and "\<not> resultMismatch status result" and "eg_feeds e' = eg_feeds e" and "eg_disk e' = eg_disk e"
      and "eg_enforcement e' = eg_enforcement (setThreatEnforcementVerified (rt_verifiedNow env) status result e)" and "r = Inr () \<or> r = Inl ledgerError"
proof (cases "readyStatus status \<and> rt_gateOK env")
  case False
  then show ?thesis
    using assms rejected by (fastforce simp: applyThreatEnforcement_def readyStatus_def setThreatEnforcementFailure_def
      setThreatEnforcementApplying_def Let_def not_le split: if_splits)
next
  case True
  then have ready: "\<not> (st_blockingIndicators status \<le> 0 \<or> st_blockingFeedsTotal status \<le> 0 \<or>
      st_blockingFeedsReady status \<noteq> st_blockingFeedsTotal status \<or> length (st_enforcementGeneration status) \<noteq> 64)"
    by (auto simp: readyStatus_def)
  have disk: "eg_disk (setThreatEnforcementApplying status e) = eg_disk e" by (simp add: setThreatEnforcementApplying_def)
  show ?thesis
  proof (cases "rt_firewall env (d_enforcement (eg_disk e)) (st_enforcementGeneration status) (st_blockingIndicators status)")
    case (Inl err)
    then show ?thesis using assms ready True disk
      by (intro rejected [of err]) (auto simp: applyThreatEnforcement_def setThreatEnforcementFailure_def setThreatEnforcementApplying_def Let_def)
  next
    case (Inr result)
    show ?thesis
    proof (cases "resultMismatch status result")
      case mm: True
      then show ?thesis using assms ready True disk Inr rejected
        by (auto simp: applyThreatEnforcement_def setThreatEnforcementFailure_def setThreatEnforcementApplying_def Let_def)
    next
      case False
      then show ?thesis using assms ready True disk Inr
        by (intro verified [of result]) (auto simp: applyThreatEnforcement_def ledgerAppend_def setThreatEnforcementVerified_def
          setThreatEnforcementApplying_def Let_def split: if_splits)
    qed
  qed
qed

text \<open>
  C8 [applied_is_verified]: the engine reports an enforcement generation as applied only when all blocking
  feeds are ready and the firewall confirmed exactly the generation, the number of indicators, the
  protected-network generation and the number of protected prefixes of the status, in at least one
  rule and one shard. Then, and only then, the active generation becomes that generation.
\<close>

theorem applied_is_verified:
  assumes "applyThreatEnforcement env status e = (e', Inr ())"
  shows "readyStatus status \<and> (\<exists>result.
    rt_firewall env (d_enforcement (eg_disk e)) (st_enforcementGeneration status) (st_blockingIndicators status) = Inr result \<and>
    fw_indicators result = st_blockingIndicators status \<and> fw_generation result = st_enforcementGeneration status \<and>
    fw_protectionGeneration result = st_protectionGeneration status \<and> fw_protectedPrefixCount result = st_protectedPrefixes status \<and>
    0 < fw_rules result \<and> 0 < fw_shards result \<and> stateVerified (te_state (eg_enforcement e')) \<and>
    te_activeGeneration (eg_enforcement e') = st_enforcementGeneration status)"
  using assms
  by (cases rule: applyThreatEnforcement_cases) (auto simp: resultMismatch_def setThreatEnforcementVerified_def stateVerified_def)

text \<open>
  C9 [withdrawn_never_enforced]: when the clock was turned back, or when a feed with blocking authority is
  older than the hard freshness limit, the engine does not touch the firewall: whatever the firewall
  would answer, the attempt is rejected, the enforcement state is degraded and the active
  generation stays what it was.
\<close>

theorem withdrawn_never_enforced:
  assumes "clockRollbackDetected (m_clock (eg_feeds e)) \<or>
    list_ex (\<lambda>fs. sourceByKey (f_key fs) \<noteq> None \<and> effectiveAction (m_overrides (eg_feeds e)) (f_key fs) = ActionBlock \<and>
      feedStale (eg_feeds e) (rt_statusNow env) fs) (st_feeds (m_status (eg_feeds e)))"
  shows "\<exists>e'. (\<forall>f. applyThreatEnforcement (env\<lparr>rt_firewall := f\<rparr>) (engineStatus env e) e =
      (e', Inl (Err ''threat intelligence enforcement snapshot is not ready''))) \<and>
    te_state (eg_enforcement e') = ''DEGRADED'' \<and> te_activeGeneration (eg_enforcement e') = te_activeGeneration (eg_enforcement e)"
proof -
  have "st_blockingIndicators (engineStatus env e) = 0" using statusOf_withdraws [OF assms] by simp
  then show ?thesis
    by (simp add: applyThreatEnforcement_def noteLedger_def ledgerAppend_def Let_def setThreatEnforcementFailure_def)
qed

section \<open>The engine runs the manager\<close>

text \<open>One operation of the engine on the threat intelligence, with any answers of the outside world.\<close>

inductive engine_step :: "platform \<Rightarrow> engine \<Rightarrow> engine \<Rightarrow> bool" for P where
  sync: "SyncFeeds env nilContext busy inp e = (e', r) \<Longrightarrow> rt_platform env = P \<Longrightarrow> 0 < si_attempt inp \<Longrightarrow> engine_step P e e'"
| enforce: "applyThreatEnforcement env (engineStatus env e) e = (e', r) \<Longrightarrow> rt_platform env = P \<Longrightarrow> engine_step P e e'"
| poll: "SetThreatIntelPolling env active inp rollback seconds (Some e) = (Some e', c, err) \<Longrightarrow> rt_platform env = P \<Longrightarrow> engine_step P e e'"
| protect: "SetProtectedNetworkPolicy env nilContext busy inp prefixes e = (e', policy, err) \<Longrightarrow> rt_platform env = P \<Longrightarrow> engine_step P e e'"
| actions: "EngineSetFeedActions env active busy inp updates reason (Some e) = (Some e', sn, err) \<Longrightarrow> rt_platform env = P \<Longrightarrow> engine_step P e e'"

inductive engine_reachable :: "platform \<Rightarrow> engine \<Rightarrow> bool" for P where
  start: "NewManager P inp d = Inr (m, d') \<Longrightarrow> engine_reachable P (newEngine m d')"
| again: "engine_reachable P e \<Longrightarrow> engine_step P e e' \<Longrightarrow> engine_reachable P e'"

definition enforcement_ok :: "threatEnforcementStatus \<Rightarrow> bool" where
  "enforcement_ok te \<longleftrightarrow> (stateVerified (te_state te) \<longrightarrow> te_activeGeneration te = te_desiredGeneration te \<and>
     length (te_activeGeneration te) = 64 \<and> 0 < te_indicators te \<and> 0 < te_rules te \<and> 0 < te_shards te \<and> te_error te = [])"

lemma apply_engine:
  assumes "applyThreatEnforcement env status e = (e', r)"
  shows "eg_feeds e' = eg_feeds e" and "eg_disk e' = eg_disk e" and "enforcement_ok (eg_enforcement e')"
  using assms
  by (cases rule: applyThreatEnforcement_cases;
      auto simp: enforcement_ok_def stateVerified_def setThreatEnforcementVerified_def resultMismatch_def readyStatus_def)+

abbreviation engineState :: "engine \<Rightarrow> manager \<times> disk" where
  "engineState e \<equiv> (eg_feeds e, eg_disk e)"

lemma reachable_steps: "steps P s s' \<Longrightarrow> reachable P s \<Longrightarrow> reachable P s'"
  by (induction rule: steps.induct) (auto intro: reachable.again)

lemma step_steps: "step P s s' \<Longrightarrow> steps P s s'"
  by (metis steps.refl steps.snoc)

lemma steps_trans: "steps P s s' \<Longrightarrow> steps P s' s'' \<Longrightarrow> steps P s s''"
  by (rotate_tac, induction rule: steps.induct) (auto intro: steps.snoc)

text \<open>Every operation of the engine is a run of the manager and keeps the enforcement status consistent.\<close>

definition engine_move :: "platform \<Rightarrow> engine \<Rightarrow> engine \<Rightarrow> bool" where
  "engine_move P e e' \<longleftrightarrow> steps P (engineState e) (engineState e') \<and>
     (enforcement_ok (eg_enforcement e) \<longrightarrow> enforcement_ok (eg_enforcement e'))"

lemma engine_move_same:
  "eg_feeds e' = eg_feeds e \<Longrightarrow> eg_disk e' = eg_disk e \<Longrightarrow> eg_enforcement e' = eg_enforcement e \<Longrightarrow> engine_move P e e'"
  by (simp add: engine_move_def steps.refl)

lemma engine_move_step:
  "step P (engineState e) (m, d) \<Longrightarrow> engine_move P e (e\<lparr>eg_feeds := m, eg_disk := d\<rparr>)"
  by (simp add: engine_move_def step_steps)

lemma engine_move_trans [trans]: "engine_move P e e' \<Longrightarrow> engine_move P e' e'' \<Longrightarrow> engine_move P e e''"
  using steps_trans by (auto simp: engine_move_def)

lemma engine_move_apply: "applyThreatEnforcement env status e = (e', r) \<Longrightarrow> engine_move P e e'"
  using apply_engine by (simp add: engine_move_def steps.refl)

lemma engine_move_note: "engine_move P e e' \<Longrightarrow> engine_move P e (noteLedger env x e')"
  "engine_move P e e' \<Longrightarrow> engine_move P e (fst (ledgerAppend env x e'))" "engine_move P e e' \<Longrightarrow> engine_move P e (wakeIntelligence e')"
  by (simp_all add: engine_move_def)

lemma SyncFeeds_move:
  assumes "SyncFeeds env nilContext busy inp e = (e', r)" and "0 < si_attempt inp"
  shows "engine_move (rt_platform env) e e'"
proof -
  obtain m d r0 where sy: "Sync (rt_platform env) nilContext busy inp (eg_feeds e) (eg_disk e) = (m, d, r0)" by (metis prod_cases3)
  let ?e1 = "e\<lparr>eg_feeds := m, eg_disk := d\<rparr>"
  have mv: "engine_move (rt_platform env) e ?e1" using engine_move_step step.sync [OF sy assms(2)] by blast
  obtain e2 r2 where ap: "applyThreatEnforcement env (engineStatus env ?e1) ?e1 = (e2, r2)" by fastforce
  note mv2 = engine_move_trans [OF mv engine_move_apply [OF ap]]
  obtain e3 ok where la: "ledgerAppend env (mhx_intelligence, ''12h-sync'', ''verified'') e2 = (e3, ok)" by fastforce
  have mv3: "engine_move (rt_platform env) e e3" using engine_move_note(2) [OF mv2] la by (metis fst_conv)
  show ?thesis using assms(1) sy ap la mv mv2 mv3 engine_move_note
    by (cases r0; cases r2) (auto simp: SyncFeeds_def Let_def)
qed

lemma SetProtectedNetworkPolicy_move:
  assumes "SetProtectedNetworkPolicy env nilContext busy inp prefixes e = (e', policy, err)"
  shows "engine_move (rt_platform env) e e'"
proof (cases nilContext)
  case True
  then show ?thesis using assms by (simp add: SetProtectedNetworkPolicy_def engine_move_same)
next
  case False
  obtain m d p0 err0 where pr: "SetProtectedPrefixes (rt_platform env) busy inp prefixes (eg_feeds e) (eg_disk e) = (m, d, p0, err0)"
    by (metis prod_cases4)
  let ?e1 = "e\<lparr>eg_feeds := m, eg_disk := d\<rparr>"
  have mv: "engine_move (rt_platform env) e ?e1" using engine_move_step step.protect [OF pr] by blast
  obtain e2 r2 where ap: "applyThreatEnforcement env (engineStatus env ?e1) ?e1 = (e2, r2)" by fastforce
  note mv2 = engine_move_trans [OF mv engine_move_apply [OF ap]]
  show ?thesis using assms pr ap mv mv2 engine_move_note False
    by (cases err0; cases r2) (auto simp: SetProtectedNetworkPolicy_def Let_def split: if_splits)
qed

lemma SetThreatIntelPolling_move:
  assumes "SetThreatIntelPolling env active inp rollback seconds (Some e) = (Some e', c, err)"
  shows "engine_move (rt_platform env) e e'"
proof (cases active)
  case False
  then show ?thesis using assms by (simp add: SetThreatIntelPolling_def engine_move_same)
next
  case True
  obtain m d c0 err0 where p1: "SetPollingIntervalSeconds (rt_platform env) inp seconds (eg_feeds e) (eg_disk e) = (m, d, c0, err0)"
    by (metis prod_cases4)
  let ?e1 = "e\<lparr>eg_feeds := m, eg_disk := d\<rparr>"
  have mv: "engine_move (rt_platform env) e ?e1" using engine_move_step step.poll [OF p1] by blast
  obtain e2 ok where ap: "ledgerAppend env (mhx_intelligence, ''polling-interval'', formatInt (pc_intervalSeconds c0) @ ''s'') ?e1 = (e2, ok)" by fastforce
  have mv2: "engine_move (rt_platform env) e e2" using engine_move_note(2) [OF mv] ap by (metis fst_conv)
  let ?prev = "pc_intervalSeconds (PollingConfig (Some (eg_feeds e)) (rt_statusNow env))"
  obtain m' d' c' err' where p2: "SetPollingIntervalSeconds (rt_platform env) rollback ?prev (eg_feeds e2) (eg_disk e2) = (m', d', c', err')"
    by (metis prod_cases4)
  have mv3: "engine_move (rt_platform env) e (e2\<lparr>eg_feeds := m', eg_disk := d'\<rparr>)"
    using engine_move_trans [OF mv2 engine_move_step [OF step.poll [OF p2]]] .
  show ?thesis using assms p1 ap p2 mv mv2 mv3 engine_move_note True
    by (cases err0; cases ok; cases err') (auto simp: SetThreatIntelPolling_def Let_def)
qed

lemma enforceChange_move: "engine_move P e (enforceChange env e)"
proof -
  obtain e1 r1 where "applyThreatEnforcement env (engineStatus env e) e = (e1, r1)" by fastforce
  then show ?thesis using engine_move_apply engine_move_same engine_move_note(1)
    by (cases r1) (auto simp: enforceChange_def Let_def)
qed

lemma EngineSetFeedActions_move:
  assumes "EngineSetFeedActions env active busy inp updates reason (Some e) = (Some e', sn, err)"
  shows "engine_move (rt_platform env) e e'"
proof (cases "\<not> active \<or> updates = [] \<or> maximumFeedPolicyUpdates < int (length updates)")
  case True
  then have "e' = e" using assms by (cases active) (simp_all add: EngineSetFeedActions_def Let_def)
  then show ?thesis by (simp add: engine_move_same)
next
  case open_request: False
  show ?thesis
  proof (cases "validateFeedPolicyReason (pf_sha (rt_platform env)) reason")
    case (Inl x)
    then show ?thesis using assms open_request by (auto simp: EngineSetFeedActions_def Let_def engine_move_same)
  next
    case reason: (Inr td)
    obtain trimmed digest where td: "td = (trimmed, digest)" by fastforce
    show ?thesis
    proof (cases "collectUpdates [] updates")
      case (Inl x)
      then show ?thesis using assms open_request reason td by (auto simp: EngineSetFeedActions_def Let_def engine_move_same)
    next
      case changes: (Inr changes)
      let ?entry = "(feed_policy_kind, ''request'', feedPolicyRequestSummary updates @ '';reason-sha256='' @ digest)"
      obtain e1 ok where ap: "ledgerAppend env ?entry e = (e1, ok)" by fastforce
      have "e1 = fst (ledgerAppend env ?entry e)" using ap by simp
      then have mv1: "engine_move (rt_platform env) e e1" by (simp add: engine_move_same)
      obtain m d r where act: "SetFeedActions (rt_platform env) busy inp changes digest (eg_feeds e1) (eg_disk e1) = (m, d, r)"
        by (metis prod_cases3)
      note mv2 = engine_move_trans [OF mv1 engine_move_step [OF step.actions [OF act]]]
      note mv3 = engine_move_trans [OF mv2 enforceChange_move]
      show ?thesis
      proof (cases "ok \<and> \<not> isl r")
        case True
        then show ?thesis using assms open_request reason td changes ap act engine_move_note(3) [OF mv3]
          by (cases r) (simp_all add: EngineSetFeedActions_def Let_def, metis)
      next
        case False
        then show ?thesis using assms open_request reason td changes ap act mv1 engine_move_note(1) [OF mv2]
          by (cases ok; cases r) (auto simp: EngineSetFeedActions_def Let_def)
      qed
    qed
  qed
qed

lemma engine_step_move:
  assumes "engine_step P e e'"
  shows "engine_move P e e'"
  using assms
proof (cases rule: engine_step.cases)
  case sync
  then show ?thesis using SyncFeeds_move by blast
next
  case enforce
  then show ?thesis using engine_move_apply by blast
next
  case poll
  then show ?thesis using SetThreatIntelPolling_move by blast
next
  case protect
  then show ?thesis using SetProtectedNetworkPolicy_move by blast
next
  case actions
  then show ?thesis using EngineSetFeedActions_move by blast
qed

lemma newEngine_ok: "enforcement_ok (eg_enforcement (newEngine m d))"
  by (simp add: newEngine_def enforcement_ok_def stateVerified_def)

lemma engine_invariant:
  assumes "engine_reachable P e"
  shows "reachable P (eg_feeds e, eg_disk e) \<and> enforcement_ok (eg_enforcement e)"
  using assms
proof (induction rule: engine_reachable.induct)
  case (start inp d m d')
  then show ?case using reachable.start newEngine_ok by (simp add: newEngine_def)
next
  case (again e e')
  then show ?case using engine_step_move [OF again(2)] reachable_steps by (auto simp: engine_move_def)
qed

text \<open>
  C7 [engine_refines_manager]: every state the engine can reach holds a state of the threat intelligence
  that the manager alone can reach, so what is proved of the manager's runs holds inside the engine;
  and whenever the enforcement status says verified, the active generation is the desired one, a
  full digest, with at least one indicator, rule and shard and no error.
\<close>

theorem engine_refines_manager:
  assumes "engine_reachable P e"
  shows "reachable P (eg_feeds e, eg_disk e) \<and> enforcement_ok (eg_enforcement e)"
  using engine_invariant [OF assms] .

section \<open>What the policy report promises\<close>

lemma policyEntry_blocking:
  "en_feedKey (policyEntry os feeds src) = s_key src"
  "en_blocking (policyEntry os feeds src) \<longleftrightarrow> en_effectiveAction (policyEntry os feeds src) = ActionBlock"
  by (simp_all add: policyEntry_def Let_def split: option.splits)

lemma policyEntry_effective:
  assumes "sourceByKey (s_key src) = Some src"
  shows "en_effectiveAction (policyEntry os feeds src) = effectiveAction os (s_key src)"
  using assms by (simp add: policyEntry_def effectiveAction_def Let_def split: option.splits)

lemma FeedPolicy_sel:
  "pn_blockingIndicators (FeedPolicy (Some m) now) = (case m_index m of None \<Rightarrow> 0 | Some i \<Rightarrow> ix_blocking i)"
  "pn_enforcementGeneration (FeedPolicy (Some m) now) =
     (case m_index m of None \<Rightarrow> [] | Some i \<Rightarrow> if 0 < ix_blocking i then ix_enforcementGeneration i else [])"
  "pn_entries (FeedPolicy (Some m) now) = map (policyEntry (m_overrides m) (st_feeds (Status (Some m) now))) catalog"
  by (simp_all add: FeedPolicy_def emptyPolicySnapshot_def Let_def split: option.splits)

lemma wfpVerified_iff:
  "ep_wfpVerified (EngineFeedPolicy env (Some e)) \<longleftrightarrow>
     (\<exists>i. m_index (eg_feeds e) = Some i \<and> 0 < ix_blocking i \<and> stateVerified (te_state (eg_enforcement e)) \<and>
       te_activeGeneration (eg_enforcement e) = ix_enforcementGeneration i \<and> length (ix_enforcementGeneration i) = 64)"
  by (auto simp: EngineFeedPolicy_def buildFeedPolicySnapshot_def enforcementGenerationVerified_def FeedPolicy_sel Let_def split: option.splits if_splits)

lemma EngineFeedPolicy_entry:
  assumes "x \<in> set (ep_feeds (EngineFeedPolicy env (Some e)))"
  obtains src where "src \<in> set catalog" and "ee_entry x = policyEntry (m_overrides (eg_feeds e)) (st_feeds (Status (Some (eg_feeds e)) (rt_statusNow env))) src"
    and "ee_enforcement x = ''VERIFIED_BLOCK'' \<longleftrightarrow> en_blocking (ee_entry x) \<and> ep_wfpVerified (EngineFeedPolicy env (Some e))"
  using assms by (auto simp: EngineFeedPolicy_def buildFeedPolicySnapshot_def FeedPolicy_sel Let_def convertEntry_def split: if_splits)

text \<open>
  C10 [verified_block_honest]: a feed is reported as a verified block only when the policy gives it blocking
  authority and the generation of the present index, with at least one blocking indicator, is the
  one that the firewall last confirmed in at least one rule and one shard. The hypotheses are the
  invariants of the manager and of the enforcement status, which every reachable engine keeps.
\<close>

theorem verified_block_honest:
  assumes "manager_ok (pf_sha P) (eg_feeds e)" and "enforcement_ok (eg_enforcement e)"
    and "x \<in> set (ep_feeds (EngineFeedPolicy env (Some e)))" and "ee_enforcement x = ''VERIFIED_BLOCK''"
  shows "effectiveAction (m_overrides (eg_feeds e)) (en_feedKey (ee_entry x)) = ActionBlock \<and>
    (\<exists>i. m_index (eg_feeds e) = Some i \<and> ix_blockIndicators i \<noteq> [] \<and>
      te_activeGeneration (eg_enforcement e) = ix_enforcementGeneration i \<and>
      te_desiredGeneration (eg_enforcement e) = ix_enforcementGeneration i \<and>
      0 < te_rules (eg_enforcement e) \<and> 0 < te_shards (eg_enforcement e) \<and> te_error (eg_enforcement e) = [])"
proof -
  obtain src where src: "src \<in> set catalog"
      "ee_entry x = policyEntry (m_overrides (eg_feeds e)) (st_feeds (Status (Some (eg_feeds e)) (rt_statusNow env))) src"
      "en_blocking (ee_entry x)" "ep_wfpVerified (EngineFeedPolicy env (Some e))"
    using EngineFeedPolicy_entry [OF assms(3)] assms(4) by metis
  obtain i where i: "m_index (eg_feeds e) = Some i" "0 < ix_blocking i" "stateVerified (te_state (eg_enforcement e))"
      "te_activeGeneration (eg_enforcement e) = ix_enforcementGeneration i"
    using src(4) by (auto simp: wfpVerified_iff)
  have "index_ok (pf_sha P) (eg_feeds e)" using assms(1) by (simp add: manager_ok_def)
  then have "ix_blocking i = int (length (ix_blockIndicators i))"
    using i(1) by (auto simp: index_ok_def compiledIndex_def dest: compileEnforcement_blocking)
  then show ?thesis using src i assms(2) sourceByKey_iff [of "s_key src" src]
    by (auto simp: policyEntry_blocking policyEntry_effective enforcement_ok_def)
qed

text \<open>
  C11 [rollback_still_reported_verified]: a synchronisation that detects a turned back clock withdraws the
  enforcement (its snapshot is removed and the status reports no blocking indicator), but the
  policy report still calls the old generation verified by the firewall.
\<close>

theorem rollback_still_reported_verified:
  assumes "ep_wfpVerified (EngineFeedPolicy env (Some e))" and "ck_highWater (m_clock (eg_feeds e)) \<noteq> 0"
    and "si_attempt inp + feedClockTolerance < ck_highWater (m_clock (eg_feeds e))" and "si_removeOK inp"
    and "SyncFeeds env False False inp e = (e', r)"
  shows "isl r \<and> d_enforcement (eg_disk e') = Absent \<and> st_blockingIndicators (engineStatus env e') = 0 \<and>
    ep_wfpVerified (EngineFeedPolicy env (Some e'))"
proof -
  let ?m = "fail (si_attempt inp) ((eg_feeds e)\<lparr>m_clock := (m_clock (eg_feeds e))\<lparr>ck_rollback := True\<rparr>\<rparr>)"
  have obs: "observeClock (m_clock (eg_feeds e)) (si_attempt inp) = ((m_clock (eg_feeds e))\<lparr>ck_rollback := True\<rparr>, True)"
    using assms(2,3) by (simp add: observeClock_def)
  obtain err where e': "r = Inl err" "eg_feeds e' = ?m" "d_enforcement (eg_disk e') = removeFile True (d_enforcement (eg_disk e))"
      "eg_enforcement e' = eg_enforcement e"
    using assms(4,5) obs by (auto simp: SyncFeeds_def Sync_def Let_def)
  have "clockRollbackDetected (m_clock (eg_feeds e'))" by (simp add: e'(2) fail_def clockRollbackDetected_def Let_def)
  then have "st_blockingIndicators (engineStatus env e') = 0" using statusOf_withdraws by blast
  then show ?thesis using assms(1) e' by (auto simp: wfpVerified_iff fail_def Let_def removeFile_def)
qed

section \<open>A sample engine\<close>

text \<open>The sample service under an engine whose firewall confirms the sample generation.\<close>

definition sampleResult :: firewallResult where
  "sampleResult = \<lparr>fw_timestampUTC = [], fw_indicators = 1, fw_rules = 1, fw_shards = 1, fw_generation = sampleDigest, fw_mode = ''WFP'',
     fw_cleanupPending = False, fw_protectionGeneration = sampleDigest, fw_protectedPrefixCount = 0\<rparr>"

definition sampleRuntime :: runtime_env where
  "sampleRuntime = \<lparr>rt_platform = samplePlatform, rt_firewall = (\<lambda>f g n. Inr sampleResult), rt_gateOK = True, rt_ledgerOK = (\<lambda>n. True),
     rt_statusNow = 1001 * hour, rt_verifiedNow = 1001 * hour\<rparr>"

definition sampleReadyStatus :: status where
  "sampleReadyStatus = (m_status (fst sampleState))\<lparr>st_blockingIndicators := 1, st_blockingFeedsTotal := 1, st_blockingFeedsReady := 1,
     st_enforcementGeneration := sampleDigest, st_protectionGeneration := sampleDigest, st_protectedPrefixes := 0\<rparr>"

definition sampleEngine :: engine where
  "sampleEngine = newEngine ((fst sampleState)\<lparr>m_clock := \<lparr>ck_highWater = 1000 * hour, ck_rollback = False\<rparr>\<rparr>) (snd sampleState)"

definition verifiedEngine :: engine where
  "verifiedEngine = fst (applyThreatEnforcement sampleRuntime sampleReadyStatus sampleEngine)"

lemma sampleDigest_length: "length sampleDigest = 64"
  by code_simp

lemma sample_applied: "applyThreatEnforcement sampleRuntime sampleReadyStatus sampleEngine = (verifiedEngine, Inr ())"
  by (simp add: verifiedEngine_def applyThreatEnforcement_def ledgerAppend_def sampleRuntime_def sampleReadyStatus_def sampleResult_def
      resultMismatch_def sampleDigest_length Let_def)

theorem applied_is_verified_witness:
  "readyStatus sampleReadyStatus \<and> stateVerified (te_state (eg_enforcement verifiedEngine)) \<and>
   te_activeGeneration (eg_enforcement verifiedEngine) = sampleDigest"
  using applied_is_verified [OF sample_applied] by (auto simp: sampleReadyStatus_def)

theorem withdrawn_never_enforced_witness:
  "te_state (eg_enforcement (fst (applyThreatEnforcement sampleRuntime (engineStatus sampleRuntime
     (sampleEngine\<lparr>eg_feeds := (eg_feeds sampleEngine)\<lparr>m_clock := \<lparr>ck_highWater = 1000 * hour, ck_rollback = True\<rparr>\<rparr>\<rparr>))
     (sampleEngine\<lparr>eg_feeds := (eg_feeds sampleEngine)\<lparr>m_clock := \<lparr>ck_highWater = 1000 * hour, ck_rollback = True\<rparr>\<rparr>\<rparr>)))) = ''DEGRADED''"
proof -
  let ?e = "sampleEngine\<lparr>eg_feeds := (eg_feeds sampleEngine)\<lparr>m_clock := \<lparr>ck_highWater = 1000 * hour, ck_rollback = True\<rparr>\<rparr>\<rparr>"
  have "clockRollbackDetected (m_clock (eg_feeds ?e))" by (simp add: clockRollbackDetected_def)
  then obtain e' where e': "\<forall>f. applyThreatEnforcement (sampleRuntime\<lparr>rt_firewall := f\<rparr>) (engineStatus sampleRuntime ?e) ?e =
      (e', Inl (Err ''threat intelligence enforcement snapshot is not ready''))" "te_state (eg_enforcement e') = ''DEGRADED''"
    using withdrawn_never_enforced [of ?e sampleRuntime] by blast
  have "sampleRuntime\<lparr>rt_firewall := rt_firewall sampleRuntime\<rparr> = sampleRuntime" by simp
  then show ?thesis using e' by (metis fst_conv)
qed

theorem engine_refines_manager_witness:
  "reachable samplePlatform (eg_feeds (newEngine (fst sampleState) (snd sampleState)), eg_disk (newEngine (fst sampleState) (snd sampleState)))"
proof -
  have "engine_reachable samplePlatform (newEngine (fst sampleState) (snd sampleState))"
    using engine_reachable.start sampleState_start by (metis prod.collapse)
  from engine_refines_manager [OF this] show ?thesis by blast
qed

lemma verifiedEngine_feeds: "eg_feeds verifiedEngine = (fst sampleState)\<lparr>m_clock := \<lparr>ck_highWater = 1000 * hour, ck_rollback = False\<rparr>\<rparr>"
  using apply_engine(1) [OF sample_applied] by (simp add: sampleEngine_def newEngine_def)

lemma verifiedEngine_status:
  "stateVerified (te_state (eg_enforcement verifiedEngine))" "te_activeGeneration (eg_enforcement verifiedEngine) = sampleDigest"
  using sample_applied
  by (cases rule: applyThreatEnforcement_cases;
      auto simp: sampleRuntime_def sampleReadyStatus_def sampleResult_def setThreatEnforcementVerified_def stateVerified_def)+

lemmas verifiedEngine_sel = verifiedEngine_feeds verifiedEngine_status apply_engine(3) [OF sample_applied]

lemma verifiedEngine_reported: "ep_wfpVerified (EngineFeedPolicy env (Some verifiedEngine))"
  by (simp add: wfpVerified_iff verifiedEngine_sel sampleIndex_def sampleDigest_length)

lemma verifiedEngine_manager: "manager_ok (pf_sha samplePlatform) (eg_feeds verifiedEngine)"
  using reachable_manager_ok [OF sampleState_reachable] by (simp add: verifiedEngine_sel)

lemma verifiedEngine_entries:
  "ep_feeds (EngineFeedPolicy env (Some verifiedEngine)) = map (\<lambda>src. convertEntry True (policyEntry [] (st_feeds (Status (Some (eg_feeds verifiedEngine)) (rt_statusNow env))) src)) catalog"
  using verifiedEngine_reported [of env] sampleState_view
  by (simp add: EngineFeedPolicy_def buildFeedPolicySnapshot_def FeedPolicy_sel Let_def verifiedEngine_sel enforcementView_def)

theorem verified_block_honest_witness:
  "\<exists>i. m_index (eg_feeds verifiedEngine) = Some i \<and> te_activeGeneration (eg_enforcement verifiedEngine) = ix_enforcementGeneration i \<and>
     0 < te_rules (eg_enforcement verifiedEngine)"
proof -
  let ?x = "hd (ep_feeds (EngineFeedPolicy sampleRuntime (Some verifiedEngine)))"
  have "catalog \<noteq> []" by (simp add: catalog_def)
  then have x: "?x \<in> set (ep_feeds (EngineFeedPolicy sampleRuntime (Some verifiedEngine)))"
      "?x = convertEntry True (policyEntry [] (st_feeds (Status (Some (eg_feeds verifiedEngine)) (rt_statusNow sampleRuntime))) (hd catalog))"
    by (simp_all add: verifiedEngine_entries hd_map)
  have "ee_enforcement ?x = ''VERIFIED_BLOCK''" unfolding x(2)
    by (simp add: convertEntry_def policyEntry_blocking policyEntry_def catalog_def feed_def Let_def split: option.splits)
  from verified_block_honest [OF verifiedEngine_manager verifiedEngine_sel(4) x(1) this] show ?thesis by blast
qed

theorem rollback_still_reported_verified_witness:
  "st_blockingIndicators (engineStatus sampleRuntime (fst (SyncFeeds sampleRuntime False False ((sampleSync [])\<lparr>si_attempt := 990 * hour\<rparr>) verifiedEngine))) = 0 \<and>
   ep_wfpVerified (EngineFeedPolicy sampleRuntime (Some (fst (SyncFeeds sampleRuntime False False ((sampleSync [])\<lparr>si_attempt := 990 * hour\<rparr>) verifiedEngine))))"
  using rollback_still_reported_verified [OF verifiedEngine_reported _ _ _ prod.collapse [symmetric],
    of "(sampleSync [])\<lparr>si_attempt := 990 * hour\<rparr>" sampleRuntime]
  by (simp add: verifiedEngine_sel duration_defs feedClockTolerance_def sampleSync_def)

end
