(* ===== verification/BoundedLog.thy ===== *)
theory BoundedLog
  imports Prelude
begin

text \<open>
  The interface of a bounded first-in first-out log. Several components of the engine keep the newest
  elements of a stream in a slice of fixed capacity that they overwrite in a round: the samples of a
  traffic source, the tracked sources themselves and the keys of a deduplication table. Each of them
  interprets the locale \<open>bounded_log\<close>, which says what such a slice remembers.
\<close>

section \<open>The interface\<close>

text \<open>The last \<open>n\<close> elements of a list.\<close>

definition lastn :: "nat \<Rightarrow> 'a list \<Rightarrow> 'a list" where
  "lastn n xs = drop (length xs - n) xs"

lemma length_lastn [simp]: "length (lastn n xs) = min n (length xs)"
  by (auto simp: lastn_def)

lemma lastn_all: "length xs \<le> n \<Longrightarrow> lastn n xs = xs"
  by (simp add: lastn_def)

lemma lastn_snoc:
  "0 < n \<Longrightarrow> lastn n (xs @ [x]) = (if length xs < n then xs @ [x] else tl (lastn n xs) @ [x])"
  by (auto simp: lastn_def Suc_diff_le tl_drop drop_Suc [symmetric] simp flip: drop_Suc)

lemma lastn_lastn: "lastn n (lastn n xs) = lastn n xs"
  by (simp add: lastn_def)

lemma set_lastn: "set (lastn n xs) \<subseteq> set xs"
  by (auto simp: lastn_def dest: in_set_dropD)

locale bounded_log =
  fixes cap :: nat
    and ok :: "'s \<Rightarrow> bool"
    and contents :: "'s \<Rightarrow> 'a list"
    and push :: "'a \<Rightarrow> 's \<Rightarrow> 's"
  assumes cap_pos: "0 < cap"
    and push_ok: "ok s \<Longrightarrow> ok (push x s)"
    and push_contents: "ok s \<Longrightarrow> contents (push x s) = (if length (contents s) < cap then contents s else tl (contents s)) @ [x]"
    and contents_bound: "ok s \<Longrightarrow> length (contents s) \<le> cap"
begin

lemma pushes_ok: "ok s \<Longrightarrow> ok (fold push xs s)"
  by (induction xs arbitrary: s) (simp_all add: push_ok)

text \<open>The log remembers the newest elements, as many as fit, in the order of their arrival.\<close>

lemma contents_lastn: "ok s \<Longrightarrow> contents s = lastn cap ys \<Longrightarrow> contents (push x s) = lastn cap (ys @ [x])"
  using cap_pos by (simp add: push_contents lastn_snoc lastn_all)

lemma pushes_contents: "ok s \<Longrightarrow> contents (fold push xs s) = lastn cap (contents s @ xs)"
proof (induction xs rule: rev_induct)
  case Nil
  then show ?case using contents_bound by (simp add: lastn_all)
next
  case (snoc x xs)
  then show ?case using contents_lastn [OF pushes_ok] by simp
qed

text \<open>An element stays until as many newer ones arrived as fit.\<close>

lemma push_keeps: "ok s \<Longrightarrow> length xs < cap \<Longrightarrow> x \<in> set (contents (fold push xs (push x s)))"
proof -
  assume s: "ok s" and l: "length xs < cap"
  have "contents (fold push (x # xs) s) = lastn cap (contents s @ x # xs)" using pushes_contents [OF s, of "x # xs"] by simp
  moreover have "x \<in> set (lastn cap (contents s @ x # xs))" using l by (auto simp: lastn_def)
  ultimately show ?thesis by simp
qed

end

section \<open>Rings\<close>

text \<open>A full slice with the position that is overwritten next, read from the oldest element.\<close>

definition ring :: "nat \<Rightarrow> 'a list \<Rightarrow> 'a list" where
  "ring i xs = drop i xs @ take i xs"

lemma ring_0 [simp]: "ring 0 xs = xs"
  by (simp add: ring_def)

lemma length_ring [simp]: "length (ring i xs) = length xs"
  by (simp add: ring_def)

lemma set_ring [simp]: "set (ring i xs) = set xs"
  unfolding ring_def by (metis append_take_drop_id set_append sup_commute)

lemma mset_ring [simp]: "mset (ring i xs) = mset xs"
  unfolding ring_def by (metis append_take_drop_id mset_append union_commute)

lemma map_ring: "map f (ring i xs) = ring i (map f xs)"
  by (simp add: ring_def drop_map take_map)

lemma ring_hd: "i < length xs \<Longrightarrow> hd (ring i xs) = xs ! i"
  by (simp add: ring_def hd_drop_conv_nth)

lemma ring_put:
  assumes "i < length xs"
  shows "ring (Suc i mod length xs) (xs[i := x]) = tl (ring i xs) @ [x]"
proof -
  have tl: "tl (ring i xs) = drop (Suc i) xs @ take i xs"
    using assms by (simp add: ring_def Cons_nth_drop_Suc [symmetric])
  have tk: "take (Suc i) (xs[i := x]) = take i xs @ [x]" using assms by (simp add: take_Suc_conv_app_nth)
  show ?thesis
  proof (cases "Suc i = length xs")
    case True
    then show ?thesis using tl tk by (metis append_Nil drop_all le_refl length_list_update mod_self ring_0 take_all)
  next
    case False
    then show ?thesis using assms tl tk by (simp add: ring_def)
  qed
qed

lemma distinct_ring [simp]: "distinct (ring i xs) = distinct xs"
  unfolding ring_def by (metis append_take_drop_id distinct_append inf_commute)

end
