(* ===== verification/KineticMonitor.thy ===== *)
theory KineticMonitor
  imports BoundedLog NetipText "HOL-Library.AList" "HOL-Library.Product_Lexorder"
begin

text \<open>
  \<open>internal/kinetic\<close>: the observer of blocked inbound connections (\<open>monitor.go\<close>) and its configuration
  (\<open>config.go\<close>).

  The Go map \<open>sources\<close> is an association list, the counters are 64-bit words, ports 16-bit words, and the
  positions in the fixed sample array are natural numbers; an index out of range is a panic.
  The monitor is never nil: \<open>NewEngine\<close> creates it.
\<close>

section \<open>Configuration\<close>

definition maxSources :: nat where "maxSources = 2048"
definition maxSamplesPerSource :: nat where "maxSamplesPerSource = 32"

definition DefaultBurstWindowSeconds :: int where "DefaultBurstWindowSeconds = 10"
definition DefaultMinEvents :: int where "DefaultMinEvents = 12"
definition DefaultMinDistinctPorts :: int where "DefaultMinDistinctPorts = 3"
definition DefaultAutoDisarmSeconds :: int where "DefaultAutoDisarmSeconds = 0"
definition MinBurstWindowSeconds :: int where "MinBurstWindowSeconds = 2"
definition MaxBurstWindowSeconds :: int where "MaxBurstWindowSeconds = 300"
definition MinEvents :: int where "MinEvents = 3"
definition MaxEvents :: int where "MaxEvents = int maxSamplesPerSource"
definition MinDistinctPorts :: int where "MinDistinctPorts = 2"
definition MaxDistinctPorts :: int where "MaxDistinctPorts = 16"
definition MinAutoDisarmSeconds :: int where "MinAutoDisarmSeconds = 5 * 60"
definition MaxAutoDisarmSeconds :: int where "MaxAutoDisarmSeconds = 7 * 24 * 60 * 60"
definition AutoDisarmDisabled :: int where "AutoDisarmDisabled = 0"

lemmas kinetic_limits = MinBurstWindowSeconds_def MaxBurstWindowSeconds_def MinEvents_def MaxEvents_def MinDistinctPorts_def
  MaxDistinctPorts_def MinAutoDisarmSeconds_def MaxAutoDisarmSeconds_def AutoDisarmDisabled_def maxSamplesPerSource_def

record kineticConfig =
  kc_burstWindowSeconds :: int
  kc_minEvents :: int
  kc_minDistinctPorts :: int
  kc_autoDisarmSeconds :: int

definition DefaultConfig :: kineticConfig where
  "DefaultConfig = \<lparr>kc_burstWindowSeconds = DefaultBurstWindowSeconds, kc_minEvents = DefaultMinEvents,
     kc_minDistinctPorts = DefaultMinDistinctPorts, kc_autoDisarmSeconds = DefaultAutoDisarmSeconds\<rparr>"

record kineticLimits =
  kl_burstWindowSeconds :: "int \<times> int"
  kl_minEvents :: "int \<times> int"
  kl_minDistinctPorts :: "int \<times> int"
  kl_autoDisarmSeconds :: "int \<times> int"
  kl_autoDisarmDisabledValue :: int

definition Limits :: kineticLimits where
  "Limits = \<lparr>kl_burstWindowSeconds = (MinBurstWindowSeconds, MaxBurstWindowSeconds), kl_minEvents = (MinEvents, MaxEvents),
     kl_minDistinctPorts = (MinDistinctPorts, MaxDistinctPorts), kl_autoDisarmSeconds = (MinAutoDisarmSeconds, MaxAutoDisarmSeconds),
     kl_autoDisarmDisabledValue = AutoDisarmDisabled\<rparr>"

definition outside :: "string \<Rightarrow> int \<Rightarrow> int \<Rightarrow> int \<Rightarrow> string" where
  "outside field v lo hi = ''kinetic config: '' @ field @ '' '' @ formatInt v @ '' outside ['' @ formatInt lo @ '','' @ formatInt hi @ '']''"

definition ValidateConfig :: "kineticConfig \<Rightarrow> unit outcome" where
  "ValidateConfig c =
     (if kc_burstWindowSeconds c < MinBurstWindowSeconds \<or> MaxBurstWindowSeconds < kc_burstWindowSeconds c
      then Inl (Err (outside ''burstWindowSeconds'' (kc_burstWindowSeconds c) MinBurstWindowSeconds MaxBurstWindowSeconds))
      else if kc_minEvents c < MinEvents \<or> MaxEvents < kc_minEvents c
      then Inl (Err (outside ''minEvents'' (kc_minEvents c) MinEvents MaxEvents))
      else if kc_minDistinctPorts c < MinDistinctPorts \<or> MaxDistinctPorts < kc_minDistinctPorts c
      then Inl (Err (outside ''minDistinctPorts'' (kc_minDistinctPorts c) MinDistinctPorts MaxDistinctPorts))
      else if kc_minEvents c < kc_minDistinctPorts c
      then Inl (Err ''kinetic config: minDistinctPorts must not exceed minEvents'')
      else if kc_autoDisarmSeconds c \<noteq> AutoDisarmDisabled \<and>
              (kc_autoDisarmSeconds c < MinAutoDisarmSeconds \<or> MaxAutoDisarmSeconds < kc_autoDisarmSeconds c)
      then Inl (Err (outside ''autoDisarmSeconds'' (kc_autoDisarmSeconds c) MinAutoDisarmSeconds MaxAutoDisarmSeconds @
             '' or disabled value '' @ formatInt AutoDisarmDisabled))
      else Inr ())"

definition BurstWindow :: "kineticConfig \<Rightarrow> duration" where
  "BurstWindow c = kc_burstWindowSeconds c * second"

definition AutoDisarm :: "kineticConfig \<Rightarrow> duration" where
  "AutoDisarm c = kc_autoDisarmSeconds c * second"

section \<open>State\<close>

type_synonym port = "16 word"
type_synonym counter = "64 word"

record ksource =
  so_samples :: "(gotime \<times> port) list"
  so_next :: nat
  so_count :: nat
  so_last :: gotime
  so_reported :: bool
  so_hits :: counter
  so_portless :: counter
  so_lastSeen :: gotime
  so_lastPort :: port

definition emptySource :: ksource where
  "emptySource = \<lparr>so_samples = replicate maxSamplesPerSource (0, 0), so_next = 0, so_count = 0, so_last = 0, so_reported = False,
     so_hits = 0, so_portless = 0, so_lastSeen = 0, so_lastPort = 0\<rparr>"

record monitor =
  mo_cfg :: kineticConfig
  mo_sources :: "(addr \<times> ksource) list"
  mo_order :: "addr list"
  mo_nextEvict :: nat
  mo_blocks :: counter
  mo_candidates :: counter
  mo_dropped :: counter

definition NewMonitor :: monitor where
  "NewMonitor = \<lparr>mo_cfg = DefaultConfig, mo_sources = [], mo_order = [], mo_nextEvict = 0, mo_blocks = 0, mo_candidates = 0, mo_dropped = 0\<rparr>"

section \<open>Operations\<close>

definition resetSource :: "ksource \<Rightarrow> ksource" where
  "resetSource s = s\<lparr>so_samples := replicate maxSamplesPerSource (0, 0), so_next := 0, so_count := 0, so_reported := False, so_last := 0\<rparr>"

definition Configure :: "kineticConfig \<Rightarrow> monitor \<Rightarrow> monitor \<times> unit outcome" where
  "Configure cfg m =
     (case ValidateConfig cfg of
        Inl e \<Rightarrow> (m, Inl e)
      | Inr u \<Rightarrow> if mo_cfg m = cfg then (m, Inr ())
                 else (m\<lparr>mo_cfg := cfg, mo_sources := map (\<lambda>(a, s). (a, resetSource s)) (mo_sources m)\<rparr>, Inr ()))"

text \<open>The lookup of the source, with the eviction of the next victim when the table is full.\<close>

definition trackSource :: "addr \<Rightarrow> monitor \<Rightarrow> monitor outcome" where
  "trackSource a m =
     (if map_of (mo_sources m) a \<noteq> None then Inr m
      else if maxSources \<le> length (mo_sources m)
      then if length (mo_order m) \<le> mo_nextEvict m then Inl Panic
           else Inr (m\<lparr>mo_sources := AList.update a emptySource (AList.delete (mo_order m ! mo_nextEvict m) (mo_sources m)),
                  mo_order := (mo_order m)[mo_nextEvict m := a], mo_nextEvict := Suc (mo_nextEvict m) mod maxSources,
                  mo_dropped := mo_dropped m + 1\<rparr>)
      else Inr (m\<lparr>mo_order := mo_order m @ [a], mo_sources := AList.update a emptySource (mo_sources m)\<rparr>))"

text \<open>The samples of the window, and the decision on them.\<close>

definition recentSamples :: "duration \<Rightarrow> gotime \<Rightarrow> (gotime \<times> port) list \<Rightarrow> (gotime \<times> port) list" where
  "recentSamples window now samples = filter (\<lambda>(at, p). \<not> now < at \<and> time_sub now at \<le> window) samples"

definition burst :: "kineticConfig \<Rightarrow> gotime \<Rightarrow> (gotime \<times> port) list \<Rightarrow> bool" where
  "burst cfg now samples =
     (let recent = recentSamples (BurstWindow cfg) now samples in
      kc_minEvents cfg \<le> int (length recent) \<and> kc_minDistinctPorts cfg \<le> int (length (remdups (map snd recent))))"

text \<open>The ring of samples: the write and the count, with whether an old sample was lost.\<close>

definition pushSample :: "gotime \<times> port \<Rightarrow> ksource \<Rightarrow> ksource" where
  "pushSample e s = s\<lparr>so_samples := (so_samples s)[so_next s := e], so_next := Suc (so_next s) mod maxSamplesPerSource,
     so_count := (if so_count s < maxSamplesPerSource then Suc (so_count s) else so_count s)\<rparr>"

text \<open>An event with a port that is in order: it starts a new burst after a gap and moves the time of the last sample.\<close>

definition advanceWindow :: "kineticConfig \<Rightarrow> gotime \<Rightarrow> ksource \<Rightarrow> ksource" where
  "advanceWindow cfg now s =
     (let s2 = (if BurstWindow cfg < time_sub now (so_last s) then s\<lparr>so_count := 0, so_next := 0, so_reported := False\<rparr> else s) in
      if so_last s2 < now then s2\<lparr>so_last := now\<rparr> else s2)"

text \<open>The sample is stored and the burst is judged: the new source, whether a sample was lost, whether it reports.\<close>

definition recordSample :: "kineticConfig \<Rightarrow> port \<Rightarrow> gotime \<Rightarrow> ksource \<Rightarrow> (ksource \<times> bool \<times> bool) outcome" where
  "recordSample cfg p now s =
     (if length (so_samples s) \<le> so_next s then Inl Panic
      else let s4 = pushSample (now, p) s; lost = (maxSamplesPerSource \<le> so_count s) in
        if length (so_samples s4) < so_count s4 then Inl Panic
        else if \<not> so_reported s4 \<and> burst cfg now (take (so_count s4) (so_samples s4))
        then Inr (s4\<lparr>so_reported := True\<rparr>, lost, True)
        else Inr (s4, lost, False))"

definition observeSample :: "kineticConfig \<Rightarrow> port \<Rightarrow> gotime \<Rightarrow> ksource \<Rightarrow> (ksource \<times> bool \<times> bool) outcome" where
  "observeSample cfg p now s =
     (if now < so_lastSeen s then Inr (s, True, False)
      else let s1 = s\<lparr>so_hits := so_hits s + 1, so_lastSeen := now, so_lastPort := p\<rparr> in
        if p = 0 then Inr (s1\<lparr>so_portless := so_portless s1 + 1\<rparr>, False, False)
        else if now < so_last s1 then Inr (s1, True, False)
        else recordSample cfg p now (advanceWindow cfg now s1))"

definition ObserveBlockedInbound :: "string \<Rightarrow> port \<Rightarrow> gotime \<Rightarrow> monitor \<Rightarrow> (monitor \<times> bool) outcome" where
  "ObserveBlockedInbound remote p now m =
     (case ParseAddr remote of
        None \<Rightarrow> Inr (m, False)
      | Some a0 \<Rightarrow>
          if \<not> IsValid a0 \<or> IsLoopback a0 \<or> IsMulticast a0 \<or> IsUnspecified a0 \<or> now = 0 then Inr (m, False)
          else let a = Unmap a0 in
            bind_outcome (trackSource a (m\<lparr>mo_blocks := mo_blocks m + 1\<rparr>)) (\<lambda>m1.
              case map_of (mo_sources m1) a of
                None \<Rightarrow> Inl Panic
              | Some s \<Rightarrow>
                  bind_outcome (observeSample (mo_cfg m1) p now s) (\<lambda>(s', lost, report).
                    Inr (m1\<lparr>mo_sources := AList.update a s' (mo_sources m1),
                          mo_dropped := (if lost then mo_dropped m1 + 1 else mo_dropped m1),
                          mo_candidates := (if report then mo_candidates m1 + 1 else mo_candidates m1)\<rparr>, report))))"

record kineticSource =
  kr_ip :: string
  kr_hits :: counter
  kr_portlessBlocks :: counter
  kr_lastSeen :: gotime
  kr_lastPort :: port

definition SourceSnapshot :: "int \<Rightarrow> monitor \<Rightarrow> kineticSource list" where
  "SourceSnapshot limit0 m =
     (let limit = (if limit0 < 1 \<or> 500 < limit0 then 250 else limit0);
          rows = map (\<lambda>(a, s). \<lparr>kr_ip = AddrString a, kr_hits = so_hits s, kr_portlessBlocks = so_portless s,
            kr_lastSeen = so_lastSeen s, kr_lastPort = so_lastPort s\<rparr>) (mo_sources m) in
      take (nat limit) (sort_key (\<lambda>r. (- kr_lastSeen r, kr_ip r)) rows))"

record kineticSnapshot =
  sp_mode :: string
  sp_input :: string
  sp_config :: kineticConfig
  sp_blocksObserved :: counter
  sp_burstCandidates :: counter
  sp_trackedSources :: int
  sp_capacity :: int
  sp_droppedSamples :: counter

definition MonitorSnapshot :: "monitor \<Rightarrow> kineticSnapshot" where
  "MonitorSnapshot m = \<lparr>sp_mode = ''OBSERVE_ONLY'', sp_input = ''WFP_SECURITY_5157_BLOCKED_INBOUND_ONLY'', sp_config = mo_cfg m,
     sp_blocksObserved = mo_blocks m, sp_burstCandidates = mo_candidates m, sp_trackedSources = int (length (mo_sources m)),
     sp_capacity = int maxSources, sp_droppedSamples = mo_dropped m\<rparr>"

section \<open>Readiness\<close>

record kineticReadiness =
  rd_mode :: string
  rd_ingress :: string
  rd_wfpAudit :: string
  rd_threatRules :: string
  rd_note :: string

definition EvaluateReadiness :: "bool \<Rightarrow> bool \<Rightarrow> counter \<Rightarrow> string \<Rightarrow> string \<Rightarrow> string \<Rightarrow> kineticReadiness" where
  "EvaluateReadiness tcpPolling wfpPolling wfpBlocks rulesState desired active =
     \<lparr>rd_mode = ''OBSERVE_ONLY'', rd_ingress = ''UNVERIFIED_NO_RAW_INGRESS_SENSOR'',
      rd_wfpAudit = (if wfpPolling \<and> 0 < wfpBlocks then ''BLOCK_EVENTS_OBSERVED''
        else if wfpPolling then ''POLLING_AUDIT_NOT_VERIFIED'' else ''OFFLINE''),
      rd_threatRules = (if (rulesState = ''VERIFIED'' \<or> rulesState = ''VERIFIED_CLEANUP_PENDING'') \<and> length desired = 64 \<and> desired = active
        then ''GENERATION_VERIFIED'' else ''UNVERIFIED''),
      rd_note = ''TCP table snapshots and WFP 5157 blocks do not prove full ingress coverage'' @
        (if tcpPolling then [] else ''; TCP owner-PID sampling unavailable'')\<rparr>"

record armingInputs =
  am_wfpRealtime :: bool
  am_networkRealtime :: bool
  am_enforcementState :: string
  am_desiredGeneration :: string
  am_activeGeneration :: string
  am_feedEnforcementGeneration :: string
  am_blockingIndicators :: int

record armingRequirements =
  ar_inputs :: armingInputs
  ar_enforcementVerified :: bool
  ar_ready :: bool
  ar_blockers :: "string list"

definition EvaluateArmingRequirements :: "armingInputs \<Rightarrow> armingRequirements" where
  "EvaluateArmingRequirements input =
     (let stateVerified = (am_enforcementState input = ''VERIFIED'' \<or> am_enforcementState input = ''VERIFIED_CLEANUP_PENDING'');
          blockers =
            (if am_wfpRealtime input then [] else [''WFP 5157 block telemetry unavailable'']) @
            (if am_networkRealtime input then [] else [''native TCP owner/PID telemetry unavailable'']) @
            (if stateVerified then [] else [''Threat-IP WFP enforcement generation is not verified'']) @
            (if am_activeGeneration input = [] then [''no active Threat-IP WFP generation hash''] else []) @
            (if am_desiredGeneration input \<noteq> [] \<and> am_activeGeneration input \<noteq> [] \<and> am_activeGeneration input \<noteq> am_desiredGeneration input
             then [''active WFP generation does not match the desired generation''] else []) @
            (if am_activeGeneration input \<noteq> [] \<and> am_activeGeneration input \<noteq> am_feedEnforcementGeneration input
             then [''active WFP generation does not match the current threat feed generation''] else []) @
            (if am_blockingIndicators input \<le> 0 then [''no blocking threat intelligence indicators available''] else []) in
      \<lparr>ar_inputs = input, ar_enforcementVerified = stateVerified, ar_ready = (blockers = []), ar_blockers = blockers\<rparr>)"

section \<open>The ring of samples\<close>

definition ring_ok :: "ksource \<Rightarrow> bool" where
  "ring_ok s \<longleftrightarrow> length (so_samples s) = maxSamplesPerSource \<and> so_next s < maxSamplesPerSource \<and> so_count s \<le> maxSamplesPerSource \<and>
     (so_count s < maxSamplesPerSource \<longrightarrow> so_next s = so_count s)"

text \<open>The samples of a source, oldest first.\<close>

definition sampleLog :: "ksource \<Rightarrow> (gotime \<times> port) list" where
  "sampleLog s = (if so_count s < maxSamplesPerSource then take (so_count s) (so_samples s) else ring (so_next s) (so_samples s))"

lemma ring_ok_cong [simp]:
  "ring_ok (s\<lparr>so_hits := a\<rparr>) = ring_ok s" "ring_ok (s\<lparr>so_lastSeen := t\<rparr>) = ring_ok s" "ring_ok (s\<lparr>so_lastPort := p\<rparr>) = ring_ok s"
  "ring_ok (s\<lparr>so_portless := a\<rparr>) = ring_ok s" "ring_ok (s\<lparr>so_last := t\<rparr>) = ring_ok s" "ring_ok (s\<lparr>so_reported := b\<rparr>) = ring_ok s"
  by (simp_all add: ring_ok_def)

lemma sampleLog_cong [simp]:
  "sampleLog (s\<lparr>so_hits := a\<rparr>) = sampleLog s" "sampleLog (s\<lparr>so_lastSeen := t\<rparr>) = sampleLog s" "sampleLog (s\<lparr>so_lastPort := p\<rparr>) = sampleLog s"
  "sampleLog (s\<lparr>so_portless := a\<rparr>) = sampleLog s" "sampleLog (s\<lparr>so_last := t\<rparr>) = sampleLog s" "sampleLog (s\<lparr>so_reported := b\<rparr>) = sampleLog s"
  by (simp_all add: sampleLog_def)

lemma pushSample_sel [simp]:
  "so_last (pushSample e s) = so_last s" "so_lastSeen (pushSample e s) = so_lastSeen s" "so_reported (pushSample e s) = so_reported s"
  by (simp_all add: pushSample_def)

lemma maxSamples_pos: "0 < maxSamplesPerSource"
  by (simp add: maxSamplesPerSource_def)

interpretation sample_log: bounded_log maxSamplesPerSource ring_ok sampleLog pushSample
proof
  fix s :: ksource and e :: "gotime \<times> port"
  assume ok: "ring_ok s"
  show "ring_ok (pushSample e s)" using ok maxSamples_pos by (auto simp: ring_ok_def pushSample_def mod_Suc)
  show "length (sampleLog s) \<le> maxSamplesPerSource" using ok by (auto simp: ring_ok_def sampleLog_def)
  show "sampleLog (pushSample e s) = (if length (sampleLog s) < maxSamplesPerSource then sampleLog s else tl (sampleLog s)) @ [e]"
  proof (cases "so_count s < maxSamplesPerSource")
    case True
    then have n: "so_next s = so_count s" and l: "so_count s < length (so_samples s)" "length (so_samples s) = maxSamplesPerSource"
      using ok by (auto simp: ring_ok_def)
    then have "take (Suc (so_count s)) ((so_samples s)[so_count s := e]) = take (so_count s) (so_samples s) @ [e]"
      by (simp add: take_Suc_conv_app_nth)
    then show ?thesis using True n l by (auto simp: sampleLog_def pushSample_def mod_Suc)
  next
    case False
    then show ?thesis using ok ring_put [of "so_next s" "so_samples s" e] by (simp add: ring_ok_def sampleLog_def pushSample_def)
  qed
qed (rule maxSamples_pos)

lemma sampleLog_mset: "ring_ok s \<Longrightarrow> mset (take (so_count s) (so_samples s)) = mset (sampleLog s)"
  by (cases "so_count s < maxSamplesPerSource") (auto simp: ring_ok_def sampleLog_def)

lemma burst_mset:
  assumes "mset xs = mset ys"
  shows "burst cfg now xs = burst cfg now ys"
proof -
  have m: "mset (recentSamples w now xs) = mset (recentSamples w now ys)" for w
    using assms by (simp add: recentSamples_def)
  then have "set (map snd (recentSamples w now xs)) = set (map snd (recentSamples w now ys))" for w
    using mset_eq_setD by (metis list.set_map)
  then show ?thesis using mset_eq_length [OF m] by (simp add: burst_def Let_def length_remdups_card_conv)
qed

section \<open>Burst detection\<close>

lemma ValidateConfig_iff:
  "ValidateConfig c = Inr () \<longleftrightarrow> 2 \<le> kc_burstWindowSeconds c \<and> kc_burstWindowSeconds c \<le> 300 \<and> 3 \<le> kc_minEvents c \<and> kc_minEvents c \<le> 32 \<and>
     2 \<le> kc_minDistinctPorts c \<and> kc_minDistinctPorts c \<le> 16 \<and> kc_minDistinctPorts c \<le> kc_minEvents c \<and>
     (kc_autoDisarmSeconds c = 0 \<or> 300 \<le> kc_autoDisarmSeconds c \<and> kc_autoDisarmSeconds c \<le> 604800)"
  by (auto simp: ValidateConfig_def kinetic_limits)

lemma window_range: "ValidateConfig c = Inr () \<Longrightarrow> 0 \<le> BurstWindow c \<and> BurstWindow c < max_duration"
  by (auto simp: ValidateConfig_iff BurstWindow_def second_def max_duration_def)

lemmas window_sub_gt = time_sub_gt [OF window_range [THEN conjunct1] window_range [THEN conjunct2]]

text \<open>
  A stream of events of one address, newest first: the latest time in it, the events with a port that
  were not out of order, and whether the current burst was reported. A burst ends when the next
  event with a port comes after more than the window.
\<close>

fun maxTime :: "(gotime \<times> port) list \<Rightarrow> gotime" where
  "maxTime [] = 0"
| "maxTime ((t, p) # es) = max t (maxTime es)"

fun portHistory :: "(gotime \<times> port) list \<Rightarrow> (gotime \<times> port) list" where
  "portHistory [] = []"
| "portHistory ((t, p) # es) = (if p = 0 \<or> t < maxTime es then portHistory es else (t, p) # portHistory es)"

definition lastPorted :: "(gotime \<times> port) list \<Rightarrow> gotime" where
  "lastPorted es = (case portHistory es of [] \<Rightarrow> 0 | e # h \<Rightarrow> fst e)"

fun burstReported :: "kineticConfig \<Rightarrow> (gotime \<times> port) list \<Rightarrow> bool" where
  "burstReported cfg [] = False"
| "burstReported cfg ((t, p) # es) =
     (if p = 0 \<or> t < maxTime es then burstReported cfg es
      else burstReported cfg es \<and> t - lastPorted es \<le> BurstWindow cfg \<or> burst cfg t (take maxSamplesPerSource ((t, p) # portHistory es)))"

text \<open>The event starts or continues a burst that was not reported, and completes it.\<close>

definition reportsBurst :: "kineticConfig \<Rightarrow> gotime \<times> port \<Rightarrow> (gotime \<times> port) list \<Rightarrow> bool" where
  "reportsBurst cfg e es \<longleftrightarrow> snd e \<noteq> 0 \<and> maxTime es \<le> fst e \<and> \<not> (burstReported cfg es \<and> fst e - lastPorted es \<le> BurstWindow cfg) \<and>
     burst cfg (fst e) (take maxSamplesPerSource (e # portHistory es))"

fun sampleRun :: "kineticConfig \<Rightarrow> (gotime \<times> port) list \<Rightarrow> (ksource \<times> bool) outcome" where
  "sampleRun cfg [] = Inr (emptySource, False)"
| "sampleRun cfg ((t, p) # es) =
     bind_outcome (sampleRun cfg es) (\<lambda>(s, _). bind_outcome (observeSample cfg p t s) (\<lambda>(s', lost, r). Inr (s', r)))"

text \<open>A source after a stream of events: its samples are the newest of a suffix of the history; what is before it is too old.\<close>

definition log_follows :: "kineticConfig \<Rightarrow> (gotime \<times> port) list \<Rightarrow> ksource \<Rightarrow> bool" where
  "log_follows cfg history s \<longleftrightarrow> (\<exists>new old. history = new @ old \<and> sampleLog s = lastn maxSamplesPerSource (rev new) \<and>
     (\<forall>e\<in>set old. BurstWindow cfg < so_last s - fst e))"

definition source_follows :: "kineticConfig \<Rightarrow> (gotime \<times> port) list \<Rightarrow> ksource \<Rightarrow> bool" where
  "source_follows cfg es s \<longleftrightarrow> ring_ok s \<and> so_lastSeen s = maxTime es \<and> so_last s = lastPorted es \<and> so_reported s = burstReported cfg es \<and>
     log_follows cfg (portHistory es) s"

lemma lastPorted_simps [simp]:
  "lastPorted [] = 0" "lastPorted ((t, p) # es) = (if p = 0 \<or> t < maxTime es then lastPorted es else t)"
  by (simp_all add: lastPorted_def)

lemma maxTime_nonneg: "0 \<le> maxTime es"
  by (induction es rule: maxTime.induct) simp_all

lemma lastPorted_le: "lastPorted es \<le> maxTime es"
  by (induction es rule: maxTime.induct) auto

lemma portHistory_le: "e \<in> set (portHistory es) \<Longrightarrow> fst e \<le> lastPorted es"
proof (induction es rule: maxTime.induct)
  case (2 t p es)
  then show ?case using lastPorted_le [of es] by (auto split: if_splits)
qed simp

lemma lastn_rev: "lastn n (rev xs) = rev (take n xs)"
  by (simp add: lastn_def rev_take)

lemma burst_old:
  assumes "ValidateConfig cfg = Inr ()" and "\<forall>e\<in>set old. BurstWindow cfg < now - fst e"
  shows "burst cfg now (take n (new @ old)) = burst cfg now (take n new)"
proof -
  have "\<not> time_sub now (fst e) \<le> BurstWindow cfg" if "e \<in> set (take (n - length new) old)" for e
    using in_set_takeD [OF that] assms(2) window_sub_gt [OF assms(1) assms(1)] by (simp add: not_le)
  then have "recentSamples (BurstWindow cfg) now (take (n - length new) old) = []"
    by (auto simp: recentSamples_def filter_empty_conv)
  then have "recentSamples (BurstWindow cfg) now (take n (new @ old)) = recentSamples (BurstWindow cfg) now (take n new)"
    by (simp add: recentSamples_def)
  then show ?thesis by (simp add: burst_def)
qed

text \<open>A push onto a source that follows a history, within a burst or after its end.\<close>

lemma pushSample_log:
  assumes "ring_ok s" and "sampleLog s = lastn maxSamplesPerSource (rev new)"
  shows "ring_ok (pushSample e s)" and "sampleLog (pushSample e s) = lastn maxSamplesPerSource (rev (e # new))"
  using sample_log.push_ok [OF assms(1)] sample_log.contents_lastn [OF assms] by simp_all

lemma ring_ok_index: "ring_ok s \<Longrightarrow> so_next s < length (so_samples s) \<and> so_count s \<le> length (so_samples s)"
  by (simp add: ring_ok_def)

lemma ring_restart:
  "ring_ok s \<Longrightarrow> ring_ok (s\<lparr>so_count := 0, so_next := 0, so_reported := b\<rparr>)" "sampleLog (s\<lparr>so_count := 0, so_next := 0, so_reported := b\<rparr>) = lastn n (rev [])"
  using maxSamples_pos by (auto simp: ring_ok_def sampleLog_def lastn_def)

lemma observeSample_ported:
  assumes cfg: "ValidateConfig cfg = Inr ()" and s: "ring_ok s" "so_lastSeen s \<le> t" "so_last s \<le> t" and p: "p \<noteq> 0"
    and log: "sampleLog s = lastn maxSamplesPerSource (rev new)" and old: "\<forall>e\<in>set (new @ old). fst e \<le> so_last s"
      "\<forall>e\<in>set old. BurstWindow cfg < so_last s - fst e"
  shows "\<exists>s' lost. observeSample cfg p t s = Inr (s', lost,
      \<not> (so_reported s \<and> t - so_last s \<le> BurstWindow cfg) \<and> burst cfg t (take maxSamplesPerSource ((t, p) # new @ old))) \<and>
    ring_ok s' \<and> so_lastSeen s' = t \<and> so_last s' = t \<and>
    so_reported s' = (so_reported s \<and> t - so_last s \<le> BurstWindow cfg \<or> burst cfg t (take maxSamplesPerSource ((t, p) # new @ old))) \<and>
    log_follows cfg ((t, p) # new @ old) s'"
proof -
  define gap where "gap = (BurstWindow cfg < t - so_last s)"
  define s1 where "s1 = s\<lparr>so_hits := so_hits s + 1, so_lastSeen := t, so_lastPort := p\<rparr>"
  define s3 where "s3 = advanceWindow cfg t s1"
  define new' old' where "new' = (t, p) # (if gap then [] else new)" and "old' = (if gap then new @ old else old)"
  have gap: "BurstWindow cfg < time_sub t (so_last s) \<longleftrightarrow> gap" using window_sub_gt [OF cfg cfg] by (simp add: gap_def)
  have s1: "ring_ok s1" "sampleLog s1 = lastn maxSamplesPerSource (rev new)" "so_last s1 = so_last s" "so_reported s1 = so_reported s" "so_lastSeen s1 = t"
    using s(1) log by (simp_all add: s1_def)
  have s3: "ring_ok s3" "sampleLog s3 = lastn maxSamplesPerSource (rev (if gap then [] else new))" "so_last s3 = t" "so_lastSeen s3 = t"
      "so_reported s3 \<longleftrightarrow> so_reported s \<and> \<not> gap"
    using s1 s(3) gap ring_restart(1) [OF s1(1)] ring_restart(2) by (auto simp: s3_def advanceWindow_def Let_def)
  note push = pushSample_log [OF s3(1,2), of "(t, p)"]
  have older: "\<forall>e\<in>set old'. BurstWindow cfg < t - fst e"
  proof
    fix e assume "e \<in> set old'"
    then have "if gap then fst e \<le> so_last s else BurstWindow cfg < so_last s - fst e" using old by (auto simp: old'_def)
    then show "BurstWindow cfg < t - fst e" using s(3) by (cases gap) (auto simp: gap_def)
  qed
  have log': "sampleLog (pushSample (t, p) s3) = lastn maxSamplesPerSource (rev new')" using push(2) by (simp add: new'_def)
  have "burst cfg t (take (so_count (pushSample (t, p) s3)) (so_samples (pushSample (t, p) s3))) = burst cfg t (take maxSamplesPerSource new')"
    using burst_mset [OF sampleLog_mset [OF push(1)]] by (simp add: log' lastn_rev burst_mset [of "rev xs" xs for xs])
  also have "\<dots> = burst cfg t (take maxSamplesPerSource ((t, p) # new @ old))"
    using burst_old [OF cfg older, of maxSamplesPerSource new'] by (cases gap) (simp_all add: new'_def old'_def)
  finally have b: "burst cfg t (take (so_count (pushSample (t, p) s3)) (so_samples (pushSample (t, p) s3))) = burst cfg t (take maxSamplesPerSource ((t, p) # new @ old))" .
  have ob: "observeSample cfg p t s = recordSample cfg p t s3"
    using s p unfolding observeSample_def s3_def s1_def by (simp add: Let_def)
  have follows: "log_follows cfg ((t, p) # new @ old) s'" if "sampleLog s' = sampleLog (pushSample (t, p) s3)" "so_last s' = t" for s'
    unfolding log_follows_def using that log' older by (intro exI [of _ new'] exI [of _ old']) (simp add: new'_def old'_def)
  show ?thesis
    using ob ring_ok_index [OF s3(1)] ring_ok_index [OF push(1)] b push(1) s3 follows
    by (auto simp: recordSample_def Let_def gap_def not_le not_less)
qed

lemma observeSample_follows:
  assumes cfg: "ValidateConfig cfg = Inr ()" and s: "source_follows cfg es s"
  shows "\<exists>s' lost. observeSample cfg p t s = Inr (s', lost, reportsBurst cfg (t, p) es) \<and> source_follows cfg ((t, p) # es) s'"
proof -
  from s obtain new old where h: "portHistory es = new @ old" "sampleLog s = lastn maxSamplesPerSource (rev new)"
      "\<forall>e\<in>set old. BurstWindow cfg < so_last s - fst e" and r: "ring_ok s"
      and sel: "so_lastSeen s = maxTime es" "so_last s = lastPorted es" "so_reported s = burstReported cfg es"
    by (auto simp: source_follows_def log_follows_def)
  consider (late) "t < maxTime es" | (portless) "\<not> t < maxTime es" "p = 0" | (ported) "maxTime es \<le> t" "p \<noteq> 0" by linarith
  then show ?thesis
  proof cases
    case late
    then show ?thesis using s sel by (auto simp: observeSample_def reportsBurst_def source_follows_def log_follows_def max_def)
  next
    case portless
    then show ?thesis using s sel by (auto simp: observeSample_def reportsBurst_def source_follows_def log_follows_def max_def Let_def)
  next
    case ported
    have "\<forall>e\<in>set (new @ old). fst e \<le> so_last s" using portHistory_le [of _ es] by (simp add: h(1) sel)
    from observeSample_ported [OF cfg r _ _ ported(2) h(2) this h(3), of t] obtain s' lost where
      "observeSample cfg p t s = Inr (s', lost, reportsBurst cfg (t, p) es)" "source_follows cfg ((t, p) # es) s'"
      using ported lastPorted_le [of es] sel by (auto simp: reportsBurst_def source_follows_def h(1))
    then show ?thesis by blast
  qed
qed

lemma emptySource_follows: "source_follows cfg [] emptySource"
  using maxSamples_pos by (auto simp: source_follows_def log_follows_def emptySource_def ring_ok_def sampleLog_def lastn_def)

lemma sampleRun_follows:
  assumes "ValidateConfig cfg = Inr ()"
  shows "\<exists>s r. sampleRun cfg es = Inr (s, r) \<and> source_follows cfg es s"
proof (induction es)
  case Nil
  then show ?case using emptySource_follows by auto
next
  case (Cons e es)
  then obtain s r where "sampleRun cfg es = Inr (s, r)" "source_follows cfg es s" by blast
  then show ?case using observeSample_follows [OF assms, of es s "snd e" "fst e"] by (cases e) auto
qed

lemma sampleRun_reports:
  assumes "ValidateConfig cfg = Inr ()"
  shows "\<exists>s. sampleRun cfg ((t, p) # es) = Inr (s, reportsBurst cfg (t, p) es)"
proof -
  obtain s r where "sampleRun cfg es = Inr (s, r)" "source_follows cfg es s" using sampleRun_follows [OF assms] by blast
  then show ?thesis using observeSample_follows [OF assms, of es s p t] by auto
qed

text \<open>
  C26 [burst_detection]: with a valid configuration, the ring of 32 samples with its restart positions
  reports a burst exactly when the specification over the whole history of the address says so: the
  event has a port and is in order, among the newest 32 such events those within the window are at
  least \<open>MinEvents\<close> with at least \<open>MinDistinctPorts\<close> different ports, and the burst was not reported
  before. Events of the window that the ring has already overwritten do not count. No array index is
  out of range.
\<close>

theorem burst_detection:
  assumes "ValidateConfig cfg = Inr ()"
  shows "\<exists>s. sampleRun cfg ((t, p) # es) = Inr (s, reportsBurst cfg (t, p) es)"
  using sampleRun_reports [OF assms] .

section \<open>Every valid configuration can report\<close>

lemma burst_short:
  assumes "int (length es) < kc_minEvents cfg"
  shows "\<not> burst cfg t es"
proof -
  have "length (recentSamples (BurstWindow cfg) t es) \<le> length es" by (simp add: recentSamples_def)
  then show ?thesis using assms by (simp add: burst_def Let_def)
qed

lemma burstReported_short: "int (length es) < kc_minEvents cfg \<Longrightarrow> \<not> burstReported cfg es"
proof (induction es rule: maxTime.induct)
  case (2 t p es)
  have "length (portHistory es) \<le> length es" by (induction es rule: portHistory.induct) auto
  then have "int (length (take maxSamplesPerSource ((t, p) # portHistory es))) < kc_minEvents cfg" using "2.prems" by simp
  from burst_short [OF this, of t] show ?case using 2 by auto
qed simp

text \<open>Events at one time on the ports \<open>n\<close>, ..., 1.\<close>

definition scanEvents :: "gotime \<Rightarrow> nat \<Rightarrow> (gotime \<times> port) list" where
  "scanEvents t n = map (\<lambda>i. (t, of_nat i)) (rev [1..<Suc n])"

lemma scanEvents_simps [simp]: "scanEvents t 0 = []" "scanEvents t (Suc n) = (t, of_nat (Suc n)) # scanEvents t n"
  by (simp_all add: scanEvents_def)

lemma port_nonzero: "0 < i \<Longrightarrow> i < 65536 \<Longrightarrow> (of_nat i :: port) \<noteq> 0"
  by (simp add: of_nat_eq_0_iff word_of_nat_eq_0_iff nat_dvd_not_less)

lemma scanEvents_history:
  assumes "0 < t" and "n < 65536"
  shows "maxTime (scanEvents t n) \<le> t \<and> portHistory (scanEvents t n) = scanEvents t n"
  using assms(2)
proof (induction n)
  case (Suc n)
  then show ?case using assms(1) port_nonzero [of "Suc n"] by (auto simp: max_def)
qed (use assms in simp)

lemma port_inj: "inj_on (of_nat :: nat \<Rightarrow> port) {..<65536}"
proof -
  have "unat (of_nat i :: port) = i" if "i < 65536" for i using that by (simp add: unat_of_nat)
  then show ?thesis by (intro inj_on_inverseI [of _ unat]) simp
qed

lemma scanEvents_ports:
  assumes "n < 65536"
  shows "distinct (map snd (scanEvents t n))" and "length (scanEvents t n) = n"
proof -
  have "set (rev [1..<Suc n]) \<subseteq> {..<65536}" using assms by auto
  then have "inj_on (of_nat :: nat \<Rightarrow> port) (set (rev [1..<Suc n]))" using port_inj inj_on_subset by blast
  then have "distinct (map (of_nat :: nat \<Rightarrow> port) (rev [1..<Suc n]))" unfolding distinct_map by simp
  then show "distinct (map snd (scanEvents t n))" by (simp add: scanEvents_def comp_def)
qed (simp add: scanEvents_def)

text \<open>
  No accepted configuration is blind. With every valid configuration, as
  many blocked connections as \<open>MinEvents\<close> asks for, at one time and on different ports of the host,
  are reported when the last of them arrives.
\<close>

lemma valid_config_can_report:
  assumes "ValidateConfig cfg = Inr ()" and "0 < t"
  shows "\<exists>s. sampleRun cfg (scanEvents t (nat (kc_minEvents cfg))) = Inr (s, True)"
proof -
  note c = assms(1) [unfolded ValidateConfig_iff]
  then obtain n where n: "nat (kc_minEvents cfg) = Suc n" "int (Suc n) = kc_minEvents cfg" "n < 32"
    by (cases "nat (kc_minEvents cfg)") auto
  let ?es = "scanEvents t n" and ?e = "(t, of_nat (Suc n)) :: gotime \<times> port"
  have all: "recentSamples (BurstWindow cfg) t (scanEvents t k) = scanEvents t k" for k
    using window_range [OF assms(1)] by (induction k) (auto simp: recentSamples_def time_sub_def min_duration_def max_duration_def)
  have "length (remdups (map snd (scanEvents t (Suc n)))) = Suc n"
    using scanEvents_ports [of "Suc n" t] n(3) by (simp only: distinct_remdups_id length_map)
  then have "burst cfg t (scanEvents t (Suc n))"
    using all [of "Suc n"] scanEvents_ports [of "Suc n" t] n c by (simp add: burst_def Let_def)
  moreover have "\<not> burstReported cfg ?es" using burstReported_short [of ?es cfg] scanEvents_ports [of n t] n by simp
  moreover have "take maxSamplesPerSource (?e # portHistory ?es) = scanEvents t (Suc n)"
    using scanEvents_history [OF assms(2), of n] scanEvents_ports [of n t] n(3) by (simp add: maxSamplesPerSource_def)
  ultimately have "reportsBurst cfg ?e ?es"
    using scanEvents_history [OF assms(2), of n] port_nonzero [of "Suc n"] n(3) by (simp add: reportsBurst_def)
  then show ?thesis using sampleRun_reports [OF assms(1), of t "of_nat (Suc n)" ?es] by (simp add: n(1))
qed

theorem burst_detection_witness: "\<exists>s. sampleRun DefaultConfig [(hour, 80), (hour, 22)] = Inr (s, reportsBurst DefaultConfig (hour, 80) [(hour, 22)])"
  using burst_detection [of DefaultConfig hour 80 "[(hour, 22)]"]
  by (simp add: ValidateConfig_iff DefaultConfig_def DefaultBurstWindowSeconds_def DefaultMinEvents_def DefaultMinDistinctPorts_def DefaultAutoDisarmSeconds_def)

lemma DefaultConfig_valid: "ValidateConfig DefaultConfig = Inr ()"
  by code_simp

section \<open>The table of sources\<close>

text \<open>The tracked addresses, oldest first.\<close>

definition trackedOrder :: "monitor \<Rightarrow> addr list" where
  "trackedOrder m = ring (mo_nextEvict m) (mo_order m)"

definition order_ok :: "monitor \<Rightarrow> bool" where
  "order_ok m \<longleftrightarrow> length (mo_order m) \<le> maxSources \<and> mo_nextEvict m < maxSources \<and> (length (mo_order m) < maxSources \<longrightarrow> mo_nextEvict m = 0)"

definition monitor_ok :: "monitor \<Rightarrow> bool" where
  "monitor_ok m \<longleftrightarrow> ValidateConfig (mo_cfg m) = Inr () \<and> order_ok m \<and> distinct (mo_order m) \<and> distinct (map fst (mo_sources m)) \<and>
     set (mo_order m) = fst ` set (mo_sources m) \<and> (\<forall>s\<in>snd ` set (mo_sources m). ring_ok s)"

definition pushOrder :: "addr \<Rightarrow> monitor \<Rightarrow> monitor" where
  "pushOrder a m = (if length (mo_order m) < maxSources then m\<lparr>mo_order := mo_order m @ [a]\<rparr>
     else m\<lparr>mo_order := (mo_order m)[mo_nextEvict m := a], mo_nextEvict := Suc (mo_nextEvict m) mod maxSources\<rparr>)"

interpretation order_log: bounded_log maxSources order_ok trackedOrder pushOrder
proof
  show "0 < maxSources" by (simp add: maxSources_def)
  fix m :: monitor and a :: addr
  assume ok: "order_ok m"
  show "order_ok (pushOrder a m)" using ok by (auto simp: order_ok_def pushOrder_def)
  show "length (trackedOrder m) \<le> maxSources" using ok by (simp add: order_ok_def trackedOrder_def)
  show "trackedOrder (pushOrder a m) = (if length (trackedOrder m) < maxSources then trackedOrder m else tl (trackedOrder m)) @ [a]"
  proof (cases "length (mo_order m) < maxSources")
    case True
    then show ?thesis using ok by (simp add: order_ok_def trackedOrder_def pushOrder_def)
  next
    case False
    then have "length (mo_order m) = maxSources" "mo_nextEvict m < length (mo_order m)" using ok by (auto simp: order_ok_def)
    then show ?thesis using ring_put [of "mo_nextEvict m" "mo_order m" a] by (simp add: trackedOrder_def pushOrder_def)
  qed
qed

lemma trackedOrder_cong [simp]:
  "trackedOrder (m\<lparr>mo_sources := x\<rparr>) = trackedOrder m" "trackedOrder (m\<lparr>mo_dropped := n\<rparr>) = trackedOrder m"
  "order_ok (m\<lparr>mo_sources := x\<rparr>) = order_ok m" "order_ok (m\<lparr>mo_dropped := n\<rparr>) = order_ok m"
  "trackedOrder (m\<lparr>mo_blocks := n\<rparr>) = trackedOrder m" "monitor_ok (m\<lparr>mo_blocks := n\<rparr>) = monitor_ok m"
  "monitor_ok (m\<lparr>mo_dropped := n\<rparr>) = monitor_ok m" "monitor_ok (m\<lparr>mo_candidates := n\<rparr>) = monitor_ok m"
  by (simp_all add: trackedOrder_def order_ok_def monitor_ok_def)

lemma monitor_ok_length: "monitor_ok m \<Longrightarrow> length (mo_sources m) = length (mo_order m)"
  using distinct_card [of "mo_order m"] distinct_card [of "map fst (mo_sources m)"] by (simp add: monitor_ok_def)

lemma NewMonitor_ok: "monitor_ok NewMonitor"
  by (simp add: NewMonitor_def monitor_ok_def order_ok_def maxSources_def DefaultConfig_valid)

text \<open>The victim of an eviction is the oldest tracked address.\<close>

definition victims :: "monitor \<Rightarrow> addr set" where
  "victims m = (if length (mo_order m) < maxSources then {} else {hd (trackedOrder m)})"

lemma trackSource_new:
  assumes "monitor_ok m" and "map_of (mo_sources m) a = None"
  obtains m' where "trackSource a m = Inr m'" and "mo_cfg m' = mo_cfg m" and "trackedOrder m' = trackedOrder (pushOrder a m)"
    and "order_ok m'" and "set (mo_order m') = insert a (set (mo_order m) - victims m)"
    and "mo_sources m' = AList.update a emptySource (filter (\<lambda>(b, s). b \<notin> victims m) (mo_sources m))" and "distinct (mo_order m')"
proof (cases "length (mo_order m) < maxSources")
  case True
  then show ?thesis using that [of "m\<lparr>mo_order := mo_order m @ [a], mo_sources := AList.update a emptySource (mo_sources m)\<rparr>"] assms
    monitor_ok_length [OF assms(1)] order_log.push_ok [of m a]
    by (auto simp: trackSource_def pushOrder_def trackedOrder_def victims_def monitor_ok_def map_of_eq_None_iff order_ok_def)
next
  case False
  let ?v = "mo_order m ! mo_nextEvict m"
  let ?m = "m\<lparr>mo_sources := AList.update a emptySource (AList.delete ?v (mo_sources m)), mo_order := (mo_order m)[mo_nextEvict m := a],
    mo_nextEvict := Suc (mo_nextEvict m) mod maxSources, mo_dropped := mo_dropped m + 1\<rparr>"
  have l: "length (mo_order m) = maxSources" "mo_nextEvict m < length (mo_order m)" "order_ok m" "distinct (mo_order m)"
      and a: "a \<notin> set (mo_order m)"
    using False assms by (auto simp: monitor_ok_def order_ok_def map_of_eq_None_iff)
  have v: "victims m = {?v}" using False l(2) by (simp add: victims_def trackedOrder_def ring_hd)
  have "set ((mo_order m)[mo_nextEvict m := a]) = insert a (set (mo_order m) - {?v})"
    using l(2,4) by (simp add: set_update_distinct)
  moreover have "AList.delete ?v (mo_sources m) = filter (\<lambda>(b, s). b \<notin> victims m) (mo_sources m)"
    by (auto simp: v AList.delete_eq case_prod_beta intro!: filter_cong)
  moreover have "distinct ((mo_order m)[mo_nextEvict m := a])" using l(4) a by (simp add: distinct_list_update)
  ultimately show ?thesis using that [of ?m] assms(2) l v monitor_ok_length [OF assms(1)] order_log.push_ok [OF l(3), of a]
    by (simp add: trackSource_def pushOrder_def trackedOrder_def order_ok_def)
qed

lemma fst_update: "fst ` set (AList.update a x al) = insert a (fst ` set al)"
  by (induction al) auto

lemma map_of_filter_key: "map_of (filter (\<lambda>(b, s). b \<notin> V) al) b = (if b \<in> V then None else map_of al b)"
  by (induction al) auto

lemma snd_update: "snd ` set (AList.update a x al) \<subseteq> insert x (snd ` set al)"
  by (induction al) auto

lemma trackSource_ok:
  assumes "monitor_ok m"
  shows "\<exists>m'. trackSource a m = Inr m' \<and> monitor_ok m' \<and> mo_cfg m' = mo_cfg m \<and> (\<exists>s. map_of (mo_sources m') a = Some s \<and> ring_ok s)"
proof (cases "map_of (mo_sources m) a")
  case (Some s)
  then have "ring_ok s" using assms by (force simp: monitor_ok_def dest: map_of_SomeD)
  then show ?thesis using Some assms by (simp add: trackSource_def)
next
  case None
  from trackSource_new [OF assms None] obtain m' where m': "trackSource a m = Inr m'" "mo_cfg m' = mo_cfg m" "order_ok m'" "distinct (mo_order m')"
      "set (mo_order m') = insert a (set (mo_order m) - victims m)"
      "mo_sources m' = AList.update a emptySource (filter (\<lambda>(b, s). b \<notin> victims m) (mo_sources m))" by metis
  have empty: "ring_ok emptySource" using emptySource_follows by (simp add: source_follows_def)
  have "set (mo_order m') = fst ` set (mo_sources m')"
    using assms by (force simp: m'(5,6) fst_update monitor_ok_def)
  moreover have "\<forall>s\<in>snd ` set (mo_sources m'). ring_ok s"
  proof
    fix s assume "s \<in> snd ` set (mo_sources m')"
    from subsetD [OF snd_update this [unfolded m'(6)]] have "s = emptySource \<or> s \<in> snd ` set (mo_sources m)" by auto
    then show "ring_ok s" using assms empty by (auto simp: monitor_ok_def)
  qed
  moreover have "distinct (map fst (mo_sources m'))"
    using assms by (simp add: m'(6) distinct_update distinct_map_filter monitor_ok_def)
  ultimately have "monitor_ok m'" using assms m'(2-4) by (simp add: monitor_ok_def)
  then show ?thesis using m'(1,2) empty by (simp add: m'(6) update_conv')
qed

lemma advanceWindow_ring: "ring_ok s \<Longrightarrow> ring_ok (advanceWindow cfg t s)"
  using ring_restart(1) [of s False] by (simp add: advanceWindow_def Let_def)

lemma recordSample_ring:
  assumes "ring_ok s"
  shows "\<exists>s' lost r. recordSample cfg p t s = Inr (s', lost, r) \<and> ring_ok s'"
  using sample_log.push_ok [OF assms, of "(t, p)"] ring_ok_index [OF assms] ring_ok_index [OF sample_log.push_ok [OF assms, of "(t, p)"]]
  by (auto simp: recordSample_def Let_def not_le not_less)

lemma observeSample_ring:
  assumes "ring_ok s"
  shows "\<exists>s' lost r. observeSample cfg p t s = Inr (s', lost, r) \<and> ring_ok s'"
proof -
  let ?s1 = "s\<lparr>so_hits := so_hits s + 1, so_lastSeen := t, so_lastPort := p\<rparr>"
  have "ring_ok ?s1" using assms by simp
  from recordSample_ring [OF advanceWindow_ring [OF this]] show ?thesis using assms by (auto simp: observeSample_def Let_def)
qed

lemma monitor_ok_update:
  assumes "monitor_ok m" and "map_of (mo_sources m) a = Some s" and "ring_ok s'"
  shows "monitor_ok (m\<lparr>mo_sources := AList.update a s' (mo_sources m)\<rparr>)"
proof -
  have "fst ` set (AList.update a s' (mo_sources m)) = fst ` set (mo_sources m)"
    using map_of_SomeD [OF assms(2)] by (force simp: fst_update)
  moreover have "\<forall>x\<in>snd ` set (AList.update a s' (mo_sources m)). ring_ok x"
    using assms(1,3) snd_update [of a s' "mo_sources m"] unfolding monitor_ok_def by blast
  ultimately show ?thesis using assms(1) by (simp add: monitor_ok_def distinct_update)
qed

lemma Observe_total:
  assumes "monitor_ok m"
  shows "\<exists>m' r. ObserveBlockedInbound remote p now m = Inr (m', r) \<and> monitor_ok m'"
proof (cases "ParseAddr remote")
  case None
  then show ?thesis using assms by (auto simp: ObserveBlockedInbound_def)
next
  case (Some a0)
  let ?m = "m\<lparr>mo_blocks := mo_blocks m + 1\<rparr>" and ?a = "Unmap a0"
  obtain m1 s where m1: "trackSource ?a ?m = Inr m1" "monitor_ok m1" "map_of (mo_sources m1) ?a = Some s" "ring_ok s"
    using trackSource_ok [of ?m ?a] assms by auto
  obtain s' lost r where s': "observeSample (mo_cfg m1) p now s = Inr (s', lost, r)" "ring_ok s'" using observeSample_ring [OF m1(4)] by blast
  have "monitor_ok (m1\<lparr>mo_sources := AList.update ?a s' (mo_sources m1), mo_dropped := x, mo_candidates := y\<rparr>)" for x y
    using monitor_ok_update [OF m1(2,3) s'(2)] by (simp add: monitor_ok_def order_ok_def)
  then show ?thesis using Some assms m1(1,3) s'(1) by (auto simp: ObserveBlockedInbound_def Let_def)
qed

lemma Configure_ok: "monitor_ok m \<Longrightarrow> monitor_ok (fst (Configure cfg m))"
  using maxSamples_pos
  by (auto simp: Configure_def monitor_ok_def order_ok_def resetSource_def ring_ok_def comp_def case_prod_beta image_image split: sum.splits)

text \<open>
  C27 [monitor_bounded]: under any sequence of observations and reconfigurations from the start, the
  monitor never indexes out of range, tracks at most 2048 sources, each address once, and its
  eviction order lists exactly the tracked addresses.
\<close>

datatype monitor_event = Observed string port gotime | Configured kineticConfig

fun monitorRun :: "monitor_event list \<Rightarrow> monitor outcome" where
  "monitorRun [] = Inr NewMonitor"
| "monitorRun (Observed remote p now # es) = bind_outcome (monitorRun es) (\<lambda>m. bind_outcome (ObserveBlockedInbound remote p now m) (\<lambda>(m', r). Inr m'))"
| "monitorRun (Configured cfg # es) = bind_outcome (monitorRun es) (\<lambda>m. Inr (fst (Configure cfg m)))"

theorem monitor_bounded:
  "\<exists>m. monitorRun es = Inr m \<and> monitor_ok m \<and> length (mo_sources m) \<le> 2048"
proof -
  have "\<exists>m. monitorRun es = Inr m \<and> monitor_ok m"
  proof (induction es rule: monitorRun.induct)
    case 1
    then show ?case using NewMonitor_ok by simp
  next
    case (2 remote p now es)
    then show ?case using Observe_total [of _ remote p now] by (metis (no_types, lifting) bind_outcome_simps(2) case_prod_conv monitorRun.simps(2))
  next
    case (3 cfg es)
    then show ?case using Configure_ok by auto
  qed
  then show ?thesis using monitor_ok_length by (auto simp: monitor_ok_def order_ok_def maxSources_def)
qed

text \<open>
  An address that is not tracked is appended; only when 2048 are tracked the one
  that was added first is dropped, and every other source keeps its samples. The round-robin position
  is a queue.
\<close>

lemma eviction_is_fifo:
  assumes "monitor_ok m" and "map_of (mo_sources m) a = None"
  shows "\<exists>m'. trackSource a m = Inr m' \<and>
    trackedOrder m' = (if length (trackedOrder m) < 2048 then trackedOrder m else tl (trackedOrder m)) @ [a] \<and>
    (\<forall>b. map_of (mo_sources m') b = (if b = a then Some emptySource
       else if b \<in> set (trackedOrder m') then map_of (mo_sources m) b else None))"
proof -
  from trackSource_new [OF assms] obtain m' where m': "trackSource a m = Inr m'" "trackedOrder m' = trackedOrder (pushOrder a m)"
      "set (mo_order m') = insert a (set (mo_order m) - victims m)"
      "mo_sources m' = AList.update a emptySource (filter (\<lambda>(b, s). b \<notin> victims m) (mo_sources m))" by metis
  have keys: "map_of (mo_sources m) b = None \<longleftrightarrow> b \<notin> set (mo_order m)" for b
    using assms(1) by (simp add: monitor_ok_def map_of_eq_None_iff)
  have "b \<in> set (trackedOrder m') \<longleftrightarrow> b = a \<or> b \<in> set (mo_order m) \<and> b \<notin> victims m" for b
    by (simp add: trackedOrder_def m'(3))
  then have "map_of (mo_sources m') b = (if b = a then Some emptySource
      else if b \<in> set (trackedOrder m') then map_of (mo_sources m) b else None)" for b
    using keys [of b] by (simp add: m'(4) update_conv' map_of_filter_key)
  moreover have "order_ok m" using assms(1) by (simp add: monitor_ok_def)
  ultimately show ?thesis using m'(1,2) order_log.push_contents [of m a] by (simp add: maxSources_def)
qed

section \<open>Arming\<close>

text \<open>
  The requirements are met exactly when both telemetry sources are live, the
  enforcement is verified, its active generation is a proper one that equals the generation of the
  feeds and, if one is desired, the desired one, and there is something to block; the list of
  blockers is empty in this case only.
\<close>

lemma arming_requirements:
  "ar_ready (EvaluateArmingRequirements i) \<longleftrightarrow>
     am_wfpRealtime i \<and> am_networkRealtime i \<and> am_enforcementState i \<in> {''VERIFIED'', ''VERIFIED_CLEANUP_PENDING''} \<and>
     am_activeGeneration i \<noteq> [] \<and> am_activeGeneration i = am_feedEnforcementGeneration i \<and>
     (am_desiredGeneration i = [] \<or> am_desiredGeneration i = am_activeGeneration i) \<and> 0 < am_blockingIndicators i"
  "ar_ready (EvaluateArmingRequirements i) \<longleftrightarrow> ar_blockers (EvaluateArmingRequirements i) = []"
  by (auto simp: EvaluateArmingRequirements_def Let_def)

end
