(* ===== verification/KineticState.thy ===== *)
theory KineticState
  imports ThreatRuntime KineticMonitor
begin

text \<open>
  \<open>internal/mhx/kinetic_state.go\<close>: the armed state of the kinetic correlation. An operator asks for arming;
  the engine grants it only while the threat enforcement is verified, remembers the intent over a
  restart, and takes it back when the verification is lost.

  A \<open>kengine\<close> is the engine of \<open>ThreatRuntime\<close> with the fields of \<open>Engine\<close> that this file uses, and the
  file \<open>kinetic-settings.json\<close>. An operation reads the clock as \<open>ki_now\<close>; whether its write of the file
  succeeds is \<open>ki_writeOK\<close>; the size of the encoded state is \<open>ki_size\<close> (\<open>None\<close> when it cannot be encoded).
\<close>

section \<open>State\<close>

definition kineticStateSchemaVersion :: int where "kineticStateSchemaVersion = 1"
definition maximumKineticStateBytes :: int where "maximumKineticStateBytes = 16 * 1024"
definition kineticRearmRetryInterval :: duration where "kineticRearmRetryInterval = 30 * second"
definition kineticRequirementLostGrace :: duration where "kineticRequirementLostGrace = 20 * second"

definition kineticConfigSourceDefault :: string where "kineticConfigSourceDefault = ''DEFAULT''"
definition kineticConfigSourceStored :: string where "kineticConfigSourceStored = ''PERSISTED''"
definition kineticConfigSourceInvalid :: string where "kineticConfigSourceInvalid = ''INVALID_DEFAULT''"
definition kineticRearmIdle :: string where "kineticRearmIdle = ''IDLE''"
definition kineticRearmPending :: string where "kineticRearmPending = ''PENDING''"
definition kineticRearmReArmed :: string where "kineticRearmReArmed = ''REARMED''"
definition kineticArmOperator :: string where "kineticArmOperator = ''OPERATOR''"
definition kineticArmPersisted :: string where "kineticArmPersisted = ''PERSISTED_REARM''"
definition kineticArmFailSecure :: string where "kineticArmFailSecure = ''FAIL_SAFE_OBSERVE''"

record kineticRuntimeState =
  kt_config :: kineticConfig
  kt_configSource :: string
  kt_configWarning :: string
  kt_persisted :: bool
  kt_settingsUpdatedUTC :: gotime
  kt_desiredArmed :: bool
  kt_armedUTC :: gotime
  kt_armReason :: string
  kt_requirementLostSince :: gotime
  kt_rearmState :: string
  kt_rearmReason :: string
  kt_rearmAttempts :: counter
  kt_rearmLastAttemptUTC :: gotime
  kt_rearmNextAttemptUTC :: gotime
  kt_rearmLastError :: string

record kineticPersistedState =
  kp_schemaVersion :: int
  kp_armed :: bool
  kp_config :: kineticConfig
  kp_updatedUTC :: gotime

record kengine =
  ke_engine :: engine
  ke_armed :: bool
  ke_runtime :: kineticRuntimeState
  ke_monitor :: monitor
  ke_file :: "kineticPersistedState stored"
  ke_wfpRealtime :: bool
  ke_networkRealtime :: bool

record kinetic_input =
  ki_now :: gotime
  ki_writeOK :: bool
  ki_size :: "kineticPersistedState \<Rightarrow> nat option"

abbreviation set_runtime :: "(kineticRuntimeState \<Rightarrow> kineticRuntimeState) \<Rightarrow> kengine \<Rightarrow> kengine" where
  "set_runtime f ke \<equiv> ke\<lparr>ke_runtime := f (ke_runtime ke)\<rparr>"

text \<open>The zero value of \<open>Config\<close>, which stands for the default.\<close>

definition zeroConfig :: kineticConfig where
  "zeroConfig = \<lparr>kc_burstWindowSeconds = 0, kc_minEvents = 0, kc_minDistinctPorts = 0, kc_autoDisarmSeconds = 0\<rparr>"

definition configOr :: "kineticConfig \<Rightarrow> kineticConfig" where
  "configOr c = (if c = zeroConfig then DefaultConfig else c)"

definition noteKinetic :: "runtime_env \<Rightarrow> ledger_entry \<Rightarrow> kengine \<Rightarrow> kengine" where
  "noteKinetic env entry ke = ke\<lparr>ke_engine := noteLedger env entry (ke_engine ke)\<rparr>"

section \<open>Loading and writing\<close>

definition applyKineticMonitorConfig :: "kineticConfig \<Rightarrow> kengine \<Rightarrow> kengine" where
  "applyKineticMonitorConfig config ke = ke\<lparr>ke_monitor := fst (Configure config (ke_monitor ke))\<rparr>"

definition initialRuntime :: kineticRuntimeState where
  "initialRuntime = \<lparr>kt_config = DefaultConfig, kt_configSource = kineticConfigSourceDefault, kt_configWarning = [], kt_persisted = False,
     kt_settingsUpdatedUTC = 0, kt_desiredArmed = False, kt_armedUTC = 0, kt_armReason = [], kt_requirementLostSince = 0,
     kt_rearmState = kineticRearmIdle, kt_rearmReason = [], kt_rearmAttempts = 0, kt_rearmLastAttemptUTC = 0,
     kt_rearmNextAttemptUTC = 0, kt_rearmLastError = []\<rparr>"

text \<open>What the file gives: a rejected file gives its warning.\<close>

definition readKineticState :: "kineticPersistedState stored \<Rightarrow> (string + kineticPersistedState) option" where
  "readKineticState f =
     (case f of
        Absent \<Rightarrow> None
      | Unreadable \<Rightarrow> Some (Inl ''persisted kinetic state unreadable; default observe policy active'')
      | Stored bytes regular content \<Rightarrow> Some
          (if bytes = 0 \<or> maximumKineticStateBytes < int bytes
           then Inl ''persisted kinetic state size rejected; default observe policy active''
           else case content of
             Malformed \<Rightarrow> Inl ''persisted kinetic state rejected; default observe policy active''
           | Trailing \<Rightarrow> Inl ''persisted kinetic state trailing data rejected; default observe policy active''
           | Decoded state \<Rightarrow>
               if kp_schemaVersion state \<noteq> kineticStateSchemaVersion
               then Inl ''persisted kinetic state schema rejected; default observe policy active''
               else if isl (ValidateConfig (kp_config state))
               then Inl ''persisted kinetic policy rejected; default observe policy active''
               else Inr state))"

definition loadKineticState :: "kengine \<Rightarrow> kengine" where
  "loadKineticState ke =
     (let ke0 = ke\<lparr>ke_runtime := initialRuntime\<rparr> in
      case readKineticState (ke_file ke) of
        None \<Rightarrow> applyKineticMonitorConfig DefaultConfig ke0
      | Some (Inl warning) \<Rightarrow>
          applyKineticMonitorConfig DefaultConfig (set_runtime (\<lambda>rt. rt\<lparr>kt_config := DefaultConfig,
            kt_configSource := kineticConfigSourceInvalid, kt_configWarning := warning, kt_persisted := False, kt_desiredArmed := False\<rparr>) ke0)
      | Some (Inr state) \<Rightarrow>
          applyKineticMonitorConfig (kp_config state) (set_runtime (\<lambda>rt.
            let rt1 = rt\<lparr>kt_config := kp_config state, kt_configSource := kineticConfigSourceStored, kt_configWarning := [],
                  kt_persisted := True, kt_settingsUpdatedUTC := kp_updatedUTC state, kt_desiredArmed := kp_armed state\<rparr> in
            if kp_armed state then rt1\<lparr>kt_rearmState := kineticRearmPending,
                 kt_rearmReason := ''persisted arming intent requires verified Threat-IP/WFP requirements''\<rparr>
            else rt1) ke0))"

text \<open>How \<open>NewEngine\<close> starts the kinetic fields of a new engine.\<close>

definition newKinetic :: "engine \<Rightarrow> kineticPersistedState stored \<Rightarrow> kengine" where
  "newKinetic e f = loadKineticState \<lparr>ke_engine = e, ke_armed = False, ke_runtime = initialRuntime, ke_monitor = NewMonitor, ke_file = f,
     ke_wfpRealtime = False, ke_networkRealtime = False\<rparr>"

definition writeKineticState :: "kinetic_input \<Rightarrow> bool \<Rightarrow> kengine \<Rightarrow> kengine \<times> unit outcome" where
  "writeKineticState inp desiredArmed ke =
     (let config = configOr (kt_config (ke_runtime ke)) in
      case ValidateConfig config of
        Inl e \<Rightarrow> (ke, Inl e)
      | Inr u \<Rightarrow>
          let state = \<lparr>kp_schemaVersion = kineticStateSchemaVersion, kp_armed = desiredArmed, kp_config = config, kp_updatedUTC = ki_now inp\<rparr> in
          (case ki_size inp state of
             None \<Rightarrow> (ke, Inl (Err ''marshal failed''))
           | Some bytes \<Rightarrow>
               (case atomicWrite (ki_writeOK inp) (Suc bytes) state (ke_file ke) of
                  Inl e \<Rightarrow> (ke, Inl e)
                | Inr f \<Rightarrow> (ke\<lparr>ke_file := f\<rparr>, Inr ()))))"

section \<open>Requirements\<close>

definition kineticRequirements :: "runtime_env \<Rightarrow> kengine \<Rightarrow> armingRequirements" where
  "kineticRequirements env ke =
     (let enforcement = eg_enforcement (ke_engine ke); status = engineStatus env (ke_engine ke) in
      EvaluateArmingRequirements
        \<lparr>am_wfpRealtime = ke_wfpRealtime ke, am_networkRealtime = ke_networkRealtime ke,
         am_enforcementState = te_state enforcement, am_desiredGeneration = te_desiredGeneration enforcement,
         am_activeGeneration = te_activeGeneration enforcement,
         am_feedEnforcementGeneration = st_enforcementGeneration status,
         am_blockingIndicators = st_blockingIndicators status\<rparr>)"

section \<open>Arming and disarming\<close>

text \<open>How the runtime state looks after arming and after disarming.\<close>

definition armRuntime :: "string \<Rightarrow> gotime \<Rightarrow> kineticRuntimeState \<Rightarrow> kineticRuntimeState" where
  "armRuntime source now rt0 =
     (let rt = rt0\<lparr>kt_desiredArmed := True, kt_persisted := True, kt_armedUTC := now, kt_armReason := source,
            kt_requirementLostSince := 0, kt_rearmLastError := [], kt_rearmNextAttemptUTC := 0\<rparr> in
      if source = kineticArmPersisted
      then rt\<lparr>kt_rearmState := kineticRearmReArmed,
              kt_rearmReason := ''persisted arming intent promoted after verified Threat-IP/WFP requirements'',
              kt_rearmAttempts := kt_rearmAttempts rt + 1, kt_rearmLastAttemptUTC := now\<rparr>
      else rt\<lparr>kt_rearmState := kineticRearmIdle, kt_rearmReason := []\<rparr>)"

definition disarmRuntime :: "kineticRuntimeState \<Rightarrow> kineticRuntimeState" where
  "disarmRuntime rt = rt\<lparr>kt_desiredArmed := False, kt_armedUTC := 0, kt_armReason := ''OBSERVE'', kt_requirementLostSince := 0,
     kt_rearmState := kineticRearmIdle, kt_rearmReason := ''operator disarm'', kt_rearmNextAttemptUTC := 0\<rparr>"

definition recordArmingIntent :: "runtime_env \<Rightarrow> kinetic_input \<Rightarrow> string \<Rightarrow> kengine \<Rightarrow> kengine \<times> unit outcome" where
  "recordArmingIntent env inp source ke =
     (let ke1 = noteKinetic env (''kinetic.mode'', ''threat-ip-correlation'', ''ARMED'') ke in
      case writeKineticState inp True ke1 of
        (ke2, Inl e) \<Rightarrow> (noteKinetic env (''kinetic.mode'', ''arming-persistence'', ''failed'') ke2, Inl (Err (''kinetic arming persistence failed: '' @ err_text e)))
      | (ke2, Inr u) \<Rightarrow>
          (ke2\<lparr>ke_armed := True, ke_runtime := armRuntime source (ki_now inp) (ke_runtime ke2)\<rparr>, Inr ()))"

definition disarmWithReason :: "runtime_env \<Rightarrow> kinetic_input \<Rightarrow> string \<Rightarrow> kengine \<Rightarrow> kengine \<times> unit outcome" where
  "disarmWithReason env inp reason ke =
     (let ke1 = noteKinetic env (''kinetic.mode'', ''threat-ip-correlation'', reason) ke;
          (ke2, persistErr) = writeKineticState inp False ke1;
          ke3 = ke2\<lparr>ke_armed := False, ke_runtime := disarmRuntime (ke_runtime ke2)\<rparr> in
      case persistErr of
        Inl e \<Rightarrow> (noteKinetic env (''kinetic.mode'', ''disarm-persistence'', ''failed'') ke3,
                  Inl (Err (''kinetic disarm persistence failed: '' @ err_text e)))
      | Inr u \<Rightarrow> (set_runtime (\<lambda>rt. rt\<lparr>kt_persisted := True\<rparr>) ke3, Inr ()))"

definition dropEffectiveArming :: "runtime_env \<Rightarrow> armingRequirements \<Rightarrow> kengine \<Rightarrow> kengine" where
  "dropEffectiveArming env requirements ke =
     set_runtime (\<lambda>rt. rt\<lparr>kt_requirementLostSince := 0, kt_rearmState := kineticRearmPending,
       kt_rearmReason := ''verified Threat-IP/WFP requirements were lost; automatic re-arm pending'',
       kt_rearmLastError := Join (ar_blockers requirements) ''; ''\<rparr>)
     ((noteKinetic env (''kinetic.mode'', ''threat-ip-correlation'', ''OBSERVE_REQUIREMENTS_LOST'') ke)\<lparr>ke_armed := False\<rparr>)"

text \<open>The automatic decision: the part for an armed engine, and the promotion of a stored intent.\<close>

definition reconcileArmed :: "runtime_env \<Rightarrow> kinetic_input \<Rightarrow> gotime \<Rightarrow> kengine \<Rightarrow> kengine" where
  "reconcileArmed env inp now ke =
     (let rt = ke_runtime ke; config = configOr (kt_config rt); requirements = kineticRequirements env ke in
      if 0 < kc_autoDisarmSeconds config \<and> kt_armedUTC rt \<noteq> 0 \<and> AutoDisarm config \<le> time_sub now (kt_armedUTC rt)
      then (case disarmWithReason env inp ''AUTO_DISARM_ELAPSED'' ke of
              (ke1, Inl e) \<Rightarrow> noteKinetic env (''kinetic.mode'', ''auto-disarm'', ''persistence-failed'') ke1
            | (ke1, Inr u) \<Rightarrow> ke1)
      else if ar_ready requirements then set_runtime (\<lambda>rt. rt\<lparr>kt_requirementLostSince := 0\<rparr>) ke
      else if kt_requirementLostSince rt = 0 then set_runtime (\<lambda>rt. rt\<lparr>kt_requirementLostSince := now\<rparr>) ke
      else if time_sub now (kt_requirementLostSince rt) < kineticRequirementLostGrace then ke
      else dropEffectiveArming env requirements ke)"

definition promoteIntent :: "runtime_env \<Rightarrow> kinetic_input \<Rightarrow> gotime \<Rightarrow> kengine \<Rightarrow> kengine" where
  "promoteIntent env inp now ke =
     (let requirements = kineticRequirements env ke; previousState = kt_rearmState (ke_runtime ke) in
      if \<not> ar_ready requirements
      then let ke1 = set_runtime (\<lambda>rt0.
                 let rt = (if kt_rearmState rt0 \<noteq> kineticRearmPending \<or> kt_rearmLastAttemptUTC rt0 = 0
                           then rt0\<lparr>kt_rearmAttempts := kt_rearmAttempts rt0 + 1, kt_rearmLastAttemptUTC := now\<rparr> else rt0) in
                 rt\<lparr>kt_rearmState := kineticRearmPending,
                    kt_rearmReason := ''persisted arming intent waiting for verified Threat-IP/WFP requirements'',
                    kt_rearmLastError := Join (ar_blockers requirements) ''; '', kt_rearmNextAttemptUTC := now + kineticRearmRetryInterval\<rparr>) ke in
           (if previousState \<noteq> kineticRearmPending
            then noteKinetic env (''kinetic.rearm'', ''persisted-intent'', ''waiting-for-verified-requirements'') ke1 else ke1)
      else (case recordArmingIntent env inp kineticArmPersisted ke of
              (ke1, Inr u) \<Rightarrow> ke1
            | (ke1, Inl e) \<Rightarrow>
                noteKinetic env (''kinetic.rearm'', ''persisted-intent'', ''failed'')
                  (set_runtime (\<lambda>rt. rt\<lparr>kt_rearmState := kineticRearmPending, kt_rearmAttempts := kt_rearmAttempts rt + 1,
                     kt_rearmLastAttemptUTC := now, kt_rearmLastError := err_text e,
                     kt_rearmNextAttemptUTC := now + kineticRearmRetryInterval\<rparr>) ke1)))"

definition reconcileKinetic :: "runtime_env \<Rightarrow> kinetic_input \<Rightarrow> gotime \<Rightarrow> kengine \<Rightarrow> kengine" where
  "reconcileKinetic env inp now ke =
     (if ke_armed ke then reconcileArmed env inp now ke
      else if \<not> kt_desiredArmed (ke_runtime ke) then ke
      else if kt_rearmNextAttemptUTC (ke_runtime ke) \<noteq> 0 \<and> now < kt_rearmNextAttemptUTC (ke_runtime ke) then ke
      else promoteIntent env inp now ke)"

section \<open>The report\<close>

record kineticAutoRearmStatus =
  kz_state :: string
  kz_reason :: string
  kz_attempts :: counter
  kz_lastAttemptUTC :: gotime
  kz_nextAttemptUTC :: gotime
  kz_lastError :: string

record kineticSettingsSnapshot =
  kx_schemaVersion :: int
  kx_armed :: bool
  kx_observe :: bool
  kx_desiredArmed :: bool
  kx_mode :: string
  kx_config :: kineticConfig
  kx_defaults :: kineticConfig
  kx_limits :: kineticLimits
  kx_configSource :: string
  kx_configWarning :: string
  kx_armingSource :: string
  kx_reason :: string
  kx_requirements :: armingRequirements
  kx_autoRearm :: kineticAutoRearmStatus
  kx_persisted :: bool
  kx_updatedUTC :: gotime
  kx_armedUTC :: gotime

definition KineticSettings :: "runtime_env \<Rightarrow> kengine \<Rightarrow> kineticSettingsSnapshot" where
  "KineticSettings env ke =
     (let requirements = kineticRequirements env ke; rt = ke_runtime ke; armed = ke_armed ke;
          config = configOr (kt_config rt);
          configSource = (if kt_configSource rt = [] then kineticConfigSourceDefault else kt_configSource rt);
          reason = (if \<not> armed \<and> kt_desiredArmed rt then kt_rearmReason rt else kt_armReason rt);
          armingSource0 = (if \<not> armed then (if kt_desiredArmed rt then kineticRearmPending else kineticArmFailSecure) else kt_armReason rt);
          armingSource = (if armed \<and> armingSource0 = [] then kineticArmFailSecure else armingSource0);
          rearmState = (if kt_rearmState rt = [] then kineticRearmIdle else kt_rearmState rt) in
      \<lparr>kx_schemaVersion = kineticStateSchemaVersion, kx_armed = armed, kx_observe = (\<not> armed), kx_desiredArmed = kt_desiredArmed rt,
       kx_mode = (if armed then ''ARMED_TI_CORRELATION'' else ''OBSERVE_ONLY''), kx_config = config, kx_defaults = DefaultConfig,
       kx_limits = Limits, kx_configSource = configSource, kx_configWarning = kt_configWarning rt, kx_armingSource = armingSource,
       kx_reason = reason, kx_requirements = requirements,
       kx_autoRearm = \<lparr>kz_state = rearmState,
         kz_reason = (if armed \<and> rearmState = kineticRearmPending \<and> ar_ready requirements
           then ''verified requirements satisfied; automatic re-arm pending'' else kt_rearmReason rt),
         kz_attempts = kt_rearmAttempts rt, kz_lastAttemptUTC = kt_rearmLastAttemptUTC rt,
         kz_nextAttemptUTC = kt_rearmNextAttemptUTC rt, kz_lastError = kt_rearmLastError rt\<rparr>,
       kx_persisted = kt_persisted rt, kx_updatedUTC = kt_settingsUpdatedUTC rt, kx_armedUTC = kt_armedUTC rt\<rparr>)"

section \<open>Operator requests\<close>

text \<open>The new policy is taken over, and persisted; a failure brings the previous policy back.\<close>

definition adoptConfig :: "kineticConfig \<Rightarrow> gotime \<Rightarrow> monitor \<Rightarrow> kengine \<Rightarrow> kengine" where
  "adoptConfig config now mo ke = ke\<lparr>ke_monitor := mo, ke_runtime := (ke_runtime ke)\<lparr>kt_config := config,
     kt_configSource := kineticConfigSourceStored, kt_configWarning := [], kt_settingsUpdatedUTC := now\<rparr>\<rparr>"

definition revertConfig :: "kineticConfig \<Rightarrow> kengine \<Rightarrow> kengine" where
  "revertConfig previous ke =
     (case Configure previous (ke_monitor ke) of
        (mo, Inr u) \<Rightarrow> ke\<lparr>ke_monitor := mo, ke_runtime := (ke_runtime ke)\<lparr>kt_config := previous\<rparr>\<rparr>
      | (mo, Inl x) \<Rightarrow> ke\<lparr>ke_monitor := mo\<rparr>)"

definition persistConfig :: "runtime_env \<Rightarrow> kinetic_input \<Rightarrow> bool \<Rightarrow> kineticConfig \<Rightarrow> kineticConfig \<Rightarrow> kengine \<Rightarrow> kengine \<times> goerr option" where
  "persistConfig env inp desiredArmed previous config ke =
     (case writeKineticState inp desiredArmed ke of
        (ke1, Inl e) \<Rightarrow> (noteKinetic env (''kinetic.config'', ''observation-policy'', ''persistence-failed'') (revertConfig previous ke1),
                        Some (Err (''kinetic configuration persistence failed: '' @ err_text e)))
      | (ke1, Inr u) \<Rightarrow>
          (noteKinetic env (''kinetic.config'', ''observation-policy'',
             ''window='' @ formatInt (kc_burstWindowSeconds config) @ '';events='' @ formatInt (kc_minEvents config) @
             '';ports='' @ formatInt (kc_minDistinctPorts config) @ '';autoDisarm='' @ formatInt (kc_autoDisarmSeconds config))
             (set_runtime (\<lambda>rt. rt\<lparr>kt_persisted := True, kt_settingsUpdatedUTC := ki_now inp\<rparr>) ke1), None))"

text \<open>\<open>inp'\<close> are the answers for the reconciliation at the end of a request.\<close>

definition SetKineticConfig ::
    "runtime_env \<Rightarrow> bool \<Rightarrow> kinetic_input \<Rightarrow> kinetic_input \<Rightarrow> kineticConfig \<Rightarrow> kengine \<Rightarrow> kengine \<times> kineticSettingsSnapshot \<times> goerr option" where
  "SetKineticConfig env active inp inp' config ke =
     (let answer = (\<lambda>ke err. (ke, KineticSettings env ke, err));
          rejected = noteKinetic env (''kinetic.config'', ''observation-policy'', ''rejected'') in
      if \<not> active then answer ke (Some (Err ''kinetic configuration requires an active request''))
      else case ValidateConfig config of
        Inl e \<Rightarrow> answer (rejected ke) (Some e)
      | Inr u \<Rightarrow>
          let previous = configOr (kt_config (ke_runtime ke)); desiredArmed = kt_desiredArmed (ke_runtime ke) in
          if previous = config then answer ke None
          else (case Configure config (ke_monitor ke) of
              (mo, Inl e) \<Rightarrow> answer (rejected (ke\<lparr>ke_monitor := mo\<rparr>)) (Some e)
            | (mo, Inr u) \<Rightarrow>
                (case persistConfig env inp desiredArmed previous config (adoptConfig config (ki_now inp) mo ke) of
                   (ke1, Some err) \<Rightarrow> answer ke1 (Some err)
                 | (ke1, None) \<Rightarrow> answer (reconcileKinetic env inp' (ki_now inp') ke1) None)))"

definition SetKineticDesiredState ::
    "runtime_env \<Rightarrow> bool \<Rightarrow> kinetic_input \<Rightarrow> kinetic_input \<Rightarrow> bool \<Rightarrow> kengine \<Rightarrow> kengine \<times> kineticSettingsSnapshot \<times> goerr option" where
  "SetKineticDesiredState env active inp inp' armedAfterRestart ke =
     (let answer = (\<lambda>ke err. (ke, KineticSettings env ke, err)) in
      if \<not> active then answer ke (Some (Err ''kinetic state update requires an active request''))
      else if \<not> armedAfterRestart
      then (case disarmWithReason env inp ''DISARMED'' ke of
              (ke1, Inl e) \<Rightarrow> answer ke1 (Some e)
            | (ke1, Inr u) \<Rightarrow> answer ke1 None)
      else let requirements = kineticRequirements env ke in
        if ke_armed ke then answer ke None
        else if ar_ready requirements
        then (case recordArmingIntent env inp kineticArmOperator ke of
                (ke1, Inl e) \<Rightarrow> answer ke1 (Some e)
              | (ke1, Inr u) \<Rightarrow> answer ke1 None)
        else (case writeKineticState inp True ke of
                (ke1, Inl e) \<Rightarrow> answer (noteKinetic env (''kinetic.intent'', ''armed-after-restart'', ''persistence-failed'') ke1)
                   (Some (Err (''kinetic arming intent persistence failed: '' @ err_text e)))
              | (ke1, Inr u) \<Rightarrow>
                  let now = ki_now inp;
                      ke2 = set_runtime (\<lambda>rt. rt\<lparr>kt_desiredArmed := True, kt_persisted := True, kt_rearmState := kineticRearmPending,
                        kt_rearmReason := ''operator requested arming after restart; waiting for verified Threat-IP/WFP requirements'',
                        kt_rearmLastError := Join (ar_blockers requirements) ''; '', kt_rearmNextAttemptUTC := now\<rparr>) ke1;
                      ke3 = noteKinetic env (''kinetic.intent'', ''armed-after-restart'', ''persisted-pending-verification'') ke2 in
                  answer (reconcileKinetic env inp' now ke3) None))"

definition SetKineticArmed :: "runtime_env \<Rightarrow> bool \<Rightarrow> kinetic_input \<Rightarrow> bool \<Rightarrow> kengine \<Rightarrow> kengine \<times> unit outcome" where
  "SetKineticArmed env active inp armed ke =
     (if \<not> active then (ke, Inl (Err ''kinetic control requires an active request''))
      else if \<not> armed
      then (if \<not> kt_desiredArmed (ke_runtime ke) \<and> \<not> ke_armed ke then (ke, Inr ()) else disarmWithReason env inp ''DISARMED'' ke)
      else let requirements = kineticRequirements env ke in
        if \<not> ar_ready requirements
        then (noteKinetic env (''kinetic.mode'', ''threat-ip-correlation'', ''REQUIREMENTS_UNMET'') ke,
              Inl (Err (''kinetic: verified Threat-IP WFP generation required: '' @ Join (ar_blockers requirements) ''; '')))
        else if ke_armed ke then (ke, Inr ())
        else recordArmingIntent env inp kineticArmOperator ke)"

section \<open>Frame lemmas\<close>

lemma armRuntime_sel [simp]:
  "kt_config (armRuntime source t rt) = kt_config rt" "kt_desiredArmed (armRuntime source t rt) = True" "kt_armedUTC (armRuntime source t rt) = t"
  "kt_config (disarmRuntime rt) = kt_config rt" "kt_desiredArmed (disarmRuntime rt) = False"
  by (simp_all add: armRuntime_def disarmRuntime_def Let_def)

lemma noteKinetic_sel [simp]:
  "ke_armed (noteKinetic env x ke) = ke_armed ke" "ke_runtime (noteKinetic env x ke) = ke_runtime ke" "ke_monitor (noteKinetic env x ke) = ke_monitor ke"
  "ke_file (noteKinetic env x ke) = ke_file ke" "ke_wfpRealtime (noteKinetic env x ke) = ke_wfpRealtime ke"
  "ke_networkRealtime (noteKinetic env x ke) = ke_networkRealtime ke"
  "eg_feeds (ke_engine (noteKinetic env x ke)) = eg_feeds (ke_engine ke)" "eg_disk (ke_engine (noteKinetic env x ke)) = eg_disk (ke_engine ke)"
  "eg_enforcement (ke_engine (noteKinetic env x ke)) = eg_enforcement (ke_engine ke)"
  by (simp_all add: noteKinetic_def)

lemma kineticRequirements_cong [simp]:
  "kineticRequirements env' (noteKinetic env x ke) = kineticRequirements env' ke"
  "kineticRequirements env' (ke\<lparr>ke_runtime := rt\<rparr>) = kineticRequirements env' ke"
  "kineticRequirements env' (ke\<lparr>ke_monitor := mo\<rparr>) = kineticRequirements env' ke"
  "kineticRequirements env' (ke\<lparr>ke_file := f\<rparr>) = kineticRequirements env' ke"
  "kineticRequirements env' (ke\<lparr>ke_armed := b\<rparr>) = kineticRequirements env' ke"
  by (simp_all add: kineticRequirements_def)

lemma zeroConfig_invalid: "ValidateConfig zeroConfig \<noteq> Inr ()"
  by (simp add: ValidateConfig_iff zeroConfig_def)

lemma configOr_valid [simp]: "ValidateConfig c = Inr () \<Longrightarrow> configOr c = c"
  using zeroConfig_invalid by (auto simp: configOr_def)

lemma Configure_valid:
  assumes "ValidateConfig cfg = Inr ()"
  obtains mo where "Configure cfg m = (mo, Inr ())" and "mo_cfg mo = cfg" and "monitor_ok m \<Longrightarrow> monitor_ok mo"
  using that [of "fst (Configure cfg m)"] assms Configure_ok [of m cfg] by (auto simp: Configure_def)

text \<open>The file holds the intent to arm.\<close>

definition file_armed :: "kineticPersistedState stored \<Rightarrow> bool" where
  "file_armed f \<longleftrightarrow> (case f of Stored n regular (Decoded st) \<Rightarrow> kp_armed st | _ \<Rightarrow> False)"

lemma writeKineticState_cases:
  assumes "writeKineticState inp desired ke = (ke', r)" and "ValidateConfig (kt_config (ke_runtime ke)) = Inr ()"
  obtains (written) n where "r = Inr ()" and "ki_writeOK inp"
      and "ki_size inp \<lparr>kp_schemaVersion = kineticStateSchemaVersion, kp_armed = desired, kp_config = kt_config (ke_runtime ke), kp_updatedUTC = ki_now inp\<rparr> = Some n"
      and "ke' = ke\<lparr>ke_file := Stored (Suc n) True (Decoded \<lparr>kp_schemaVersion = kineticStateSchemaVersion, kp_armed = desired,
        kp_config = kt_config (ke_runtime ke), kp_updatedUTC = ki_now inp\<rparr>)\<rparr>"
  | (failed) e where "r = Inl e" and "ke' = ke"
  using assms by (auto simp: writeKineticState_def atomicWrite_def Let_def split: option.splits if_splits)

section \<open>The invariant\<close>

definition kinetic_ok :: "kengine \<Rightarrow> bool" where
  "kinetic_ok ke \<longleftrightarrow> ValidateConfig (kt_config (ke_runtime ke)) = Inr () \<and> mo_cfg (ke_monitor ke) = kt_config (ke_runtime ke) \<and>
     monitor_ok (ke_monitor ke) \<and> (ke_armed ke \<longrightarrow> kt_desiredArmed (ke_runtime ke)) \<and>
     (kt_desiredArmed (ke_runtime ke) \<longrightarrow> file_armed (ke_file ke))"

text \<open>
  What one move of the kinetic state may do: it keeps the invariant and the threat intelligence, and
  it arms only when the requirements are met.
\<close>

definition kinetic_move :: "runtime_env \<Rightarrow> kengine \<Rightarrow> kengine \<Rightarrow> bool" where
  "kinetic_move env ke ke' \<longleftrightarrow> kinetic_ok ke' \<and> eg_feeds (ke_engine ke') = eg_feeds (ke_engine ke) \<and>
     eg_disk (ke_engine ke') = eg_disk (ke_engine ke) \<and> eg_enforcement (ke_engine ke') = eg_enforcement (ke_engine ke) \<and>
     ke_wfpRealtime ke' = ke_wfpRealtime ke \<and> ke_networkRealtime ke' = ke_networkRealtime ke \<and>
     (ke_armed ke' \<and> \<not> ke_armed ke \<longrightarrow> ar_ready (kineticRequirements env ke))"

lemma kinetic_move_requirements: "kinetic_move env ke ke' \<Longrightarrow> kineticRequirements env' ke' = kineticRequirements env' ke"
  by (simp add: kinetic_move_def kineticRequirements_def)

lemma kinetic_move_refl: "kinetic_ok ke \<Longrightarrow> kinetic_move env ke ke"
  by (simp add: kinetic_move_def)

lemma kinetic_move_trans: "kinetic_move env ke ke' \<Longrightarrow> kinetic_move env ke' ke'' \<Longrightarrow> kinetic_move env ke ke''"
  using kinetic_move_requirements [of env ke ke' env] by (auto simp: kinetic_move_def)

lemma kinetic_ok_note [simp]: "kinetic_ok (noteKinetic env x ke) = kinetic_ok ke"
  by (simp add: kinetic_ok_def)

lemma kinetic_move_note: "kinetic_move env ke ke' \<Longrightarrow> kinetic_move env ke (noteKinetic env' x ke')"
  by (simp add: kinetic_move_def)

lemma recordArmingIntent_cases:
  assumes "recordArmingIntent env inp source ke = (ke', r)" and "ValidateConfig (kt_config (ke_runtime ke)) = Inr ()"
  obtains (armed) n where "r = Inr ()" and "ki_size inp \<lparr>kp_schemaVersion = kineticStateSchemaVersion, kp_armed = True,
        kp_config = kt_config (ke_runtime ke), kp_updatedUTC = ki_now inp\<rparr> = Some n"
      and "ke' = (noteKinetic env (''kinetic.mode'', ''threat-ip-correlation'', ''ARMED'') ke)\<lparr>
        ke_file := Stored (Suc n) True (Decoded \<lparr>kp_schemaVersion = kineticStateSchemaVersion, kp_armed = True,
          kp_config = kt_config (ke_runtime ke), kp_updatedUTC = ki_now inp\<rparr>),
        ke_armed := True, ke_runtime := armRuntime source (ki_now inp) (ke_runtime ke)\<rparr>"
  | (failed) e where "r = Inl e" and "ke' = noteKinetic env (''kinetic.mode'', ''arming-persistence'', ''failed'')
        (noteKinetic env (''kinetic.mode'', ''threat-ip-correlation'', ''ARMED'') ke)"
proof -
  let ?ke1 = "noteKinetic env (''kinetic.mode'', ''threat-ip-correlation'', ''ARMED'') ke"
  obtain ke2 w where w: "writeKineticState inp True ?ke1 = (ke2, w)" by fastforce
  have "ValidateConfig (kt_config (ke_runtime ?ke1)) = Inr ()" using assms(2) by simp
  with w show ?thesis
  proof (cases rule: writeKineticState_cases)
    case (written n)
    then show ?thesis using that(1) assms(1) w by (auto simp: recordArmingIntent_def Let_def)
  next
    case (failed e)
    then show ?thesis using that(2) assms(1) w by (auto simp: recordArmingIntent_def Let_def)
  qed
qed

lemma recordArmingIntent_move:
  assumes "recordArmingIntent env inp source ke = (ke', r)" and "kinetic_ok ke" and "ar_ready (kineticRequirements env ke)"
  shows "kinetic_move env ke ke'"
proof -
  have ok: "ValidateConfig (kt_config (ke_runtime ke)) = Inr ()" using assms(2) by (simp add: kinetic_ok_def)
  from assms(1) ok show ?thesis
    by (cases rule: recordArmingIntent_cases) (use assms(2,3) in \<open>simp_all add: kinetic_move_def kinetic_ok_def file_armed_def\<close>)
qed

lemma writeKineticState_sel:
  assumes "writeKineticState inp desired ke = (ke', r)"
  shows "ke_engine ke' = ke_engine ke" and "ke_runtime ke' = ke_runtime ke" and "ke_monitor ke' = ke_monitor ke"
    and "ke_wfpRealtime ke' = ke_wfpRealtime ke" and "ke_networkRealtime ke' = ke_networkRealtime ke"
  using assms by (auto simp: writeKineticState_def Let_def split: sum.splits option.splits)

lemma disarmWithReason_move:
  assumes "disarmWithReason env inp reason ke = (ke', r)" and "kinetic_ok ke"
  shows "kinetic_move env ke ke'" and "\<not> ke_armed ke'" and "\<not> kt_desiredArmed (ke_runtime ke')"
proof -
  let ?ke1 = "noteKinetic env (''kinetic.mode'', ''threat-ip-correlation'', reason) ke"
  obtain ke2 w where w: "writeKineticState inp False ?ke1 = (ke2, w)" by fastforce
  let ?ke3 = "ke2\<lparr>ke_armed := False, ke_runtime := disarmRuntime (ke_runtime ke2)\<rparr>"
  have ke3: "kinetic_move env ke ?ke3" "\<not> ke_armed ?ke3" "\<not> kt_desiredArmed (ke_runtime ?ke3)"
    using assms(2) by (simp_all add: kinetic_move_def kinetic_ok_def writeKineticState_sel [OF w])
  then have "kinetic_ok ?ke3" by (simp add: kinetic_move_def)
  moreover have "ke' = noteKinetic env (''kinetic.mode'', ''disarm-persistence'', ''failed'') ?ke3 \<or> ke' = set_runtime (\<lambda>rt. rt\<lparr>kt_persisted := True\<rparr>) ?ke3"
    using assms(1) w by (cases w) (auto simp: disarmWithReason_def)
  ultimately show "kinetic_move env ke ke'" and "\<not> ke_armed ke'" and "\<not> kt_desiredArmed (ke_runtime ke')"
    using ke3 kinetic_move_note by (auto simp: kinetic_move_def kinetic_ok_def)
qed

lemma runtime_move:
  assumes "kinetic_ok ke" and "kt_config (f (ke_runtime ke)) = kt_config (ke_runtime ke)" and "kt_desiredArmed (f (ke_runtime ke)) = kt_desiredArmed (ke_runtime ke)"
  shows "kinetic_move env ke (set_runtime f ke)"
  using assms by (simp add: kinetic_move_def kinetic_ok_def)

lemma reconcileArmed_move:
  assumes "kinetic_ok ke" and "ke_armed ke"
  shows "kinetic_move env ke (reconcileArmed env inp now ke)"
proof -
  obtain ke1 r where d: "disarmWithReason env inp ''AUTO_DISARM_ELAPSED'' ke = (ke1, r)" by fastforce
  have "kinetic_move env ke (dropEffectiveArming env (kineticRequirements env ke) ke)"
    using assms by (simp add: dropEffectiveArming_def kinetic_move_def kinetic_ok_def)
  then show ?thesis
    using disarmWithReason_move(1) [OF d assms(1)] runtime_move [OF assms(1)] kinetic_move_refl [OF assms(1)]
    by (cases r) (simp_all add: reconcileArmed_def d Let_def kinetic_move_note)
qed

lemma promoteIntent_move:
  assumes "kinetic_ok ke"
  shows "kinetic_move env ke (promoteIntent env inp now ke)"
proof (cases "ar_ready (kineticRequirements env ke)")
  case True
  obtain ke1 r where a: "recordArmingIntent env inp kineticArmPersisted ke = (ke1, r)" by fastforce
  note mv = recordArmingIntent_move [OF a assms True]
  then have "kinetic_ok ke1" by (simp add: kinetic_move_def)
  then show ?thesis using True mv
    by (cases r) (auto simp: promoteIntent_def a Let_def intro!: kinetic_move_note kinetic_move_trans [OF mv] runtime_move)
next
  case False
  then show ?thesis using assms
    by (auto simp: promoteIntent_def Let_def intro!: kinetic_move_note runtime_move)
qed

lemma reconcileKinetic_move: "kinetic_ok ke \<Longrightarrow> kinetic_move env ke (reconcileKinetic env inp now ke)"
  by (simp add: reconcileKinetic_def reconcileArmed_move promoteIntent_move kinetic_move_refl)

lemma SetKineticArmed_move:
  assumes "SetKineticArmed env active inp armed ke = (ke', r)" and "kinetic_ok ke"
  shows "kinetic_move env ke ke'"
  using assms recordArmingIntent_move disarmWithReason_move(1)
  by (auto simp: SetKineticArmed_def Let_def kinetic_move_refl kinetic_move_note split: if_splits)

lemma kinetic_move_reconcile:
  assumes "kinetic_move env ke ke1"
  shows "kinetic_move env ke (reconcileKinetic env inp now ke1)"
proof -
  have "kinetic_ok ke1" using assms by (simp add: kinetic_move_def)
  then show ?thesis by (rule kinetic_move_trans [OF assms reconcileKinetic_move])
qed

lemma SetKineticDesiredState_move:
  assumes "SetKineticDesiredState env active inp inp' want ke = (ke', snap, err)" and "kinetic_ok ke"
  shows "kinetic_move env ke ke'"
proof -
  obtain kd rd where d: "disarmWithReason env inp ''DISARMED'' ke = (kd, rd)" by fastforce
  obtain ka ra where a: "recordArmingIntent env inp kineticArmOperator ke = (ka, ra)" by fastforce
  obtain kw rw where w: "writeKineticState inp True ke = (kw, rw)" by fastforce
  have valid: "ValidateConfig (kt_config (ke_runtime ke)) = Inr ()" using assms(2) by (simp add: kinetic_ok_def)
  consider (off) "\<not> active \<or> want \<and> ke_armed ke" | (disarm) "active" "\<not> want"
    | (arm) "active" "want" "\<not> ke_armed ke" "ar_ready (kineticRequirements env ke)"
    | (intent) "active" "want" "\<not> ke_armed ke" "\<not> ar_ready (kineticRequirements env ke)" by blast
  then show ?thesis
  proof cases
    case off
    then show ?thesis using assms kinetic_move_refl by (auto simp: SetKineticDesiredState_def Let_def split: if_splits)
  next
    case disarm
    then show ?thesis using assms d disarmWithReason_move(1) [OF d assms(2)] by (cases rd) (auto simp: SetKineticDesiredState_def Let_def)
  next
    case arm
    then show ?thesis using assms a recordArmingIntent_move [OF a assms(2)] by (cases ra) (auto simp: SetKineticDesiredState_def Let_def)
  next
    case intent
    from w valid show ?thesis
    proof (cases rule: writeKineticState_cases)
      case (written n)
      define ke2 where "ke2 = set_runtime (\<lambda>rt. rt\<lparr>kt_desiredArmed := True, kt_persisted := True, kt_rearmState := kineticRearmPending,
        kt_rearmReason := ''operator requested arming after restart; waiting for verified Threat-IP/WFP requirements'',
        kt_rearmLastError := Join (ar_blockers (kineticRequirements env ke)) ''; '', kt_rearmNextAttemptUTC := ki_now inp\<rparr>) kw"
      let ?ke3 = "noteKinetic env (''kinetic.intent'', ''armed-after-restart'', ''persisted-pending-verification'') ke2"
      have mv: "kinetic_move env ke ?ke3"
        using assms(2) written by (simp add: ke2_def kinetic_move_def kinetic_ok_def file_armed_def)
      from kinetic_move_reconcile [OF this] show ?thesis using assms(1) intent w written(1) by (auto simp: SetKineticDesiredState_def Let_def ke2_def)
    next
      case (failed e)
      then show ?thesis using assms intent w kinetic_move_note [OF kinetic_move_refl [OF assms(2)]]
        by (auto simp: SetKineticDesiredState_def Let_def)
    qed
  qed
qed

lemma adoptConfig_sel [simp]:
  "ke_file (adoptConfig c t mo ke) = ke_file ke" "ke_armed (adoptConfig c t mo ke) = ke_armed ke" "kt_config (ke_runtime (adoptConfig c t mo ke)) = c"
  "kt_desiredArmed (ke_runtime (adoptConfig c t mo ke)) = kt_desiredArmed (ke_runtime ke)" "ke_monitor (adoptConfig c t mo ke) = mo"
  "ke_engine (adoptConfig c t mo ke) = ke_engine ke" "ke_wfpRealtime (adoptConfig c t mo ke) = ke_wfpRealtime ke"
  "ke_networkRealtime (adoptConfig c t mo ke) = ke_networkRealtime ke"
  by (simp_all add: adoptConfig_def)

lemma persistConfig_cases:
  assumes "persistConfig env inp (kt_desiredArmed (ke_runtime ke)) previous config (adoptConfig config t mo ke) = (ke', err)"
    and "ValidateConfig config = Inr ()" and "monitor_ok mo" and "mo_cfg mo = config" and "kinetic_ok ke" and "previous = kt_config (ke_runtime ke)"
  obtains (written) "ki_writeOK inp" and "err = None" and "kinetic_move env ke ke'"
  | (failed) e where "err = Some e" and "kinetic_move env ke ke'" and "ke_file ke' = ke_file ke" and "ke_armed ke' = ke_armed ke" and "mo_cfg (ke_monitor ke') = previous"
      and "ke_runtime ke' = (ke_runtime ke)\<lparr>kt_configSource := kineticConfigSourceStored, kt_configWarning := [], kt_settingsUpdatedUTC := t\<rparr>"
proof -
  let ?ke1 = "adoptConfig config t mo ke"
  obtain ke1 w where w: "writeKineticState inp (kt_desiredArmed (ke_runtime ke)) ?ke1 = (ke1, w)" by fastforce
  have valid: "ValidateConfig (kt_config (ke_runtime ?ke1)) = Inr ()" using assms(2) by simp
  from w valid show ?thesis
  proof (cases rule: writeKineticState_cases)
    case (written n)
    then have "kinetic_move env ke ke'" using assms w by (auto simp: persistConfig_def kinetic_move_def kinetic_ok_def file_armed_def)
    then show ?thesis using that(1) written assms(1) w by (simp add: persistConfig_def)
  next
    case (failed e)
    have prev: "ValidateConfig previous = Inr ()" using assms(5,6) by (simp add: kinetic_ok_def)
    obtain mo' where mo': "Configure previous mo = (mo', Inr ())" "mo_cfg mo' = previous" "monitor_ok mo'"
      using Configure_valid [OF prev, of mo] assms(3) by metis
    have err: "err = Some (Err (''kinetic configuration persistence failed: '' @ err_text e))"
      using assms(1) w failed by (simp add: persistConfig_def)
    have ke': "ke' = noteKinetic env (''kinetic.config'', ''observation-policy'', ''persistence-failed'')
        (?ke1\<lparr>ke_monitor := mo', ke_runtime := (ke_runtime ?ke1)\<lparr>kt_config := previous\<rparr>\<rparr>)"
      using assms(1) w failed mo'(1) by (simp add: persistConfig_def revertConfig_def)
    have "kinetic_move env ke ke'" using assms(5,6) mo' unfolding ke' by (simp add: kinetic_move_def kinetic_ok_def)
    moreover have "mo_cfg (ke_monitor ke') = previous" and "ke_file ke' = ke_file ke" and "ke_armed ke' = ke_armed ke" using mo'(2) unfolding ke' by simp_all
    moreover have "ke_runtime ke' = (ke_runtime ke)\<lparr>kt_configSource := kineticConfigSourceStored, kt_configWarning := [], kt_settingsUpdatedUTC := t\<rparr>"
      using assms(6) unfolding ke' by (simp add: adoptConfig_def)
    ultimately show ?thesis using that(2) [OF err] by blast
  qed
qed

lemma SetKineticConfig_open:
  assumes "SetKineticConfig env True inp inp' config ke = (ke', snap, err)" and "kinetic_ok ke" and "ValidateConfig config = Inr ()"
    and "config \<noteq> kt_config (ke_runtime ke)"
  obtains mo ke1 err1 where "monitor_ok mo" and "mo_cfg mo = config"
    and "persistConfig env inp (kt_desiredArmed (ke_runtime ke)) (kt_config (ke_runtime ke)) config (adoptConfig config (ki_now inp) mo ke) = (ke1, err1)"
    and "err = err1" and "snap = KineticSettings env ke'" and "ke' = (if err1 = None then reconcileKinetic env inp' (ki_now inp') ke1 else ke1)"
proof -
  have ok: "ValidateConfig (kt_config (ke_runtime ke)) = Inr ()" "monitor_ok (ke_monitor ke)" using assms(2) by (simp_all add: kinetic_ok_def)
  obtain mo where mo: "Configure config (ke_monitor ke) = (mo, Inr ())" "mo_cfg mo = config" "monitor_ok mo"
    using Configure_valid [OF assms(3), of "ke_monitor ke"] ok(2) by metis
  obtain ke1 err1 where p: "persistConfig env inp (kt_desiredArmed (ke_runtime ke)) (kt_config (ke_runtime ke)) config
      (adoptConfig config (ki_now inp) mo ke) = (ke1, err1)" by fastforce
  have "(ke', snap, err) = (let ke2 = (case err1 of None \<Rightarrow> reconcileKinetic env inp' (ki_now inp') ke1 | Some x \<Rightarrow> ke1) in (ke2, KineticSettings env ke2, err1))"
    unfolding assms(1) [symmetric] SetKineticConfig_def Let_def using assms(3,4) by (simp add: configOr_valid [OF ok(1)] mo(1) p split: option.split)
  then show ?thesis using that [OF mo(3,2) p] by (cases err1) (simp_all add: Let_def)
qed

lemma SetKineticConfig_move:
  assumes "SetKineticConfig env active inp inp' config ke = (ke', snap, err)" and "kinetic_ok ke"
  shows "kinetic_move env ke ke'"
proof (cases "active \<and> ValidateConfig config = Inr () \<and> config \<noteq> kt_config (ke_runtime ke)")
  case False
  have valid: "configOr (kt_config (ke_runtime ke)) = kt_config (ke_runtime ke)" using assms(2) by (simp add: kinetic_ok_def)
  show ?thesis
    using False assms valid kinetic_move_refl kinetic_move_note
    by (cases "ValidateConfig config") (auto simp: SetKineticConfig_def Let_def split: if_splits)
next
  case True
  then obtain mo ke1 err1 where p: "monitor_ok mo" "mo_cfg mo = config"
      "persistConfig env inp (kt_desiredArmed (ke_runtime ke)) (kt_config (ke_runtime ke)) config (adoptConfig config (ki_now inp) mo ke) = (ke1, err1)"
      "ke' = (if err1 = None then reconcileKinetic env inp' (ki_now inp') ke1 else ke1)"
    using SetKineticConfig_open [of env inp inp' config ke ke' snap err] assms by metis
  have "kinetic_move env ke ke1"
    using persistConfig_cases [OF p(3) _ p(1,2) assms(2)] True by blast
  then show ?thesis using p(4) kinetic_move_reconcile by simp
qed

end
