(* ===== verification/KineticRuns.thy ===== *)
theory KineticRuns
  imports KineticState
begin

text \<open>
  Runs of the engine with its kinetic state (\<open>internal/mhx/kinetic_state.go\<close>): when it may become armed,
  when it loses its armed state, and what a restart and a failing disk do to the operator's intent.
\<close>

section \<open>Runs\<close>

text \<open>
  A step is an operator request, the reconciliation of the health loop, an operation of the engine
  on the threat intelligence, a change of the telemetry or an observed block.
\<close>

inductive kinetic_step :: "platform \<Rightarrow> runtime_env \<Rightarrow> kengine \<Rightarrow> kengine \<Rightarrow> bool" for P env where
  config: "SetKineticConfig env active inp inp' cfg ke = (ke', snap, err) \<Longrightarrow> kinetic_step P env ke ke'"
| desired: "SetKineticDesiredState env active inp inp' want ke = (ke', snap, err) \<Longrightarrow> kinetic_step P env ke ke'"
| armed: "SetKineticArmed env active inp want ke = (ke', r) \<Longrightarrow> kinetic_step P env ke ke'"
| health: "kinetic_step P env ke (reconcileKinetic env inp now ke)"
| intelligence: "engine_step P (ke_engine ke) e' \<Longrightarrow> kinetic_step P env ke (ke\<lparr>ke_engine := e'\<rparr>)"
| telemetry: "kinetic_step P env ke (ke\<lparr>ke_wfpRealtime := blocks, ke_networkRealtime := owners\<rparr>)"
| blocked: "ObserveBlockedInbound remote p now (ke_monitor ke) = Inr (mo, report) \<Longrightarrow> kinetic_step P env ke (ke\<lparr>ke_monitor := mo\<rparr>)"

inductive kinetic_reachable :: "platform \<Rightarrow> kengine \<Rightarrow> bool" for P where
  start: "engine_reachable P e \<Longrightarrow> kinetic_reachable P (newKinetic e f)"
| again: "kinetic_reachable P ke \<Longrightarrow> kinetic_step P env ke ke' \<Longrightarrow> kinetic_reachable P ke'"

lemma readKineticState_valid:
  "readKineticState f = Some (Inr st) \<Longrightarrow> ValidateConfig (kp_config st) = Inr () \<and> (kp_armed st \<longrightarrow> file_armed f)"
  by (cases "ValidateConfig (kp_config st)") (auto simp: readKineticState_def file_armed_def split: stored.splits content.splits if_splits)

lemma applyKineticMonitorConfig_sel [simp]:
  "ke_engine (applyKineticMonitorConfig c ke) = ke_engine ke" "ke_armed (applyKineticMonitorConfig c ke) = ke_armed ke"
  "ke_runtime (applyKineticMonitorConfig c ke) = ke_runtime ke" "ke_file (applyKineticMonitorConfig c ke) = ke_file ke"
  "ke_monitor (applyKineticMonitorConfig c ke) = fst (Configure c (ke_monitor ke))"
  by (simp_all add: applyKineticMonitorConfig_def)

lemma loadKineticState_sel [simp]:
  "ke_engine (loadKineticState ke) = ke_engine ke" "ke_armed (loadKineticState ke) = ke_armed ke" "ke_file (loadKineticState ke) = ke_file ke"
  by (simp_all add: loadKineticState_def Let_def split: option.split sum.split)

lemma fst_Configure [simp]: "ValidateConfig c = Inr () \<Longrightarrow> mo_cfg (fst (Configure c m)) = c"
  by (metis Configure_valid fst_conv)

lemma loadKineticState_ok:
  assumes "monitor_ok (ke_monitor ke)" and "\<not> ke_armed ke"
  shows "kinetic_ok (loadKineticState ke)"
proof -
  consider "readKineticState (ke_file ke) = None" | w where "readKineticState (ke_file ke) = Some (Inl w)"
    | st where "readKineticState (ke_file ke) = Some (Inr st)" by (metis not_None_eq sum.exhaust_sel)
  then show ?thesis
    by cases (use assms in \<open>auto simp: loadKineticState_def Let_def kinetic_ok_def initialRuntime_def DefaultConfig_valid Configure_ok
      dest: readKineticState_valid\<close>)
qed

lemma newKinetic_sel [simp]: "ke_engine (newKinetic e f) = e" "\<not> ke_armed (newKinetic e f)" "ke_file (newKinetic e f) = f"
  by (simp_all add: newKinetic_def)

lemma newKinetic_ok: "kinetic_ok (newKinetic e f)"
  unfolding newKinetic_def by (rule loadKineticState_ok) (simp_all add: NewMonitor_ok)

lemma Observe_keeps_config: "ObserveBlockedInbound remote p now m = Inr (m', r) \<Longrightarrow> mo_cfg m' = mo_cfg m"
  by (auto simp: ObserveBlockedInbound_def trackSource_def Let_def bind_outcome_eq_Inr split: option.splits if_splits)

lemma kinetic_step_move:
  assumes "kinetic_step P env ke ke'" and "kinetic_ok ke"
  shows "kinetic_ok ke' \<and> engine_move P (ke_engine ke) (ke_engine ke') \<and>
    (ke_armed ke' \<and> \<not> ke_armed ke \<longrightarrow> ar_ready (kineticRequirements env ke) \<and> kinetic_move env ke ke')"
proof -
  have move: "kinetic_move env ke ke' \<Longrightarrow> ?thesis" by (auto simp: kinetic_move_def intro: engine_move_same)
  from assms(1) show ?thesis
  proof cases
    case config
    then show ?thesis by (intro move SetKineticConfig_move [OF _ assms(2)])
  next
    case desired
    then show ?thesis by (intro move SetKineticDesiredState_move [OF _ assms(2)])
  next
    case armed
    then show ?thesis by (intro move SetKineticArmed_move [OF _ assms(2)])
  next
    case health
    then show ?thesis using move reconcileKinetic_move [OF assms(2)] by blast
  next
    case (intelligence e')
    then show ?thesis using assms(2) engine_step_move by (auto simp: kinetic_ok_def)
  next
    case telemetry
    then show ?thesis using assms(2) by (auto simp: kinetic_ok_def intro: engine_move_same)
  next
    case (blocked remote p now mo report)
    then have "monitor_ok mo" using Observe_total [of "ke_monitor ke" remote p now] assms(2) by (auto simp: kinetic_ok_def)
    then show ?thesis using assms(2) blocked Observe_keeps_config by (auto simp: kinetic_ok_def intro: engine_move_same)
  qed
qed

lemma kinetic_run_invariant:
  assumes "kinetic_reachable P ke"
  shows "kinetic_ok ke \<and> reachable P (engineState (ke_engine ke)) \<and> enforcement_ok (eg_enforcement (ke_engine ke))"
  using assms
proof (induction rule: kinetic_reachable.induct)
  case (start e f)
  then show ?case using newKinetic_ok engine_invariant by simp
next
  case (again ke env ke')
  then show ?case using kinetic_step_move [OF again(2)] reachable_steps by (auto simp: engine_move_def)
qed

lemma kinetic_ready:
  "ar_ready (kineticRequirements env ke) \<longleftrightarrow> ke_wfpRealtime ke \<and> ke_networkRealtime ke \<and> stateVerified (te_state (eg_enforcement (ke_engine ke))) \<and>
     te_activeGeneration (eg_enforcement (ke_engine ke)) \<noteq> [] \<and>
     te_activeGeneration (eg_enforcement (ke_engine ke)) = st_enforcementGeneration (engineStatus env (ke_engine ke)) \<and>
     (te_desiredGeneration (eg_enforcement (ke_engine ke)) = [] \<or>
       te_desiredGeneration (eg_enforcement (ke_engine ke)) = te_activeGeneration (eg_enforcement (ke_engine ke))) \<and>
     0 < st_blockingIndicators (engineStatus env (ke_engine ke))"
  by (simp add: kineticRequirements_def Let_def arming_requirements(1) stateVerified_def)

text \<open>
  C21 [arms_only_verified]: whatever step an engine takes, it becomes armed only when both telemetry
  sources are live, the firewall has verified a full generation digest with at least one rule, that
  generation is the one the feeds give at this moment with at least one blocking indicator, the
  clock was not turned back, and the intent to arm is already on disk.
\<close>

theorem arms_only_verified:
  assumes "kinetic_ok ke" and "enforcement_ok (eg_enforcement (ke_engine ke))" and "kinetic_step P env ke ke'"
    and "\<not> ke_armed ke" and "ke_armed ke'"
  shows "ke_wfpRealtime ke \<and> ke_networkRealtime ke \<and> stateVerified (te_state (eg_enforcement (ke_engine ke))) \<and>
    length (te_activeGeneration (eg_enforcement (ke_engine ke))) = 64 \<and> 0 < te_rules (eg_enforcement (ke_engine ke)) \<and>
    te_activeGeneration (eg_enforcement (ke_engine ke)) = st_enforcementGeneration (engineStatus env (ke_engine ke)) \<and>
    0 < st_blockingIndicators (engineStatus env (ke_engine ke)) \<and>
    \<not> clockRollbackDetected (m_clock (eg_feeds (ke_engine ke))) \<and> file_armed (ke_file ke')"
proof -
  have r: "ar_ready (kineticRequirements env ke)" and "kinetic_ok ke'"
    using kinetic_step_move [OF assms(3,1)] assms(4,5) by blast+
  then have "file_armed (ke_file ke')" using assms(5) by (simp add: kinetic_ok_def)
  moreover have "\<not> clockRollbackDetected (m_clock (eg_feeds (ke_engine ke)))"
  proof
    assume "clockRollbackDetected (m_clock (eg_feeds (ke_engine ke)))"
    then have "st_blockingIndicators (engineStatus env (ke_engine ke)) = 0" using statusOf_withdraws by blast
    then show False using r unfolding kinetic_ready by simp
  qed
  ultimately show ?thesis using r assms(2) unfolding kinetic_ready enforcement_ok_def by blast
qed

text \<open>
  C22 [kinetic_invariant]: in every state an engine can reach, the policy in force is valid and is the
  one the monitor runs, the monitor is well formed, an armed engine has an operator's intent, and
  that intent is in the settings file.
\<close>

theorem kinetic_invariant:
  assumes "kinetic_reachable P ke"
  shows "kinetic_ok ke"
  using kinetic_run_invariant [OF assms] by blast

lemma not_ready_not_armed:
  assumes "kinetic_ok ke" and "\<not> ar_ready (kineticRequirements env ke)" and "\<not> ke_armed ke"
  shows "\<not> ke_armed (reconcileKinetic env inp now ke)"
  using reconcileKinetic_move [OF assms(1), of env inp now] assms(2,3) by (auto simp: kinetic_move_def)

lemma reconcileArmed_lost:
  assumes "kinetic_ok ke" and "ke_armed ke" and "\<not> ar_ready (kineticRequirements env ke)" and "ke_armed (reconcileKinetic env inp now ke)"
  shows "kt_requirementLostSince (ke_runtime (reconcileKinetic env inp now ke)) =
      (if kt_requirementLostSince (ke_runtime ke) = 0 then now else kt_requirementLostSince (ke_runtime ke))"
    and "kt_requirementLostSince (ke_runtime ke) \<noteq> 0 \<Longrightarrow> now - kt_requirementLostSince (ke_runtime ke) < kineticRequirementLostGrace"
proof -
  obtain ke1 r where d: "disarmWithReason env inp ''AUTO_DISARM_ELAPSED'' ke = (ke1, r)" by fastforce
  have off: "\<not> ke_armed ke1" using disarmWithReason_move(2) [OF d assms(1)] .
  have drop: "\<not> ke_armed (dropEffectiveArming env q ke)" for q by (simp add: dropEffectiveArming_def)
  have grace: "0 \<le> kineticRequirementLostGrace" "kineticRequirementLostGrace \<le> max_duration"
    by (simp_all add: kineticRequirementLostGrace_def duration_defs max_duration_def)
  show "kt_requirementLostSince (ke_runtime (reconcileKinetic env inp now ke)) =
      (if kt_requirementLostSince (ke_runtime ke) = 0 then now else kt_requirementLostSince (ke_runtime ke))"
    and "kt_requirementLostSince (ke_runtime ke) \<noteq> 0 \<Longrightarrow> now - kt_requirementLostSince (ke_runtime ke) < kineticRequirementLostGrace"
    using assms(2-4) off drop d time_sub_ge [OF grace, of now "kt_requirementLostSince (ke_runtime ke)"]
    by (cases r; auto simp: reconcileKinetic_def reconcileArmed_def Let_def split: if_splits)+
qed

text \<open>
  C23 [lost_verification_disarms]: when two reconciliations at least 20 seconds apart find the requirements
  unmet, the engine is disarmed after the second, whatever the threat intelligence, the telemetry
  and the monitor did in between.
\<close>

theorem lost_verification_disarms:
  assumes "kinetic_ok ke" and "\<not> ar_ready (kineticRequirements env ke)" and "0 < now" and "kt_requirementLostSince (ke_runtime ke) \<le> now"
    and "kinetic_ok ke1" and "ke_armed ke1 = ke_armed (reconcileKinetic env inp now ke)" and "ke_runtime ke1 = ke_runtime (reconcileKinetic env inp now ke)"
    and "\<not> ar_ready (kineticRequirements env' ke1)" and "now + kineticRequirementLostGrace \<le> now'"
  shows "\<not> ke_armed (reconcileKinetic env' inp' now' ke1)"
proof
  assume on: "ke_armed (reconcileKinetic env' inp' now' ke1)"
  have armed1: "ke_armed ke1" using not_ready_not_armed [OF assms(5,8)] on by blast
  then have armed: "ke_armed ke" using not_ready_not_armed [OF assms(1,2)] assms(6) by blast
  have "kt_requirementLostSince (ke_runtime ke1) = (if kt_requirementLostSince (ke_runtime ke) = 0 then now else kt_requirementLostSince (ke_runtime ke))"
    using reconcileArmed_lost(1) [OF assms(1) armed assms(2)] armed1 assms(6,7) by simp
  then have "kt_requirementLostSince (ke_runtime ke1) \<noteq> 0" "kt_requirementLostSince (ke_runtime ke1) \<le> now"
    using assms(3,4) by auto
  then show False using reconcileArmed_lost(2) [OF assms(5) armed1 assms(8) on] assms(9) by simp
qed

section \<open>Restart\<close>

lemma newKinetic_stored:
  assumes "f = Stored n regular (Decoded st)" and "0 < n" and "int n \<le> maximumKineticStateBytes"
    and "kp_schemaVersion st = kineticStateSchemaVersion" and "ValidateConfig (kp_config st) = Inr ()"
  shows "kt_config (ke_runtime (newKinetic e f)) = kp_config st" and "kt_desiredArmed (ke_runtime (newKinetic e f)) = kp_armed st"
    and "mo_cfg (ke_monitor (newKinetic e f)) = kp_config st"
    and "kp_armed st \<Longrightarrow> kt_rearmState (ke_runtime (newKinetic e f)) = kineticRearmPending"
  using assms by (simp_all add: newKinetic_def loadKineticState_def readKineticState_def Let_def)

text \<open>
  C24 [restart_disarmed_with_intent]: after an operator armed the engine, an engine started from the file
  it left observes only; but it holds the intent, the same policy (also in its monitor), and waits
  to re-arm. The condition on the encoder says that it gives fewer bytes than the reader accepts.
\<close>

theorem restart_disarmed_with_intent:
  assumes "kinetic_ok ke" and "\<not> ke_armed ke" and "SetKineticArmed env active inp True ke = (ke', Inr ())"
    and "\<forall>st n. ki_size inp st = Some n \<longrightarrow> int n < maximumKineticStateBytes"
  shows "ke_armed ke' \<and> \<not> ke_armed (newKinetic e (ke_file ke')) \<and> kt_desiredArmed (ke_runtime (newKinetic e (ke_file ke'))) \<and>
    kt_config (ke_runtime (newKinetic e (ke_file ke'))) = kt_config (ke_runtime ke) \<and>
    mo_cfg (ke_monitor (newKinetic e (ke_file ke'))) = kt_config (ke_runtime ke) \<and>
    kt_rearmState (ke_runtime (newKinetic e (ke_file ke'))) = kineticRearmPending"
proof -
  have valid: "ValidateConfig (kt_config (ke_runtime ke)) = Inr ()" using assms(1) by (simp add: kinetic_ok_def)
  have "recordArmingIntent env inp kineticArmOperator ke = (ke', Inr ())"
    using assms(2,3) by (auto simp: SetKineticArmed_def Let_def split: if_splits)
  then show ?thesis using valid
  proof (cases rule: recordArmingIntent_cases)
    case (armed n)
    let ?st = "\<lparr>kp_schemaVersion = kineticStateSchemaVersion, kp_armed = True, kp_config = kt_config (ke_runtime ke), kp_updatedUTC = ki_now inp\<rparr>"
    have f: "ke_file ke' = Stored (Suc n) True (Decoded ?st)" and "ke_armed ke'" using armed(3) by simp_all
    moreover have "int (Suc n) \<le> maximumKineticStateBytes" using assms(4) armed(2) by fastforce
    ultimately show ?thesis using newKinetic_stored [OF f, of e] valid by simp
  next
    case (failed x)
    then show ?thesis by simp
  qed
qed

lemma writeKineticState_fails: "\<not> ki_writeOK inp \<Longrightarrow> writeKineticState inp desired ke = (ke', r) \<Longrightarrow> ke' = ke \<and> isl r"
  by (cases "ValidateConfig (configOr (kt_config (ke_runtime ke)))") (auto simp: writeKineticState_def atomicWrite_def Let_def dest: sym split: option.splits)

lemma disarm_write_fails:
  assumes "disarmWithReason env inp reason ke = (ke', r)" and "\<not> ki_writeOK inp"
  shows "isl r \<and> ke_file ke' = ke_file ke"
proof -
  obtain ke2 w where w: "writeKineticState inp False (noteKinetic env (''kinetic.mode'', ''threat-ip-correlation'', reason) ke) = (ke2, w)" by fastforce
  from writeKineticState_fails [OF assms(2) this] show ?thesis using assms(1) w by (cases w) (auto simp: disarmWithReason_def)
qed

text \<open>
  C25 [retried_disarm_is_lost]: when the file cannot be written, a disarm reports its failure; but the
  operator's second request then succeeds without writing anything, so the file still holds the
  intent to arm, and the next start would arm again.
\<close>

theorem retried_disarm_is_lost:
  assumes "kinetic_ok ke" and "ke_armed ke" and "\<not> ki_writeOK inp"
    and "SetKineticArmed env True inp False ke = (ke1, r1)" and "SetKineticArmed env True inp' False ke1 = (ke2, r2)"
  shows "isl r1 \<and> r2 = Inr () \<and> ke2 = ke1 \<and> \<not> ke_armed ke2 \<and> ke_file ke2 = ke_file ke \<and> file_armed (ke_file ke2)"
proof -
  have d: "disarmWithReason env inp ''DISARMED'' ke = (ke1, r1)" using assms(2,4) by (simp add: SetKineticArmed_def)
  have "\<not> ke_armed ke1" "\<not> kt_desiredArmed (ke_runtime ke1)" using disarmWithReason_move(2,3) [OF d assms(1)] .
  then have "ke2 = ke1" "r2 = Inr ()" using assms(5) by (simp_all add: SetKineticArmed_def)
  then show ?thesis using disarm_write_fails [OF d assms(3)] \<open>\<not> ke_armed ke1\<close> assms(1,2) by (simp add: kinetic_ok_def)
qed

text \<open>
  A policy whose write fails is rejected and the previous policy
  stays in force, in the monitor too; but the report still calls the policy persisted, without a
  warning and with a new time, although the file was not touched.
\<close>

lemma failed_config_reported_persisted:
  assumes "kinetic_ok ke" and "ValidateConfig config = Inr ()" and "config \<noteq> kt_config (ke_runtime ke)" and "\<not> ki_writeOK inp"
    and "SetKineticConfig env True inp inp' config ke = (ke', snap, err)"
  shows "err \<noteq> None \<and> ke_file ke' = ke_file ke \<and> ke_armed ke' = ke_armed ke \<and> kx_config snap = kt_config (ke_runtime ke) \<and>
    mo_cfg (ke_monitor ke') = kt_config (ke_runtime ke) \<and>
    kx_configSource snap = ''PERSISTED'' \<and> kx_configWarning snap = [] \<and> kx_updatedUTC snap = ki_now inp"
proof -
  obtain mo ke1 err1 where p: "monitor_ok mo" "mo_cfg mo = config"
      "persistConfig env inp (kt_desiredArmed (ke_runtime ke)) (kt_config (ke_runtime ke)) config (adoptConfig config (ki_now inp) mo ke) = (ke1, err1)"
      "err = err1" "snap = KineticSettings env ke'" "ke' = (if err1 = None then reconcileKinetic env inp' (ki_now inp') ke1 else ke1)"
    using SetKineticConfig_open [OF assms(5,1,2,3)] by metis
  have valid: "configOr (kt_config (ke_runtime ke)) = kt_config (ke_runtime ke)" using assms(1) by (simp add: kinetic_ok_def)
  from p(3) assms(2) p(1,2) assms(1) HOL.refl show ?thesis
  proof (cases rule: persistConfig_cases)
    case written
    then show ?thesis using assms(4) by simp
  next
    case (failed e)
    then show ?thesis using p(4-6) valid by (simp add: KineticSettings_def Let_def kineticConfigSourceStored_def)
  qed
qed

section \<open>A sample engine that can be armed\<close>

definition readyEngine :: engine where
  "readyEngine = verifiedEngine\<lparr>eg_feeds := (eg_feeds verifiedEngine)\<lparr>m_status := (m_status (eg_feeds verifiedEngine))\<lparr>
     st_feeds := [], st_blockingIndicators := 1, st_enforcementGeneration := sampleDigest\<rparr>\<rparr>\<rparr>"

definition sampleKinetic :: kengine where
  "sampleKinetic = (newKinetic readyEngine Absent)\<lparr>ke_wfpRealtime := True, ke_networkRealtime := True\<rparr>"

definition sampleKineticInput :: "bool \<Rightarrow> gotime \<Rightarrow> kinetic_input" where
  "sampleKineticInput ok t = \<lparr>ki_now = t, ki_writeOK = ok, ki_size = (\<lambda>st. Some 200)\<rparr>"

definition armedKinetic :: kengine where
  "armedKinetic = fst (SetKineticArmed sampleRuntime True (sampleKineticInput True (1001 * hour)) True sampleKinetic)"

lemma statusOf_fresh:
  assumes "st_feeds (m_status m) = []" and "\<not> clockRollbackDetected (m_clock m)"
  shows "st_blockingIndicators (statusOf m wall) = st_blockingIndicators (m_status m)"
    and "st_enforcementGeneration (statusOf m wall) = st_enforcementGeneration (m_status m)"
  using assms by (simp_all add: statusOf_def applyFreshnessAndAuthenticity_def statusView_def enrichFeedStates_def Let_def case_prod_beta)

lemma readyEngine_status:
  "st_blockingIndicators (engineStatus env readyEngine) = 1" "st_enforcementGeneration (engineStatus env readyEngine) = sampleDigest"
  "eg_enforcement readyEngine = eg_enforcement verifiedEngine"
  by (simp_all add: readyEngine_def statusOf_fresh verifiedEngine_feeds clockRollbackDetected_def)

lemma sampleKinetic_ok: "kinetic_ok sampleKinetic" "\<not> ke_armed sampleKinetic" "ke_engine sampleKinetic = readyEngine"
  using newKinetic_ok [of readyEngine Absent] by (simp_all add: sampleKinetic_def kinetic_ok_def)

lemma sampleKinetic_ready: "ar_ready (kineticRequirements env sampleKinetic)"
proof -
  have "te_desiredGeneration (eg_enforcement verifiedEngine) = te_activeGeneration (eg_enforcement verifiedEngine)"
    using verifiedEngine_sel(4) verifiedEngine_status(1) by (simp add: enforcement_ok_def)
  moreover have "sampleDigest \<noteq> []" using sampleDigest_length by auto
  ultimately show ?thesis
    by (simp add: kinetic_ready sampleKinetic_ok readyEngine_status verifiedEngine_status) (simp add: sampleKinetic_def)
qed

lemma sampleKinetic_armed:
  "SetKineticArmed sampleRuntime True (sampleKineticInput True (1001 * hour)) True sampleKinetic = (armedKinetic, Inr ())" "ke_armed armedKinetic"
  "kt_requirementLostSince (ke_runtime armedKinetic) = 0"
proof -
  obtain ke' r where a: "recordArmingIntent sampleRuntime (sampleKineticInput True (1001 * hour)) kineticArmOperator sampleKinetic = (ke', r)"
    by fastforce
  have valid: "ValidateConfig (configOr (kt_config (ke_runtime sampleKinetic))) = Inr ()" using sampleKinetic_ok(1) by (simp add: kinetic_ok_def)
  have "r = Inr () \<and> ke_armed ke' \<and> kt_requirementLostSince (ke_runtime ke') = 0"
    using a valid by (auto simp: recordArmingIntent_def armRuntime_def writeKineticState_def sampleKineticInput_def atomicWrite_def Let_def)
  then show "SetKineticArmed sampleRuntime True (sampleKineticInput True (1001 * hour)) True sampleKinetic = (armedKinetic, Inr ())"
    and "ke_armed armedKinetic" and "kt_requirementLostSince (ke_runtime armedKinetic) = 0"
    using a sampleKinetic_ready [of sampleRuntime] sampleKinetic_ok(2) by (simp_all add: armedKinetic_def SetKineticArmed_def Let_def)
qed

lemma armedKinetic_ok: "kinetic_ok armedKinetic"
  using SetKineticArmed_move [OF sampleKinetic_armed(1) sampleKinetic_ok(1)] by (simp add: kinetic_move_def)

theorem arms_only_verified_witness:
  "\<not> ke_armed sampleKinetic \<and> ke_armed armedKinetic \<and> stateVerified (te_state (eg_enforcement (ke_engine sampleKinetic))) \<and> file_armed (ke_file armedKinetic)"
  using arms_only_verified [OF sampleKinetic_ok(1) _ kinetic_step.armed [OF sampleKinetic_armed(1)] sampleKinetic_ok(2) sampleKinetic_armed(2)]
    sampleKinetic_ok sampleKinetic_armed(2) verifiedEngine_sel(4) readyEngine_status(3) by simp

theorem kinetic_invariant_witness: "kinetic_ok (newKinetic (newEngine (fst sampleState) (snd sampleState)) Absent)"
proof -
  have "engine_reachable samplePlatform (newEngine (fst sampleState) (snd sampleState))"
    using engine_reachable.start sampleState_start by (metis prod.collapse)
  from kinetic_invariant [OF kinetic_reachable.start [OF this]] show ?thesis .
qed

theorem lost_verification_disarms_witness:
  "ke_armed armedKinetic \<and> (let ke = armedKinetic\<lparr>ke_wfpRealtime := False\<rparr> in
     \<not> ke_armed (reconcileKinetic sampleRuntime (sampleKineticInput True (1003 * hour)) (1003 * hour)
       (reconcileKinetic sampleRuntime (sampleKineticInput True (1002 * hour)) (1002 * hour) ke)))"
proof -
  let ?ke = "armedKinetic\<lparr>ke_wfpRealtime := False\<rparr>" and ?inp = "sampleKineticInput True (1002 * hour)"
  let ?ke1 = "reconcileKinetic sampleRuntime ?inp (1002 * hour) ?ke"
  have ok: "kinetic_ok ?ke" using armedKinetic_ok by (simp add: kinetic_ok_def)
  note mv = reconcileKinetic_move [OF ok, of sampleRuntime ?inp "1002 * hour"]
  have off: "\<not> ar_ready (kineticRequirements sampleRuntime ?ke)" by (simp add: kinetic_ready)
  have since: "kt_requirementLostSince (ke_runtime ?ke) \<le> 1002 * hour" using sampleKinetic_armed(3) by (simp add: duration_defs)
  show ?thesis
    using lost_verification_disarms [OF ok off _ since _ HOL.refl HOL.refl, where env' = sampleRuntime and now' = "1003 * hour" and inp' = "sampleKineticInput True (1003 * hour)" and inp = ?inp]
      mv off kinetic_move_requirements [OF mv, of sampleRuntime] sampleKinetic_armed(2)
    by (simp add: Let_def kinetic_move_def kineticRequirementLostGrace_def duration_defs)
qed

theorem restart_disarmed_with_intent_witness:
  "ke_armed armedKinetic \<and> \<not> ke_armed (newKinetic readyEngine (ke_file armedKinetic)) \<and> kt_desiredArmed (ke_runtime (newKinetic readyEngine (ke_file armedKinetic)))"
  using restart_disarmed_with_intent [OF sampleKinetic_ok(1,2) sampleKinetic_armed(1), of readyEngine]
  by (simp add: sampleKineticInput_def maximumKineticStateBytes_def)

theorem retried_disarm_is_lost_witness:
  "\<exists>ke1 r1 ke2. SetKineticArmed sampleRuntime True (sampleKineticInput False (1002 * hour)) False armedKinetic = (ke1, r1) \<and> isl r1 \<and>
     SetKineticArmed sampleRuntime True (sampleKineticInput True (1003 * hour)) False ke1 = (ke2, Inr ()) \<and> file_armed (ke_file ke2)"
proof -
  obtain ke1 r1 where 1: "SetKineticArmed sampleRuntime True (sampleKineticInput False (1002 * hour)) False armedKinetic = (ke1, r1)" by fastforce
  obtain ke2 r2 where 2: "SetKineticArmed sampleRuntime True (sampleKineticInput True (1003 * hour)) False ke1 = (ke2, r2)" by fastforce
  have "\<not> ki_writeOK (sampleKineticInput False (1002 * hour))" by (simp add: sampleKineticInput_def)
  from retried_disarm_is_lost [OF armedKinetic_ok sampleKinetic_armed(2) this 1 2] show ?thesis using 1 2 by blast
qed

end
