(* ===== verification/Scheduler.thy ===== *)
theory Scheduler
  imports KineticRuns
begin

text \<open>
  \<open>intelligenceLoop\<close> of \<open>internal/mhx/threat_runtime.go\<close>: the goroutine that synchronises the feeds, retries the
  enforcement, hands a verified generation to the kinetic correlation, and sleeps in between. One pass of
  its \<open>for\<close> loop is a round; the decisions inside it (\<open>feedDue\<close>, \<open>enforcementDue\<close>, \<open>nextWake\<close>, \<open>wakeDelay\<close>) are
  in \<open>ThreatRuntime\<close>.
\<close>

section \<open>Rounds\<close>

text \<open>
  The clock is read for the decision, after the work, for the kinetic reconciliation and before the
  sleep; the status of the feeds is computed at the time \<open>rt_statusNow\<close> of the round.
\<close>

record round_input =
  ri_now :: gotime
  ri_busy :: bool
  ri_sync :: sync_input
  ri_after :: gotime
  ri_kinetic :: kinetic_input
  ri_reconcile :: gotime
  ri_sleep :: gotime

definition roundWork :: "runtime_env \<Rightarrow> round_input \<Rightarrow> gotime \<Rightarrow> engine \<Rightarrow> (engine \<times> unit outcome) option" where
  "roundWork env inp enforcementRetryUTC e =
     (let status = engineStatus env e; now = ri_now inp in
      if feedDue now status then Some (SyncFeeds env False (ri_busy inp) (ri_sync inp) e)
      else if enforcementDue now enforcementRetryUTC status e then Some (applyThreatEnforcement env status e)
      else None)"

text \<open>
  A round that worked continues at once with the new state and retry time (\<open>Inl\<close>); the other ones sleep
  for the given time or until they are woken (\<open>Inr\<close>).
\<close>

definition intelligenceRound :: "runtime_env \<Rightarrow> round_input \<Rightarrow> kengine \<times> gotime \<Rightarrow> (kengine \<times> gotime) + duration" where
  "intelligenceRound env inp = (\<lambda>(ke, enforcementRetryUTC).
     case roundWork env inp enforcementRetryUTC (ke_engine ke) of
       Some (e', r) \<Rightarrow>
         let ke1 = ke\<lparr>ke_engine := e'\<rparr>;
             retry = enforcementRetry (ri_after inp) (statusOf (eg_feeds e') (ri_after inp)) e' r in
         Inl (case r of Inl err \<Rightarrow> ke1 | Inr u \<Rightarrow> reconcileKinetic env (ri_kinetic inp) (ri_reconcile inp) ke1, retry)
     | None \<Rightarrow> Inr (wakeDelay (ri_sleep inp) (nextWake enforcementRetryUTC (engineStatus env (ke_engine ke)) (ke_engine ke))))"

fun intelligenceRounds :: "runtime_env \<Rightarrow> round_input list \<Rightarrow> kengine \<times> gotime \<Rightarrow> (kengine \<times> gotime) option" where
  "intelligenceRounds env [] s = Some s"
| "intelligenceRounds env (inp # inps) s = (case intelligenceRound env inp s of Inl s' \<Rightarrow> intelligenceRounds env inps s' | Inr delay \<Rightarrow> None)"

abbreviation work_due :: "gotime \<Rightarrow> gotime \<Rightarrow> status \<Rightarrow> engine \<Rightarrow> bool" where
  "work_due t retry status e \<equiv> feedDue t status \<or> enforcementDue t retry status e"

section \<open>Rounds are steps of the engine\<close>

lemma roundWork_step:
  assumes "roundWork env inp retry e = Some (e', r)" and "rt_platform env = P" and "0 < si_attempt (ri_sync inp)"
  shows "engine_step P e e'"
  using assms by (auto simp: roundWork_def Let_def split: if_splits intro: engine_step.sync engine_step.enforce)

text \<open>
  A round that works leads from a reachable state of the engine to a reachable one: the invariants of
  the manager, of the enforcement and of the kinetic state hold after every round.
\<close>

lemma intelligenceRound_reachable:
  assumes "kinetic_reachable P ke" and "intelligenceRound env inp (ke, retry) = Inl (ke', retry')"
    and "rt_platform env = P" and "0 < si_attempt (ri_sync inp)"
  shows "kinetic_reachable P ke'"
proof -
  obtain e' r where w: "roundWork env inp retry (ke_engine ke) = Some (e', r)"
    using assms(2) by (auto simp: intelligenceRound_def split: option.splits)
  let ?ke1 = "ke\<lparr>ke_engine := e'\<rparr>"
  have "kinetic_reachable P ?ke1"
    using kinetic_reachable.again [OF assms(1) kinetic_step.intelligence [OF roundWork_step [OF w assms(3,4)]]] .
  moreover have "ke' = ?ke1 \<or> ke' = reconcileKinetic env (ri_kinetic inp) (ri_reconcile inp) ?ke1"
    using assms(2) w by (auto simp: intelligenceRound_def Let_def split: sum.splits)
  ultimately show ?thesis using kinetic_reachable.again kinetic_step.health by metis
qed

section \<open>The sleep\<close>

lemma statusOf_nextSync: "st_nextSyncUTC (statusOf m wall) = st_nextSyncUTC (m_status m)"
  by (simp add: statusOf_def applyFreshnessAndAuthenticity_def statusView_def Let_def case_prod_beta)

text \<open>Only the freshness of the feeds depends on the clock of a status, and it is lost for good while nothing is synchronised.\<close>

definition statusWithdrawn :: "manager \<Rightarrow> gotime \<Rightarrow> bool" where
  "statusWithdrawn m wall \<longleftrightarrow> clockRollbackDetected (m_clock m) \<or>
     list_ex (\<lambda>fs. f_effectiveAction fs = ActionBlock \<and> feedStale m wall fs) (st_feeds (statusView m))"

lemma statusOf_enforcement:
  "st_blockingIndicators (statusOf m wall) = (if statusWithdrawn m wall then 0 else st_blockingIndicators (statusView m))"
  "st_blockingFeedsReady (statusOf m wall) = (if statusWithdrawn m wall then 0 else st_blockingFeedsReady (statusView m))"
  "st_enforcementGeneration (statusOf m wall) = (if statusWithdrawn m wall then [] else st_enforcementGeneration (statusView m))"
  "st_blockingFeedsTotal (statusOf m wall) = st_blockingFeedsTotal (statusView m)"
proof -
  have "list_ex snd (map (expireFeed (clockRollbackDetected (m_clock m)) (effectiveNowUTC (m_clock m) wall) (maxFeedAge (m_polling m))) (st_feeds (statusView m))) \<or>
      clockRollbackDetected (m_clock m) \<longleftrightarrow> statusWithdrawn m wall"
    by (auto simp: statusWithdrawn_def list_ex_iff expireFeed_blocking) (auto simp: feedStale_def)
  then show "st_blockingIndicators (statusOf m wall) = (if statusWithdrawn m wall then 0 else st_blockingIndicators (statusView m))"
    "st_blockingFeedsReady (statusOf m wall) = (if statusWithdrawn m wall then 0 else st_blockingFeedsReady (statusView m))"
    "st_enforcementGeneration (statusOf m wall) = (if statusWithdrawn m wall then [] else st_enforcementGeneration (statusView m))"
    by (simp_all add: statusOf_def applyFreshnessAndAuthenticity_def Let_def)
qed (simp add: statusOf_def applyFreshnessAndAuthenticity_def Let_def)

lemma statusWithdrawn_mono: "statusWithdrawn m t \<Longrightarrow> t \<le> c \<Longrightarrow> statusWithdrawn m c"
  by (fastforce simp: statusWithdrawn_def feedStale_def effectiveNowUTC_max list_ex_iff)

lemma needsReconcile_iff:
  "threatEnforcementNeedsReconcile (statusOf m wall) e \<longleftrightarrow>
     \<not> statusWithdrawn m wall \<and> threatEnforcementNeedsReconcile (statusView m) e"
  by (auto simp: threatEnforcementNeedsReconcile_def statusOf_enforcement)

lemma needsReconcile_earlier:
  "threatEnforcementNeedsReconcile (statusOf m c) e \<Longrightarrow> t \<le> c \<Longrightarrow> threatEnforcementNeedsReconcile (statusOf m t) e"
  using statusWithdrawn_mono by (auto simp: needsReconcile_iff)

lemma idle_round:
  assumes "intelligenceRound env inp (ke, retry) = Inr delay"
  shows "\<not> work_due (ri_now inp) retry (engineStatus env (ke_engine ke)) (ke_engine ke)"
    and "delay = wakeDelay (ri_sleep inp) (nextWake retry (engineStatus env (ke_engine ke)) (ke_engine ke))"
  using assms by (auto simp: intelligenceRound_def roundWork_def Let_def split: option.splits if_splits)

text \<open>
  C12 [scheduler_wakes_on_time]: when a round of the scheduler finds nothing to do, the moment it wants to be
  woken is still ahead, and the timer fires exactly then, or at once when the moment passed between the
  two readings of the clock. The feeds, the enforcement and the retry time being the same, no round
  before that moment would find anything to do, at whatever later time it computes the status of the
  feeds; and a round from that moment on finds a synchronisation or an enforcement attempt due, except when the
  moment was an enforcement retry and the feeds have expired during the sleep, so that nothing is left to
  enforce. The one hypothesis is the range of a Go duration, 292 years.
\<close>

theorem scheduler_wakes_on_time:
  assumes "intelligenceRound env inp (ke, retry) = Inr delay"
    and "nextWake retry (engineStatus env (ke_engine ke)) (ke_engine ke) - ri_sleep inp \<le> max_duration"
  shows "let e = ke_engine ke; w = nextWake retry (engineStatus env e) e in
    ri_now inp < w \<and> ri_sleep inp + delay = max w (ri_sleep inp) \<and>
    (\<forall>t c. t < w \<and> rt_statusNow env \<le> c \<longrightarrow> \<not> work_due t retry (statusOf (eg_feeds e) c) e) \<and>
    (\<forall>t c. w \<le> t \<longrightarrow> work_due t retry (statusOf (eg_feeds e) c) e \<or>
       w = retry \<and> \<not> threatEnforcementNeedsReconcile (statusOf (eg_feeds e) c) e)"
proof -
  define e where "e = ke_engine ke"
  define w where "w = nextWake retry (engineStatus env e) e"
  have idle: "\<not> work_due (ri_now inp) retry (engineStatus env e) e" and d: "delay = wakeDelay (ri_sleep inp) w"
    using idle_round [OF assms(1)] by (simp_all add: e_def w_def)
  have next_sync: "st_nextSyncUTC (statusOf (eg_feeds e) c) = st_nextSyncUTC (engineStatus env e)" for c by (simp add: statusOf_nextSync)
  have "ri_now inp < w" using idle by (auto simp: w_def feedDue_def enforcementDue_def nextWake_def)
  moreover have "ri_sleep inp + delay = max w (ri_sleep inp)"
    using assms(2) by (auto simp: d wakeDelay_def time_sub_def min_duration_def max_duration_def Let_def w_def e_def)
  moreover have "\<not> work_due t retry (statusOf (eg_feeds e) c) e" if "t < w" "rt_statusNow env \<le> c" for t c
    using idle that needsReconcile_earlier [OF _ that(2), of "eg_feeds e" e] next_sync [of c]
    by (auto simp: w_def feedDue_def enforcementDue_def nextWake_def split: if_splits)
  moreover have "work_due t retry (statusOf (eg_feeds e) c) e \<or> w = retry \<and> \<not> threatEnforcementNeedsReconcile (statusOf (eg_feeds e) c) e"
    if "w \<le> t" for t c
    using idle that next_sync [of c] by (auto simp: w_def feedDue_def enforcementDue_def nextWake_def split: if_splits)
  ultimately show ?thesis unfolding Let_def e_def [symmetric] w_def [symmetric] by blast
qed

section \<open>A held lock\<close>

lemma busy_round:
  assumes "feedDue (ri_now inp) (engineStatus env (ke_engine ke))" and "ri_busy inp"
  shows "\<exists>retry'. intelligenceRound env inp (ke, retry) =
    Inl (ke\<lparr>ke_engine := noteLedger env (mhx_intelligence, ''12h-sync'', ''failed'') (ke_engine ke)\<rparr>, retry')"
  using assms by (simp add: intelligenceRound_def roundWork_def SyncFeeds_def Sync_def)

text \<open>
  While another operation holds the synchronisation lock and a synchronisation is
  due, the scheduler never sleeps: every round fails at once, leaves the feeds and their next
  synchronisation as they were, and appends one more failure to the evidence ledger.
\<close>

lemma busy_scheduler_spins:
  assumes "\<forall>inp\<in>set inps. ri_busy inp \<and> feedDue (ri_now inp) (engineStatus env (ke_engine ke))" and "\<forall>n. rt_ledgerOK env n"
  shows "\<exists>ke' retry'. intelligenceRounds env inps (ke, retry) = Some (ke', retry') \<and> eg_feeds (ke_engine ke') = eg_feeds (ke_engine ke) \<and>
    eg_disk (ke_engine ke') = eg_disk (ke_engine ke) \<and>
    eg_ledger (ke_engine ke') = eg_ledger (ke_engine ke) @ replicate (length inps) (mhx_intelligence, ''12h-sync'', ''failed'')"
  using assms
proof (induction inps arbitrary: ke retry)
  case (Cons inp inps)
  let ?e = "noteLedger env (mhx_intelligence, ''12h-sync'', ''failed'') (ke_engine ke)"
  obtain r where "intelligenceRound env inp (ke, retry) = Inl (ke\<lparr>ke_engine := ?e\<rparr>, r)"
    using busy_round [where inp = inp and ke = ke and env = env and retry = retry] Cons.prems by auto
  moreover have "eg_ledger ?e = eg_ledger (ke_engine ke) @ [(mhx_intelligence, ''12h-sync'', ''failed'')]"
    using Cons.prems(2) by (simp add: noteLedger_def ledgerAppend_def Let_def)
  ultimately show ?case using Cons.IH [of "ke\<lparr>ke_engine := ?e\<rparr>" r] Cons.prems by auto
qed simp

section \<open>A sample round\<close>

definition sampleRound :: "gotime \<Rightarrow> gotime \<Rightarrow> round_input" where
  "sampleRound now sleep = \<lparr>ri_now = now, ri_busy = False, ri_sync = sampleSync [], ri_after = now, ri_kinetic = sampleKineticInput True now,
     ri_reconcile = now, ri_sleep = sleep\<rparr>"

text \<open>A manager whose next synchronisation is at the given time.\<close>

definition idleEngine :: "gotime \<Rightarrow> engine" where
  "idleEngine t = newEngine ((fst emptyState)\<lparr>m_status := (m_status (fst emptyState))\<lparr>st_nextSyncUTC := t, st_blockingIndicators := 0\<rparr>\<rparr>) emptyDisk"

lemma statusOf_no_blocking: "st_blockingIndicators (m_status m) = 0 \<Longrightarrow> st_blockingIndicators (statusOf m wall) = 0"
  by (simp add: statusOf_def applyFreshnessAndAuthenticity_def statusView_def Let_def case_prod_beta)

lemma idleEngine_status:
  "st_nextSyncUTC (statusOf (eg_feeds (idleEngine t)) wall) = t" "st_blockingIndicators (statusOf (eg_feeds (idleEngine t)) wall) = 0"
  by (simp_all add: idleEngine_def newEngine_def statusOf_nextSync statusOf_no_blocking)

text \<open>A round at hour 1001 that reads the clock a second time an hour later sleeps until hour 1012.\<close>

theorem scheduler_wakes_on_time_witness:
  "intelligenceRound sampleRuntime (sampleRound (1001 * hour) (1002 * hour)) (newKinetic (idleEngine (1012 * hour)) Absent, 0) = Inr (10 * hour) \<and>
   \<not> work_due (1011 * hour) 0 (statusOf (eg_feeds (idleEngine (1012 * hour))) (rt_statusNow sampleRuntime)) (idleEngine (1012 * hour)) \<and>
   work_due (1012 * hour) 0 (statusOf (eg_feeds (idleEngine (1012 * hour))) (1012 * hour)) (idleEngine (1012 * hour))"
proof -
  have run: "intelligenceRound sampleRuntime (sampleRound (1001 * hour) (1002 * hour)) (newKinetic (idleEngine (1012 * hour)) Absent, 0) = Inr (10 * hour)"
    by (simp add: intelligenceRound_def roundWork_def feedDue_def enforcementDue_def threatEnforcementNeedsReconcile_def nextWake_def wakeDelay_def
        idleEngine_status sampleRound_def duration_defs time_sub_def min_duration_def max_duration_def Let_def)
  have w: "nextWake 0 (engineStatus sampleRuntime (idleEngine (1012 * hour))) (idleEngine (1012 * hour)) = 1012 * hour"
    by (simp add: nextWake_def idleEngine_status)
  have "1012 * hour - ri_sleep (sampleRound (1001 * hour) (1002 * hour)) \<le> max_duration"
    by (simp add: sampleRound_def duration_defs max_duration_def)
  with scheduler_wakes_on_time [OF run] w show ?thesis using run by (auto simp: Let_def duration_defs)
qed

end
