(* ===== verification/Dedupe.thy ===== *)
theory Dedupe
  imports BoundedLog "HOL-Library.AList"
begin

text \<open>
  \<open>internal/mhx/dedupe.go\<close>: the bounded table that suppresses repeated telemetry. The Go map \<open>index\<close> is an
  association list, the capacity of the slice \<open>entries\<close> is a field, and an index out of range is a
  panic.
\<close>

section \<open>Definitions\<close>

record dedupeEntry =
  de_key :: string
  de_expiry :: gotime

record boundedDedupe =
  bd_entries :: "dedupeEntry list"
  bd_cap :: nat
  bd_index :: "(string \<times> nat) list"
  bd_next :: nat

definition newBoundedDedupe :: "int \<Rightarrow> boundedDedupe" where
  "newBoundedDedupe capacity = \<lparr>bd_entries = [], bd_cap = nat (if capacity < 1 then 1 else capacity), bd_index = [], bd_next = 0\<rparr>"

definition Admit :: "string \<Rightarrow> gotime \<Rightarrow> duration \<Rightarrow> boundedDedupe \<Rightarrow> (boundedDedupe \<times> bool) outcome" where
  "Admit key now ttl d =
     (if key = [] \<or> ttl \<le> 0 then Inr (d, False)
      else case map_of (bd_index d) key of
        Some slot \<Rightarrow>
          if length (bd_entries d) \<le> slot then Inl Panic
          else if now < de_expiry (bd_entries d ! slot) then Inr (d, False)
          else Inr (d\<lparr>bd_entries := (bd_entries d)[slot := (bd_entries d ! slot)\<lparr>de_expiry := now + ttl\<rparr>]\<rparr>, True)
      | None \<Rightarrow>
          let entry = \<lparr>de_key = key, de_expiry = now + ttl\<rparr> in
          if length (bd_entries d) < bd_cap d
          then Inr (d\<lparr>bd_index := AList.update key (length (bd_entries d)) (bd_index d), bd_entries := bd_entries d @ [entry]\<rparr>, True)
          else if bd_entries d = [] then Inr (d, False)
          else let slot = bd_next d mod length (bd_entries d) in
            Inr (d\<lparr>bd_index := AList.update key slot (AList.delete (de_key (bd_entries d ! slot)) (bd_index d)),
                   bd_entries := (bd_entries d)[slot := entry],
                   bd_next := Suc slot mod length (bd_entries d)\<rparr>, True))"

section \<open>The reference\<close>

text \<open>The table as a queue, oldest admission first: a new key drops the oldest entry of a full queue.\<close>

definition admitSpec :: "nat \<Rightarrow> string \<Rightarrow> gotime \<Rightarrow> duration \<Rightarrow> dedupeEntry list \<Rightarrow> dedupeEntry list \<times> bool" where
  "admitSpec cap key now ttl q =
     (if key = [] \<or> ttl \<le> 0 then (q, False)
      else case find (\<lambda>en. de_key en = key) q of
        Some en \<Rightarrow> if now < de_expiry en then (q, False)
                   else (map (\<lambda>en. if de_key en = key then en\<lparr>de_expiry := now + ttl\<rparr> else en) q, True)
      | None \<Rightarrow> ((if length q < cap then q else tl q) @ [\<lparr>de_key = key, de_expiry = now + ttl\<rparr>], True))"

definition queueOf :: "boundedDedupe \<Rightarrow> dedupeEntry list" where
  "queueOf d = ring (bd_next d) (bd_entries d)"

definition dedupe_ok :: "boundedDedupe \<Rightarrow> bool" where
  "dedupe_ok d \<longleftrightarrow> 0 < bd_cap d \<and> length (bd_entries d) \<le> bd_cap d \<and> distinct (map de_key (bd_entries d)) \<and>
     (\<forall>k i. map_of (bd_index d) k = Some i \<longleftrightarrow> i < length (bd_entries d) \<and> de_key (bd_entries d ! i) = k) \<and>
     (length (bd_entries d) < bd_cap d \<longrightarrow> bd_next d = 0) \<and> bd_next d < bd_cap d"

lemma dedupe_okD:
  assumes "dedupe_ok d"
  shows "0 < bd_cap d" and "length (bd_entries d) \<le> bd_cap d" and "distinct (map de_key (bd_entries d))"
    and "map_of (bd_index d) k = Some i \<longleftrightarrow> i < length (bd_entries d) \<and> de_key (bd_entries d ! i) = k"
    and "length (bd_entries d) < bd_cap d \<Longrightarrow> bd_next d = 0" and "bd_next d < bd_cap d"
  using assms by (auto simp: dedupe_ok_def)

lemma newBoundedDedupe_ok: "dedupe_ok (newBoundedDedupe capacity)"
  by (auto simp: newBoundedDedupe_def dedupe_ok_def)

lemma index_None:
  assumes "dedupe_ok d"
  shows "map_of (bd_index d) k = None \<longleftrightarrow> k \<notin> de_key ` set (bd_entries d)"
proof -
  have "(\<exists>i. map_of (bd_index d) k = Some i) \<longleftrightarrow> (\<exists>i < length (bd_entries d). de_key (bd_entries d ! i) = k)"
    using dedupe_okD(4) [OF assms] by simp
  also have "\<dots> \<longleftrightarrow> k \<in> de_key ` set (bd_entries d)" by (metis (no_types, lifting) imageE image_eqI in_set_conv_nth)
  finally show ?thesis by auto
qed

lemma find_None: "find (\<lambda>en. de_key en = key) q = None \<longleftrightarrow> key \<notin> de_key ` set q"
  by (auto simp: find_None_iff)

lemma find_unique: "distinct (map de_key q) \<Longrightarrow> en \<in> set q \<Longrightarrow> find (\<lambda>x. de_key x = de_key en) q = Some en"
  by (induction q) (auto simp: image_iff)

lemma map_update_slot:
  assumes "distinct (map de_key xs)" and "i < length xs" and "de_key (xs ! i) = key"
  shows "map (\<lambda>en. if de_key en = key then f en else en) xs = xs[i := f (xs ! i)]"
  using assms by (auto intro!: nth_equalityI simp: nth_list_update distinct_conv_nth)

text \<open>The four ways of an admission, on a well-formed table.\<close>

lemma Admit_cases:
  assumes "dedupe_ok d"
  obtains (ignored) "key = [] \<or> ttl \<le> 0" and "Admit key now ttl d = Inr (d, False)"
  | (known) i where "\<not> (key = [] \<or> ttl \<le> 0)" and "i < length (bd_entries d)" and "de_key (bd_entries d ! i) = key"
      and "Admit key now ttl d = (if now < de_expiry (bd_entries d ! i) then Inr (d, False)
        else Inr (d\<lparr>bd_entries := (bd_entries d)[i := (bd_entries d ! i)\<lparr>de_expiry := now + ttl\<rparr>]\<rparr>, True))"
  | (room) "\<not> (key = [] \<or> ttl \<le> 0)" and "key \<notin> de_key ` set (bd_entries d)" and "length (bd_entries d) < bd_cap d"
      and "Admit key now ttl d = Inr (d\<lparr>bd_index := AList.update key (length (bd_entries d)) (bd_index d),
        bd_entries := bd_entries d @ [\<lparr>de_key = key, de_expiry = now + ttl\<rparr>]\<rparr>, True)"
  | (full) "\<not> (key = [] \<or> ttl \<le> 0)" and "key \<notin> de_key ` set (bd_entries d)" and "length (bd_entries d) = bd_cap d"
      and "Admit key now ttl d = Inr (d\<lparr>bd_index := AList.update key (bd_next d) (AList.delete (de_key (bd_entries d ! bd_next d)) (bd_index d)),
        bd_entries := (bd_entries d)[bd_next d := \<lparr>de_key = key, de_expiry = now + ttl\<rparr>],
        bd_next := Suc (bd_next d) mod bd_cap d\<rparr>, True)"
proof (cases "key = [] \<or> ttl \<le> 0")
  case True
  then show ?thesis using ignored by (simp add: Admit_def)
next
  case False
  note ok = dedupe_okD [OF assms]
  show ?thesis
  proof (cases "map_of (bd_index d) key")
    case (Some i)
    then show ?thesis using known [of i] ok(4) [of key i] False by (simp add: Admit_def)
  next
    case None
    then have "key \<notin> de_key ` set (bd_entries d)" using index_None [OF assms] by simp
    moreover have "bd_entries d \<noteq> []" if "length (bd_entries d) = bd_cap d" using that ok(1) by auto
    ultimately show ?thesis using room full None False ok(2,6)
      by (cases "length (bd_entries d) < bd_cap d") (simp_all add: Admit_def Let_def)
  qed
qed

text \<open>The table is a bounded log of admissions.\<close>

definition insertKey :: "dedupeEntry \<Rightarrow> boundedDedupe \<Rightarrow> boundedDedupe" where
  "insertKey en d = (if length (bd_entries d) < bd_cap d then d\<lparr>bd_entries := bd_entries d @ [en]\<rparr>
     else d\<lparr>bd_entries := (bd_entries d)[bd_next d := en], bd_next := Suc (bd_next d) mod bd_cap d\<rparr>)"

definition slots_ok :: "nat \<Rightarrow> boundedDedupe \<Rightarrow> bool" where
  "slots_ok n d \<longleftrightarrow> bd_cap d = Suc n \<and> length (bd_entries d) \<le> Suc n \<and> (length (bd_entries d) < Suc n \<longrightarrow> bd_next d = 0) \<and> bd_next d < Suc n"

interpretation dedupe_log: bounded_log "Suc n" "slots_ok n" queueOf insertKey for n
proof
  fix d :: boundedDedupe and en :: dedupeEntry
  assume ok: "slots_ok n d"
  show "slots_ok n (insertKey en d)" using ok by (auto simp: slots_ok_def insertKey_def)
  show "queueOf (insertKey en d) = (if length (queueOf d) < Suc n then queueOf d else tl (queueOf d)) @ [en]"
  proof (cases "length (bd_entries d) < Suc n")
    case True
    then show ?thesis using ok by (simp add: slots_ok_def insertKey_def queueOf_def)
  next
    case False
    then have "length (bd_entries d) = Suc n" using ok by (simp add: slots_ok_def)
    then show ?thesis using ok ring_put [of "bd_next d" "bd_entries d" en] by (simp add: slots_ok_def insertKey_def queueOf_def)
  qed
  show "length (queueOf d) \<le> Suc n" using ok by (simp add: slots_ok_def queueOf_def)
qed simp

lemma dedupe_slots: "dedupe_ok d \<Longrightarrow> \<exists>n. bd_cap d = Suc n \<and> slots_ok n d"
  using dedupe_okD [of d] by (cases "bd_cap d") (auto simp: slots_ok_def)

lemma insertKey_queue:
  assumes "dedupe_ok d"
  shows "queueOf (insertKey en d) = (if length (queueOf d) < bd_cap d then queueOf d else tl (queueOf d)) @ [en]"
  using dedupe_slots [OF assms] dedupe_log.push_contents by fastforce

lemma queueOf_index [simp]: "queueOf (d\<lparr>bd_index := x\<rparr>) = queueOf d"
  by (simp add: queueOf_def)

section \<open>Correctness\<close>

lemma Admit_ok:
  assumes "dedupe_ok d" and "Admit key now ttl d = Inr (d', r)"
  shows "dedupe_ok d' \<and> bd_cap d' = bd_cap d"
  using assms(1)
proof (cases rule: Admit_cases [of d key ttl now])
  case ignored
  then show ?thesis using assms by simp
next
  case (known i)
  have "map de_key ((bd_entries d)[i := (bd_entries d ! i)\<lparr>de_expiry := now + ttl\<rparr>]) = map de_key (bd_entries d)"
    using known(2) by (simp add: map_update list_update_same_conv)
  moreover have "de_key ((bd_entries d)[i := (bd_entries d ! i)\<lparr>de_expiry := now + ttl\<rparr>] ! j) = de_key (bd_entries d ! j)" for j
    by (cases "j = i"; cases "j < length (bd_entries d)") (simp_all add: list_update_beyond)
  ultimately show ?thesis using assms known(4) by (auto simp: dedupe_ok_def split: if_splits)
next
  case room
  note ok = dedupe_okD [OF assms(1)]
  have "\<forall>k i. map_of (bd_index d') k = Some i \<longleftrightarrow> i < length (bd_entries d') \<and> de_key (bd_entries d' ! i) = k"
    using assms(2) room ok(4) by (auto simp: update_conv' nth_append less_Suc_eq split: if_splits)
  then show ?thesis using assms(2) room ok by (auto simp: dedupe_ok_def)
next
  case full
  note ok = dedupe_okD [OF assms(1)]
  have n: "bd_next d < length (bd_entries d)" using ok(6) full(3) by simp
  have "map_of (bd_index d') k = Some i \<longleftrightarrow> i < length (bd_entries d') \<and> de_key (bd_entries d' ! i) = k" for k i
  proof (cases "k = key")
    case True
    have "de_key (bd_entries d ! i) \<noteq> key" if "i < length (bd_entries d)" using that full(2) by auto
    then show ?thesis using assms(2) full True n by (auto simp: update_conv' nth_list_update)
  next
    case False
    have "de_key (bd_entries d ! i) = de_key (bd_entries d ! bd_next d) \<longleftrightarrow> i = bd_next d" if "i < length (bd_entries d)"
      using that n ok(3) nth_eq_iff_index_eq [of "map de_key (bd_entries d)" i "bd_next d"] by simp
    then show ?thesis using assms(2) full False n ok(4) [of k i] by (auto simp: update_conv' delete_conv' nth_list_update split: if_splits)
  qed
  moreover have "distinct (map de_key (bd_entries d'))"
    using assms(2) full ok(3) n by (auto simp: map_update intro!: distinct_list_update)
  ultimately show ?thesis using assms(2) full ok by (auto simp: dedupe_ok_def)
qed

lemma Admit_queue:
  assumes "dedupe_ok d"
  shows "\<exists>d' r. Admit key now ttl d = Inr (d', r) \<and> dedupe_ok d' \<and> (queueOf d', r) = admitSpec (bd_cap d) key now ttl (queueOf d)"
proof -
  have keys: "de_key ` set (queueOf d) = de_key ` set (bd_entries d)" by (simp add: queueOf_def)
  have "\<exists>d' r. Admit key now ttl d = Inr (d', r) \<and> (queueOf d', r) = admitSpec (bd_cap d) key now ttl (queueOf d)"
    using assms
  proof (cases rule: Admit_cases [of d key ttl now])
    case ignored
    then show ?thesis by (auto simp: admitSpec_def)
  next
    case (known i)
    note dist = dedupe_okD(3) [OF assms]
    have "find (\<lambda>en. de_key en = key) (queueOf d) = Some (bd_entries d ! i)"
      using find_unique [of "queueOf d" "bd_entries d ! i"] known(2,3) dist by (simp add: queueOf_def map_ring)
    moreover have "map (\<lambda>en. if de_key en = key then en\<lparr>de_expiry := now + ttl\<rparr> else en) (queueOf d) =
        ring (bd_next d) ((bd_entries d)[i := (bd_entries d ! i)\<lparr>de_expiry := now + ttl\<rparr>])"
      using map_update_slot [OF dist known(2,3), of "\<lambda>en. en\<lparr>de_expiry := now + ttl\<rparr>"] by (simp add: queueOf_def map_ring)
    ultimately show ?thesis using known by (auto simp: admitSpec_def queueOf_def)
  next
    case room
    then have "find (\<lambda>en. de_key en = key) (queueOf d) = None" by (simp add: find_None keys)
    then show ?thesis using room insertKey_queue [OF assms, of "\<lparr>de_key = key, de_expiry = now + ttl\<rparr>"]
      by (auto simp: admitSpec_def insertKey_def queueOf_def)
  next
    case full
    then have "find (\<lambda>en. de_key en = key) (queueOf d) = None" by (simp add: find_None keys)
    then show ?thesis using full insertKey_queue [OF assms, of "\<lparr>de_key = key, de_expiry = now + ttl\<rparr>"]
      by (auto simp: admitSpec_def insertKey_def queueOf_def)
  qed
  then show ?thesis using Admit_ok [OF assms] by blast
qed

text \<open>
  The slice, the index map and the round-robin position together behave like a queue of
  admissions: \<open>Admit\<close> never indexes out of range, gives the answer of the queue, and leaves a table
  that stands for the queue after the admission; a new key pushes out the oldest one only.
\<close>

lemma Admit_refines:
  assumes "dedupe_ok d"
  shows "\<exists>d' r. Admit key now ttl d = Inr (d', r) \<and> dedupe_ok d' \<and> (queueOf d', r) = admitSpec (bd_cap d) key now ttl (queueOf d)"
  using Admit_queue [OF assms] .

section \<open>Runs\<close>

text \<open>A stream of requests on a new table, with the answers.\<close>

fun admitRun :: "int \<Rightarrow> (string \<times> gotime \<times> duration) list \<Rightarrow> (boundedDedupe \<times> bool list) outcome" where
  "admitRun capacity [] = Inr (newBoundedDedupe capacity, [])"
| "admitRun capacity ((key, now, ttl) # earlier) =
     bind_outcome (admitRun capacity earlier) (\<lambda>(d, answers).
     bind_outcome (Admit key now ttl d) (\<lambda>(d', r). Inr (d', r # answers)))"

text \<open>An admission of a key among earlier requests (newest first) that is still valid.\<close>

definition admittedUntil :: "(string \<times> gotime \<times> duration) list \<Rightarrow> bool list \<Rightarrow> string \<Rightarrow> gotime \<Rightarrow> bool" where
  "admittedUntil requests answers key expiry \<longleftrightarrow>
     (\<exists>i < length requests. answers ! i \<and> fst (requests ! i) = key \<and> expiry = fst (snd (requests ! i)) + snd (snd (requests ! i)))"

lemma admittedUntil_Cons: "admittedUntil (q # requests) (r # answers) key expiry \<longleftrightarrow>
    r \<and> fst q = key \<and> expiry = fst (snd q) + snd (snd q) \<or> admittedUntil requests answers key expiry"
  by (auto simp: admittedUntil_def less_Suc_eq_0_disj)

lemma admitSpec_entries:
  assumes "admitSpec cap key now ttl q = (q', r)" and "en \<in> set q'"
  shows "en \<in> set q \<or> r \<and> de_key en = key \<and> de_expiry en = now + ttl"
proof -
  have "x \<in> set q" if "x \<in> set (tl q)" for x using that by (cases q) simp_all
  then show ?thesis using assms by (auto simp: admitSpec_def split: if_splits option.splits)
qed

lemma admitRun_ok:
  "\<exists>d answers. admitRun capacity requests = Inr (d, answers) \<and> dedupe_ok d \<and> length answers = length requests \<and>
     bd_cap d = bd_cap (newBoundedDedupe capacity) \<and> (\<forall>en\<in>set (queueOf d). admittedUntil requests answers (de_key en) (de_expiry en))"
proof (induction requests)
  case Nil
  then show ?case using newBoundedDedupe_ok by (simp add: newBoundedDedupe_def queueOf_def)
next
  case (Cons q requests)
  obtain key now ttl where q: "q = (key, now, ttl)" by (cases q)
  from Cons obtain d answers where d: "admitRun capacity requests = Inr (d, answers)" "dedupe_ok d" "length answers = length requests"
      "bd_cap d = bd_cap (newBoundedDedupe capacity)" "\<forall>en\<in>set (queueOf d). admittedUntil requests answers (de_key en) (de_expiry en)" by blast
  obtain d' r where d': "Admit key now ttl d = Inr (d', r)" "(queueOf d', r) = admitSpec (bd_cap d) key now ttl (queueOf d)"
    using Admit_queue [OF d(2)] by blast
  have "\<forall>en\<in>set (queueOf d'). admittedUntil (q # requests) (r # answers) (de_key en) (de_expiry en)"
    using admitSpec_entries [OF d'(2) [symmetric]] d(5) by (auto simp: admittedUntil_Cons q)
  then show ?case using d d'(1) Admit_ok [OF d(2) d'(1)] by (simp add: q)
qed

text \<open>
  A request is suppressed only when the same key was emitted before and its
  time to live has not passed: under any stream of keys, however many, no telemetry is lost that
  was not reported within its window.
\<close>

lemma suppressed_was_admitted:
  assumes "admitRun capacity ((key, now, ttl) # earlier) = Inr (d, False # answers)" and "key \<noteq> []" and "0 < ttl"
  shows "\<exists>expiry. admittedUntil earlier answers key expiry \<and> now < expiry"
proof -
  obtain d0 where d0: "admitRun capacity earlier = Inr (d0, answers)" "dedupe_ok d0"
      "\<forall>en\<in>set (queueOf d0). admittedUntil earlier answers (de_key en) (de_expiry en)"
    and ad: "Admit key now ttl d0 = Inr (d, False)"
    using assms(1) admitRun_ok [of capacity earlier] by (auto simp: bind_outcome_eq_Inr)
  obtain q where "(q, False) = admitSpec (bd_cap d0) key now ttl (queueOf d0)"
    using Admit_queue [OF d0(2), of key now ttl] ad by auto
  then obtain en where "find (\<lambda>en. de_key en = key) (queueOf d0) = Some en" "now < de_expiry en"
    using assms(2,3) by (auto simp: admitSpec_def split: option.splits if_splits)
  then have "en \<in> set (queueOf d0)" "de_key en = key" by (auto simp: find_Some_iff)
  then show ?thesis using d0(3) \<open>now < de_expiry en\<close> by blast
qed

end
