(* ===== verification/EvidenceLines.thy ===== *)
theory EvidenceLines
  imports FeedAuthority
begin

text \<open>
  The line files of \<open>internal/evidence/ledger.go\<close>: the forward scan of \<open>scanLedgerFile\<close> and the backward
  reader \<open>readNewestLines\<close>, which reads a file in chunks from its end. The reader is shown to return the
  newest lines of the whole file, whatever the chunk boundaries cut.
\<close>

section \<open>Definitions\<close>

definition maxRecordBytes :: nat where "maxRecordBytes = 131072"
definition chunkSize :: nat where "chunkSize = 65536"

abbreviation newline :: char where "newline \<equiv> CHR 0x0A"

text \<open>A file as its readers find it. Only \<open>readNewestLines\<close> and the checkpoint store ask whether it is regular.\<close>

datatype efile = NoFile | NoAccess | BytesFile bool string

text \<open>\<open>bytes.LastIndexByte\<close>.\<close>

fun lastNewline :: "string \<Rightarrow> nat option" where
  "lastNewline [] = None"
| "lastNewline (c # s) = (case lastNewline s of Some i \<Rightarrow> Some (Suc i) | None \<Rightarrow> if c = newline then Some 0 else None)"

definition tooLong :: goerr where "tooLong = Err ''evidence record exceeds the line boundary''"

lemma lastNewline_less: "lastNewline s = Some i \<Longrightarrow> i < length s"
  by (induction s arbitrary: i) (auto split: option.splits if_splits)

text \<open>The inner loop: it takes lines off the end of \<open>combined\<close>. The result has what is left of it.\<close>

function takeLines :: "nat \<Rightarrow> string \<Rightarrow> string list \<Rightarrow> (string list \<times> string) outcome" where
  "takeLines limit combined ls =
     (if combined = [] \<or> limit \<le> length ls then Inr (ls, combined)
      else case lastNewline combined of
        None \<Rightarrow> Inr (ls, combined)
      | Some i \<Rightarrow>
          let line = drop (Suc i) combined; rest = take i combined in
          if line = [] then takeLines limit rest ls
          else if maxRecordBytes < length line then Inl tooLong
          else takeLines limit rest (ls @ [line]))"
  by pat_completeness auto
termination by (relation "measure (\<lambda>(limit, combined, ls). length combined)") (auto dest: lastNewline_less)

declare takeLines.simps [simp del]

text \<open>The outer loop over the chunks, from the position to the start of the file.\<close>

function readChunks :: "nat \<Rightarrow> nat \<Rightarrow> string \<Rightarrow> nat \<Rightarrow> string \<Rightarrow> string list \<Rightarrow> string list outcome" where
  "readChunks chunk limit content position carry ls =
     (if position = 0 \<or> limit \<le> length ls \<or> chunk = 0
      then if length ls < limit \<and> carry \<noteq> []
           then if maxRecordBytes < length carry then Inl tooLong else Inr (ls @ [carry])
           else Inr ls
      else let step = min chunk position; position' = position - step;
               combined = take step (drop position' content) @ carry in
           case takeLines limit combined ls of
             Inl e \<Rightarrow> Inl e
           | Inr (ls', rest) \<Rightarrow>
               if limit \<le> length ls' then Inr ls'
               else if maxRecordBytes < length rest then Inl tooLong
               else readChunks chunk limit content position' rest ls')"
  by pat_completeness auto
termination by (relation "measure (\<lambda>(chunk, limit, content, position, carry, ls). position)") auto

declare readChunks.simps [simp del]

definition readNewestLines :: "efile \<Rightarrow> int \<Rightarrow> string list outcome" where
  "readNewestLines f limit =
     (if limit \<le> 0 then Inr []
      else case f of
        NoFile \<Rightarrow> Inr []
      | NoAccess \<Rightarrow> Inl (Err ''access denied'')
      | BytesFile regular content \<Rightarrow>
          if \<not> regular then Inl (Err ''evidence file must be a regular non-reparse file'')
          else if content = [] then Inr []
          else readChunks chunkSize (nat limit) content (length content) [] [])"

text \<open>\<open>scanLedgerFile\<close>: the visitor sees the trimmed lines that are not empty, up to the first that is too long.\<close>

definition fitsRecord :: "string \<Rightarrow> bool" where
  "fitsRecord l \<longleftrightarrow> length l < maxRecordBytes"

definition recordLines :: "string \<Rightarrow> string list" where
  "recordLines content = filter (\<lambda>l. l \<noteq> []) (map (TrimSpace \<circ> dropCR) (takeWhile fitsRecord (raw_lines [] content)))"

fun visitLines :: "(string \<Rightarrow> 's \<Rightarrow> 's outcome) \<Rightarrow> string list \<Rightarrow> 's \<Rightarrow> 's outcome" where
  "visitLines visit [] s = Inr s"
| "visitLines visit (l # ls) s = (case visit l s of Inl e \<Rightarrow> Inl e | Inr s' \<Rightarrow> visitLines visit ls s')"

definition scanLedgerFile :: "efile \<Rightarrow> (string \<Rightarrow> 's \<Rightarrow> 's outcome) \<Rightarrow> 's \<Rightarrow> 's outcome" where
  "scanLedgerFile f visit s =
     (case f of
        NoFile \<Rightarrow> Inr s
      | NoAccess \<Rightarrow> Inl (Err ''access denied'')
      | BytesFile regular content \<Rightarrow>
          (case visitLines visit (recordLines content) s of
             Inl e \<Rightarrow> Inl e
           | Inr s' \<Rightarrow> if list_all fitsRecord (raw_lines [] content) then Inr s' else Inl (Err ''token too long'')))"

section \<open>The backward reader\<close>

text \<open>The pieces of a file between its newlines.\<close>

fun pieces :: "string \<Rightarrow> string list" where
  "pieces [] = [[]]"
| "pieces (c # s) = (if c = newline then [] # pieces s else (c # hd (pieces s)) # tl (pieces s))"

abbreviation nonempty :: "string list \<Rightarrow> string list" where "nonempty \<equiv> filter (\<lambda>l. l \<noteq> [])"

text \<open>What the reader should return for the lines it has and those still to come, newest first.\<close>

definition newestSpec :: "nat \<Rightarrow> string list \<Rightarrow> string list \<Rightarrow> string list outcome" where
  "newestSpec limit ls new =
     (let taken = take (limit - length ls) new in
      if list_all (\<lambda>l. length l \<le> maxRecordBytes) taken then Inr (ls @ taken) else Inl tooLong)"

lemma pieces_not_Nil [simp]: "pieces s \<noteq> []"
  by (cases s) simp_all

lemma pieces_plain: "newline \<notin> set s \<Longrightarrow> pieces s = [s]"
  by (induction s) auto

lemma pieces_append: "pieces (a @ c) = butlast (pieces a) @ [last (pieces a) @ hd (pieces c)] @ tl (pieces c)"
proof (induction a)
  case Nil
  then show ?case by simp
next
  case (Cons x a)
  then show ?case using pieces_not_Nil [of a] by (cases "pieces a") (auto simp: neq_Nil_conv)
qed

lemma hd_pieces_plain: "newline \<notin> set (hd (pieces c))"
  by (induction c) auto

lemma pieces_glue: "pieces (a @ c) = pieces (a @ hd (pieces c)) @ tl (pieces c)"
  using hd_pieces_plain [of c] by (simp add: pieces_append [of a] pieces_plain)

lemma lastNewline_None: "lastNewline s = None \<longleftrightarrow> newline \<notin> set s"
  by (induction s) (auto split: option.splits)

lemma lastNewline_Some:
  assumes "lastNewline s = Some i"
  shows "pieces s = pieces (take i s) @ [drop (Suc i) s]"
  using assms
proof (induction s arbitrary: i)
  case Nil
  then show ?case by simp
next
  case (Cons c s)
  show ?case
  proof (cases "lastNewline s")
    case None
    then have "newline \<notin> set s" by (simp add: lastNewline_None)
    then show ?thesis using Cons.prems None by (auto simp: pieces_plain split: if_splits)
  next
    case (Some j)
    then have "i = Suc j" using Cons.prems by simp
    then show ?thesis using Cons.IH [OF Some] by (cases "pieces (take j s)") auto
  qed
qed

lemma takeLines_spec:
  fixes limit c ls
  defines "taken \<equiv> take (limit - length ls) (rev (nonempty (tl (pieces c))))"
  shows "if list_all (\<lambda>l. length l \<le> maxRecordBytes) taken
    then \<exists>rest. takeLines limit c ls = Inr (ls @ taken, rest) \<and> (length (ls @ taken) < limit \<longrightarrow> rest = hd (pieces c))
    else takeLines limit c ls = Inl tooLong"
  unfolding taken_def
proof (induction limit c ls rule: takeLines.induct)
  case (1 limit c ls)
  consider (stop) "c = [] \<or> limit \<le> length ls" | (final) "c \<noteq> []" "length ls < limit" "lastNewline c = None"
    | (further) i where "c \<noteq> []" "length ls < limit" "lastNewline c = Some i" by fastforce
  then show ?case
  proof cases
    case stop
    then show ?thesis by (auto simp: takeLines.simps [of limit c ls])
  next
    case final
    then have "pieces c = [c]" by (simp add: lastNewline_None pieces_plain)
    then show ?thesis using final by (simp add: takeLines.simps [of limit c ls])
  next
    case (further i)
    let ?line = "drop (Suc i) c" and ?rest = "take i c"
    have p: "tl (pieces c) = tl (pieces ?rest) @ [?line]" "hd (pieces c) = hd (pieces ?rest)"
      using lastNewline_Some [OF further(3)] by simp_all
    have lim: "limit - length ls = Suc (limit - Suc (length ls))" using further(2) by simp
    show ?thesis
    proof (cases "?line = []")
      case True
      then show ?thesis using 1(1) [OF _ further(3) HOL.refl HOL.refl True] further p
        by (auto simp: takeLines.simps [of limit c ls] split: if_splits)
    next
      case False
      note step = takeLines.simps [of limit c ls]
      show ?thesis
      proof (cases "maxRecordBytes < length ?line")
        case True
        then show ?thesis using False further p by (simp add: step Let_def lim)
      next
        case short: False
        then show ?thesis using 1(2) [OF _ further(3) HOL.refl HOL.refl False] False further p by (auto simp: step Let_def lim)
      qed
    qed
  qed
qed

lemma readChunks_spec:
  assumes "0 < chunk" and "position \<le> length content" and "newline \<notin> set carry"
  shows "readChunks chunk limit content position carry ls = newestSpec limit ls (rev (nonempty (pieces (take position content @ carry))))"
  using assms(2,3)
proof (induction position arbitrary: carry ls rule: less_induct)
  case (less position)
  note step = readChunks.simps [of chunk limit content position carry ls]
  show ?case
  proof (cases "position = 0 \<or> limit \<le> length ls")
    case True
    then show ?thesis using assms(1) less(3) by (auto simp: step newestSpec_def pieces_plain Let_def)
  next
    case False
    define pos A X where "pos = position - min chunk position" and "A = take pos content" and "X = take (min chunk position) (drop pos content)"
    let ?c = "X @ carry"
    define qs q taken where "qs = rev (nonempty (tl (pieces ?c)))" and "q = hd (pieces ?c)" and "taken = take (limit - length ls) qs"
    have split: "take position content = A @ X"
      unfolding A_def X_def pos_def by (simp add: take_add [symmetric])
    have new: "rev (nonempty (pieces (take position content @ carry))) = qs @ rev (nonempty (pieces (A @ q)))"
      unfolding split qs_def q_def using pieces_glue [of A ?c] by simp
    have run: "readChunks chunk limit content position carry ls =
        (case takeLines limit ?c ls of Inl e \<Rightarrow> Inl e
         | Inr (ls', rest) \<Rightarrow> if limit \<le> length ls' then Inr ls' else if maxRecordBytes < length rest then Inl tooLong
             else readChunks chunk limit content pos rest ls')"
      unfolding step X_def pos_def Let_def using False assms(1) by simp
    note t = takeLines_spec [of limit ls ?c, folded qs_def q_def, folded taken_def]
    have lim: "length ls < limit" using False by simp
    consider (long) "\<not> list_all (\<lambda>l. length l \<le> maxRecordBytes) taken"
      | (full) rest where "list_all (\<lambda>l. length l \<le> maxRecordBytes) taken" "takeLines limit ?c ls = Inr (ls @ taken, rest)" "limit \<le> length (ls @ taken)"
      | (further) "list_all (\<lambda>l. length l \<le> maxRecordBytes) taken" "takeLines limit ?c ls = Inr (ls @ taken, q)" "length (ls @ taken) < limit"
      using t by (metis not_le)
    then show ?thesis
    proof cases
      case long
      then show ?thesis using t by (auto simp: run new newestSpec_def Let_def taken_def)
    next
      case full
      then have "limit - length ls \<le> length qs" unfolding taken_def using lim by simp
      then show ?thesis using full by (auto simp: run new newestSpec_def Let_def taken_def)
    next
      case further
      then have all: "taken = qs" "length qs < limit - length ls" unfolding taken_def using lim by auto
      show ?thesis
      proof (cases "maxRecordBytes < length q")
        case True
        have last: "pieces (A @ q) = butlast (pieces A) @ [last (pieces A) @ q]"
          using pieces_append [of A q] pieces_plain [of q] hd_pieces_plain [of ?c] by (simp add: q_def)
        have "q \<noteq> []" using True by auto
        then have "rev (nonempty (pieces (A @ q))) = (last (pieces A) @ q) # rev (nonempty (butlast (pieces A)))" by (simp add: last)
        moreover obtain k where "limit - (length ls + length qs) = Suc k" using all(2) by (cases "limit - (length ls + length qs)") auto
        ultimately show ?thesis using True further all by (simp add: run new newestSpec_def Let_def)
      next
        case short: False
        have "pos < position" using False assms(1) by (simp add: pos_def)
        from less(1) [OF this _ hd_pieces_plain [of ?c, folded q_def]] less(2)
        have "readChunks chunk limit content pos q (ls @ qs) = newestSpec limit (ls @ qs) (rev (nonempty (pieces (A @ q))))"
          by (simp add: A_def pos_def)
        then show ?thesis using short further all by (auto simp: run new newestSpec_def Let_def)
      qed
    qed
  qed
qed

lemma newest_lines:
  "0 < limit \<Longrightarrow> readNewestLines (BytesFile True content) limit =
    (let ls = take (nat limit) (rev (filter (\<lambda>l. l \<noteq> []) (pieces content))) in
     if list_all (\<lambda>l. length l \<le> maxRecordBytes) ls then Inr ls else Inl tooLong)"
  using readChunks_spec [of chunkSize "length content" content "[]" "nat limit" "[]"]
  by (simp add: readNewestLines_def newestSpec_def chunkSize_def Let_def)

text \<open>
  C20 [readNewestLines_newest]: the backward reader returns the newest lines of the file that are not empty,
  newest first and at most as many as asked, exactly as if it had read the whole file, wherever
  the chunks of 64 KiB begin; it fails exactly when one of them is longer than a record may be.
\<close>

theorem readNewestLines_newest:
  assumes "0 < limit"
  shows "readNewestLines (BytesFile True content) limit =
    (let ls = take (nat limit) (rev (filter (\<lambda>l. l \<noteq> []) (pieces content))) in
     if list_all (\<lambda>l. length l \<le> maxRecordBytes) ls then Inr ls else Inl tooLong)"
  using newest_lines [OF assms] .

theorem readNewestLines_newest_witness:
  "(0 :: int) < 1 \<and> readNewestLines (BytesFile True ''ab'') 1 =
    (let ls = take (nat 1) (rev (filter (\<lambda>l. l \<noteq> []) (pieces ''ab''))) in
     if list_all (\<lambda>l. length l \<le> maxRecordBytes) ls then Inr ls else Inl tooLong)"
  using readNewestLines_newest [of 1 "''ab''"] by simp

section \<open>Files that end with a newline\<close>

lemma raw_lines_pieces: "raw_lines cur s = (let ps = (rev cur @ hd (pieces s)) # tl (pieces s) in if last ps = [] then butlast ps else ps)"
  by (induction cur s rule: raw_lines.induct) (auto simp: Let_def neq_Nil_conv)

text \<open>The bytes of a list of lines, each with its newline.\<close>

definition unlines :: "string list \<Rightarrow> string" where
  "unlines ls = concat (map (\<lambda>l. l @ [newline]) ls)"

lemma unlines_simps [simp]: "unlines [] = []" "unlines (l # ls) = l @ newline # unlines ls" "unlines (ls @ ks) = unlines ls @ unlines ks"
  by (simp_all add: unlines_def)

lemma pieces_unlines: "\<forall>l\<in>set ls. newline \<notin> set l \<Longrightarrow> pieces (unlines ls) = ls @ [[]]"
proof (induction ls)
  case (Cons l ls)
  then show ?case using pieces_append [of l "newline # unlines ls"] by (simp add: pieces_plain)
qed simp

lemma raw_lines_unlines: "\<forall>l\<in>set ls. newline \<notin> set l \<Longrightarrow> raw_lines [] (unlines ls) = ls"
  using pieces_unlines [of ls] by (cases ls) (auto simp: raw_lines_pieces Let_def)

end
