(* ===== verification/EvidenceLedger.thy ===== *)
theory EvidenceLedger
  imports EvidenceLines BoundedLog
begin

text \<open>
  \<open>internal/evidence/ledger.go\<close> and \<open>witness.go\<close>: the evidence ledger, an append-only file of records that
  an HMAC chains together, with archives, signed checkpoints of the chain's tip and an external
  witness.

  Files are byte strings (\<open>efile\<close>). The JSON codec of records and checkpoints, HMAC, SHA-256 and Ed25519
  are parameters (\<open>evidence_env\<close>); clock readings and the results of file operations are inputs
  (\<open>evidence_input\<close>). A write may be torn: some bytes reach the file and the call fails.
\<close>

section \<open>Data\<close>

definition ledgerSchemaVersion :: int where "ledgerSchemaVersion = 1"
definition maxLedgerPageLimit :: int where "maxLedgerPageLimit = 100"
definition maxLedgerSnapshotLimit :: int where "maxLedgerSnapshotLimit = 500"
definition maxLedgerPageOffset :: int where "maxLedgerPageOffset = 50000"
definition maxRetainedArchives :: nat where "maxRetainedArchives = 4"
definition maxCheckpointEntriesInMemory :: nat where "maxCheckpointEntriesInMemory = 8192"
definition maxCheckpointFileBytes :: int where "maxCheckpointFileBytes = 4194304"
definition ledgerRotateBytes :: int where "ledgerRotateBytes = 67108864"
definition checkpointKindTip :: string where "checkpointKindTip = ''TIP''"
definition checkpointKindArchive :: string where "checkpointKindArchive = ''ARCHIVE''"
definition checkpointKindRetention :: string where "checkpointKindRetention = ''RETENTION''"
definition witnessSchemaVersion :: int where "witnessSchemaVersion = 1"
definition maxWitnessFileBytes :: int where "maxWitnessFileBytes = 8192"
definition witnessRetryInterval :: duration where "witnessRetryInterval = minute"

type_synonym seq = "64 word"

definition appendCheckpointInterval :: seq where "appendCheckpointInterval = 256"

record evidence_record =
  ev_sequence :: seq
  ev_timestamp :: gotime
  ev_kind :: string
  ev_action :: string
  ev_result :: string
  ev_previousMAC :: string
  ev_MAC :: string

record checkpointRecord =
  cp_schemaVersion :: int
  cp_kind :: string
  cp_sequence :: seq
  cp_lastMAC :: string
  cp_createdUTC :: gotime
  cp_archiveName :: string
  cp_archiveSHA256 :: string
  cp_retainedFromSequence :: seq
  cp_retainedFromPreviousMAC :: string
  cp_publicKeySHA256 :: string
  cp_signature :: string

record ledgerArchive =
  la_name :: string
  la_firstSequence :: seq
  la_lastSequence :: seq

record witnessStatus =
  ws_configured :: bool
  ws_reachable :: bool
  ws_degraded :: bool
  ws_verified :: bool
  ws_sequence :: seq
  ws_localSequence :: seq
  ws_writtenUTC :: gotime
  ws_detail :: string

record witnessTip =
  wt_schemaVersion :: int
  wt_sequence :: seq
  wt_lastMAC :: string
  wt_writtenUTC :: gotime
  wt_publicKeySHA256 :: string
  wt_signature :: string

record ledger =
  lg_key :: string
  lg_sequence :: seq
  lg_lastMAC :: string
  lg_fileFirstSequence :: seq
  lg_fileBytes :: int
  lg_retainedFromSequence :: seq
  lg_signingPublicSHA256 :: string
  lg_checkpointFileBytes :: int
  lg_checkpoints :: "checkpointRecord list"
  lg_archives :: "ledgerArchive list"
  lg_appendFailures :: seq
  lg_lastError :: "goerr option"
  lg_witnessConfigured :: bool
  lg_witnessStatus :: witnessStatus
  lg_witnessLastFailure :: gotime

text \<open>
  The evidence directory: the live file, the other files by name (directories are skipped by every
  reader and left out), the checkpoint store and the witness file. \<open>ed_base\<close> is the name of the live file.
\<close>

record evidence_disk =
  ed_base :: string
  ed_live :: efile
  ed_dirOK :: bool
  ed_dir :: "(string \<times> efile) list"
  ed_checkpoints :: efile
  ed_witness :: "witnessTip stored"

record evidence_env =
  ee_marshal :: "evidence_record \<Rightarrow> string option"
  ee_unmarshal :: "string \<Rightarrow> evidence_record option"
  ee_hmac :: "string \<Rightarrow> string \<Rightarrow> string"
  ee_sha :: "string \<Rightarrow> string"
  ee_marshalCheckpoint :: "checkpointRecord \<Rightarrow> string option"
  ee_decodeCheckpoint :: "string \<Rightarrow> checkpointRecord content"
  ee_messageJSON :: "checkpointRecord \<Rightarrow> string"
  ee_sign :: "string \<Rightarrow> string"
  ee_verify :: "string \<Rightarrow> nat list \<Rightarrow> bool"
  ee_witnessSize :: "witnessTip \<Rightarrow> nat option"
  ee_witnessJSON :: "witnessTip \<Rightarrow> string"

datatype write_result = Written | Torn nat | OpenFails

record evidence_input =
  ei_now :: gotime
  ei_lockOK :: bool
  ei_appendWrite :: write_result
  ei_checkpointWrite :: "checkpointRecord \<Rightarrow> write_result"
  ei_renameOK :: bool
  ei_renameStoreOK :: bool
  ei_removeOK :: bool
  ei_quarantineOK :: bool
  ei_witnessWriteOK :: bool

text \<open>An append to a file that is opened for it.\<close>

definition appendTo :: "write_result \<Rightarrow> string \<Rightarrow> efile \<Rightarrow> efile \<times> unit outcome" where
  "appendTo w s f =
     (case f of
        NoAccess \<Rightarrow> (f, Inl (Err ''access denied''))
      | NoFile \<Rightarrow>
          (case w of OpenFails \<Rightarrow> (f, Inl (Err ''open failed'')) | Torn n \<Rightarrow> (BytesFile True (take n s), Inl (Err ''write failed''))
           | Written \<Rightarrow> (BytesFile True s, Inr ()))
      | BytesFile regular c \<Rightarrow>
          (case w of OpenFails \<Rightarrow> (f, Inl (Err ''open failed'')) | Torn n \<Rightarrow> (BytesFile regular (c @ take n s), Inl (Err ''write failed''))
           | Written \<Rightarrow> (BytesFile regular (c @ s), Inr ())))"

section \<open>Records\<close>

definition calculate :: "evidence_env \<Rightarrow> string \<Rightarrow> evidence_record \<Rightarrow> string outcome" where
  "calculate env key r =
     (case ee_marshal env (r\<lparr>ev_MAC := []\<rparr>) of
        None \<Rightarrow> Inl (Err ''marshal failed'')
      | Some raw \<Rightarrow> Inr (ee_hmac env key raw))"

definition authenticate :: "evidence_env \<Rightarrow> string \<Rightarrow> evidence_record \<Rightarrow> unit outcome" where
  "authenticate env key r =
     bind_outcome (calculate env key r) (\<lambda>expected.
       if fixedHexEqual expected (ev_MAC r) then Inr () else Inl (Err ''evidence chain authentication failed''))"

definition decodeRecord :: "evidence_env \<Rightarrow> string \<Rightarrow> evidence_record outcome" where
  "decodeRecord env raw =
     (case ee_unmarshal env raw of
        None \<Rightarrow> Inl (Err ''evidence record decoding failed'')
      | Some r \<Rightarrow> if ev_sequence r = 0 \<or> length (ev_MAC r) \<noteq> 64 then Inl (Err ''evidence record metadata rejected'') else Inr r)"

definition firstRecordPreviousMAC :: "evidence_env \<Rightarrow> efile \<Rightarrow> string outcome" where
  "firstRecordPreviousMAC env f =
     (case f of
        NoFile \<Rightarrow> Inl (Err ''file does not exist'')
      | NoAccess \<Rightarrow> Inl (Err ''access denied'')
      | BytesFile regular c \<Rightarrow>
          (case raw_lines [] c of
             [] \<Rightarrow> Inl (Err ''evidence archive is empty'')
           | l # ls \<Rightarrow>
               if \<not> fitsRecord l then Inl (Err ''token too long'')
               else bind_outcome (decodeRecord env (TrimSpace (dropCR l))) (\<lambda>r. Inr (ev_previousMAC r))))"

section \<open>Archives\<close>

definition parseSequence :: "string \<Rightarrow> seq outcome" where
  "parseSequence value =
     (if value = [] \<or> 20 < length value \<or> \<not> list_all is_digit value then Inl (Err ''sequence rejected'')
      else Inr (foldl (\<lambda>result c. result * 10 + of_nat (digit_value c)) 0 value))"

text \<open>The verb \<open>%012d\<close> on a sequence number.\<close>

definition padded :: "seq \<Rightarrow> string" where
  "padded s = (let d = itoa (unat s) in replicate (12 - length d) (CHR ''0'') @ d)"

definition archiveName :: "string \<Rightarrow> seq \<Rightarrow> seq \<Rightarrow> string" where
  "archiveName base lo hi = base @ ''.'' @ padded lo @ ''-'' @ padded hi @ ''.jsonl''"

definition HasSuffix :: "string \<Rightarrow> string \<Rightarrow> bool" where
  "HasSuffix s t \<longleftrightarrow> length t \<le> length s \<and> drop (length s - length t) s = t"

definition TrimSuffix :: "string \<Rightarrow> string \<Rightarrow> string" where
  "TrimSuffix s t = (if HasSuffix s t then take (length s - length t) s else s)"

fun splitDash :: "string \<Rightarrow> string list" where
  "splitDash [] = [[]]"
| "splitDash (c # s) = (if c = CHR ''-'' then [] # splitDash s else (c # hd (splitDash s)) # tl (splitDash s))"

text \<open>What one directory entry contributes: nothing, an archive, or the rejection of the directory.\<close>

definition archiveEntry :: "string \<Rightarrow> string \<Rightarrow> ledgerArchive outcome option" where
  "archiveEntry base name =
     (let prefix = base @ ''.'' in
      if \<not> HasPrefix name prefix \<or> \<not> HasSuffix name ''.jsonl'' then None
      else case splitDash (TrimSuffix (drop (length prefix) name) ''.jsonl'') of
        [a, b] \<Rightarrow> Some (case (parseSequence a, parseSequence b) of
            (Inr lo, Inr hi) \<Rightarrow> if lo = 0 \<or> hi < lo then Inl (Err ''evidence archive name rejected'')
               else Inr \<lparr>la_name = name, la_firstSequence = lo, la_lastSequence = hi\<rparr>
          | _ \<Rightarrow> Inl (Err ''evidence archive name rejected''))
      | _ \<Rightarrow> None)"

fun archiveEntries :: "string \<Rightarrow> string list \<Rightarrow> ledgerArchive list outcome" where
  "archiveEntries base [] = Inr []"
| "archiveEntries base (name # names) =
     (case archiveEntry base name of
        None \<Rightarrow> archiveEntries base names
      | Some (Inl e) \<Rightarrow> Inl e
      | Some (Inr a) \<Rightarrow> bind_outcome (archiveEntries base names) (\<lambda>as. Inr (a # as)))"

definition loadArchives :: "evidence_disk \<Rightarrow> ledgerArchive list outcome" where
  "loadArchives d =
     (if \<not> ed_dirOK d then Inl (Err ''directory unreadable'')
      else bind_outcome (archiveEntries (ed_base d) (map fst (ed_dir d))) (\<lambda>as. Inr (sort_key la_firstSequence as)))"

definition archiveFile :: "evidence_disk \<Rightarrow> string \<Rightarrow> efile" where
  "archiveFile d name = (case map_of (ed_dir d) name of None \<Rightarrow> NoFile | Some f \<Rightarrow> f)"

section \<open>The witness\<close>

definition witnessMessage :: "evidence_env \<Rightarrow> witnessTip \<Rightarrow> string" where
  "witnessMessage env tip = ee_witnessJSON env (tip\<lparr>wt_signature := []\<rparr>)"

definition boundedErrorText :: "goerr \<Rightarrow> string" where
  "boundedErrorText e = take 200 (err_text e)"

definition degradeWitness :: "string \<Rightarrow> ledger \<Rightarrow> ledger" where
  "degradeWitness detail l = l\<lparr>lg_witnessStatus := \<lparr>ws_configured = True, ws_reachable = False, ws_degraded = True, ws_verified = False,
     ws_sequence = 0, ws_localSequence = lg_sequence l, ws_writtenUTC = 0, ws_detail = detail\<rparr>\<rparr>"

definition failWitnessWrite :: "gotime \<Rightarrow> goerr \<Rightarrow> ledger \<Rightarrow> ledger" where
  "failWitnessWrite now e l = (degradeWitness (''external witness write failed: '' @ boundedErrorText e) l)\<lparr>lg_witnessLastFailure := now,
     lg_lastError := Some (Err (''evidence witness write: '' @ err_text e))\<rparr>"

definition updateWitnessLocked :: "evidence_env \<Rightarrow> evidence_input \<Rightarrow> ledger \<Rightarrow> evidence_disk \<Rightarrow> ledger \<times> evidence_disk" where
  "updateWitnessLocked env inp l d =
     (if \<not> lg_witnessConfigured l \<or> lg_sequence l = 0 then (l, d)
      else if lg_witnessLastFailure l \<noteq> 0 \<and> time_sub (ei_now inp) (lg_witnessLastFailure l) < witnessRetryInterval then (l, d)
      else let tip0 = \<lparr>wt_schemaVersion = witnessSchemaVersion, wt_sequence = lg_sequence l, wt_lastMAC = lg_lastMAC l,
                 wt_writtenUTC = ei_now inp, wt_publicKeySHA256 = lg_signingPublicSHA256 l, wt_signature = []\<rparr>;
               tip = tip0\<lparr>wt_signature := ee_sign env (witnessMessage env tip0)\<rparr> in
        case ee_witnessSize env tip of
          None \<Rightarrow> (failWitnessWrite (ei_now inp) (Err ''marshal failed'') l, d)
        | Some n \<Rightarrow>
            if maxWitnessFileBytes < int n + 1
            then (failWitnessWrite (ei_now inp) (Err ''evidence witness record exceeds the file boundary'') l, d)
            else case atomicWrite (ei_witnessWriteOK inp) (Suc n) tip (ed_witness d) of
                Inl e \<Rightarrow> (failWitnessWrite (ei_now inp) e l, d)
              | Inr f \<Rightarrow> (l\<lparr>lg_witnessLastFailure := 0, lg_witnessStatus := \<lparr>ws_configured = True, ws_reachable = True, ws_degraded = False,
                    ws_verified = True, ws_sequence = lg_sequence l, ws_localSequence = lg_sequence l, ws_writtenUTC = ei_now inp,
                    ws_detail = ''external witness holds the current signed chain tip''\<rparr>\<rparr>, d\<lparr>ed_witness := f\<rparr>))"

definition refreshWitnessLocked :: "evidence_env \<Rightarrow> evidence_input \<Rightarrow> ledger \<Rightarrow> evidence_disk \<Rightarrow> ledger \<times> evidence_disk" where
  "refreshWitnessLocked env inp l d =
     (let w = lg_witnessStatus l in
      if \<not> lg_witnessConfigured l \<or> lg_sequence l = 0 then (l, d)
      else if ws_reachable w \<and> ws_verified w \<and> ws_sequence w = lg_sequence l then (l, d)
      else updateWitnessLocked env inp l d)"

definition checkWitnessTip :: "witnessTip \<Rightarrow> unit outcome" where
  "checkWitnessTip tip =
     (if wt_schemaVersion tip \<noteq> witnessSchemaVersion \<or> wt_sequence tip = 0 \<or> length (wt_lastMAC tip) \<noteq> 64 \<or>
         length (wt_publicKeySHA256 tip) \<noteq> 64 \<or> length (wt_signature tip) \<noteq> 128 \<or> wt_writtenUTC tip = 0
      then Inl (Err ''evidence witness metadata rejected'')
      else if hexDecode (wt_lastMAC tip) = None then Inl (Err ''evidence witness MAC rejected'')
      else if hexDecode (wt_publicKeySHA256 tip) = None then Inl (Err ''evidence witness public key fingerprint rejected'')
      else if hexDecode (wt_signature tip) = None then Inl (Err ''evidence witness signature encoding rejected'')
      else Inr ())"

definition decodeWitnessTip :: "witnessTip content \<Rightarrow> witnessTip outcome" where
  "decodeWitnessTip c =
     (case c of
        Malformed \<Rightarrow> Inl (Err ''evidence witness JSON rejected'')
      | Trailing \<Rightarrow> Inl (Err ''evidence witness trailing data rejected'')
      | Decoded tip \<Rightarrow> bind_outcome (checkWitnessTip tip) (\<lambda>u. Inr tip))"

definition checkpointMACLocked :: "seq \<Rightarrow> checkpointRecord list \<Rightarrow> string option" where
  "checkpointMACLocked s cs = map_option cp_lastMAC (find (\<lambda>c. cp_sequence c = s) (rev cs))"

text \<open>The comparison of an authenticated witness with the local chain.\<close>

definition compareWitness :: "witnessTip \<Rightarrow> ledger \<Rightarrow> ledger \<times> unit outcome" where
  "compareWitness tip l0 =
     (let l = l0\<lparr>lg_witnessStatus := (lg_witnessStatus l0)\<lparr>ws_reachable := True, ws_sequence := wt_sequence tip, ws_writtenUTC := wt_writtenUTC tip\<rparr>\<rparr>;
          verified = (\<lambda>detail. l\<lparr>lg_witnessStatus := (lg_witnessStatus l)\<lparr>ws_verified := True, ws_detail := detail\<rparr>\<rparr>);
          ahead = ''local chain is ahead of the external witness (local='' @ itoa (unat (lg_sequence l)) @ '' witness='' @ itoa (unat (wt_sequence tip)) @ '')'' in
      if lg_sequence l < wt_sequence tip
      then (l, Inl (Err (''evidence witness is ahead of the local chain: truncation or rollback detected (witness='' @
             itoa (unat (wt_sequence tip)) @ '' local='' @ itoa (unat (lg_sequence l)) @ '')'')))
      else if wt_sequence tip = lg_sequence l
      then (if \<not> EqualFold (wt_lastMAC tip) (lg_lastMAC l) then (l, Inl (Err ''evidence witness does not match the local chain tip''))
            else (verified ''external witness matches the local chain tip'', Inr ()))
      else case checkpointMACLocked (wt_sequence tip) (lg_checkpoints l) of
          Some mac \<Rightarrow> if \<not> EqualFold mac (wt_lastMAC tip) then (l, Inl (Err ''evidence witness conflicts with the signed local checkpoint''))
             else (verified ahead, Inr ())
        | None \<Rightarrow> (l\<lparr>lg_witnessStatus := (lg_witnessStatus l)\<lparr>ws_detail :=
             ahead @ ''; witnessed tip is older than the retained signed checkpoints''\<rparr>\<rparr>, Inr ()))"

definition verifyWitnessLocked :: "evidence_env \<Rightarrow> ledger \<Rightarrow> evidence_disk \<Rightarrow> ledger \<times> unit outcome" where
  "verifyWitnessLocked env l0 d =
     (let l = l0\<lparr>lg_witnessStatus := \<lparr>ws_configured = lg_witnessConfigured l0, ws_reachable = False, ws_degraded = False, ws_verified = False,
             ws_sequence = 0, ws_localSequence = lg_sequence l0, ws_writtenUTC = 0, ws_detail = []\<rparr>\<rparr> in
      if \<not> lg_witnessConfigured l
      then (l\<lparr>lg_witnessStatus := (lg_witnessStatus l)\<lparr>ws_detail := ''external evidence witness is not configured''\<rparr>\<rparr>, Inr ())
      else case ed_witness d of
        Absent \<Rightarrow> (degradeWitness ''external witness file is missing (offline medium?)'' l, Inr ())
      | Unreadable \<Rightarrow> (degradeWitness ''external witness is unreachable: access denied'' l, Inr ())
      | Stored n regular content \<Rightarrow>
          if \<not> regular then (l, Inl (Err ''evidence witness must be a regular non-reparse file''))
          else if n = 0 \<or> maxWitnessFileBytes < int n then (l, Inl (Err ''evidence witness size outside the boundary''))
          else case decodeWitnessTip content of
            Inl e \<Rightarrow> (l, Inl (Err (''evidence witness rejected: '' @ err_text e)))
          | Inr tip \<Rightarrow>
              if \<not> EqualFold (wt_publicKeySHA256 tip) (lg_signingPublicSHA256 l)
              then (l, Inl (Err ''evidence witness was signed by a different evidence key''))
              else case hexDecode (wt_signature tip) of
                None \<Rightarrow> (l, Inl (Err ''evidence witness signature encoding rejected''))
              | Some signature \<Rightarrow>
                  if length signature \<noteq> 64 then (l, Inl (Err ''evidence witness signature encoding rejected''))
                  else if \<not> ee_verify env (witnessMessage env tip) signature then (l, Inl (Err ''evidence witness signature invalid''))
                  else compareWitness tip l)"

section \<open>Checkpoints\<close>

definition checkpointMessage :: "evidence_env \<Rightarrow> checkpointRecord \<Rightarrow> string" where
  "checkpointMessage env c = ee_messageJSON env (c\<lparr>cp_signature := []\<rparr>)"

definition checkCheckpoint :: "checkpointRecord \<Rightarrow> unit outcome" where
  "checkCheckpoint c =
     (if cp_schemaVersion c \<noteq> ledgerSchemaVersion \<or> cp_sequence c = 0 \<or> length (cp_lastMAC c) \<noteq> 64 \<or>
         length (cp_publicKeySHA256 c) \<noteq> 64 \<or> length (cp_signature c) \<noteq> 128
      then Inl (Err ''evidence checkpoint metadata rejected'')
      else if cp_kind c \<notin> {checkpointKindTip, checkpointKindArchive, checkpointKindRetention} then Inl (Err ''evidence checkpoint kind rejected'')
      else if cp_kind c = checkpointKindArchive \<and> (cp_archiveName c = [] \<or> list_ex (\<lambda>x. x \<in> {CHR ''/'', CHR 0x5C, CHR '':''}) (cp_archiveName c) \<or>
         260 < length (cp_archiveName c) \<or> length (cp_archiveSHA256 c) \<noteq> 64)
      then Inl (Err ''evidence archive checkpoint metadata rejected'')
      else if cp_kind c = checkpointKindRetention \<and> (cp_retainedFromSequence c = 0 \<or> length (cp_retainedFromPreviousMAC c) \<noteq> 64)
      then Inl (Err ''evidence retention checkpoint metadata rejected'')
      else if hexDecode (cp_lastMAC c) = None then Inl (Err ''evidence checkpoint MAC rejected'')
      else if hexDecode (cp_signature c) = None then Inl (Err ''evidence checkpoint signature encoding rejected'')
      else Inr ())"

definition decodeCheckpoint :: "evidence_env \<Rightarrow> string \<Rightarrow> checkpointRecord outcome" where
  "decodeCheckpoint env raw =
     (case ee_decodeCheckpoint env raw of
        Malformed \<Rightarrow> Inl (Err ''evidence checkpoint JSON rejected'')
      | Trailing \<Rightarrow> Inl (Err ''evidence checkpoint trailing data rejected'')
      | Decoded c \<Rightarrow> bind_outcome (checkCheckpoint c) (\<lambda>u. Inr c))"

definition authenticateCheckpoint :: "evidence_env \<Rightarrow> ledger \<Rightarrow> checkpointRecord \<Rightarrow> unit outcome" where
  "authenticateCheckpoint env l c =
     (if cp_publicKeySHA256 c \<noteq> lg_signingPublicSHA256 l then Inl (Err ''evidence checkpoint public key rejected'')
      else case hexDecode (cp_signature c) of
        None \<Rightarrow> Inl (Err ''evidence checkpoint signature encoding rejected'')
      | Some signature \<Rightarrow>
          if length signature \<noteq> 64 then Inl (Err ''evidence checkpoint signature encoding rejected'')
          else if \<not> ee_verify env (checkpointMessage env c) signature then Inl (Err ''evidence checkpoint signature invalid'')
          else Inr ())"

text \<open>The loop over the lines of the store; a failure gives the reason of the quarantine.\<close>

fun readCheckpoints :: "evidence_env \<Rightarrow> ledger \<Rightarrow> nat \<Rightarrow> checkpointRecord list \<Rightarrow> string list \<Rightarrow> checkpointRecord list outcome" where
  "readCheckpoints env l n acc [] = Inr acc"
| "readCheckpoints env l n acc (line # ls) =
     (if TrimSpace line = [] then readCheckpoints env l n acc ls
      else if maxCheckpointEntriesInMemory * 2 < Suc n then Inl (Err ''checkpoint count boundary exceeded'')
      else case decodeCheckpoint env line of
        Inl e \<Rightarrow> Inl e
      | Inr c \<Rightarrow> (case authenticateCheckpoint env l c of
            Inl e \<Rightarrow> Inl e
          | Inr u \<Rightarrow> readCheckpoints env l (Suc n) (acc @ [c]) ls))"

definition quarantineCheckpointStore :: "evidence_input \<Rightarrow> string \<Rightarrow> ledger \<Rightarrow> evidence_disk \<Rightarrow> ledger \<times> evidence_disk" where
  "quarantineCheckpointStore inp reason l d =
     (let err = Err (''evidence checkpoint store rejected: '' @ reason) in
      if \<not> ei_quarantineOK inp then (l\<lparr>lg_lastError := Some err\<rparr>, d)
      else (l\<lparr>lg_checkpoints := [], lg_checkpointFileBytes := 0, lg_lastError := Some err\<rparr>, d\<lparr>ed_checkpoints := NoFile\<rparr>))"

definition loadCheckpoints :: "evidence_env \<Rightarrow> evidence_input \<Rightarrow> ledger \<Rightarrow> evidence_disk \<Rightarrow> ledger \<times> evidence_disk" where
  "loadCheckpoints env inp l d =
     (case ed_checkpoints d of
        NoFile \<Rightarrow> (l\<lparr>lg_checkpoints := [], lg_checkpointFileBytes := 0\<rparr>, d)
      | NoAccess \<Rightarrow> (l\<lparr>lg_checkpoints := [], lg_checkpointFileBytes := 0, lg_lastError := Some (Err ''evidence checkpoint store: access denied'')\<rparr>, d)
      | BytesFile regular c \<Rightarrow>
          if \<not> regular then quarantineCheckpointStore inp ''not a regular file'' l d
          else if maxCheckpointFileBytes < int (length c) then quarantineCheckpointStore inp ''size boundary exceeded'' l d
          else case readCheckpoints env l 0 [] (map dropCR (takeWhile fitsRecord (raw_lines [] c))) of
            Inl e \<Rightarrow> quarantineCheckpointStore inp (err_text e) l d
          | Inr cs \<Rightarrow>
              if \<not> list_all fitsRecord (raw_lines [] c) then quarantineCheckpointStore inp ''checkpoint store read rejected'' l d
              else (l\<lparr>lg_checkpoints := lastn maxCheckpointEntriesInMemory cs, lg_checkpointFileBytes := int (length c)\<rparr>, d))"

definition rotateCheckpointStoreLocked :: "evidence_input \<Rightarrow> ledger \<Rightarrow> evidence_disk \<Rightarrow> ledger \<times> evidence_disk \<times> unit outcome" where
  "rotateCheckpointStoreLocked inp l d =
     (if ed_checkpoints d \<noteq> NoFile \<and> \<not> ei_renameStoreOK inp then (l, d, Inl (Err ''rename failed''))
      else (l\<lparr>lg_checkpointFileBytes := 0\<rparr>, d\<lparr>ed_checkpoints := NoFile\<rparr>, Inr ()))"

text \<open>The signed checkpoint that \<open>appendCheckpointLocked\<close> makes of its argument.\<close>

definition signCheckpoint :: "evidence_env \<Rightarrow> evidence_input \<Rightarrow> ledger \<Rightarrow> checkpointRecord \<Rightarrow> checkpointRecord" where
  "signCheckpoint env inp l partial =
     (let c = partial\<lparr>cp_schemaVersion := ledgerSchemaVersion, cp_createdUTC := ei_now inp, cp_publicKeySHA256 := lg_signingPublicSHA256 l\<rparr> in
      c\<lparr>cp_signature := ee_sign env (checkpointMessage env c)\<rparr>)"

definition appendCheckpointLocked ::
    "evidence_env \<Rightarrow> evidence_input \<Rightarrow> checkpointRecord \<Rightarrow> ledger \<Rightarrow> evidence_disk \<Rightarrow> ledger \<times> evidence_disk \<times> unit outcome" where
  "appendCheckpointLocked env inp partial l d =
     (let c = signCheckpoint env inp l partial in
      case ee_marshalCheckpoint env c of
        None \<Rightarrow> (l, d, Inl (Err ''marshal failed''))
      | Some line \<Rightarrow>
          if maxRecordBytes < length line + 1 then (l, d, Inl (Err ''evidence checkpoint exceeds the line boundary''))
          else case (if maxCheckpointFileBytes < lg_checkpointFileBytes l + int (length line) + 1
                     then rotateCheckpointStoreLocked inp l d else (l, d, Inr ())) of
            (l1, d1, Inl e) \<Rightarrow> (l1, d1, Inl e)
          | (l1, d1, Inr u) \<Rightarrow>
              (case appendTo (ei_checkpointWrite inp c) (line @ [newline]) (ed_checkpoints d1) of
                 (f, Inl e) \<Rightarrow> (l1, d1\<lparr>ed_checkpoints := f\<rparr>, Inl e)
               | (f, Inr u) \<Rightarrow>
                   let l2 = l1\<lparr>lg_checkpointFileBytes := lg_checkpointFileBytes l1 + int (length line) + 1,
                          lg_checkpoints := lastn maxCheckpointEntriesInMemory (lg_checkpoints l1 @ [c])\<rparr>;
                       (l3, d3) = updateWitnessLocked env inp l2 (d1\<lparr>ed_checkpoints := f\<rparr>) in
                   (l3, d3, Inr ())))"

definition emptyCheckpoint :: "string \<Rightarrow> ledger \<Rightarrow> checkpointRecord" where
  "emptyCheckpoint kind l = \<lparr>cp_schemaVersion = 0, cp_kind = kind, cp_sequence = lg_sequence l, cp_lastMAC = lg_lastMAC l, cp_createdUTC = 0,
     cp_archiveName = [], cp_archiveSHA256 = [], cp_retainedFromSequence = 0, cp_retainedFromPreviousMAC = [], cp_publicKeySHA256 = [], cp_signature = []\<rparr>"

definition ensureTipCheckpointLocked :: "evidence_env \<Rightarrow> evidence_input \<Rightarrow> ledger \<Rightarrow> evidence_disk \<Rightarrow> ledger \<times> evidence_disk \<times> unit outcome" where
  "ensureTipCheckpointLocked env inp l d =
     (if lg_sequence l = 0 \<or> list_ex (\<lambda>c. cp_kind c = checkpointKindTip \<and> cp_sequence c = lg_sequence l \<and> cp_lastMAC c = lg_lastMAC l) (lg_checkpoints l)
      then (l, d, Inr ())
      else appendCheckpointLocked env inp (emptyCheckpoint checkpointKindTip l) l d)"

section \<open>Rotation and refresh\<close>

definition refreshRetainedFromLocked :: "ledger \<Rightarrow> ledger" where
  "refreshRetainedFromLocked l = l\<lparr>lg_retainedFromSequence :=
     (case lg_archives l of a # as \<Rightarrow> if 1 < la_firstSequence a then la_firstSequence a else 1 | [] \<Rightarrow> 1)\<rparr>"

fun pruneArchives :: "evidence_env \<Rightarrow> evidence_input \<Rightarrow> ledgerArchive list \<Rightarrow> ledger \<Rightarrow> evidence_disk \<Rightarrow> ledger \<times> evidence_disk" where
  "pruneArchives env inp (oldest # younger # rest) l d =
     (if length (oldest # younger # rest) \<le> maxRetainedArchives then (l, d)
      else case firstRecordPreviousMAC env (archiveFile d (la_name younger)) of
        Inl e \<Rightarrow> (l, d)
      | Inr mac \<Rightarrow>
          (case appendCheckpointLocked env inp ((emptyCheckpoint checkpointKindRetention l)\<lparr>cp_retainedFromSequence := la_firstSequence younger,
                  cp_retainedFromPreviousMAC := mac\<rparr>) l d of
             (l1, d1, Inl e) \<Rightarrow> (l1\<lparr>lg_lastError := Some (Err (''evidence retention anchor: '' @ err_text e))\<rparr>, d1)
           | (l1, d1, Inr u) \<Rightarrow>
               if \<not> ei_removeOK inp then (l1\<lparr>lg_lastError := Some (Err ''evidence archive retention: remove failed'')\<rparr>, d1)
               else pruneArchives env inp (younger # rest) (l1\<lparr>lg_archives := younger # rest\<rparr>)
                      (d1\<lparr>ed_dir := filter (\<lambda>(n, f). n \<noteq> la_name oldest) (ed_dir d1)\<rparr>)))"
| "pruneArchives env inp archives l d = (l, d)"

definition pruneArchivesLocked :: "evidence_env \<Rightarrow> evidence_input \<Rightarrow> ledger \<Rightarrow> evidence_disk \<Rightarrow> ledger \<times> evidence_disk" where
  "pruneArchivesLocked env inp l d = pruneArchives env inp (lg_archives l) l d"

definition rotateLocked :: "evidence_env \<Rightarrow> evidence_input \<Rightarrow> ledger \<Rightarrow> evidence_disk \<Rightarrow> ledger \<times> evidence_disk \<times> unit outcome" where
  "rotateLocked env inp l d =
     (if lg_sequence l = 0 \<or> lg_fileBytes l = 0 then (l, d, Inr ())
      else case ed_live d of
        NoFile \<Rightarrow> (l, d, Inl (Err ''file does not exist''))
      | NoAccess \<Rightarrow> (l, d, Inl (Err ''access denied''))
      | BytesFile regular content \<Rightarrow>
          let name = archiveName (ed_base d) (lg_fileFirstSequence l) (lg_sequence l) in
          if map_of (ed_dir d) name \<noteq> None then (l, d, Inl (Err ''evidence archive target already exists''))
          else if \<not> ei_renameOK inp then (l, d, Inl (Err ''rename failed''))
          else let d1 = d\<lparr>ed_live := NoFile, ed_dir := ed_dir d @ [(name, BytesFile regular content)]\<rparr>;
                   l1 = l\<lparr>lg_archives := lg_archives l @ [\<lparr>la_name = name, la_firstSequence = lg_fileFirstSequence l, la_lastSequence = lg_sequence l\<rparr>]\<rparr>;
                   (l2, d2, r) = appendCheckpointLocked env inp ((emptyCheckpoint checkpointKindArchive l1)\<lparr>cp_archiveName := name,
                      cp_archiveSHA256 := ee_sha env content\<rparr>) l1 d1;
                   l3 = (case r of Inl e \<Rightarrow> l2\<lparr>lg_lastError := Some (Err (''evidence archive checkpoint: '' @ err_text e))\<rparr> | Inr u \<Rightarrow> l2);
                   (l4, d4) = pruneArchivesLocked env inp l3 d2 in
               (refreshRetainedFromLocked (l4\<lparr>lg_fileFirstSequence := lg_sequence l4 + 1, lg_fileBytes := 0\<rparr>), d4, Inr ()))"

text \<open>The newest record of a file, decoded and authenticated; \<open>None\<close> when the file has no line.\<close>

definition newestRecord :: "evidence_env \<Rightarrow> string \<Rightarrow> efile \<Rightarrow> evidence_record option outcome" where
  "newestRecord env key f =
     bind_outcome (readNewestLines f 1) (\<lambda>ls.
       case ls of
         [] \<Rightarrow> Inr None
       | line # rest \<Rightarrow> bind_outcome (decodeRecord env line) (\<lambda>r. bind_outcome (authenticate env key r) (\<lambda>u. Inr (Some r))))"

definition refreshFromArchivesLocked :: "evidence_env \<Rightarrow> ledger \<Rightarrow> evidence_disk \<Rightarrow> ledger \<times> unit outcome" where
  "refreshFromArchivesLocked env l0 d =
     (let l = l0\<lparr>lg_sequence := 0, lg_lastMAC := [], lg_fileFirstSequence := 1\<rparr> in
      if lg_archives l = [] then (l\<lparr>lg_fileBytes := 0\<rparr>, Inr ())
      else let newest = last (lg_archives l) in
        case newestRecord env (lg_key l) (archiveFile d (la_name newest)) of
          Inl e \<Rightarrow> (l, Inl e)
        | Inr None \<Rightarrow> (l, Inl (Err ''evidence archive is empty''))
        | Inr (Some r) \<Rightarrow> (refreshRetainedFromLocked (l\<lparr>lg_sequence := ev_sequence r, lg_lastMAC := ev_MAC r, lg_fileBytes := 0,
             lg_fileFirstSequence := la_lastSequence newest + 1\<rparr>), Inr ()))"

definition refreshLocked :: "evidence_env \<Rightarrow> ledger \<Rightarrow> evidence_disk \<Rightarrow> ledger \<times> unit outcome" where
  "refreshLocked env l d =
     (case ed_live d of
        NoAccess \<Rightarrow> (l, Inl (Err ''access denied''))
      | NoFile \<Rightarrow>
          let l0 = l\<lparr>lg_sequence := 0, lg_lastMAC := [], lg_fileBytes := 0, lg_fileFirstSequence := 1\<rparr> in
          (case loadArchives d of
             Inl e \<Rightarrow> (l0, Inl e)
           | Inr as \<Rightarrow> refreshFromArchivesLocked env (l0\<lparr>lg_archives := as\<rparr>) d)
      | BytesFile regular content \<Rightarrow>
          (case loadArchives d of
             Inl e \<Rightarrow> (l, Inl e)
           | Inr as \<Rightarrow>
               let l1 = l\<lparr>lg_archives := as\<rparr> in
               if int (length content) = lg_fileBytes l \<and> length as = length (lg_archives l) then (l1, Inr ())
               else case newestRecord env (lg_key l) (ed_live d) of
                 Inl e \<Rightarrow> (l1, Inl e)
               | Inr None \<Rightarrow> refreshFromArchivesLocked env l1 d
               | Inr (Some r) \<Rightarrow> (refreshRetainedFromLocked (l1\<lparr>lg_sequence := ev_sequence r, lg_lastMAC := ev_MAC r,
                    lg_fileBytes := int (length content),
                    lg_fileFirstSequence := (if as = [] then 1 else la_lastSequence (last as) + 1)\<rparr>), Inr ())))"

section \<open>Appending\<close>

text \<open>The rotation before a line of \<open>n\<close> bytes is written, and what follows a written record.\<close>

definition makeRoom :: "evidence_env \<Rightarrow> evidence_input \<Rightarrow> nat \<Rightarrow> ledger \<Rightarrow> evidence_disk \<Rightarrow> ledger \<times> evidence_disk \<times> unit outcome" where
  "makeRoom env inp n l d = (if ledgerRotateBytes < lg_fileBytes l + int n + 1 then rotateLocked env inp l d else (l, d, Inr ()))"

definition recordWritten :: "evidence_env \<Rightarrow> evidence_input \<Rightarrow> evidence_record \<Rightarrow> nat \<Rightarrow> ledger \<Rightarrow> evidence_disk \<Rightarrow> ledger \<times> evidence_disk \<times> unit outcome" where
  "recordWritten env inp r n l d =
     (let l2 = l\<lparr>lg_fileBytes := lg_fileBytes l + int n + 1, lg_sequence := ev_sequence r, lg_lastMAC := ev_MAC r\<rparr> in
      if lg_sequence l2 mod appendCheckpointInterval = 0
      then (case appendCheckpointLocked env inp (emptyCheckpoint checkpointKindTip l2) l2 d of
              (l3, d3, Inl e) \<Rightarrow> (l3\<lparr>lg_lastError := Some (Err (''evidence checkpoint: '' @ err_text e))\<rparr>, d3, Inr ())
            | (l3, d3, Inr u) \<Rightarrow> (l3, d3, Inr ()))
      else (l2, d, Inr ()))"

definition newRecord :: "evidence_input \<Rightarrow> string \<Rightarrow> string \<Rightarrow> string \<Rightarrow> ledger \<Rightarrow> evidence_record" where
  "newRecord inp kind action result l = \<lparr>ev_sequence = lg_sequence l + 1, ev_timestamp = ei_now inp, ev_kind = kind, ev_action = action,
     ev_result = result, ev_previousMAC = lg_lastMAC l, ev_MAC = []\<rparr>"

definition appendLocked ::
    "evidence_env \<Rightarrow> evidence_input \<Rightarrow> string \<Rightarrow> string \<Rightarrow> string \<Rightarrow> ledger \<Rightarrow> evidence_disk \<Rightarrow> ledger \<times> evidence_disk \<times> unit outcome" where
  "appendLocked env inp kind action result l d =
     (let r0 = newRecord inp kind action result l in
      case calculate env (lg_key l) r0 of
        Inl e \<Rightarrow> (l, d, Inl e)
      | Inr mac \<Rightarrow>
          let r = r0\<lparr>ev_MAC := mac\<rparr> in
          (case ee_marshal env r of
             None \<Rightarrow> (l, d, Inl (Err ''marshal failed''))
           | Some raw \<Rightarrow>
               if maxRecordBytes < length raw + 1 then (l, d, Inl (Err ''evidence record exceeds the line boundary''))
               else case makeRoom env inp (length raw) l d of
                 (l1, d1, Inl e) \<Rightarrow> (l1, d1, Inl e)
               | (l1, d1, Inr u) \<Rightarrow>
                   (case appendTo (ei_appendWrite inp) (raw @ [newline]) (ed_live d1) of
                      (f, Inl e) \<Rightarrow> (l1, d1\<lparr>ed_live := f\<rparr>, Inl e)
                    | (f, Inr u) \<Rightarrow> recordWritten env inp r (length raw) l1 (d1\<lparr>ed_live := f\<rparr>))))"

definition Append ::
    "evidence_env \<Rightarrow> evidence_input \<Rightarrow> string \<Rightarrow> string \<Rightarrow> string \<Rightarrow> ledger \<Rightarrow> evidence_disk \<Rightarrow> ledger \<times> evidence_disk \<times> unit outcome" where
  "Append env inp kind action result l d =
     (let fails = (\<lambda>l d e. (l\<lparr>lg_appendFailures := lg_appendFailures l + 1, lg_lastError := Some e\<rparr>, d, Inl e)) in
      if \<not> ei_lockOK inp then fails l d (Err ''evidence writer lock unavailable'')
      else case refreshLocked env l d of
        (l1, Inl e) \<Rightarrow> fails l1 d e
      | (l1, Inr u) \<Rightarrow>
          (case appendLocked env inp kind action result l1 d of
             (l2, d2, Inl e) \<Rightarrow> fails l2 d2 e
           | (l2, d2, Inr u) \<Rightarrow> (l2, d2, Inr ())))"

section \<open>Verification\<close>

text \<open>What a scan of the chain keeps: the next sequence number, the last MAC and the MAC of each record.\<close>

type_synonym chain = "seq \<times> string \<times> (seq \<rightharpoonup> string)"

definition visitRecord :: "evidence_env \<Rightarrow> string \<Rightarrow> string \<Rightarrow> string \<Rightarrow> chain \<Rightarrow> chain outcome" where
  "visitRecord env key linkage raw s =
     (case s of (expected, previous, macs) \<Rightarrow>
        bind_outcome (decodeRecord env raw) (\<lambda>r.
          if ev_sequence r \<noteq> expected \<or> ev_previousMAC r \<noteq> previous then Inl (Err linkage)
          else bind_outcome (authenticate env key r) (\<lambda>u.
            Inr (expected + 1, ev_MAC r, macs(ev_sequence r \<mapsto> ev_MAC r)))))"

fun scanArchives :: "evidence_env \<Rightarrow> string \<Rightarrow> evidence_disk \<Rightarrow> ledgerArchive list \<Rightarrow> seq \<Rightarrow> chain \<Rightarrow> (seq \<times> chain) outcome" where
  "scanArchives env key d [] lastArchive s = Inr (lastArchive, s)"
| "scanArchives env key d (a # as) lastArchive s =
     (if la_firstSequence a \<noteq> fst s then Inl (Err ''evidence archive chain gap detected'')
      else case scanLedgerFile (archiveFile d (la_name a)) (visitRecord env key ''evidence archive chain linkage invalid'') s of
        Inl e \<Rightarrow> Inl e
      | Inr s' \<Rightarrow>
          if fst s' = 0 \<or> fst s' - 1 \<noteq> la_lastSequence a then Inl (Err ''evidence archive sequence boundary rejected'')
          else scanArchives env key d as (la_lastSequence a) s')"

definition retentionStart :: "evidence_env \<Rightarrow> ledger \<Rightarrow> evidence_disk \<Rightarrow> (seq \<times> string) outcome" where
  "retentionStart env l d =
     (case lg_archives l of
        [] \<Rightarrow> Inr (1, [])
      | oldest # rest \<Rightarrow>
          if la_firstSequence oldest = 1 then Inr (1, [])
          else bind_outcome (firstRecordPreviousMAC env (archiveFile d (la_name oldest))) (\<lambda>mac.
            case find (\<lambda>c. cp_kind c = checkpointKindRetention \<and> cp_retainedFromSequence c = la_firstSequence oldest) (rev (lg_checkpoints l)) of
              None \<Rightarrow> Inl (Err ''retained evidence archive has no authenticated retention anchor'')
            | Some c \<Rightarrow> if cp_retainedFromPreviousMAC c \<noteq> mac then Inl (Err ''evidence retention anchor does not match the retained archive'')
                else Inr (la_firstSequence oldest, mac)))"

definition checkpointMACs :: "checkpointRecord list \<Rightarrow> (seq \<rightharpoonup> string)" where
  "checkpointMACs cs = foldl (\<lambda>m c. m(cp_sequence c \<mapsto> cp_lastMAC c)) Map.empty cs"

fun checkCheckpoints :: "seq \<Rightarrow> (seq \<rightharpoonup> string) \<Rightarrow> checkpointRecord list \<Rightarrow> unit outcome" where
  "checkCheckpoints tip macs [] = Inr ()"
| "checkCheckpoints tip macs (c # cs) =
     (if tip < cp_sequence c
      then Inl (Err ''evidence ledger truncation detected: signed checkpoint is newer than the recorded chain'')
      else case macs (cp_sequence c) of
        Some mac \<Rightarrow> if mac \<noteq> [] \<and> \<not> EqualFold mac (cp_lastMAC c) then Inl (Err ''evidence ledger does not match the signed checkpoint'')
           else checkCheckpoints tip macs cs
      | None \<Rightarrow> checkCheckpoints tip macs cs)"

definition verifyLocked :: "evidence_env \<Rightarrow> ledger \<Rightarrow> evidence_disk \<Rightarrow> ledger \<times> unit outcome" where
  "verifyLocked env l d =
     (case retentionStart env l d of
        Inl e \<Rightarrow> (l, Inl e)
      | Inr (startSequence, startMAC) \<Rightarrow>
          (case scanArchives env (lg_key l) d (lg_archives l) 0 (startSequence, startMAC, checkpointMACs (lg_checkpoints l)) of
             Inl e \<Rightarrow> (l, Inl e)
           | Inr (lastArchive, s) \<Rightarrow>
               (case scanLedgerFile (ed_live d) (visitRecord env (lg_key l) ''evidence chain linkage invalid'') s of
                  Inl e \<Rightarrow> (l, Inl e)
                | Inr (expected, previous, macs) \<Rightarrow>
                    let tip = expected - 1;
                        l1 = l\<lparr>lg_sequence := tip, lg_lastMAC := previous, lg_fileFirstSequence := (if 0 < lastArchive then lastArchive + 1 else 1),
                               lg_fileBytes := (case ed_live d of BytesFile regular c \<Rightarrow> int (length c) | _ \<Rightarrow> 0),
                               lg_retainedFromSequence := startSequence\<rparr> in
                    (l1, checkCheckpoints tip macs (lg_checkpoints l)))))"

definition LedgerVerify :: "evidence_env \<Rightarrow> evidence_input \<Rightarrow> ledger \<Rightarrow> evidence_disk \<Rightarrow> ledger \<times> evidence_disk \<times> unit outcome" where
  "LedgerVerify env inp l d =
     (let fails = (\<lambda>l d e. (l\<lparr>lg_lastError := Some e\<rparr>, d, Inl e)) in
      if \<not> ei_lockOK inp then fails l d (Err ''evidence writer lock unavailable'')
      else case loadCheckpoints env inp l d of (l1, d1) \<Rightarrow>
        (case verifyLocked env l1 d1 of
           (l2, Inl e) \<Rightarrow> fails l2 d1 e
         | (l2, Inr u) \<Rightarrow>
             (case verifyWitnessLocked env l2 d1 of
                (l3, Inl e) \<Rightarrow> fails l3 d1 e
              | (l3, Inr u) \<Rightarrow> (l3, d1, Inr ()))))"

definition loadJournalState :: "evidence_disk \<Rightarrow> ledger \<Rightarrow> ledger" where
  "loadJournalState d l = refreshRetainedFromLocked (l\<lparr>lg_sequence := 0, lg_lastMAC := [], lg_fileFirstSequence := 1,
     lg_fileBytes := (case ed_live d of BytesFile regular c \<Rightarrow> int (length c) | _ \<Rightarrow> 0), lg_retainedFromSequence := 1\<rparr>)"

definition newLedger :: "string \<Rightarrow> string \<Rightarrow> bool \<Rightarrow> ledger" where
  "newLedger key fingerprint witnessed =
     \<lparr>lg_key = key, lg_sequence = 0, lg_lastMAC = [], lg_fileFirstSequence = 0, lg_fileBytes = 0, lg_retainedFromSequence = 0,
             lg_signingPublicSHA256 = fingerprint, lg_checkpointFileBytes = 0, lg_checkpoints = [], lg_archives = [], lg_appendFailures = 0,
             lg_lastError = None, lg_witnessConfigured = witnessed,
             lg_witnessStatus = \<lparr>ws_configured = False, ws_reachable = False, ws_degraded = False, ws_verified = False, ws_sequence = 0,
               ws_localSequence = 0, ws_writtenUTC = 0, ws_detail = []\<rparr>, lg_witnessLastFailure = 0\<rparr>"

text \<open>\<open>OpenWithOptions\<close> after the paths were checked, the lock was taken and the keys were loaded.\<close>

definition openLedger ::
    "evidence_env \<Rightarrow> evidence_input \<Rightarrow> string \<Rightarrow> string \<Rightarrow> bool \<Rightarrow> evidence_disk \<Rightarrow> evidence_disk \<times> ledger outcome" where
  "openLedger env inp key fingerprint witnessed d =
     (let l = newLedger key fingerprint witnessed;
          (l1, d1) = loadCheckpoints env inp l d in
      case loadArchives d1 of
        Inl e \<Rightarrow> (d1, Inl e)
      | Inr as \<Rightarrow>
          (case verifyLocked env (loadJournalState d1 (l1\<lparr>lg_archives := as\<rparr>)) d1 of
             (l2, Inl e) \<Rightarrow> (d1, Inl e)
           | (l2, Inr u) \<Rightarrow>
               (case verifyWitnessLocked env l2 d1 of
                  (l3, Inl e) \<Rightarrow> (d1, Inl e)
                | (l3, Inr u) \<Rightarrow>
                    (case ensureTipCheckpointLocked env inp l3 d1 of
                       (l4, d4, Inl e) \<Rightarrow> (d4, Inl e)
                     | (l4, d4, Inr u) \<Rightarrow> (case refreshWitnessLocked env inp l4 d4 of (l5, d5) \<Rightarrow> (d5, Inr l5))))))"

section \<open>Reading\<close>

definition availableRecords :: "ledger \<Rightarrow> seq" where
  "availableRecords l = (if lg_sequence l = 0 \<or> lg_sequence l < lg_retainedFromSequence l then 0 else lg_sequence l - lg_retainedFromSequence l + 1)"

text \<open>The loop over the lines of one file: lines to skip, records still needed, and the result so far.\<close>

fun takeRecords :: "evidence_env \<Rightarrow> string list \<Rightarrow> nat \<Rightarrow> nat \<Rightarrow> evidence_record list \<Rightarrow> (nat \<times> nat \<times> evidence_record list) outcome" where
  "takeRecords env [] skip need result = Inr (skip, need, result)"
| "takeRecords env (line # ls) skip need result =
     (if 0 < skip then takeRecords env ls (skip - 1) need result
      else case decodeRecord env line of
        Inl e \<Rightarrow> Inl e
      | Inr r \<Rightarrow> if need - 1 = 0 then Inr (0, 0, result @ [r]) else takeRecords env ls 0 (need - 1) (result @ [r]))"

fun newestFromFiles :: "evidence_env \<Rightarrow> efile list \<Rightarrow> nat \<Rightarrow> nat \<Rightarrow> evidence_record list \<Rightarrow> evidence_record list outcome" where
  "newestFromFiles env [] skip need result = Inr result"
| "newestFromFiles env (f # fs) skip need result =
     (if need = 0 then Inr result
      else bind_outcome (readNewestLines f (int (skip + need))) (\<lambda>ls.
        bind_outcome (takeRecords env ls skip need result) (\<lambda>(skip', need', result'). newestFromFiles env fs skip' need' result')))"

definition newestRecordsLocked :: "evidence_env \<Rightarrow> ledger \<Rightarrow> evidence_disk \<Rightarrow> int \<Rightarrow> int \<Rightarrow> evidence_record list outcome" where
  "newestRecordsLocked env l d limit offset =
     (if limit \<le> 0 \<or> availableRecords l \<le> of_int offset then Inr []
      else newestFromFiles env (ed_live d # map (\<lambda>a. archiveFile d (la_name a)) (rev (lg_archives l))) (nat offset) (nat limit) [])"

definition LedgerSnapshot :: "evidence_env \<Rightarrow> int \<Rightarrow> ledger \<Rightarrow> evidence_disk \<Rightarrow> ledger \<times> evidence_record list outcome" where
  "LedgerSnapshot env limit l d =
     (if limit < 1 \<or> maxLedgerSnapshotLimit < limit then (l, Inl (Err ''evidence limit outside boundary''))
      else case refreshLocked env l d of
        (l1, Inl e) \<Rightarrow> (l1, Inl e)
      | (l1, Inr u) \<Rightarrow> (l1, bind_outcome (newestRecordsLocked env l1 d limit 0) (\<lambda>rs. Inr (rev rs))))"

definition LedgerPage :: "evidence_env \<Rightarrow> int \<Rightarrow> int \<Rightarrow> ledger \<Rightarrow> evidence_disk \<Rightarrow> ledger \<times> (evidence_record list \<times> int) outcome" where
  "LedgerPage env limit offset l d =
     (if limit < 1 \<or> maxLedgerPageLimit < limit then (l, Inl (Err ''evidence page limit outside boundary''))
      else if offset < 0 then (l, Inl (Err ''evidence page offset outside boundary''))
      else case refreshLocked env l d of
        (l1, Inl e) \<Rightarrow> (l1, Inl e)
      | (l1, Inr u) \<Rightarrow>
          let total = sint (availableRecords l1) in
          if total \<le> offset then (l1, Inr ([], total))
          else if maxLedgerPageOffset < offset then (l1, Inl (Err ''evidence page offset exceeds the bounded reverse-scan window''))
          else if total = 0 then (l1, Inr ([], 0))
          else (l1, bind_outcome (newestRecordsLocked env l1 d limit offset) (\<lambda>rs. Inr (rs, total))))"

definition LedgerWitness :: "ledger \<Rightarrow> witnessStatus" where
  "LedgerWitness l = (lg_witnessStatus l)\<lparr>ws_localSequence := lg_sequence l\<rparr>"

definition LedgerClose :: "ledger \<Rightarrow> ledger" where
  "LedgerClose l = l\<lparr>lg_checkpoints := [], lg_archives := []\<rparr>"

section \<open>Signatures for other components\<close>

definition LedgerSign :: "evidence_env \<Rightarrow> ledger \<Rightarrow> string \<Rightarrow> string \<Rightarrow> string outcome" where
  "LedgerSign env l domain payload =
     (if length (lg_key l) \<noteq> 32 then Inl (Err ''evidence key unavailable'')
      else if domain = [] \<or> 64 < length domain then Inl (Err ''evidence signing domain rejected'')
      else Inr (ee_hmac env (lg_key l) (domain @ [CHR 0x00] @ payload)))"

definition VerifySignature :: "evidence_env \<Rightarrow> ledger \<Rightarrow> string \<Rightarrow> string \<Rightarrow> string \<Rightarrow> unit outcome" where
  "VerifySignature env l domain payload signature =
     bind_outcome (LedgerSign env l domain payload) (\<lambda>expected.
       if fixedHexEqual expected signature then Inr () else Inl (Err ''evidence signature authentication failed''))"

end
