(* ===== verification/EvidenceChain.thy ===== *)
theory EvidenceChain
  imports EvidenceLedger
begin

text \<open>
  What the verification of the evidence ledger (\<open>internal/evidence/ledger.go\<close>) means: the records on disk
  form one chain of authenticated records that agrees with every signed checkpoint, and two chains
  that verify with the same tip hold the same records unless the HMAC collides.
\<close>

section \<open>Chains of records\<close>

fun linked :: "evidence_env \<Rightarrow> string \<Rightarrow> seq \<Rightarrow> string \<Rightarrow> evidence_record list \<Rightarrow> bool" where
  "linked env key s prev [] \<longleftrightarrow> True"
| "linked env key s prev (r # rs) \<longleftrightarrow> ev_sequence r = s \<and> ev_previousMAC r = prev \<and> authenticate env key r = Inr () \<and>
     linked env key (s + 1) (ev_MAC r) rs"

definition tipMAC :: "string \<Rightarrow> evidence_record list \<Rightarrow> string" where
  "tipMAC prev rs = (if rs = [] then prev else ev_MAC (last rs))"

definition macsOf :: "(seq \<rightharpoonup> string) \<Rightarrow> evidence_record list \<Rightarrow> (seq \<rightharpoonup> string)" where
  "macsOf m rs = foldl (\<lambda>m r. m(ev_sequence r \<mapsto> ev_MAC r)) m rs"

lemma tipMAC_simps [simp]: "tipMAC p [] = p" "tipMAC p (r # rs) = tipMAC (ev_MAC r) rs" "tipMAC p (rs @ ks) = tipMAC (tipMAC p rs) ks"
  by (auto simp: tipMAC_def)

lemma macsOf_simps [simp]: "macsOf m [] = m" "macsOf m (r # rs) = macsOf (m(ev_sequence r \<mapsto> ev_MAC r)) rs" "macsOf m (rs @ ks) = macsOf (macsOf m rs) ks"
  by (simp_all add: macsOf_def)

lemma linked_append: "linked env key s p (rs @ ks) \<longleftrightarrow> linked env key s p rs \<and> linked env key (s + of_nat (length rs)) (tipMAC p rs) ks"
  by (induction rs arbitrary: s p) (auto simp: algebra_simps)

lemma linked_sequence: "linked env key s p rs \<Longrightarrow> i < length rs \<Longrightarrow> ev_sequence (rs ! i) = s + of_nat i"
  by (induction rs arbitrary: s p i) (auto simp: nth_Cons algebra_simps split: nat.splits)

text \<open>The records a file holds.\<close>

definition file_holds :: "evidence_env \<Rightarrow> efile \<Rightarrow> evidence_record list \<Rightarrow> bool" where
  "file_holds env f rs \<longleftrightarrow> (case f of
     NoFile \<Rightarrow> rs = []
   | NoAccess \<Rightarrow> False
   | BytesFile regular c \<Rightarrow> list_all fitsRecord (raw_lines [] c) \<and> map (decodeRecord env) (recordLines c) = map Inr rs)"

lemma visitRecord_Inr:
  "visitRecord env key msg raw (s, p, m) = Inr x \<longleftrightarrow>
     (\<exists>r. decodeRecord env raw = Inr r \<and> linked env key s p [r] \<and> x = (s + 1, ev_MAC r, m(s \<mapsto> ev_MAC r)))"
  by (auto simp: visitRecord_def bind_outcome_eq_Inr split: if_splits)

lemma visitLines_Inr:
  "visitLines (visitRecord env key msg) ls (s, p, m) = Inr x \<longleftrightarrow>
     (\<exists>rs. map (decodeRecord env) ls = map Inr rs \<and> linked env key s p rs \<and> x = (s + of_nat (length rs), tipMAC p rs, macsOf m rs))"
proof (induction ls arbitrary: s p m)
  case Nil
  then show ?case by auto
next
  case (Cons raw ls)
  show ?case
  proof (cases "visitRecord env key msg raw (s, p, m)")
    case (Inl e)
    then have "\<nexists>r. decodeRecord env raw = Inr r \<and> linked env key s p [r]" using visitRecord_Inr [of env key msg raw s p m] by auto
    then show ?thesis using Inl by (auto simp: Cons_eq_map_conv)
  next
    case (Inr y)
    then obtain r where r: "decodeRecord env raw = Inr r" "linked env key s p [r]" "y = (s + 1, ev_MAC r, m(s \<mapsto> ev_MAC r))"
      using visitRecord_Inr [of env key msg raw s p m] by auto
    have "(\<exists>rs. map (decodeRecord env) (raw # ls) = map Inr rs \<and> Q rs) \<longleftrightarrow> (\<exists>rs. map (decodeRecord env) ls = map Inr rs \<and> Q (r # rs))" for Q
      using r(1) by (auto simp: Cons_eq_map_conv)
    note split = this [of "\<lambda>rs. linked env key s p rs \<and> x = (s + of_nat (length rs), tipMAC p rs, macsOf m rs)"]
    have run: "visitLines (visitRecord env key msg) (raw # ls) (s, p, m) = visitLines (visitRecord env key msg) ls y" using Inr by simp
    show ?thesis unfolding split run r(3) Cons.IH using r(2) by (simp add: add.assoc)
  qed
qed

lemma scan_Inr:
  "scanLedgerFile f (visitRecord env key msg) (s, p, m) = Inr x \<longleftrightarrow>
     (\<exists>rs. file_holds env f rs \<and> linked env key s p rs \<and> x = (s + of_nat (length rs), tipMAC p rs, macsOf m rs))"
proof (cases f)
  case (BytesFile regular c)
  then show ?thesis using visitLines_Inr [of env key msg "recordLines c" s p m x]
    by (cases "visitLines (visitRecord env key msg) (recordLines c) (s, p, m)") (auto simp: scanLedgerFile_def file_holds_def)
qed (auto simp: scanLedgerFile_def file_holds_def)

text \<open>The records of all files, archives first.\<close>

definition disk_holds :: "evidence_env \<Rightarrow> ledgerArchive list \<Rightarrow> evidence_disk \<Rightarrow> evidence_record list list \<Rightarrow> evidence_record list \<Rightarrow> bool" where
  "disk_holds env as d rss live \<longleftrightarrow> list_all2 (\<lambda>a rs. file_holds env (archiveFile d (la_name a)) rs) as rss \<and> file_holds env (ed_live d) live"

lemma scanArchives_Inr:
  assumes "scanArchives env key d as a0 (s, p, m) = Inr (a1, x)"
  shows "\<exists>rss. list_all2 (\<lambda>a rs. file_holds env (archiveFile d (la_name a)) rs) as rss \<and> linked env key s p (concat rss) \<and>
    x = (s + of_nat (length (concat rss)), tipMAC p (concat rss), macsOf m (concat rss)) \<and>
    a1 = (if as = [] then a0 else la_lastSequence (last as))"
  using assms
proof (induction as arbitrary: a0 s p m)
  case Nil
  then show ?case by (auto intro: exI [of _ "[]"])
next
  case (Cons a as)
  obtain y where y: "scanLedgerFile (archiveFile d (la_name a)) (visitRecord env key ''evidence archive chain linkage invalid'') (s, p, m) = Inr y"
      "scanArchives env key d as (la_lastSequence a) y = Inr (a1, x)"
    using Cons.prems by (auto split: if_splits sum.splits)
  obtain rs where rs: "file_holds env (archiveFile d (la_name a)) rs" "linked env key s p rs" "y = (s + of_nat (length rs), tipMAC p rs, macsOf m rs)"
    using y(1) scan_Inr by blast
  from Cons.IH [OF y(2) [unfolded rs(3)]] obtain rss where
      "list_all2 (\<lambda>a rs. file_holds env (archiveFile d (la_name a)) rs) as rss" "linked env key (s + of_nat (length rs)) (tipMAC p rs) (concat rss)"
      "x = (s + of_nat (length rs) + of_nat (length (concat rss)), tipMAC (tipMAC p rs) (concat rss), macsOf (macsOf m rs) (concat rss))"
      "a1 = (if as = [] then la_lastSequence a else la_lastSequence (last as))" by blast
  then show ?case using rs by (intro exI [of _ "rs # rss"]) (auto simp: linked_append algebra_simps)
qed

lemma macsOf_lookup:
  assumes "linked env key s p rs" and "length rs \<le> 2 ^ 64" and "i < length rs"
  shows "macsOf m rs (ev_sequence (rs ! i)) = Some (ev_MAC (rs ! i))"
  using assms
proof (induction rs rule: rev_induct)
  case Nil
  then show ?case by simp
next
  case (snoc r rs)
  have chain: "linked env key s p (rs @ [r])" using snoc.prems(1) .
  show ?case
  proof (cases "i = length rs")
    case True
    then show ?thesis by simp
  next
    case False
    then have i: "i < length rs" using snoc.prems(3) by simp
    have "of_nat i \<noteq> (of_nat (length rs) :: seq)"
      using i snoc.prems(2) by (auto simp: word_of_nat_eq_iff take_bit_nat_eq_self)
    then have "ev_sequence ((rs @ [r]) ! i) \<noteq> ev_sequence r"
      using linked_sequence [OF chain, of i] linked_sequence [OF chain, of "length rs"] i by (simp add: nth_append)
    moreover have "macsOf m rs (ev_sequence (rs ! i)) = Some (ev_MAC (rs ! i))"
      using snoc.IH snoc.prems i by (simp add: linked_append)
    ultimately show ?thesis using i by (simp add: nth_append)
  qed
qed

lemma checkCheckpoints_Inr:
  "checkCheckpoints tip macs cs = Inr () \<longleftrightarrow>
     (\<forall>c\<in>set cs. cp_sequence c \<le> tip \<and> (\<forall>mac. macs (cp_sequence c) = Some mac \<longrightarrow> mac = [] \<or> EqualFold mac (cp_lastMAC c)))"
  by (induction cs) (auto simp: not_less split: option.splits)

lemma verifyLocked_Inr:
  assumes "verifyLocked env l d = (l', Inr ())"
  obtains start mac rss live where "retentionStart env l d = Inr (start, mac)" and "disk_holds env (lg_archives l) d rss live"
    and "linked env (lg_key l) start mac (concat rss @ live)"
    and "lg_sequence l' = start + of_nat (length (concat rss @ live)) - 1" and "lg_lastMAC l' = tipMAC mac (concat rss @ live)"
    and "lg_retainedFromSequence l' = start"
    and "checkCheckpoints (lg_sequence l') (macsOf (checkpointMACs (lg_checkpoints l)) (concat rss @ live)) (lg_checkpoints l) = Inr ()"
proof -
  obtain start mac where st: "retentionStart env l d = Inr (start, mac)" using assms by (auto simp: verifyLocked_def split: sum.splits)
  obtain a1 x where ar: "scanArchives env (lg_key l) d (lg_archives l) 0 (start, mac, checkpointMACs (lg_checkpoints l)) = Inr (a1, x)"
    using assms st by (auto simp: verifyLocked_def split: sum.splits)
  obtain rss where rss: "list_all2 (\<lambda>a rs. file_holds env (archiveFile d (la_name a)) rs) (lg_archives l) rss"
      "linked env (lg_key l) start mac (concat rss)"
      "x = (start + of_nat (length (concat rss)), tipMAC mac (concat rss), macsOf (checkpointMACs (lg_checkpoints l)) (concat rss))"
    using scanArchives_Inr [OF ar] by blast
  obtain y where y: "scanLedgerFile (ed_live d) (visitRecord env (lg_key l) ''evidence chain linkage invalid'') x = Inr y"
    using assms st ar by (auto simp: verifyLocked_def split: sum.splits)
  obtain live where live: "file_holds env (ed_live d) live"
      "linked env (lg_key l) (start + of_nat (length (concat rss))) (tipMAC mac (concat rss)) live"
      "y = (start + of_nat (length (concat rss)) + of_nat (length live), tipMAC (tipMAC mac (concat rss)) live,
        macsOf (macsOf (checkpointMACs (lg_checkpoints l)) (concat rss)) live)"
    using y unfolding rss(3) scan_Inr by blast
  show ?thesis
    by (rule that [OF st, of rss live])
      (use assms st ar rss live y in \<open>auto simp: verifyLocked_def disk_holds_def linked_append algebra_simps Let_def\<close>)
qed

lemma decodeRecord_MAC: "decodeRecord env raw = Inr r \<Longrightarrow> length (ev_MAC r) = 64 \<and> ev_sequence r \<noteq> 0"
  by (auto simp: decodeRecord_def split: option.splits if_splits)

lemma file_holds_MAC:
  assumes "file_holds env f rs" and "r \<in> set rs"
  shows "length (ev_MAC r) = 64"
proof -
  obtain reg c where "map (decodeRecord env) (recordLines c) = map Inr rs" using assms by (auto simp: file_holds_def split: efile.splits)
  then have "Inr r \<in> decodeRecord env ` set (recordLines c)" using assms(2) by (metis image_eqI list.set_map)
  then show ?thesis using decodeRecord_MAC by (metis imageE)
qed

lemma holds_MAC_length:
  assumes "disk_holds env as d rss live" and "r \<in> set (concat rss @ live)"
  shows "length (ev_MAC r) = 64"
proof (cases "r \<in> set live")
  case True
  then show ?thesis using assms(1) file_holds_MAC by (auto simp: disk_holds_def)
next
  case False
  then obtain rs where "rs \<in> set rss" "r \<in> set rs" using assms(2) by auto
  then obtain i where "i < length rss" "rs = rss ! i" by (auto simp: in_set_conv_nth)
  then have "file_holds env (archiveFile d (la_name (as ! i))) rs"
    using assms(1) by (simp add: disk_holds_def list_all2_conv_all_nth)
  then show ?thesis using file_holds_MAC \<open>r \<in> set rs\<close> by blast
qed

section \<open>A sample ledger\<close>

text \<open>One record under a codec that knows only this record, with and without its MAC.\<close>

definition sampleRecord :: evidence_record where
  "sampleRecord = \<lparr>ev_sequence = 1, ev_timestamp = 5, ev_kind = ''k'', ev_action = ''a'', ev_result = ''r'', ev_previousMAC = [], ev_MAC = sampleDigest\<rparr>"

definition sampleEvidence :: evidence_env where
  "sampleEvidence = \<lparr>ee_marshal = (\<lambda>r. if r = sampleRecord then Some ''{1}'' else if r = sampleRecord\<lparr>ev_MAC := []\<rparr> then Some ''{0}'' else None),
     ee_unmarshal = (\<lambda>s. if s = ''{1}'' then Some sampleRecord else if s = ''{0}'' then Some (sampleRecord\<lparr>ev_MAC := []\<rparr>) else None),
     ee_hmac = (\<lambda>k x. sampleDigest), ee_sha = (\<lambda>x. sampleDigest), ee_marshalCheckpoint = (\<lambda>c. None), ee_decodeCheckpoint = (\<lambda>x. Malformed),
     ee_messageJSON = (\<lambda>c. []), ee_sign = (\<lambda>x. []), ee_verify = (\<lambda>x s. True), ee_witnessSize = (\<lambda>t. Some 10), ee_witnessJSON = (\<lambda>t. [])\<rparr>"

definition sampleLedger :: ledger where
  "sampleLedger = \<lparr>lg_key = replicate 32 (CHR ''k''), lg_sequence = 0, lg_lastMAC = [], lg_fileFirstSequence = 1, lg_fileBytes = 0,
     lg_retainedFromSequence = 1, lg_signingPublicSHA256 = sampleDigest, lg_checkpointFileBytes = 0, lg_checkpoints = [], lg_archives = [],
     lg_appendFailures = 0, lg_lastError = None, lg_witnessConfigured = True,
     lg_witnessStatus = \<lparr>ws_configured = True, ws_reachable = False, ws_degraded = False, ws_verified = False, ws_sequence = 0,
       ws_localSequence = 0, ws_writtenUTC = 0, ws_detail = []\<rparr>, lg_witnessLastFailure = 0\<rparr>"

definition sampleEvidenceDisk :: "efile \<Rightarrow> evidence_disk" where
  "sampleEvidenceDisk f = \<lparr>ed_base = ''evidence.jsonl'', ed_live = f, ed_dirOK = True, ed_dir = [], ed_checkpoints = NoFile, ed_witness = Absent\<rparr>"

definition sampleFile :: efile where "sampleFile = BytesFile True (''{1}'' @ [newline])"

lemma sample_fields [simp]:
  "ev_sequence sampleRecord = 1" "ev_previousMAC sampleRecord = []" "ev_MAC sampleRecord = sampleDigest"
  "lg_archives sampleLedger = []" "lg_checkpoints sampleLedger = []" "lg_sequence sampleLedger = 0" "lg_lastMAC sampleLedger = []"
  "lg_fileBytes sampleLedger = 0" "lg_fileFirstSequence sampleLedger = 1" "lg_retainedFromSequence sampleLedger = 1" "lg_witnessConfigured sampleLedger"
  "lg_signingPublicSHA256 sampleLedger = sampleDigest"
  "ed_live (sampleEvidenceDisk f) = f" "ed_dirOK (sampleEvidenceDisk f)" "ed_dir (sampleEvidenceDisk f) = []" "ed_checkpoints (sampleEvidenceDisk f) = NoFile"
  by (simp_all add: sampleRecord_def sampleLedger_def sampleEvidenceDisk_def)

lemma sampleDigest_ok [simp]: "length sampleDigest = 64" "is_digest sampleDigest" "fixedHexEqual sampleDigest sampleDigest" "sampleDigest \<noteq> []"
proof -
  show d: "is_digest sampleDigest" by code_simp
  then show "fixedHexEqual sampleDigest sampleDigest" by (rule fixedHexEqual_refl)
  show "length sampleDigest = 64" using d by (simp add: is_digest_def)
  then show "sampleDigest \<noteq> []" by auto
qed

lemma sample_bare [simp]: "sampleRecord\<lparr>ev_MAC := []\<rparr> \<noteq> sampleRecord"
proof
  assume "sampleRecord\<lparr>ev_MAC := []\<rparr> = sampleRecord"
  then have "ev_MAC (sampleRecord\<lparr>ev_MAC := []\<rparr>) = ev_MAC sampleRecord" by simp
  then show False using sampleDigest_ok(4) by simp
qed

lemma sample_codec [simp]:
  "ee_marshal sampleEvidence sampleRecord = Some ''{1}''" "ee_marshal sampleEvidence (sampleRecord\<lparr>ev_MAC := []\<rparr>) = Some ''{0}''"
  "ee_hmac sampleEvidence k x = sampleDigest" "decodeRecord sampleEvidence ''{1}'' = Inr sampleRecord" "authenticate sampleEvidence k sampleRecord = Inr ()"
  by (simp_all add: sampleEvidence_def decodeRecord_def authenticate_def calculate_def)

lemma sample_lines [simp]: "raw_lines [] (''{1}'' @ [newline]) = [''{1}'']" "TrimSpace (dropCR ''{1}'') = ''{1}''"
  by code_simp+

lemma sample_holds: "file_holds sampleEvidence sampleFile [sampleRecord]"
  using sample_lines by (simp add: file_holds_def sampleFile_def recordLines_def fitsRecord_def maxRecordBytes_def del: append_Cons append_Nil)

lemma sample_scan:
  "scanLedgerFile sampleFile (visitRecord sampleEvidence k msg) (1, [], m) = Inr (2, sampleDigest, m(1 \<mapsto> sampleDigest))"
  unfolding scan_Inr by (intro exI [of _ "[sampleRecord]"]) (simp add: sample_holds)

text \<open>The ledger after the verification of the sample file.\<close>

definition sampleVerified :: ledger where
  "sampleVerified = sampleLedger\<lparr>lg_sequence := 1, lg_lastMAC := sampleDigest, lg_fileBytes := 4\<rparr>"

lemma sample_verify: "verifyLocked sampleEvidence sampleLedger (sampleEvidenceDisk sampleFile) = (sampleVerified, Inr ())"
  by (simp add: verifyLocked_def retentionStart_def sample_scan checkpointMACs_def sampleVerified_def) (simp add: sampleFile_def sampleLedger_def)

section \<open>What a successful verification means\<close>

text \<open>
  C13 [verify_sound]: when the verification succeeds, the records of the archives and of the live file form
  one chain: consecutive sequence numbers from the retained start, each naming the MAC of its
  predecessor and authenticated under the key; no signed checkpoint lies beyond the chain, so a
  truncated tail is rejected, and a record with the number of a checkpoint has its MAC.
\<close>

theorem verify_sound:
  assumes "verifyLocked env l d = (l', Inr ())"
  shows "\<exists>start mac rss live. disk_holds env (lg_archives l) d rss live \<and> linked env (lg_key l) start mac (concat rss @ live) \<and>
    lg_sequence l' = start + of_nat (length (concat rss @ live)) - 1 \<and> lg_lastMAC l' = tipMAC mac (concat rss @ live) \<and>
    (lg_archives l = [] \<longrightarrow> start = 1 \<and> mac = []) \<and>
    (\<forall>c\<in>set (lg_checkpoints l). cp_sequence c \<le> lg_sequence l' \<and>
      (\<forall>r\<in>set (concat rss @ live). length (concat rss @ live) \<le> 2 ^ 64 \<and> ev_sequence r = cp_sequence c \<longrightarrow>
        EqualFold (ev_MAC r) (cp_lastMAC c)))"
proof -
  obtain start mac rss live where v: "retentionStart env l d = Inr (start, mac)" "disk_holds env (lg_archives l) d rss live"
      "linked env (lg_key l) start mac (concat rss @ live)"
      "lg_sequence l' = start + of_nat (length (concat rss @ live)) - 1" "lg_lastMAC l' = tipMAC mac (concat rss @ live)"
      "checkCheckpoints (lg_sequence l') (macsOf (checkpointMACs (lg_checkpoints l)) (concat rss @ live)) (lg_checkpoints l) = Inr ()"
    using verifyLocked_Inr [OF assms] by metis
  have "EqualFold (ev_MAC r) (cp_lastMAC c)" if "c \<in> set (lg_checkpoints l)" "r \<in> set (concat rss @ live)"
      "length (concat rss @ live) \<le> 2 ^ 64" "ev_sequence r = cp_sequence c" for c r
  proof -
    note hyps = that
    obtain i where i: "i < length (concat rss @ live)" "(concat rss @ live) ! i = r" using hyps(2) unfolding in_set_conv_nth by blast
    have "length (ev_MAC r) = 64"
      using v(2) hyps(2) by (rule holds_MAC_length)
    moreover have "macsOf (checkpointMACs (lg_checkpoints l)) (concat rss @ live) (cp_sequence c) = Some (ev_MAC r)"
      using macsOf_lookup [OF v(3) hyps(3) i(1)] i(2) hyps(4) by simp
    ultimately show ?thesis using v(6) hyps(1) unfolding checkCheckpoints_Inr by fastforce
  qed
  moreover have "\<forall>c\<in>set (lg_checkpoints l). cp_sequence c \<le> lg_sequence l'" using v(6) unfolding checkCheckpoints_Inr by blast
  moreover have "lg_archives l = [] \<longrightarrow> start = 1 \<and> mac = []" using v(1) by (auto simp: retentionStart_def)
  ultimately show ?thesis using v(2-5) by blast
qed

theorem verify_sound_witness:
  "\<exists>start mac rss live. disk_holds sampleEvidence [] (sampleEvidenceDisk sampleFile) rss live \<and>
    linked sampleEvidence (lg_key sampleLedger) start mac (concat rss @ live) \<and> start = 1 \<and> mac = []"
  using verify_sound [OF sample_verify] by auto

lemma authenticated_MAC:
  assumes "authenticate env key r = Inr ()"
  obtains raw where "ee_marshal env (r\<lparr>ev_MAC := []\<rparr>) = Some raw" and "hexDecode (ee_hmac env key raw) = hexDecode (ev_MAC r)"
  using assms by (auto simp: authenticate_def calculate_def bind_outcome_eq_Inr fixedHexEqual_def split: option.splits if_splits)

text \<open>Two different messages with the same HMAC, among the records of two chains.\<close>

definition hmac_collision :: "evidence_env \<Rightarrow> string \<Rightarrow> evidence_record list \<Rightarrow> evidence_record list \<Rightarrow> bool" where
  "hmac_collision env key rs ks \<longleftrightarrow> (\<exists>r\<in>set rs. \<exists>k\<in>set ks. \<exists>x y. ee_marshal env (r\<lparr>ev_MAC := []\<rparr>) = Some x \<and> ee_marshal env (k\<lparr>ev_MAC := []\<rparr>) = Some y \<and>
     x \<noteq> y \<and> hexDecode (ee_hmac env key x) = hexDecode (ee_hmac env key y))"

definition marshal_injective :: "evidence_env \<Rightarrow> evidence_record list \<Rightarrow> bool" where
  "marshal_injective env rs \<longleftrightarrow> (\<forall>r\<in>set rs. \<forall>k\<in>set rs. \<forall>x. ee_marshal env (r\<lparr>ev_MAC := []\<rparr>) = Some x \<and> ee_marshal env (k\<lparr>ev_MAC := []\<rparr>) = Some x \<longrightarrow>
     r\<lparr>ev_MAC := []\<rparr> = k\<lparr>ev_MAC := []\<rparr>)"

lemma marshal_injectiveD:
  assumes "marshal_injective env rs" and "r \<in> set rs" and "k \<in> set rs"
    and "ee_marshal env (r\<lparr>ev_MAC := []\<rparr>) = Some x" and "ee_marshal env (k\<lparr>ev_MAC := []\<rparr>) = Some x"
  shows "r\<lparr>ev_MAC := []\<rparr> = k\<lparr>ev_MAC := []\<rparr>"
  using assms unfolding marshal_injective_def by blast

lemma marshal_injective_mono: "marshal_injective env rs \<Longrightarrow> set ks \<subseteq> set rs \<Longrightarrow> marshal_injective env ks"
  unfolding marshal_injective_def by blast

lemma hmac_collision_mono: "hmac_collision env key rs ks \<Longrightarrow> set rs \<subseteq> set rs' \<Longrightarrow> set ks \<subseteq> set ks' \<Longrightarrow> hmac_collision env key rs' ks'"
  unfolding hmac_collision_def by blast

lemma linked_agree:
  assumes "linked env key s p rs" and "linked env key s p ks" and "length rs = length ks" and "tipMAC p rs = tipMAC p ks"
    and "marshal_injective env (rs @ ks)"
  shows "rs = ks \<or> hmac_collision env key rs ks"
  using assms
proof (induction rs arbitrary: ks rule: rev_induct)
  case Nil
  then show ?case by simp
next
  case (snoc r rs)
  then obtain k ks' where ks: "ks = ks' @ [k]" by (cases ks rule: rev_cases) auto
  have auth: "authenticate env key r = Inr ()" "authenticate env key k = Inr ()" "ev_previousMAC r = tipMAC p rs" "ev_previousMAC k = tipMAC p ks'"
    using snoc.prems(1,2) by (simp_all add: ks linked_append)
  obtain x where x: "ee_marshal env (r\<lparr>ev_MAC := []\<rparr>) = Some x" "hexDecode (ee_hmac env key x) = hexDecode (ev_MAC r)" using authenticated_MAC [OF auth(1)] .
  obtain y where y: "ee_marshal env (k\<lparr>ev_MAC := []\<rparr>) = Some y" "hexDecode (ee_hmac env key y) = hexDecode (ev_MAC k)" using authenticated_MAC [OF auth(2)] .
  have mac: "ev_MAC r = ev_MAC k" using snoc.prems(4) by (simp add: ks)
  show ?case
  proof (cases "x = y")
    case False
    then show ?thesis using x y mac by (auto simp: hmac_collision_def ks)
  next
    case True
    have "r\<lparr>ev_MAC := []\<rparr> = k\<lparr>ev_MAC := []\<rparr>"
      by (rule marshal_injectiveD [OF snoc.prems(5) _ _ x(1)]) (use y(1) True in \<open>simp_all add: ks\<close>)
    then have "(r\<lparr>ev_MAC := []\<rparr>)\<lparr>ev_MAC := ev_MAC r\<rparr> = (k\<lparr>ev_MAC := []\<rparr>)\<lparr>ev_MAC := ev_MAC k\<rparr>" using mac by simp
    then have "r = k" by simp
    then have "tipMAC p rs = tipMAC p ks'" using auth(3,4) by simp
    moreover have "marshal_injective env (rs @ ks')" by (rule marshal_injective_mono [OF snoc.prems(5)]) (auto simp: ks)
    ultimately have "rs = ks' \<or> hmac_collision env key rs ks'" using snoc.IH [of ks'] snoc.prems(1-3) by (simp add: ks linked_append)
    then show ?thesis using \<open>r = k\<close> hmac_collision_mono [of env key rs ks' "rs @ [r]" ks] by (auto simp: ks)
  qed
qed

lemma file_holds_unique: "file_holds env f rs \<Longrightarrow> file_holds env f ks \<Longrightarrow> rs = ks"
  by (auto simp: file_holds_def split: efile.splits dest: map_injective [where f = Inr, simplified])

lemma disk_holds_unique:
  assumes "disk_holds env as d rss live" and "disk_holds env as d kss live'"
  shows "rss = kss \<and> live = live'"
proof -
  have "rss = kss" if "list_all2 (\<lambda>a rs. file_holds env (archiveFile d (la_name a)) rs) as rss"
      "list_all2 (\<lambda>a rs. file_holds env (archiveFile d (la_name a)) rs) as kss" for rss kss
    using that by (induction as arbitrary: rss kss) (auto simp: list_all2_Cons1 dest: file_holds_unique)
  then show ?thesis using assms file_holds_unique by (auto simp: disk_holds_def)
qed

lemma verify_live:
  assumes "verifyLocked env l d = (l', Inr ())" and "lg_archives l = []" and "file_holds env (ed_live d) rs"
  shows "linked env (lg_key l) 1 [] rs \<and> lg_sequence l' = of_nat (length rs) \<and> lg_lastMAC l' = tipMAC [] rs"
proof -
  obtain start mac rss live where v: "retentionStart env l d = Inr (start, mac)" "disk_holds env (lg_archives l) d rss live"
      "linked env (lg_key l) start mac (concat rss @ live)"
      "lg_sequence l' = start + of_nat (length (concat rss @ live)) - 1" "lg_lastMAC l' = tipMAC mac (concat rss @ live)"
    using verifyLocked_Inr [OF assms(1)] by metis
  have "start = 1" "mac = []" "rss = []" using v(1,2) assms(2) by (auto simp: retentionStart_def disk_holds_def)
  moreover have "live = rs" using v(2) assms(3) file_holds_unique by (auto simp: disk_holds_def)
  ultimately show ?thesis using v(3-5) by simp
qed

text \<open>
  C14 [verified_chains_agree]: two evidence directories without archives that verify under one key with the
  same sequence number and the same tip, on whose records the encoding is injective and whose
  records are fewer than 2^64, hold exactly the same records, unless two different records have the
  same HMAC: there no record can be changed, removed, inserted or reordered unnoticed. With archives
  the tip alone does not fix the records: a pruned ledger has the tip of the unpruned one.
\<close>

theorem verified_chains_agree:
  assumes "verifyLocked env l d = (l1, Inr ())" and "verifyLocked env k e = (k1, Inr ())" and "lg_key l = lg_key k"
    and "lg_archives l = []" and "lg_archives k = []" and "file_holds env (ed_live d) rs" and "file_holds env (ed_live e) ks"
    and "length rs < 2 ^ 64" and "length ks < 2 ^ 64"
    and "lg_sequence l1 = lg_sequence k1" and "lg_lastMAC l1 = lg_lastMAC k1" and "marshal_injective env (rs @ ks)"
  shows "rs = ks \<or> hmac_collision env (lg_key l) rs ks"
proof -
  have rs: "linked env (lg_key l) 1 [] rs" "lg_sequence l1 = of_nat (length rs)" "lg_lastMAC l1 = tipMAC [] rs"
    using verify_live [OF assms(1,4,6)] by blast+
  have ks: "linked env (lg_key l) 1 [] ks" "lg_sequence k1 = of_nat (length ks)" "lg_lastMAC k1 = tipMAC [] ks"
    using verify_live [OF assms(2,5,7)] assms(3) by simp_all
  have "length rs = length ks"
    using rs(2) ks(2) assms(8-10) by (simp add: word_of_nat_eq_iff take_bit_nat_eq_self)
  then show ?thesis using linked_agree [OF rs(1) ks(1)] rs(3) ks(3) assms(11,12) by simp
qed

theorem verified_chains_agree_witness:
  "verifyLocked sampleEvidence sampleLedger (sampleEvidenceDisk sampleFile) = (sampleVerified, Inr ()) \<and>
   ([sampleRecord] = [sampleRecord] \<or> hmac_collision sampleEvidence (lg_key sampleLedger) [sampleRecord] [sampleRecord])"
  using verified_chains_agree [OF sample_verify sample_verify, of "[sampleRecord]" "[sampleRecord]"] sample_verify sample_holds
  by (simp add: marshal_injective_def)

end
