(* ===== verification/EvidenceAppend.thy ===== *)
theory EvidenceAppend
  imports EvidenceChain
begin

text \<open>
  Appending to the evidence ledger (\<open>internal/evidence/ledger.go\<close>): every successful append extends the
  chain on disk by exactly its record, also when the live file is rotated into an archive and old
  archives are pruned.
\<close>

section \<open>Files the ledger wrote\<close>

definition line_ok :: "string \<Rightarrow> bool" where
  "line_ok raw \<longleftrightarrow> raw \<noteq> [] \<and> TrimSpace raw = raw \<and> (\<forall>c\<in>set raw. 32 \<le> byte c) \<and> fitsRecord raw"

definition file_lines :: "evidence_env \<Rightarrow> efile \<Rightarrow> evidence_record list \<Rightarrow> bool" where
  "file_lines env f rs \<longleftrightarrow> (\<exists>raws. f = BytesFile True (unlines raws) \<and> (\<forall>raw\<in>set raws. line_ok raw) \<and> map (decodeRecord env) raws = map Inr rs)"

lemma line_ok_chars: "line_ok raw \<Longrightarrow> newline \<notin> set raw \<and> CHR 0x0D \<notin> set raw"
  by (auto simp: line_ok_def byte_def)

lemma recordLines_unlines:
  assumes "\<forall>raw\<in>set raws. line_ok raw"
  shows "recordLines (unlines raws) = raws" and "raw_lines [] (unlines raws) = raws" and "list_all fitsRecord raws"
proof -
  show raw: "raw_lines [] (unlines raws) = raws" using raw_lines_unlines [of raws] line_ok_chars assms by blast
  show fit: "list_all fitsRecord raws" using assms by (auto simp: list_all_iff line_ok_def)
  have "TrimSpace (dropCR r) = r" if "r \<in> set raws" for r
  proof -
    have "line_ok r" using assms that by blast
    then have "dropCR r = r" using line_ok_chars [of r] by (metis dropCR_def last_in_set)
    then show ?thesis using \<open>line_ok r\<close> by (simp add: line_ok_def)
  qed
  then have "map (TrimSpace \<circ> dropCR) raws = raws" by (simp add: map_idI)
  moreover have "takeWhile fitsRecord raws = raws" using fit by (simp add: list_all_iff takeWhile_eq_all_conv)
  moreover have "filter (\<lambda>l. l \<noteq> []) raws = raws" using assms by (auto simp: filter_id_conv line_ok_def)
  ultimately show "recordLines (unlines raws) = raws" by (simp only: recordLines_def raw)
qed

lemma file_lines_holds: "file_lines env f rs \<Longrightarrow> file_holds env f rs"
  using recordLines_unlines by (fastforce simp: file_lines_def file_holds_def)

lemma file_lines_empty: "file_lines env f [] \<Longrightarrow> f = BytesFile True []"
  by (auto simp: file_lines_def)

lemma file_lines_snoc:
  assumes "file_lines env f rs" and "line_ok raw" and "decodeRecord env raw = Inr r"
  shows "file_lines env (fst (appendTo Written (raw @ [newline]) f)) (rs @ [r])"
proof -
  obtain raws where "f = BytesFile True (unlines raws)" "\<forall>raw\<in>set raws. line_ok raw" "map (decodeRecord env) raws = map Inr rs"
    using assms(1) by (auto simp: file_lines_def)
  then show ?thesis using assms(2,3) by (auto simp: file_lines_def appendTo_def intro!: exI [of _ "raws @ [raw]"])
qed

lemma newest_of_lines:
  assumes "file_lines env f rs"
  shows "newestRecord env key f = (if rs = [] then Inr None else bind_outcome (authenticate env key (last rs)) (\<lambda>u. Inr (Some (last rs))))"
proof -
  obtain raws where f: "f = BytesFile True (unlines raws)" "\<forall>raw\<in>set raws. line_ok raw" "map (decodeRecord env) raws = map Inr rs"
    using assms by (auto simp: file_lines_def)
  have len: "length raws = length rs" using f(3) by (metis length_map)
  have "pieces (unlines raws) = raws @ [[]]" using pieces_unlines [of raws] f(2) line_ok_chars by blast
  moreover have "filter (\<lambda>l. l \<noteq> []) raws = raws" using f(2) by (auto simp: filter_id_conv line_ok_def)
  ultimately have read: "readNewestLines f 1 = (let ls = take 1 (rev raws) in if list_all (\<lambda>l. length l \<le> maxRecordBytes) ls then Inr ls else Inl tooLong)"
    unfolding f(1) using newest_lines [of 1 "unlines raws"] by simp
  show ?thesis
  proof (cases raws rule: rev_cases)
    case Nil
    then show ?thesis using len read by (simp add: newestRecord_def)
  next
    case (snoc ys raw)
    then obtain ks k where rs: "rs = ks @ [k]" using len by (cases rs rule: rev_cases) auto
    have "decodeRecord env raw = Inr k" using f(3) by (simp add: snoc rs)
    moreover have "length raw \<le> maxRecordBytes" using f(2) by (simp add: snoc line_ok_def fitsRecord_def)
    ultimately show ?thesis using read by (simp add: newestRecord_def snoc rs)
  qed
qed

section \<open>What checkpoints and the witness leave alone\<close>

definition same_chain :: "ledger \<Rightarrow> ledger \<Rightarrow> evidence_disk \<Rightarrow> evidence_disk \<Rightarrow> bool" where
  "same_chain l l' d d' \<longleftrightarrow> lg_key l' = lg_key l \<and> lg_sequence l' = lg_sequence l \<and> lg_lastMAC l' = lg_lastMAC l \<and>
     lg_fileFirstSequence l' = lg_fileFirstSequence l \<and> lg_fileBytes l' = lg_fileBytes l \<and> lg_archives l' = lg_archives l \<and>
     ed_base d' = ed_base d \<and> ed_live d' = ed_live d \<and> ed_dirOK d' = ed_dirOK d \<and> ed_dir d' = ed_dir d"

lemma updateWitness_same: "updateWitnessLocked env inp l d = (l', d') \<Longrightarrow> same_chain l l' d d'"
  by (auto simp: updateWitnessLocked_def failWitnessWrite_def degradeWitness_def same_chain_def Let_def split: if_splits option.splits sum.splits)

lemma appendCheckpoint_same:
  assumes "appendCheckpointLocked env inp c l d = (l', d', r)"
  shows "same_chain l l' d d'"
proof -
  have frame: "same_chain l l' d d'" if "updateWitnessLocked env inp (l\<lparr>lg_checkpointFileBytes := a, lg_checkpoints := b\<rparr>) (d\<lparr>ed_checkpoints := f\<rparr>) = (l', d')" for a b f
    using updateWitness_same [OF that] by (simp add: same_chain_def)
  from assms show ?thesis
    by (auto simp: appendCheckpointLocked_def rotateCheckpointStoreLocked_def Let_def split: if_splits option.splits sum.splits prod.splits
        dest!: frame) (simp_all add: same_chain_def)
qed

section \<open>Archive names\<close>

lemma foldl_decimal: "foldl (\<lambda>n c. n * 10 + of_nat (digit_value c)) (of_nat k) s = (of_nat (foldl (\<lambda>n c. n * 10 + digit_value c) k s) :: seq)"
proof (induction s arbitrary: k)
  case (Cons c s)
  have "of_nat k * 10 + of_nat (digit_value c) = (of_nat (k * 10 + digit_value c) :: seq)" by simp
  then show ?case using Cons.IH [of "k * 10 + digit_value c"] by (simp only: foldl.simps)
qed simp

lemma itoa_length: "n < 10 ^ k \<Longrightarrow> 0 < k \<Longrightarrow> length (itoa n) \<le> k"
proof (induction k arbitrary: n)
  case (Suc k)
  show ?case
  proof (cases "n < 10")
    case False
    then have "0 < k" "n div 10 < 10 ^ k" using Suc.prems(1) by (cases k, auto)
    then show ?thesis using Suc.IH [of "n div 10"] False by (simp add: itoa.simps [of n])
  qed (simp add: itoa.simps [of n])
qed simp

lemma padded_digits: "list_all is_digit (padded s)" "padded s \<noteq> []" "length (padded s) \<le> 20"
proof -
  have "unat s < 2 ^ 64" by (rule order_less_le_trans [OF unsigned_less]) simp
  then have "unat s < 10 ^ 20" by simp
  then have len: "length (itoa (unat s)) \<le> 20" using itoa_length [of "unat s" 20] by simp
  have "is_digit (CHR ''0'')" by code_simp
  then show "list_all is_digit (padded s)" using itoa_digits by (auto simp: padded_def Let_def list_all_iff)
  show "padded s \<noteq> []" by (simp add: padded_def Let_def itoa.simps [of "unat s"])
  show "length (padded s) \<le> 20" using len by (simp add: padded_def Let_def)
qed

lemma zeros_value: "foldl (\<lambda>n c. n * 10 + digit_value c) 0 (replicate k (CHR ''0'')) = 0"
proof -
  have "digit_value (CHR ''0'') = 0" by code_simp
  then show ?thesis by (induction k) simp_all
qed

lemma parseSequence_padded: "parseSequence (padded s) = Inr s"
proof -
  have "foldl (\<lambda>n c. n * 10 + digit_value c) 0 (padded s) = unat s"
    using decimal_itoa [of "unat s"] by (simp add: padded_def Let_def zeros_value decimal_def)
  then have "foldl (\<lambda>result c. result * 10 + of_nat (digit_value c)) 0 (padded s) = s"
    using foldl_decimal [of 0 "padded s"] by simp
  then show ?thesis using padded_digits [of s] by (simp add: parseSequence_def)
qed

lemma splitDash_plain: "CHR ''-'' \<notin> set s \<Longrightarrow> splitDash s = [s]"
  by (induction s) auto

lemma splitDash_two: "CHR ''-'' \<notin> set a \<Longrightarrow> splitDash (a @ CHR ''-'' # b) = a # splitDash b"
  by (induction a) auto

lemma padded_no_dash: "CHR ''-'' \<notin> set (padded s)"
proof -
  have "\<not> is_digit (CHR ''-'')" by code_simp
  then show ?thesis using padded_digits(1) [of s] by (auto simp: list_all_iff)
qed

lemma HasPrefix_append: "HasPrefix (p @ s) p"
  by (induction p) (auto simp: HasPrefix_def)

lemma archiveEntry_name:
  assumes "lo \<noteq> 0" and "lo \<le> hi"
  shows "archiveEntry base (archiveName base lo hi) = Some (Inr \<lparr>la_name = archiveName base lo hi, la_firstSequence = lo, la_lastSequence = hi\<rparr>)"
proof -
  let ?middle = "padded lo @ CHR ''-'' # padded hi"
  have name: "archiveName base lo hi = (base @ ''.'') @ ?middle @ ''.jsonl''" by (simp add: archiveName_def)
  have suf: "HasSuffix (xs @ ''.jsonl'') ''.jsonl''" for xs by (simp add: HasSuffix_def)
  have suffix: "HasSuffix (archiveName base lo hi) ''.jsonl''" "TrimSuffix (?middle @ ''.jsonl'') ''.jsonl'' = ?middle"
    using suf [of "(base @ ''.'') @ ?middle"] suf [of ?middle] by (simp_all add: name TrimSuffix_def)
  have "splitDash ?middle = [padded lo, padded hi]" using padded_no_dash by (simp add: splitDash_two splitDash_plain)
  moreover have "HasPrefix (archiveName base lo hi) (base @ ''.'')" unfolding name by (rule HasPrefix_append)
  moreover have "drop (length (base @ ''.'')) (archiveName base lo hi) = ?middle @ ''.jsonl''" unfolding name by simp
  ultimately show ?thesis unfolding archiveEntry_def Let_def using assms suffix by (simp add: parseSequence_padded not_less)
qed

lemma archiveEntry_Some: "archiveEntry base name = Some (Inr a) \<Longrightarrow> la_name a = name"
  by (auto simp: archiveEntry_def Let_def split: if_splits list.splits sum.splits)

lemma archiveEntries_snoc:
  assumes "archiveEntries base names = Inr as" and "archiveEntry base name = Some (Inr a)"
  shows "archiveEntries base (names @ [name]) = Inr (as @ [a])"
  using assms by (induction base names arbitrary: as rule: archiveEntries.induct) (auto simp: bind_outcome_eq_Inr split: option.splits sum.splits)

lemma archiveEntries_filter:
  "archiveEntries base names = Inr as \<Longrightarrow> archiveEntries base (filter P names) = Inr (filter (\<lambda>a. P (la_name a)) as)"
  by (induction base names arbitrary: as rule: archiveEntries.induct)
    (auto simp: bind_outcome_eq_Inr split: option.splits sum.splits dest: archiveEntry_Some)

lemma archiveEntries_names: "archiveEntries base names = Inr as \<Longrightarrow> distinct names \<Longrightarrow> distinct (map la_name as) \<and> la_name ` set as \<subseteq> set names"
  by (induction base names arbitrary: as rule: archiveEntries.induct)
    (fastforce simp: bind_outcome_eq_Inr split: option.splits sum.splits dest: archiveEntry_Some)+

lemma sort_key_snoc:
  assumes "\<forall>x\<in>set xs. f x \<le> f a"
  shows "sort_key f (xs @ [a]) = sort_key f xs @ [a]"
proof (rule properties_for_sort_key)
  show "mset (sort_key f xs @ [a]) = mset (xs @ [a])" by simp
  show "filter (\<lambda>x. f k = f x) (sort_key f xs @ [a]) = filter (\<lambda>x. f k = f x) (xs @ [a])" for k
    using sort_key_stable [of f "f k" xs] by (simp add: eq_commute [of "f k"])
  show "sorted (map f (sort_key f xs @ [a]))" using assms by (auto simp: sorted_append)
qed

section \<open>A ledger in step with its directory\<close>

fun archives_at :: "evidence_env \<Rightarrow> evidence_disk \<Rightarrow> seq \<Rightarrow> ledgerArchive list \<Rightarrow> evidence_record list list \<Rightarrow> bool" where
  "archives_at env d s [] [] \<longleftrightarrow> True"
| "archives_at env d s (a # as) (rs # rss) \<longleftrightarrow> la_firstSequence a = s \<and> la_lastSequence a = s + of_nat (length rs) - 1 \<and> rs \<noteq> [] \<and>
     file_lines env (archiveFile d (la_name a)) rs \<and> archives_at env d (s + of_nat (length rs)) as rss"
| "archives_at env d s _ _ \<longleftrightarrow> False"

definition live_at :: "evidence_env \<Rightarrow> efile \<Rightarrow> int \<Rightarrow> evidence_record list \<Rightarrow> bool" where
  "live_at env f n live \<longleftrightarrow> f = NoFile \<and> live = [] \<and> n = 0 \<or> file_lines env f live \<and> (\<exists>c. f = BytesFile True c \<and> n = int (length c))"

definition chain_core :: "evidence_env \<Rightarrow> ledger \<Rightarrow> evidence_disk \<Rightarrow> seq \<Rightarrow> string \<Rightarrow> evidence_record list list \<Rightarrow> evidence_record list \<Rightarrow> bool" where
  "chain_core env l d s p rss live \<longleftrightarrow> archives_at env d s (lg_archives l) rss \<and> linked env (lg_key l) s p (concat rss @ live) \<and>
     lg_sequence l = s + of_nat (length (concat rss @ live)) - 1 \<and> lg_lastMAC l = tipMAC p (concat rss @ live) \<and>
     0 < unat s \<and> unat s + length (concat rss @ live) < 2 ^ 64 \<and> loadArchives d = Inr (lg_archives l) \<and> distinct (map fst (ed_dir d))"

definition chain_state :: "evidence_env \<Rightarrow> ledger \<Rightarrow> evidence_disk \<Rightarrow> seq \<Rightarrow> string \<Rightarrow> evidence_record list list \<Rightarrow> evidence_record list \<Rightarrow> bool" where
  "chain_state env l d s p rss live \<longleftrightarrow> chain_core env l d s p rss live \<and> live_at env (ed_live d) (lg_fileBytes l) live \<and>
     lg_fileFirstSequence l = s + of_nat (length (concat rss))"

lemma archives_at_cong:
  "(\<And>a. a \<in> set as \<Longrightarrow> archiveFile d' (la_name a) = archiveFile d (la_name a)) \<Longrightarrow> archives_at env d' s as rss = archives_at env d s as rss"
  by (induction env d s as rss rule: archives_at.induct) auto

lemma archives_at_snoc:
  "archives_at env d s (as @ [a]) (rss @ [rs]) \<longleftrightarrow> archives_at env d s as rss \<and> archives_at env d (s + of_nat (length (concat rss))) [a] [rs]"
  if "length as = length rss"
  using that by (induction as rss arbitrary: s rule: list_induct2) (auto simp: add.assoc)

lemma archives_at_length: "archives_at env d s as rss \<Longrightarrow> length as = length rss"
  by (induction env d s as rss rule: archives_at.induct) auto

lemma archives_at_holds: "archives_at env d s as rss \<Longrightarrow> list_all2 (\<lambda>a rs. file_holds env (archiveFile d (la_name a)) rs) as rss"
  by (induction env d s as rss rule: archives_at.induct) (auto dest: file_lines_holds)

lemma archives_at_first:
  assumes "archives_at env d s as rss" and "a \<in> set as"
  shows "\<exists>k<length (concat rss). la_firstSequence a = s + of_nat k"
  using assms
proof (induction env d s as rss rule: archives_at.induct)
  case (2 env d s b as rs rss)
  show ?case
  proof (cases "a = b")
    case True
    then show ?thesis using 2(2) by (auto intro!: exI [of _ 0])
  next
    case False
    then obtain k where "k < length (concat rss)" "la_firstSequence a = s + of_nat (length rs) + of_nat k" using 2 by auto
    then show ?thesis by (auto intro!: exI [of _ "length rs + k"] simp: add.assoc)
  qed
qed auto

lemma archiveFile_present: "archives_at env d s as rss \<Longrightarrow> a \<in> set as \<Longrightarrow> map_of (ed_dir d) (la_name a) \<noteq> None"
  by (induction env d s as rss rule: archives_at.induct) (auto simp: archiveFile_def file_lines_def split: option.splits)

lemma chain_core_same: "same_chain l l' d d' \<Longrightarrow> chain_core env l' d' s p rss live = chain_core env l d s p rss live"
proof -
  assume same: "same_chain l l' d d'"
  have "archives_at env d' s as rss = archives_at env d s as rss" for as using same by (intro archives_at_cong) (simp add: archiveFile_def same_chain_def)
  moreover have "loadArchives d' = loadArchives d" using same by (simp add: loadArchives_def same_chain_def)
  ultimately show ?thesis using same by (simp add: chain_core_def same_chain_def)
qed

lemma chain_state_same: "same_chain l l' d d' \<Longrightarrow> chain_state env l' d' s p rss live = chain_state env l d s p rss live"
  using chain_core_same [of l l' d d'] by (simp add: chain_state_def same_chain_def)

lemma loadArchives_Inr: "loadArchives d = Inr as \<longleftrightarrow> ed_dirOK d \<and> (\<exists>as0. archiveEntries (ed_base d) (map fst (ed_dir d)) = Inr as0 \<and> as = sort_key la_firstSequence as0)"
  by (auto simp: loadArchives_def bind_outcome_eq_Inr)

lemma loadArchives_distinct: "loadArchives d = Inr as \<Longrightarrow> distinct (map fst (ed_dir d)) \<Longrightarrow> distinct (map la_name as)"
  unfolding loadArchives_Inr using archiveEntries_names
  by (metis distinct_map distinct_sort set_sort)

lemma map_of_filter_name: "map_of (filter (\<lambda>(n, f). n \<noteq> x) al) y = (if y = x then None else map_of al y)"
  by (induction al) auto

lemma map_fst_filter_name: "map fst (filter (\<lambda>(n, f). n \<noteq> x) al) = filter (\<lambda>n. n \<noteq> x) (map fst al)"
  by (induction al) auto

lemma chain_drop_oldest:
  assumes "chain_core env l d s p (rs # rss) live" and "lg_archives l = a # as"
  shows "chain_core env (l\<lparr>lg_archives := as\<rparr>) (d\<lparr>ed_dir := filter (\<lambda>(n, f). n \<noteq> la_name a) (ed_dir d)\<rparr>)
    (s + of_nat (length rs)) (tipMAC p rs) rss live"
proof -
  let ?d = "d\<lparr>ed_dir := filter (\<lambda>(n, f). n \<noteq> la_name a) (ed_dir d)\<rparr>"
  have at: "archives_at env d (s + of_nat (length rs)) as rss" and load: "loadArchives d = Inr (a # as)" and dist: "distinct (map fst (ed_dir d))"
    and bound: "unat s + length (concat (rs # rss) @ live) < 2 ^ 64"
    using assms by (auto simp: chain_core_def)
  have names: "la_name a \<notin> la_name ` set as" using loadArchives_distinct [OF load dist] by auto
  have "archiveFile ?d (la_name x) = archiveFile d (la_name x)" if "x \<in> set as" for x
    using imageI [OF that, of la_name] names by (auto simp: archiveFile_def map_of_filter_name)
  then have "archives_at env ?d (s + of_nat (length rs)) as rss" using at archives_at_cong by blast
  moreover obtain as0 where as0: "ed_dirOK d" "archiveEntries (ed_base d) (map fst (ed_dir d)) = Inr as0" "a # as = sort_key la_firstSequence as0"
    using load unfolding loadArchives_Inr by blast
  have "filter (\<lambda>x. la_name x \<noteq> la_name a) as = as" using names by (intro filter_True) (metis imageI)
  then have "as = sort_key la_firstSequence (filter (\<lambda>x. la_name x \<noteq> la_name a) as0)"
    using as0(3) by (simp flip: filter_sort add: as0(3) [symmetric])
  then have "loadArchives ?d = Inr as"
    unfolding loadArchives_Inr using as0(1) archiveEntries_filter [OF as0(2), of "\<lambda>n. n \<noteq> la_name a"] by (simp add: map_fst_filter_name)
  moreover have "unat (s + of_nat (length rs)) = unat s + length rs"
    using bound by (simp add: unat_word_ariths unat_of_nat)
  ultimately show ?thesis using assms dist
    by (auto simp: chain_core_def linked_append add.assoc map_fst_filter_name)
qed

lemma prune_chain:
  assumes "pruneArchives env inp as l d = (l', d')" and "chain_core env l d s p rss live" and "lg_archives l = as"
  shows "\<exists>k. chain_core env l' d' (s + of_nat (length (concat (take k rss)))) (tipMAC p (concat (take k rss))) (drop k rss) live \<and>
    lg_key l' = lg_key l \<and> lg_sequence l' = lg_sequence l \<and> lg_lastMAC l' = lg_lastMAC l \<and> ed_live d' = ed_live d \<and> (k = 0 \<or> maxRetainedArchives < length rss)"
  using assms
proof (induction env inp as l d arbitrary: s p rss rule: pruneArchives.induct)
  case (1 env inp oldest younger rest l d)
  obtain rs rss' where rss: "rss = rs # rss'" using 1(3,4) by (cases rss) (auto simp: chain_core_def)
  have len: "length rss = length (oldest # younger # rest)" using 1(3,4) archives_at_length [of env d s "lg_archives l" rss] by (simp add: chain_core_def)
  have stay: ?case if "same_chain l l' d d'"
    using 1(3) chain_core_same [OF that] that by (auto simp: same_chain_def intro!: exI [of _ 0])
  have refl: "same_chain l l d d" by (simp add: same_chain_def)
  show ?case
  proof (cases "length (oldest # younger # rest) \<le> maxRetainedArchives \<or> isl (firstRecordPreviousMAC env (archiveFile d (la_name younger)))")
    case True
    then have "l' = l" "d' = d" using 1(2) by (auto simp: isl_def split: sum.splits)
    then show ?thesis using stay refl by simp
  next
    case False
    then obtain mac where mac: "firstRecordPreviousMAC env (archiveFile d (la_name younger)) = Inr mac" by (auto simp: isl_def sum.split_sel_asm) (metis sum.exhaust_sel sum.disc(1))
    let ?c = "(emptyCheckpoint checkpointKindRetention l)\<lparr>cp_retainedFromSequence := la_firstSequence younger, cp_retainedFromPreviousMAC := mac\<rparr>"
    obtain l1 d1 r where c: "appendCheckpointLocked env inp ?c l d = (l1, d1, r)" using prod_cases3 by blast
    note same = appendCheckpoint_same [OF c]
    show ?thesis
    proof (cases "isl r \<or> \<not> ei_removeOK inp")
      case True
      then have "d' = d1" "\<exists>e. l' = l1\<lparr>lg_lastError := e\<rparr>" using 1(2) False mac c by (auto simp: isl_def split: sum.splits)
      then show ?thesis using stay same by (auto simp: same_chain_def)
    next
      case go: False
      let ?l = "l1\<lparr>lg_archives := younger # rest\<rparr>" and ?d = "d1\<lparr>ed_dir := filter (\<lambda>(n, f). n \<noteq> la_name oldest) (ed_dir d1)\<rparr>"
      have r: "r = Inr ()" using go by (cases r) auto
      have run: "pruneArchives env inp (younger # rest) ?l ?d = (l', d')" using 1(2) False mac c go r by simp
      have "chain_core env l1 d1 s p (rs # rss') live" "lg_archives l1 = oldest # younger # rest"
        using 1(3,4) chain_core_same [OF same] same by (simp_all add: rss same_chain_def)
      from chain_drop_oldest [OF this] have st: "chain_core env ?l ?d (s + of_nat (length rs)) (tipMAC p rs) rss' live" .
      obtain k where k: "chain_core env l' d' (s + of_nat (length rs) + of_nat (length (concat (take k rss')))) (tipMAC (tipMAC p rs) (concat (take k rss'))) (drop k rss') live"
          "lg_key l' = lg_key l" "lg_sequence l' = lg_sequence l" "lg_lastMAC l' = lg_lastMAC l" "ed_live d' = ed_live d"
        using 1(1) [OF _ mac c [symmetric] HOL.refl r _ run st] False go same by (auto simp: same_chain_def)
      then show ?thesis using False len by (intro exI [of _ "Suc k"]) (simp add: rss add.assoc)
    qed
  qed
qed (auto intro!: exI [of _ 0])

lemma sequence_word:
  assumes "0 < unat (s :: seq)" and "unat s + n < 2 ^ 64"
  shows "unat (s + of_nat n) = unat s + n" and "unat (s + of_nat n - 1) = unat s + n - 1"
proof -
  show n: "unat (s + of_nat n) = unat s + n" using assms(2) by (simp add: unat_word_ariths unat_of_nat)
  then have "s + of_nat n \<noteq> 0" using assms(1) by (metis add_is_0 not_gr0 unat_0)
  then show "unat (s + of_nat n - 1) = unat s + n - 1" using n by (simp add: unat_minus_one)
qed

lemma live_lines: "live_at env f n live \<Longrightarrow> n \<noteq> 0 \<Longrightarrow> file_lines env f live \<and> live \<noteq> []"
  using file_lines_empty by (fastforce simp: live_at_def)

lemma rotate_chain:
  assumes "rotateLocked env inp l d = (l', d', Inr ())" and st: "chain_state env l d s p rss live"
  shows "\<exists>k s' p' rss' live'. chain_state env l' d' s' p' rss' live' \<and> concat rss' @ live' = drop k (concat rss @ live) \<and>
    lg_key l' = lg_key l \<and> lg_sequence l' = lg_sequence l \<and> lg_lastMAC l' = lg_lastMAC l \<and> (k = 0 \<or> maxRetainedArchives \<le> length rss)"
proof (cases "lg_sequence l = 0 \<or> lg_fileBytes l = 0")
  case True
  then have "l' = l" "d' = d" using assms(1) by (simp_all add: rotateLocked_def split: if_splits)
  then show ?thesis using st by (intro exI [of _ 0] exI [of _ s] exI [of _ p] exI [of _ rss] exI [of _ live]) simp
next
  case False
  have inv: "archives_at env d s (lg_archives l) rss" "live_at env (ed_live d) (lg_fileBytes l) live" "0 < unat s"
      "unat s + length (concat rss @ live) < 2 ^ 64" "loadArchives d = Inr (lg_archives l)" "distinct (map fst (ed_dir d))"
      "lg_fileFirstSequence l = s + of_nat (length (concat rss))" "lg_sequence l = s + of_nat (length (concat rss @ live)) - 1"
    using st by (auto simp: chain_state_def chain_core_def)
  have live: "file_lines env (ed_live d) live" "live \<noteq> []" using live_lines [OF inv(2)] False by auto
  then obtain content where content: "ed_live d = BytesFile True content" by (auto simp: file_lines_def)
  define name where "name = archiveName (ed_base d) (lg_fileFirstSequence l) (lg_sequence l)"
  define a where "a = \<lparr>la_name = name, la_firstSequence = lg_fileFirstSequence l, la_lastSequence = lg_sequence l\<rparr>"
  define d1 where "d1 = d\<lparr>ed_live := NoFile, ed_dir := ed_dir d @ [(name, BytesFile True content)]\<rparr>"
  define l1 where "l1 = l\<lparr>lg_archives := lg_archives l @ [a]\<rparr>"
  have fresh: "map_of (ed_dir d) name = None" and ok: "ei_renameOK inp"
    using assms(1) False content by (auto simp: rotateLocked_def Let_def name_def split: if_splits)
  have firsts: "unat (lg_fileFirstSequence l) = unat s + length (concat rss)" "unat (lg_sequence l) = unat s + length (concat rss @ live) - 1"
    using sequence_word [OF inv(3), of "length (concat rss)"] sequence_word [OF inv(3), of "length (concat rss @ live)"] inv(4,7,8) by simp_all
  have entry: "archiveEntry (ed_base d) name = Some (Inr a)"
    unfolding name_def a_def
  proof (rule archiveEntry_name)
    show "lg_fileFirstSequence l \<noteq> 0" using firsts(1) inv(3) by (metis add_is_0 not_gr0 unat_0)
    show "lg_fileFirstSequence l \<le> lg_sequence l" using firsts live(2) by (cases live) (simp_all add: word_le_nat_alt)
  qed
  have le: "\<forall>x\<in>set (lg_archives l). la_firstSequence x \<le> la_firstSequence a"
  proof
    fix x assume "x \<in> set (lg_archives l)"
    then obtain k where "k < length (concat rss)" "la_firstSequence x = s + of_nat k" using archives_at_first [OF inv(1)] by blast
    then show "la_firstSequence x \<le> la_firstSequence a"
      using sequence_word(1) [OF inv(3), of k] inv(4) firsts(1) by (simp add: a_def word_le_nat_alt)
  qed
  obtain as0 where as0: "ed_dirOK d" "archiveEntries (ed_base d) (map fst (ed_dir d)) = Inr as0" "lg_archives l = sort_key la_firstSequence as0"
    using inv(5) unfolding loadArchives_Inr by blast
  have "loadArchives d1 = Inr (lg_archives l1)"
    unfolding loadArchives_Inr d1_def l1_def using as0 archiveEntries_snoc [OF as0(2) entry] sort_key_snoc [of as0 la_firstSequence a] le by auto
  moreover have other: "archiveFile d1 (la_name x) = archiveFile d (la_name x)" if "x \<in> set (lg_archives l)" for x
    using archiveFile_present [OF inv(1) that] by (auto simp: archiveFile_def d1_def map_of_append map_add_def split: option.splits)
  have "archives_at env d1 s (lg_archives l1) (rss @ [live])"
  proof -
    have "archives_at env d1 s (lg_archives l) rss" using inv(1) archives_at_cong [of "lg_archives l" d1 d env s rss] other by blast
    moreover have "archiveFile d1 name = ed_live d" using fresh by (simp add: archiveFile_def d1_def map_of_append map_add_def content)
    ultimately show ?thesis using archives_at_snoc [of "lg_archives l" rss env d1 s a live] archives_at_length [OF inv(1)] live inv(7,8)
      by (simp add: l1_def a_def add.assoc)
  qed
  moreover have "distinct (map fst (ed_dir d1))" using inv(6) fresh by (auto simp: d1_def map_of_eq_None_iff)
  ultimately have st1: "chain_core env l1 d1 s p (rss @ [live]) []"
    using st by (simp add: chain_state_def chain_core_def l1_def)
  obtain l2 d2 r where c: "appendCheckpointLocked env inp ((emptyCheckpoint checkpointKindArchive l1)\<lparr>cp_archiveName := name, cp_archiveSHA256 := ee_sha env content\<rparr>) l1 d1 = (l2, d2, r)"
    using prod_cases3 by blast
  define l3 where "l3 = (case r of Inl e \<Rightarrow> l2\<lparr>lg_lastError := Some (Err (''evidence archive checkpoint: '' @ err_text e))\<rparr> | Inr u \<Rightarrow> l2)"
  have same: "same_chain l1 l3 d1 d2" using appendCheckpoint_same [OF c] by (simp add: l3_def same_chain_def split: sum.split)
  obtain l4 d4 where pr: "pruneArchives env inp (lg_archives l3) l3 d2 = (l4, d4)" by fastforce
  have l': "l' = refreshRetainedFromLocked (l4\<lparr>lg_fileFirstSequence := lg_sequence l4 + 1, lg_fileBytes := 0\<rparr>)" "d' = d4"
    using assms(1) False content fresh ok c pr
    by (simp_all add: rotateLocked_def pruneArchivesLocked_def Let_def name_def [symmetric] a_def [symmetric] d1_def [symmetric] l1_def [symmetric]) (simp_all add: l3_def)
  obtain k where k: "chain_core env l4 d4 (s + of_nat (length (concat (take k (rss @ [live]))))) (tipMAC p (concat (take k (rss @ [live])))) (drop k (rss @ [live])) []"
      "lg_key l4 = lg_key l3" "lg_sequence l4 = lg_sequence l3" "lg_lastMAC l4 = lg_lastMAC l3" "ed_live d4 = ed_live d2"
      "k = 0 \<or> maxRetainedArchives < length (rss @ [live])"
    using prune_chain [OF pr _ HOL.refl, of s p "rss @ [live]" "[]"] st1 chain_core_same [OF same] by blast
  let ?s = "s + of_nat (length (concat (take k (rss @ [live]))))"
  have "chain_state env l' d' ?s (tipMAC p (concat (take k (rss @ [live])))) (drop k (rss @ [live])) []"
    using k(1,5) same unfolding l' chain_state_def
    by (simp add: chain_core_def refreshRetainedFromLocked_def live_at_def same_chain_def d1_def)
  moreover have "concat (drop k (rss @ [live])) @ [] = drop (length (concat (take k (rss @ [live])))) (concat rss @ live)"
  proof -
    have "concat rss @ live = concat (take k (rss @ [live])) @ concat (drop k (rss @ [live]))" by (metis append_take_drop_id concat_append concat.simps append_Nil2)
    then show ?thesis by simp
  qed
  moreover have "length (concat (take k (rss @ [live]))) = 0 \<or> maxRetainedArchives \<le> length rss" using k(6) by auto
  moreover have "lg_key l' = lg_key l" "lg_sequence l' = lg_sequence l" "lg_lastMAC l' = lg_lastMAC l"
    using k(2-4) same by (simp_all add: l' refreshRetainedFromLocked_def same_chain_def l1_def)
  ultimately show ?thesis by blast
qed

section \<open>Appending\<close>

lemma archives_at_last:
  assumes "archives_at env d s as rss" and "as \<noteq> []"
  shows "rss \<noteq> [] \<and> last rss \<noteq> [] \<and> file_lines env (archiveFile d (la_name (last as))) (last rss) \<and>
    la_lastSequence (last as) + 1 = s + of_nat (length (concat rss))"
  using assms
proof (induction env d s as rss rule: archives_at.induct)
  case (2 env d s a as rs rss)
  then show ?case by (cases as; cases rss) (auto simp: add.assoc)
qed auto

lemma refresh_chain:
  assumes st: "chain_state env l d s p rss live"
  obtains l1 s' p' where "refreshLocked env l d = (l1, Inr ())" and "chain_state env l1 d s' p' rss live" and "lg_key l1 = lg_key l"
    and "unat s' \<le> unat s" and "concat rss @ live \<noteq> [] \<longrightarrow> lg_sequence l1 = lg_sequence l \<and> lg_lastMAC l1 = lg_lastMAC l"
proof -
  have core: "archives_at env d s (lg_archives l) rss" "linked env (lg_key l) s p (concat rss @ live)" "0 < unat s"
      "unat s + length (concat rss @ live) < 2 ^ 64" "loadArchives d = Inr (lg_archives l)" "distinct (map fst (ed_dir d))"
      "lg_sequence l = s + of_nat (length (concat rss @ live)) - 1" "lg_lastMAC l = tipMAC p (concat rss @ live)"
      "live_at env (ed_live d) (lg_fileBytes l) live"
    using st by (auto simp: chain_state_def chain_core_def)
  consider (absent) "ed_live d = NoFile" "live = []" | (present) c where "ed_live d = BytesFile True c" "lg_fileBytes l = int (length c)"
    using core(9) by (auto simp: live_at_def)
  then show ?thesis
  proof cases
    case present
    then have "refreshLocked env l d = (l, Inr ())" using core(5) by (simp add: refreshLocked_def)
    then show ?thesis using that [of l s p] st by simp
  next
    case absent
    show ?thesis
    proof (cases "lg_archives l = []")
      case True
      then have "rss = []" using core(1) by (cases rss) auto
      let ?l = "l\<lparr>lg_sequence := 0, lg_lastMAC := [], lg_fileBytes := 0, lg_fileFirstSequence := 1\<rparr>"
      have "refreshLocked env l d = (?l, Inr ())" using absent(1) core(5) True by (simp add: refreshLocked_def refreshFromArchivesLocked_def Let_def)
      moreover have "chain_state env ?l d 1 [] rss live"
        using core(5,6) True \<open>rss = []\<close> absent by (simp add: chain_state_def chain_core_def live_at_def)
      ultimately show ?thesis using that [of ?l 1 "[]"] core(3) \<open>rss = []\<close> absent(2) by simp
    next
      case False
      have last: "rss \<noteq> []" "last rss \<noteq> []" "file_lines env (archiveFile d (la_name (last (lg_archives l)))) (last rss)"
          "la_lastSequence (last (lg_archives l)) + 1 = s + of_nat (length (concat rss))"
        using archives_at_last [OF core(1) False] by blast+
      define r where "r = last (last rss)"
      have chain: "concat rss = concat (butlast rss) @ butlast (last rss) @ [r]"
        using last(1,2) by (metis append_butlast_last_id concat.simps concat_append append_Nil2 r_def)
      have auth: "authenticate env (lg_key l) r = Inr ()" and seq: "ev_sequence r = lg_sequence l" and mac: "ev_MAC r = lg_lastMAC l"
        using core(2,7,8) absent(2) by (simp_all add: chain linked_append algebra_simps)
      let ?l = "refreshRetainedFromLocked (l\<lparr>lg_sequence := ev_sequence r, lg_lastMAC := ev_MAC r, lg_fileBytes := 0,
          lg_fileFirstSequence := la_lastSequence (last (lg_archives l)) + 1\<rparr>)"
      have "newestRecord env (lg_key l) (archiveFile d (la_name (last (lg_archives l)))) = Inr (Some r)"
        using newest_of_lines [OF last(3)] last(2) auth by (simp add: r_def)
      then have "refreshLocked env l d = (?l, Inr ())"
        using absent(1) core(5) False by (simp add: refreshLocked_def refreshFromArchivesLocked_def refreshRetainedFromLocked_def Let_def)
      moreover have "chain_state env ?l d s p rss live"
        using core last(4) absent by (simp add: chain_state_def chain_core_def live_at_def refreshRetainedFromLocked_def seq mac)
      ultimately show ?thesis using that [of ?l s p] seq mac by (simp add: refreshRetainedFromLocked_def)
    qed
  qed
qed

text \<open>
  The JSON codec on one record: the text is one line without control characters or surrounding
  space, and decoding it gives the record back.
\<close>

definition codec_at :: "evidence_env \<Rightarrow> evidence_record \<Rightarrow> bool" where
  "codec_at env r \<longleftrightarrow> (case ee_marshal env r of None \<Rightarrow> True
     | Some raw \<Rightarrow> ee_unmarshal env raw = Some r \<and> raw \<noteq> [] \<and> TrimSpace raw = raw \<and> (\<forall>c\<in>set raw. 32 \<le> byte c))"

text \<open>The record that an append writes: the one that \<open>appendLocked\<close> builds on the refreshed ledger, with its MAC.\<close>

definition pendingRecord :: "evidence_env \<Rightarrow> evidence_input \<Rightarrow> string \<Rightarrow> string \<Rightarrow> string \<Rightarrow> ledger \<Rightarrow> evidence_disk \<Rightarrow> evidence_record option" where
  "pendingRecord env inp kind action result l d =
     (let l1 = fst (refreshLocked env l d); r = newRecord inp kind action result l1 in
      case calculate env (lg_key l1) r of Inl e \<Rightarrow> None | Inr mac \<Rightarrow> Some (r\<lparr>ev_MAC := mac\<rparr>))"

lemma recordWritten_same:
  assumes "recordWritten env inp r n l d = (l', d', v)"
  shows "same_chain (l\<lparr>lg_fileBytes := lg_fileBytes l + int n + 1, lg_sequence := ev_sequence r, lg_lastMAC := ev_MAC r\<rparr>) l' d d' \<and> v = Inr ()"
proof -
  let ?l = "l\<lparr>lg_fileBytes := lg_fileBytes l + int n + 1, lg_sequence := ev_sequence r, lg_lastMAC := ev_MAC r\<rparr>"
  obtain l3 d3 w where c: "appendCheckpointLocked env inp (emptyCheckpoint checkpointKindTip ?l) ?l d = (l3, d3, w)" using prod_cases3 by blast
  show ?thesis using assms c appendCheckpoint_same [OF c] by (cases w) (auto simp: recordWritten_def Let_def same_chain_def split: if_splits)
qed

lemma appendLocked_cases:
  assumes "appendLocked env inp kind action result l d = (l', d', Inr ())"
  obtains mac raw l1 d1 f where "calculate env (lg_key l) (newRecord inp kind action result l) = Inr mac"
    and "ee_marshal env ((newRecord inp kind action result l)\<lparr>ev_MAC := mac\<rparr>) = Some raw" and "length raw < maxRecordBytes"
    and "(l1, d1) = (l, d) \<or> rotateLocked env inp l d = (l1, d1, Inr ())" and "appendTo (ei_appendWrite inp) (raw @ [newline]) (ed_live d1) = (f, Inr ())"
    and "recordWritten env inp ((newRecord inp kind action result l)\<lparr>ev_MAC := mac\<rparr>) (length raw) l1 (d1\<lparr>ed_live := f\<rparr>) = (l', d', Inr ())"
proof -
  let ?r = "newRecord inp kind action result l"
  obtain mac where mac: "calculate env (lg_key l) ?r = Inr mac" using assms by (auto simp: appendLocked_def Let_def split: sum.splits)
  obtain raw where raw: "ee_marshal env (?r\<lparr>ev_MAC := mac\<rparr>) = Some raw" "length raw < maxRecordBytes"
    using assms mac by (auto simp: appendLocked_def Let_def split: option.splits if_splits)
  obtain l1 d1 u where m: "makeRoom env inp (length raw) l d = (l1, d1, u)" using prod_cases3 by blast
  have u: "u = Inr ()" using assms mac raw m by (cases u) (auto simp: appendLocked_def Let_def)
  obtain f w where w: "appendTo (ei_appendWrite inp) (raw @ [newline]) (ed_live d1) = (f, w)" by fastforce
  have "w = Inr ()" using assms mac raw m u w by (cases w) (auto simp: appendLocked_def Let_def)
  then show ?thesis using that [OF mac raw _ _, of l1 d1 f] assms mac raw m u w
    by (auto simp: appendLocked_def makeRoom_def Let_def split: if_splits)
qed

lemma appendTo_live:
  assumes "appendTo w (raw @ [newline]) f = (g, Inr ())" and "live_at env f n live" and "line_ok raw" and "decodeRecord env raw = Inr r"
  shows "live_at env g (n + int (length raw) + 1) (live @ [r])"
proof -
  have w: "w = Written" using assms(1) by (auto simp: appendTo_def split: efile.splits write_result.splits)
  show ?thesis
  proof (cases "f = NoFile")
    case True
    have one: "file_lines env (BytesFile True (raw @ [newline])) [r]"
      unfolding file_lines_def using assms(3,4) by (intro exI [of _ "[raw]"]) simp
    show ?thesis using assms(1,2) one True w by (auto simp: appendTo_def live_at_def file_lines_def)
  next
    case False
    then obtain c where f: "file_lines env f live" "f = BytesFile True c" "n = int (length c)" using assms(2) by (auto simp: live_at_def)
    then show ?thesis using file_lines_snoc [OF f(1) assms(3,4)] assms(1) w by (auto simp: live_at_def appendTo_def)
  qed
qed

lemma new_record_ok:
  assumes "calculate env key r0 = Inr mac" and "ev_MAC r0 = []" and "\<forall>x. is_digest (ee_hmac env key x)" and "ev_sequence r0 \<noteq> 0"
    and "ee_marshal env (r0\<lparr>ev_MAC := mac\<rparr>) = Some raw" and "length raw < maxRecordBytes" and "codec_at env (r0\<lparr>ev_MAC := mac\<rparr>)"
  shows "authenticate env key (r0\<lparr>ev_MAC := mac\<rparr>) = Inr ()" and "decodeRecord env raw = Inr (r0\<lparr>ev_MAC := mac\<rparr>)" and "line_ok raw"
proof -
  have digest: "is_digest mac" using assms(1,3) by (auto simp: calculate_def split: option.splits)
  have "calculate env key (r0\<lparr>ev_MAC := mac\<rparr>) = Inr mac" using assms(1,2) by (simp add: calculate_def)
  then show "authenticate env key (r0\<lparr>ev_MAC := mac\<rparr>) = Inr ()" using fixedHexEqual_refl [OF digest] by (simp add: authenticate_def)
  show "decodeRecord env raw = Inr (r0\<lparr>ev_MAC := mac\<rparr>)" using assms(4,5,7) digest by (simp add: decodeRecord_def codec_at_def is_digest_def)
  show "line_ok raw" using assms(5,6,7) by (simp add: line_ok_def codec_at_def fitsRecord_def)
qed

lemma chain_extend:
  assumes st: "chain_state env l d s p rss live" and "live_at env f n (live @ [r])" and "authenticate env (lg_key l) r = Inr ()"
    and "ev_sequence r = lg_sequence l + 1" and "ev_previousMAC r = lg_lastMAC l" and "unat s + length (concat rss @ live) + 1 < 2 ^ 64"
  shows "chain_state env (l\<lparr>lg_fileBytes := n, lg_sequence := ev_sequence r, lg_lastMAC := ev_MAC r\<rparr>) (d\<lparr>ed_live := f\<rparr>) s p rss (live @ [r])"
proof -
  have "archives_at env (d\<lparr>ed_live := f\<rparr>) s as rss = archives_at env d s as rss" for as by (rule archives_at_cong) (simp add: archiveFile_def)
  moreover have "loadArchives (d\<lparr>ed_live := f\<rparr>) = loadArchives d" by (simp add: loadArchives_def)
  ultimately show ?thesis using assms by (simp add: chain_state_def chain_core_def linked_append algebra_simps)
qed

lemma appendLocked_chain:
  assumes st: "chain_state env l d s p rss live" and app: "appendLocked env inp kind action result l d = (l', d', Inr ())"
    and codec: "\<forall>mac. calculate env (lg_key l) (newRecord inp kind action result l) = Inr mac \<longrightarrow>
      codec_at env ((newRecord inp kind action result l)\<lparr>ev_MAC := mac\<rparr>)"
    and hmac: "\<forall>x. is_digest (ee_hmac env (lg_key l) x)" and bound: "unat s + length (concat rss @ live) + 1 < 2 ^ 64"
  shows "\<exists>r k s' p' rss' live'. chain_state env l' d' s' p' rss' live' \<and> concat rss' @ live' = drop k (concat rss @ live) @ [r] \<and>
    ev_kind r = kind \<and> ev_action r = action \<and> ev_result r = result \<and> ev_timestamp r = ei_now inp \<and>
    lg_key l' = lg_key l \<and> lg_sequence l' = lg_sequence l + 1 \<and> (k = 0 \<or> maxRetainedArchives \<le> length rss)"
proof -
  define r0 where "r0 = newRecord inp kind action result l"
  obtain mac raw l1 d1 f where a: "calculate env (lg_key l) r0 = Inr mac" "ee_marshal env (r0\<lparr>ev_MAC := mac\<rparr>) = Some raw" "length raw < maxRecordBytes"
      "(l1, d1) = (l, d) \<or> rotateLocked env inp l d = (l1, d1, Inr ())" "appendTo (ei_appendWrite inp) (raw @ [newline]) (ed_live d1) = (f, Inr ())"
      "recordWritten env inp (r0\<lparr>ev_MAC := mac\<rparr>) (length raw) l1 (d1\<lparr>ed_live := f\<rparr>) = (l', d', Inr ())"
    using appendLocked_cases [OF app] unfolding r0_def by metis
  let ?r = "r0\<lparr>ev_MAC := mac\<rparr>"
  have r0: "ev_MAC r0 = []" "ev_kind r0 = kind" "ev_action r0 = action" "ev_result r0 = result" "ev_timestamp r0 = ei_now inp"
      "ev_sequence r0 = lg_sequence l + 1" "ev_previousMAC r0 = lg_lastMAC l"
    by (simp_all add: r0_def newRecord_def)
  have s: "0 < unat s" "lg_sequence l = s + of_nat (length (concat rss @ live)) - 1" using st by (simp_all add: chain_state_def chain_core_def)
  have "unat (s + of_nat (length (concat rss @ live))) = unat s + length (concat rss @ live)"
    by (rule sequence_word(1) [OF s(1)]) (use bound in linarith)
  then have nz: "ev_sequence r0 \<noteq> 0" using s r0(6) by (metis add_is_0 diff_add_cancel not_gr0 unat_0)
  note ok = new_record_ok [OF a(1) r0(1) hmac nz a(2,3) codec [folded r0_def, rule_format, OF a(1)]]
  obtain k s' p' rss' live' where st1: "chain_state env l1 d1 s' p' rss' live'" "concat rss' @ live' = drop k (concat rss @ live)"
      "lg_key l1 = lg_key l" "lg_sequence l1 = lg_sequence l" "lg_lastMAC l1 = lg_lastMAC l" "k = 0 \<or> maxRetainedArchives \<le> length rss"
    using a(4)
  proof
    assume "(l1, d1) = (l, d)"
    then show thesis using st that [of s p rss live 0] by simp
  next
    assume "rotateLocked env inp l d = (l1, d1, Inr ())"
    from rotate_chain [OF this st] show thesis using that by blast
  qed
  have "unat s' + length (concat rss' @ live') = unat s + length (concat rss @ live)"
  proof -
    have s': "0 < unat s'" "unat s' + length (concat rss' @ live') < 2 ^ 64" "lg_sequence l1 = s' + of_nat (length (concat rss' @ live')) - 1"
      using st1(1) by (simp_all add: chain_state_def chain_core_def)
    have "unat (lg_sequence l1) = unat s' + length (concat rss' @ live') - 1" using sequence_word(2) [OF s'(1,2)] s'(3) by simp
    moreover have "unat (lg_sequence l) = unat s + length (concat rss @ live) - 1" using sequence_word(2) [OF s(1), of "length (concat rss @ live)"] s(2) bound by simp
    ultimately show ?thesis using st1(4) s'(1) s(1) by simp
  qed
  then have b': "unat s' + length (concat rss' @ live') + 1 < 2 ^ 64" using bound by simp
  have "live_at env (ed_live d1) (lg_fileBytes l1) live'" using st1(1) by (simp add: chain_state_def)
  from appendTo_live [OF a(5) this] have live: "live_at env f (lg_fileBytes l1 + int (length raw) + 1) (live' @ [?r])" using ok r0 by simp
  have "chain_state env (l1\<lparr>lg_fileBytes := lg_fileBytes l1 + int (length raw) + 1, lg_sequence := ev_sequence ?r, lg_lastMAC := ev_MAC ?r\<rparr>)
      (d1\<lparr>ed_live := f\<rparr>) s' p' rss' (live' @ [?r])"
    by (rule chain_extend [OF st1(1) live _ _ _ b']) (use ok r0 st1 in simp_all)
  moreover have sc: "same_chain (l1\<lparr>lg_fileBytes := lg_fileBytes l1 + int (length raw) + 1, lg_sequence := ev_sequence ?r, lg_lastMAC := ev_MAC ?r\<rparr>)
      l' (d1\<lparr>ed_live := f\<rparr>) d'"
    using recordWritten_same [OF a(6)] by simp
  ultimately have fin: "chain_state env l' d' s' p' rss' (live' @ [?r])" using chain_state_same by blast
  have same: "lg_key l' = lg_key l" "lg_sequence l' = lg_sequence l + 1" using sc st1(3) r0(6) by (simp_all add: same_chain_def)
  have eq: "concat rss' @ live' @ [?r] = drop k (concat rss @ live) @ [?r]" using st1(2) by simp
  show ?thesis
    by (intro exI [of _ ?r] exI [of _ k] exI [of _ s'] exI [of _ p'] exI [of _ rss'] exI [of _ "live' @ [?r]"]) (use fin eq r0 same st1(6) in simp)
qed

text \<open>The first append of the sample ledger.\<close>

definition sampleEvidenceInput :: evidence_input where
  "sampleEvidenceInput = \<lparr>ei_now = 5, ei_lockOK = True, ei_appendWrite = Written, ei_checkpointWrite = (\<lambda>c. Written), ei_renameOK = True,
     ei_renameStoreOK = True, ei_removeOK = True, ei_quarantineOK = True, ei_witnessWriteOK = True\<rparr>"

lemma sample_chain: "chain_state sampleEvidence sampleLedger (sampleEvidenceDisk NoFile) 1 [] [] []"
  by (simp add: chain_state_def chain_core_def live_at_def loadArchives_def)

lemma sample_new: "newRecord inp ''k'' ''a'' ''r'' sampleLedger = sampleRecord\<lparr>ev_MAC := []\<rparr>" if "ei_now inp = 5" for inp
  using that by (simp add: newRecord_def sampleRecord_def)

lemma sample_refresh: "refreshLocked env sampleLedger (sampleEvidenceDisk NoFile) = (sampleLedger, Inr ())"
  by (simp add: refreshLocked_def loadArchives_def refreshFromArchivesLocked_def Let_def sampleLedger_def sampleEvidenceDisk_def)

lemma sample_marshal: "ee_marshal sampleEvidence r = Some raw \<Longrightarrow> (r, raw) \<in> {(sampleRecord, ''{1}''), (sampleRecord\<lparr>ev_MAC := []\<rparr>, ''{0}'')}"
  by (auto simp: sampleEvidence_def split: if_splits)

lemma sample_codec_at: "codec_at sampleEvidence r"
proof -
  have "TrimSpace ''{0}'' = ''{0}''" "TrimSpace ''{1}'' = ''{1}''" "\<forall>c\<in>set ''{0}''. 32 \<le> byte c" "\<forall>c\<in>set ''{1}''. 32 \<le> byte c" by code_simp+
  moreover have "ee_unmarshal sampleEvidence ''{0}'' = Some (sampleRecord\<lparr>ev_MAC := []\<rparr>)" "ee_unmarshal sampleEvidence ''{1}'' = Some sampleRecord"
    by (simp_all add: sampleEvidence_def)
  ultimately show ?thesis using sample_marshal [of r] by (auto simp: codec_at_def simp del: list.set split: option.splits)
qed

lemma sample_append:
  "Append sampleEvidence sampleEvidenceInput ''k'' ''a'' ''r'' sampleLedger (sampleEvidenceDisk NoFile) = (sampleVerified, sampleEvidenceDisk sampleFile, Inr ())"
proof -
  have mac: "calculate sampleEvidence k (sampleRecord\<lparr>ev_MAC := []\<rparr>) = Inr sampleDigest" for k by (simp add: calculate_def)
  have same: "sampleRecord\<lparr>ev_MAC := sampleDigest\<rparr> = sampleRecord" by (simp add: sampleRecord_def)
  have "appendLocked sampleEvidence sampleEvidenceInput ''k'' ''a'' ''r'' sampleLedger (sampleEvidenceDisk NoFile) =
      recordWritten sampleEvidence sampleEvidenceInput sampleRecord 3 sampleLedger (sampleEvidenceDisk sampleFile)"
    by (simp add: mac same numeral_3_eq_3 appendLocked_def sample_new Let_def maxRecordBytes_def makeRoom_def ledgerRotateBytes_def appendTo_def sampleFile_def
        sampleEvidenceInput_def sampleEvidenceDisk_def)
  also have "\<dots> = (sampleVerified, sampleEvidenceDisk sampleFile, Inr ())"
    by (simp add: recordWritten_def Let_def appendCheckpointInterval_def sampleVerified_def)
  finally show ?thesis by (simp add: Append_def sample_refresh sampleEvidenceInput_def)
qed

text \<open>
  C15 [append_extends_chain]: a successful append leaves a directory whose chain is the old one, less whole
  archives that the retention removed once more than four were full, with exactly the new record
  at its end; the ledger in memory is again in step with it. The hypotheses say that the JSON
  codec gives the one record that is appended back from its text, that the HMAC gives digests, and
  that the sequence numbers do not run out.
\<close>

theorem append_extends_chain:
  assumes "chain_state env l d s p rss live" and "Append env inp kind action result l d = (l', d', Inr ())"
    and "\<forall>r. pendingRecord env inp kind action result l d = Some r \<longrightarrow> codec_at env r"
    and "\<forall>x. is_digest (ee_hmac env (lg_key l) x)" and "unat s + length (concat rss @ live) + 1 < 2 ^ 64"
  shows "\<exists>r k s' p' rss' live'. chain_state env l' d' s' p' rss' live' \<and> concat rss' @ live' = drop k (concat rss @ live) @ [r] \<and>
    ev_kind r = kind \<and> ev_action r = action \<and> ev_result r = result \<and> ev_timestamp r = ei_now inp \<and>
    (concat rss @ live \<noteq> [] \<longrightarrow> lg_sequence l' = lg_sequence l + 1) \<and> (k = 0 \<or> maxRetainedArchives \<le> length rss)"
proof -
  obtain l1 s1 p1 where r: "refreshLocked env l d = (l1, Inr ())" "chain_state env l1 d s1 p1 rss live" "lg_key l1 = lg_key l" "unat s1 \<le> unat s"
      "concat rss @ live \<noteq> [] \<longrightarrow> lg_sequence l1 = lg_sequence l \<and> lg_lastMAC l1 = lg_lastMAC l"
    using refresh_chain [OF assms(1)] by metis
  have "appendLocked env inp kind action result l1 d = (l', d', Inr ())"
    using assms(2) r(1) by (auto simp: Append_def Let_def split: if_splits sum.splits prod.splits)
  moreover have "\<forall>x. is_digest (ee_hmac env (lg_key l1) x)" using assms(4) r(3) by simp
  moreover have "unat s1 + length (concat rss @ live) + 1 < 2 ^ 64" using assms(5) r(4) by linarith
  moreover have "\<forall>mac. calculate env (lg_key l1) (newRecord inp kind action result l1) = Inr mac \<longrightarrow>
      codec_at env ((newRecord inp kind action result l1)\<lparr>ev_MAC := mac\<rparr>)"
    using assms(3) r(1) by (simp add: pendingRecord_def)
  ultimately obtain rec k s' p' rss' live' where fin: "chain_state env l' d' s' p' rss' live'" "concat rss' @ live' = drop k (concat rss @ live) @ [rec]"
      "ev_kind rec = kind" "ev_action rec = action" "ev_result rec = result" "ev_timestamp rec = ei_now inp"
      "lg_sequence l' = lg_sequence l1 + 1" "k = 0 \<or> maxRetainedArchives \<le> length rss"
    using appendLocked_chain [OF r(2)] by blast
  show ?thesis
    by (intro exI [of _ rec] exI [of _ k] exI [of _ s'] exI [of _ p'] exI [of _ rss'] exI [of _ live']) (use fin r(5) in simp)
qed

theorem append_extends_chain_witness:
  "\<exists>r k s' p' rss' live'. chain_state sampleEvidence sampleVerified (sampleEvidenceDisk sampleFile) s' p' rss' live' \<and>
    concat rss' @ live' = drop k (concat [] @ []) @ [r] \<and> ev_kind r = ''k'' \<and> ev_action r = ''a'' \<and> ev_result r = ''r'' \<and>
    ev_timestamp r = ei_now sampleEvidenceInput \<and>
    (concat [] @ [] \<noteq> ([] :: evidence_record list) \<longrightarrow> lg_sequence sampleVerified = lg_sequence sampleLedger + 1) \<and>
    (k = 0 \<or> maxRetainedArchives \<le> length ([] :: evidence_record list list))"
  by (rule append_extends_chain [OF sample_chain sample_append]) (simp_all add: sample_codec_at)

end
