(* ===== verification/EvidenceFaults.thy ===== *)
theory EvidenceFaults
  imports EvidenceAppend
begin

text \<open>
  Faults of the evidence ledger (\<open>internal/evidence/ledger.go\<close>, \<open>witness.go\<close>): the external witness exposes a
  chain that was cut back, and a line that was only partly written blocks the ledger for good.
\<close>

section \<open>Loading the checkpoints leaves the chain alone\<close>

lemma quarantine_keeps:
  assumes "quarantineCheckpointStore inp reason l d = (l1, d1)"
  shows "lg_key l1 = lg_key l \<and> lg_archives l1 = lg_archives l \<and> lg_witnessConfigured l1 = lg_witnessConfigured l \<and>
    lg_signingPublicSHA256 l1 = lg_signingPublicSHA256 l \<and> ed_base d1 = ed_base d \<and> ed_live d1 = ed_live d \<and> ed_dirOK d1 = ed_dirOK d \<and>
    ed_dir d1 = ed_dir d \<and> ed_witness d1 = ed_witness d"
  using assms by (auto simp: quarantineCheckpointStore_def Let_def split: if_splits)

lemma loadCheckpoints_keeps:
  assumes "loadCheckpoints env inp l d = (l1, d1)"
  shows "lg_key l1 = lg_key l \<and> lg_archives l1 = lg_archives l \<and> lg_witnessConfigured l1 = lg_witnessConfigured l \<and>
    lg_signingPublicSHA256 l1 = lg_signingPublicSHA256 l \<and> ed_base d1 = ed_base d \<and> ed_live d1 = ed_live d \<and> ed_dirOK d1 = ed_dirOK d \<and>
    ed_dir d1 = ed_dir d \<and> ed_witness d1 = ed_witness d"
  using assms quarantine_keeps unfolding loadCheckpoints_def
  by (cases "ed_checkpoints d") (auto split: if_splits sum.splits)

lemma disk_holds_keeps: "ed_live d1 = ed_live d \<Longrightarrow> ed_dir d1 = ed_dir d \<Longrightarrow> disk_holds env as d1 rss live = disk_holds env as d rss live"
  by (simp add: disk_holds_def archiveFile_def)

lemma loadArchives_keeps: "ed_base d1 = ed_base d \<Longrightarrow> ed_dirOK d1 = ed_dirOK d \<Longrightarrow> ed_dir d1 = ed_dir d \<Longrightarrow> loadArchives d1 = loadArchives d"
  by (simp add: loadArchives_def)

section \<open>Rollback\<close>

definition firstRetained :: "ledgerArchive list \<Rightarrow> seq" where
  "firstRetained as = (case as of [] \<Rightarrow> 1 | a # rest \<Rightarrow> la_firstSequence a)"

text \<open>A witness file with a well-formed tip that the evidence key signed.\<close>

definition signed_witness :: "evidence_env \<Rightarrow> string \<Rightarrow> evidence_disk \<Rightarrow> witnessTip \<Rightarrow> bool" where
  "signed_witness env fingerprint d tip \<longleftrightarrow>
     (case ed_witness d of
        Stored n regular (Decoded t) \<Rightarrow> t = tip \<and> regular \<and> 0 < n \<and> int n \<le> maxWitnessFileBytes
      | _ \<Rightarrow> False) \<and> checkWitnessTip tip = Inr () \<and> EqualFold (wt_publicKeySHA256 tip) fingerprint \<and>
     (case hexDecode (wt_signature tip) of Some s \<Rightarrow> length s = 64 \<and> ee_verify env (witnessMessage env tip) s | None \<Rightarrow> False)"

lemma retentionStart_first: "retentionStart env l d = Inr (start, mac) \<Longrightarrow> start = firstRetained (lg_archives l)"
  by (auto simp: retentionStart_def firstRetained_def bind_outcome_eq_Inr split: list.splits if_splits option.splits)

lemma verify_tip:
  assumes "verifyLocked env l d = (l', Inr ())" and "disk_holds env (lg_archives l) d rss live"
  shows "lg_sequence l' = firstRetained (lg_archives l) + of_nat (length (concat rss @ live)) - 1"
proof -
  obtain start mac rss' live' where v: "retentionStart env l d = Inr (start, mac)" "disk_holds env (lg_archives l) d rss' live'"
      "lg_sequence l' = start + of_nat (length (concat rss' @ live')) - 1"
    using verifyLocked_Inr [OF assms(1)] by metis
  then show ?thesis using retentionStart_first disk_holds_unique [OF assms(2) v(2)] by metis
qed

lemma verify_keeps: "verifyLocked env l d = (l', v) \<Longrightarrow> lg_witnessConfigured l' = lg_witnessConfigured l \<and> lg_signingPublicSHA256 l' = lg_signingPublicSHA256 l"
  by (auto simp: verifyLocked_def Let_def split: sum.splits)

lemma witness_ahead:
  assumes "signed_witness env (lg_signingPublicSHA256 l) d tip" and "lg_witnessConfigured l" and "lg_sequence l < wt_sequence tip"
  shows "\<exists>l' e. verifyWitnessLocked env l d = (l', Inl e)"
proof -
  obtain n where n: "ed_witness d = Stored n True (Decoded tip)" "0 < n" "int n \<le> maxWitnessFileBytes"
    using assms(1) by (auto simp: signed_witness_def split: stored.splits content.splits)
  obtain s where s: "hexDecode (wt_signature tip) = Some s" "length s = 64" "ee_verify env (witnessMessage env tip) s"
      "checkWitnessTip tip = Inr ()" "EqualFold (wt_publicKeySHA256 tip) (lg_signingPublicSHA256 l)"
    using assms(1) by (auto simp: signed_witness_def split: option.splits)
  show ?thesis using n s assms(2,3) by (simp add: verifyWitnessLocked_def decodeWitnessTip_def compareWitness_def Let_def)
qed

lemma rollback_step:
  assumes "signed_witness env fingerprint d tip" and "disk_holds env as d rss live"
    and "firstRetained as + of_nat (length (concat rss @ live)) - 1 < wt_sequence tip"
    and l: "lg_archives l = as" "lg_witnessConfigured l" "lg_signingPublicSHA256 l = fingerprint"
    and "ed_witness d1 = ed_witness d" "ed_live d1 = ed_live d" "ed_dir d1 = ed_dir d" and "verifyLocked env l d1 = (l2, Inr ())"
  shows "\<exists>l' e. verifyWitnessLocked env l2 d1 = (l', Inl e)"
proof (rule witness_ahead)
  show "signed_witness env (lg_signingPublicSHA256 l2) d1 tip"
    using assms(1,7) verify_keeps [OF assms(10)] l(3) by (simp add: signed_witness_def)
  show "lg_witnessConfigured l2" using verify_keeps [OF assms(10)] l(2) by simp
  have "disk_holds env (lg_archives l) d1 rss live" using assms(2,8,9) l(1) disk_holds_keeps by metis
  then show "lg_sequence l2 < wt_sequence tip" using verify_tip [OF assms(10)] assms(3) l(1) by simp
qed

lemma openLedger_fails:
  assumes "\<And>l d1 l2. ed_live d1 = ed_live d \<Longrightarrow> ed_dir d1 = ed_dir d \<Longrightarrow> ed_witness d1 = ed_witness d \<Longrightarrow> loadArchives d = Inr (lg_archives l) \<Longrightarrow>
      lg_witnessConfigured l = witnessed \<Longrightarrow> lg_signingPublicSHA256 l = fingerprint \<Longrightarrow>
      \<exists>l0. loadCheckpoints env inp (newLedger key fingerprint witnessed) d = (l0, d1) \<and> lg_checkpoints l = lg_checkpoints l0 \<Longrightarrow> verifyLocked env l d1 = (l2, Inr ()) \<Longrightarrow>
      \<exists>l' e. verifyWitnessLocked env l2 d1 = (l', Inl e)"
  shows "\<exists>d' e. openLedger env inp key fingerprint witnessed d = (d', Inl e)"
proof -
  obtain l1 d1 where c: "loadCheckpoints env inp (newLedger key fingerprint witnessed) d = (l1, d1)" by fastforce
  note keeps = loadCheckpoints_keeps [OF c]
  have dir: "loadArchives d1 = loadArchives d" using keeps loadArchives_keeps by metis
  show ?thesis
  proof (cases "loadArchives d")
    case (Inl e)
    then show ?thesis using c dir by (simp add: openLedger_def)
  next
    case (Inr as)
    let ?l = "loadJournalState d1 (l1\<lparr>lg_archives := as\<rparr>)"
    obtain l2 v where v: "verifyLocked env ?l d1 = (l2, v)" by fastforce
    have "lg_archives ?l = as" "lg_witnessConfigured ?l = witnessed" "lg_signingPublicSHA256 ?l = fingerprint"
        "lg_checkpoints ?l = lg_checkpoints l1"
      using keeps by (simp_all add: loadJournalState_def refreshRetainedFromLocked_def newLedger_def)
    then have "v = Inr () \<Longrightarrow> \<exists>l' e. verifyWitnessLocked env l2 d1 = (l', Inl e)" using assms [of d1 ?l l2] keeps v Inr c by simp
    then show ?thesis using c v dir Inr by (cases v) (auto simp: openLedger_def Let_def)
  qed
qed

text \<open>
  C16 [rollback_detected]: when the external witness holds a signed tip beyond the records on disk, in the
  archives and the live file together, the ledger can neither be opened nor verified, whatever
  the local checkpoint store says: a chain that was cut back or replaced by an older copy is
  noticed.
\<close>

theorem rollback_detected:
  assumes "signed_witness env fingerprint d tip" and "loadArchives d = Inr as" and "disk_holds env as d rss live"
    and "firstRetained as + of_nat (length (concat rss @ live)) - 1 < wt_sequence tip"
  shows "(\<exists>d' e. openLedger env inp key fingerprint True d = (d', Inl e)) \<and>
    (lg_archives l = as \<and> lg_witnessConfigured l \<and> lg_signingPublicSHA256 l = fingerprint \<longrightarrow> (\<exists>l' d' e. LedgerVerify env inp l d = (l', d', Inl e)))"
proof
  show "lg_archives l = as \<and> lg_witnessConfigured l \<and> lg_signingPublicSHA256 l = fingerprint \<longrightarrow> (\<exists>l' d' e. LedgerVerify env inp l d = (l', d', Inl e))"
  proof
    assume l: "lg_archives l = as \<and> lg_witnessConfigured l \<and> lg_signingPublicSHA256 l = fingerprint"
    obtain l1 d1 where c: "loadCheckpoints env inp l d = (l1, d1)" by fastforce
    note keeps = loadCheckpoints_keeps [OF c]
    obtain l2 v where v: "verifyLocked env l1 d1 = (l2, v)" by fastforce
    have "v = Inr () \<Longrightarrow> \<exists>l' e. verifyWitnessLocked env l2 d1 = (l', Inl e)"
      by (rule rollback_step [OF assms(1,3,4), of l1 d1]) (use keeps l v in simp_all)
    then show "\<exists>l' d' e. LedgerVerify env inp l d = (l', d', Inl e)"
      using c v by (cases v) (auto simp: LedgerVerify_def Let_def)
  qed
next
  show "\<exists>d' e. openLedger env inp key fingerprint True d = (d', Inl e)"
    by (rule openLedger_fails) (use rollback_step [OF assms(1,3,4)] assms(2) in auto)
qed

definition sampleTip :: witnessTip where
  "sampleTip = \<lparr>wt_schemaVersion = 1, wt_sequence = 5, wt_lastMAC = sampleDigest, wt_writtenUTC = 5, wt_publicKeySHA256 = sampleDigest,
     wt_signature = replicate 128 (CHR ''a'')\<rparr>"

lemma sampleTip_signed: "signed_witness sampleEvidence sampleDigest ((sampleEvidenceDisk NoFile)\<lparr>ed_witness := Stored 10 True (Decoded sampleTip)\<rparr>) sampleTip"
proof -
  have hex: "is_hex (CHR ''a'')" by code_simp
  obtain s where s: "hexDecode (replicate 128 (CHR ''a'')) = Some s" using hexDecode_defined [of "replicate 128 (CHR ''a'')"] hex by (auto simp: list_all_iff)
  have "length s = 64" using hexDecode_length [OF s] by simp
  moreover obtain m where "hexDecode sampleDigest = Some m" using hexDecode_defined [of sampleDigest] hex by (auto simp: sampleDigest_def list_all_iff)
  ultimately show ?thesis using s
    by (simp add: signed_witness_def checkWitnessTip_def sampleTip_def maxWitnessFileBytes_def witnessSchemaVersion_def sampleEvidence_def EqualFold_def)
qed

theorem rollback_detected_witness:
  "let d = (sampleEvidenceDisk NoFile)\<lparr>ed_witness := Stored 10 True (Decoded sampleTip)\<rparr> in
   \<exists>d' e. openLedger sampleEvidence sampleEvidenceInput (replicate 32 (CHR ''k'')) sampleDigest True d = (d', Inl e)"
  using rollback_detected [OF sampleTip_signed, of "[]" "[]" "[]"]
  by (simp add: loadArchives_def disk_holds_def file_holds_def firstRetained_def sampleTip_def)

section \<open>The retention anchor\<close>

lemma readCheckpoints_from:
  "readCheckpoints env l n acc ls = Inr cs \<Longrightarrow> c \<in> set cs \<Longrightarrow> c \<in> set acc \<or> (\<exists>line\<in>set ls. decodeCheckpoint env line = Inr c)"
  by (induction env l n acc ls rule: readCheckpoints.induct) (fastforce split: if_splits sum.splits)+

lemma loadCheckpoints_from:
  assumes "loadCheckpoints env inp l d = (l1, d1)" and "lg_checkpoints l = []" and "ed_checkpoints d = BytesFile True (line @ [newline])"
    and "newline \<notin> set line" and "CHR 0x0D \<notin> set line" and "c \<in> set (lg_checkpoints l1)"
  shows "decodeCheckpoint env line = Inr c"
proof -
  have lines: "raw_lines [] (line @ [newline]) = [line]" using raw_lines_unlines [of "[line]"] assms(4) by simp
  have "dropCR line = line" using assms(5) by (cases line rule: rev_cases) (auto simp: dropCR_def)
  moreover obtain cs where cs: "readCheckpoints env l 0 [] (map dropCR (takeWhile fitsRecord [line])) = Inr cs" "c \<in> set cs"
    using assms(1-3,6) set_drop_subset
    by (fastforce simp: loadCheckpoints_def quarantineCheckpointStore_def lines lastn_def Let_def split: if_splits sum.splits)
  moreover obtain x where "x \<in> set (map dropCR (takeWhile fitsRecord [line]))" "decodeCheckpoint env x = Inr c" using readCheckpoints_from [OF cs] by auto
  ultimately show ?thesis by (simp split: if_splits)
qed

lemma updateWitness_store: "updateWitnessLocked env inp l d = (l', d') \<Longrightarrow> ed_checkpoints d' = ed_checkpoints d"
  by (auto simp: updateWitnessLocked_def Let_def split: if_splits option.splits sum.splits)

lemma rotated_store:
  assumes "appendCheckpointLocked env inp c l d = (l1, d1, Inr ())"
    and "ee_marshalCheckpoint env (signCheckpoint env inp l c) = Some line" and "maxCheckpointFileBytes < lg_checkpointFileBytes l + int (length line) + 1"
  shows "ed_checkpoints d1 = BytesFile True (line @ [newline])"
proof -
  have short: "\<not> maxRecordBytes < length line + 1" using assms(1,2) by (auto simp: appendCheckpointLocked_def Let_def)
  have "ed_checkpoints d = NoFile \<or> ei_renameStoreOK inp"
    using assms short by (auto simp: appendCheckpointLocked_def rotateCheckpointStoreLocked_def Let_def split: if_splits)
  then show ?thesis using assms short
    by (cases "ei_checkpointWrite inp (signCheckpoint env inp l c)")
      (auto simp: appendCheckpointLocked_def rotateCheckpointStoreLocked_def appendTo_def Let_def dest!: updateWitness_store split: prod.splits)
qed

text \<open>
  C18 [rotated_store_loses_anchor]: when a checkpoint store is full, the checkpoint that rotates it starts a
  store without the retention anchor. While older archives are pruned, the ledger can then not be
  opened, although nothing on disk was damaged.
\<close>

theorem rotated_store_loses_anchor:
  assumes "appendCheckpointLocked env inp c l d = (l1, d1, Inr ())" and "cp_kind c \<noteq> checkpointKindRetention"
    and "ee_marshalCheckpoint env (signCheckpoint env inp l c) = Some line" and "maxCheckpointFileBytes < lg_checkpointFileBytes l + int (length line) + 1"
    and "ee_decodeCheckpoint env line = Decoded (signCheckpoint env inp l c)" and "newline \<notin> set line" and "CHR 0x0D \<notin> set line"
    and "loadArchives d = Inr (a # as)" and "la_firstSequence a \<noteq> 1"
  shows "\<exists>d2 e. openLedger env inp2 key fingerprint witnessed d1 = (d2, Inl e)"
proof (rule openLedger_fails)
  fix k d3 k2
  assume k: "loadArchives d1 = Inr (lg_archives k)" "verifyLocked env k d3 = (k2, Inr ())"
    and "\<exists>l0. loadCheckpoints env inp2 (newLedger key fingerprint witnessed) d1 = (l0, d3) \<and> lg_checkpoints k = lg_checkpoints l0"
  then obtain l0 where l0: "loadCheckpoints env inp2 (newLedger key fingerprint witnessed) d1 = (l0, d3)" "lg_checkpoints k = lg_checkpoints l0" by blast
  have same: "same_chain l l1 d d1" using appendCheckpoint_same [OF assms(1)] .
  have store: "ed_checkpoints d1 = BytesFile True (line @ [newline])"
    using assms(1,3,4) by (rule rotated_store)
  have "cp_kind x \<noteq> checkpointKindRetention" if "x \<in> set (lg_checkpoints k)" for x
  proof -
    have "decodeCheckpoint env line = Inr x" using loadCheckpoints_from [OF l0(1) _ store assms(6,7)] that l0(2) by (simp add: newLedger_def)
    then have "x = signCheckpoint env inp l c" using assms(5) by (auto simp: decodeCheckpoint_def bind_outcome_eq_Inr)
    then show ?thesis using assms(2) by (simp add: signCheckpoint_def Let_def)
  qed
  then have "find (\<lambda>x. cp_kind x = checkpointKindRetention \<and> cp_retainedFromSequence x = la_firstSequence a) (rev (lg_checkpoints k)) = None"
    by (auto simp: find_None_iff)
  moreover have "lg_archives k = a # as" using k(1) assms(8) same loadArchives_keeps [of d1 d] by (simp add: same_chain_def)
  ultimately have "\<exists>e. retentionStart env k d3 = Inl e" using assms(9)
    by (cases "firstRecordPreviousMAC env (archiveFile d3 (la_name a))") (auto simp: retentionStart_def)
  then show "\<exists>l' e. verifyWitnessLocked env k2 d3 = (l', Inl e)" using k(2) by (auto simp: verifyLocked_def)
qed

text \<open>A full store, and a directory whose first archive starts at the fifth record.\<close>

definition fullStoreLedger :: ledger where
  "fullStoreLedger = sampleLedger\<lparr>lg_checkpointFileBytes := maxCheckpointFileBytes\<rparr>"

definition prunedDisk :: evidence_disk where
  "prunedDisk = \<lparr>ed_base = ''e'', ed_live = NoFile, ed_dirOK = True, ed_dir = [(''e.5-6.jsonl'', NoAccess)], ed_checkpoints = NoFile, ed_witness = Absent\<rparr>"

definition tipEvidence :: evidence_env where
  "tipEvidence = sampleEvidence\<lparr>ee_marshalCheckpoint := (\<lambda>c. Some ''c''),
     ee_decodeCheckpoint := (\<lambda>s. Decoded (signCheckpoint sampleEvidence sampleEvidenceInput fullStoreLedger (emptyCheckpoint checkpointKindTip sampleLedger)))\<rparr>"

lemma tipEvidence_sign: "signCheckpoint tipEvidence inp l c = signCheckpoint sampleEvidence inp l c"
  by (simp add: signCheckpoint_def checkpointMessage_def tipEvidence_def)

lemma prunedDisk_archives: "loadArchives prunedDisk = Inr [\<lparr>la_name = ''e.5-6.jsonl'', la_firstSequence = 5, la_lastSequence = 6\<rparr>]"
  by code_simp

lemma full_store_rotates:
  "\<exists>l1. appendCheckpointLocked tipEvidence sampleEvidenceInput (emptyCheckpoint checkpointKindTip sampleLedger) fullStoreLedger prunedDisk =
     (l1, prunedDisk\<lparr>ed_checkpoints := BytesFile True (''c'' @ [newline])\<rparr>, Inr ())"
  by (simp add: appendCheckpointLocked_def tipEvidence_sign rotateCheckpointStoreLocked_def appendTo_def updateWitnessLocked_def maxRecordBytes_def
      sampleEvidenceInput_def fullStoreLedger_def Let_def tipEvidence_def prunedDisk_def)

theorem rotated_store_loses_anchor_witness:
  "\<exists>d2 e. openLedger tipEvidence sampleEvidenceInput (replicate 32 (CHR ''k'')) sampleDigest True (prunedDisk\<lparr>ed_checkpoints := BytesFile True (''c'' @ [newline])\<rparr>) =
     (d2, Inl e)"
proof -
  obtain l1 where r: "appendCheckpointLocked tipEvidence sampleEvidenceInput (emptyCheckpoint checkpointKindTip sampleLedger) fullStoreLedger prunedDisk =
     (l1, prunedDisk\<lparr>ed_checkpoints := BytesFile True (''c'' @ [newline])\<rparr>, Inr ())"
    using full_store_rotates by blast
  show ?thesis
    by (rule rotated_store_loses_anchor [OF r, of "''c''"])
      (simp_all add: prunedDisk_archives tipEvidence_sign, simp_all add: tipEvidence_def fullStoreLedger_def emptyCheckpoint_def checkpointKindTip_def checkpointKindRetention_def)
qed

section \<open>Torn lines\<close>

text \<open>A live file whose last line was cut off, and a ledger that has not seen it.\<close>

definition torn_file :: "evidence_env \<Rightarrow> efile \<Rightarrow> int \<Rightarrow> bool" where
  "torn_file env f n \<longleftrightarrow> (\<exists>raws junk. f = BytesFile True (unlines raws @ junk) \<and> n \<noteq> int (length (unlines raws @ junk)) \<and> (\<forall>raw\<in>set raws. line_ok raw) \<and>
     TrimSpace junk \<noteq> [] \<and> newline \<notin> set junk \<and> CHR 0x0D \<notin> set junk \<and> fitsRecord junk \<and>
     ee_unmarshal env junk = None \<and> ee_unmarshal env (TrimSpace junk) = None)"

lemma pieces_torn: "\<forall>raw\<in>set raws. line_ok raw \<Longrightarrow> newline \<notin> set junk \<Longrightarrow> pieces (unlines raws @ junk) = raws @ [junk]"
  using pieces_unlines [of raws] line_ok_chars pieces_append [of "unlines raws" junk] by (auto simp: pieces_plain)

lemma TrimSpace_Nil_torn: "TrimSpace junk \<noteq> [] \<Longrightarrow> junk \<noteq> []"
  by (auto simp: TrimSpace_def trim_left_def trim_right_def)

lemma torn_newest:
  assumes "torn_file env f n"
  shows "\<exists>e. newestRecord env key f = Inl e"
proof -
  obtain raws junk where t: "f = BytesFile True (unlines raws @ junk)" "\<forall>raw\<in>set raws. line_ok raw" "TrimSpace junk \<noteq> []" "newline \<notin> set junk"
      "fitsRecord junk" "ee_unmarshal env junk = None"
    using assms unfolding torn_file_def by blast
  have "junk \<noteq> []" using t(3) by (rule TrimSpace_Nil_torn)
  then have "readNewestLines f 1 = Inr [junk]"
    using newest_lines [of 1 "unlines raws @ junk"] pieces_torn [OF t(2,4)] t(1,5) by (simp add: Let_def fitsRecord_def)
  then show ?thesis using t(6) by (simp add: newestRecord_def decodeRecord_def)
qed

lemma torn_holds:
  assumes "torn_file env f n"
  shows "\<not> file_holds env f rs"
proof
  assume h: "file_holds env f rs"
  obtain raws junk where t: "f = BytesFile True (unlines raws @ junk)" "\<forall>raw\<in>set raws. line_ok raw" "TrimSpace junk \<noteq> []" "newline \<notin> set junk"
      "CHR 0x0D \<notin> set junk" "fitsRecord junk" "ee_unmarshal env (TrimSpace junk) = None"
    using assms unfolding torn_file_def by blast
  have "junk \<noteq> []" using t(3) by (rule TrimSpace_Nil_torn)
  then have raw: "raw_lines [] (unlines raws @ junk) = raws @ [junk]"
    using pieces_torn [OF t(2,4)] by (cases raws) (auto simp: raw_lines_pieces Let_def)
  have "list_all fitsRecord (raws @ [junk])" using recordLines_unlines(3) [OF t(2)] t(6) by simp
  then have all: "takeWhile fitsRecord (raws @ [junk]) = raws @ [junk]" by (simp add: list_all_iff takeWhile_eq_all_conv)
  have "dropCR junk = junk" using t(5) by (metis dropCR_def last_in_set)
  then have "TrimSpace junk \<in> set (recordLines (unlines raws @ junk))" using t(3) by (simp add: recordLines_def raw all)
  moreover have "map (decodeRecord env) (recordLines (unlines raws @ junk)) = map Inr rs" using h t(1) by (simp add: file_holds_def)
  ultimately have "decodeRecord env (TrimSpace junk) \<in> Inr ` set rs" by (metis image_eqI list.set_map)
  then show False using t(7) by (auto simp: decodeRecord_def)
qed

lemma torn_refresh:
  assumes "torn_file env (ed_live d) (lg_fileBytes l)"
  shows "\<exists>l' e. refreshLocked env l d = (l', Inl e) \<and> lg_fileBytes l' = lg_fileBytes l"
proof -
  obtain c where c: "ed_live d = BytesFile True c" "lg_fileBytes l \<noteq> int (length c)" using assms by (auto simp: torn_file_def)
  obtain e where "newestRecord env (lg_key l) (ed_live d) = Inl e" using torn_newest [OF assms] by blast
  then show ?thesis using c by (cases "loadArchives d") (auto simp: refreshLocked_def Let_def)
qed

lemma torn_append:
  assumes "torn_file env (ed_live d) (lg_fileBytes l)"
  obtains l' e where "Append env inp kind action result l d = (l', d, Inl e)" and "torn_file env (ed_live d) (lg_fileBytes l')"
proof -
  obtain l1 e where r: "refreshLocked env l d = (l1, Inl e)" "lg_fileBytes l1 = lg_fileBytes l" using torn_refresh [OF assms] by blast
  have "\<exists>l' e. Append env inp kind action result l d = (l', d, Inl e) \<and> lg_fileBytes l' = lg_fileBytes l"
    using r by (cases "ei_lockOK inp") (auto simp: Append_def Let_def)
  then show ?thesis using that assms by metis
qed

fun appends :: "evidence_env \<Rightarrow> (evidence_input \<times> string \<times> string \<times> string) list \<Rightarrow> ledger \<Rightarrow> evidence_disk \<Rightarrow> ledger \<times> evidence_disk \<times> unit outcome list" where
  "appends env [] l d = (l, d, [])"
| "appends env ((inp, kind, action, result) # qs) l d =
     (case Append env inp kind action result l d of (l1, d1, v) \<Rightarrow>
        (case appends env qs l1 d1 of (l2, d2, vs) \<Rightarrow> (l2, d2, v # vs)))"

lemma torn_appends:
  assumes "torn_file env (ed_live d) (lg_fileBytes l)"
  shows "\<exists>l' vs. appends env qs l d = (l', d, vs) \<and> list_all isl vs"
  using assms
proof (induction qs arbitrary: l)
  case Nil
  then show ?case by simp
next
  case (Cons q qs)
  obtain inp kind action result where q: "q = (inp, kind, action, result)" by (rule prod_cases4)
  obtain l1 e where a: "Append env inp kind action result l d = (l1, d, Inl e)" "torn_file env (ed_live d) (lg_fileBytes l1)"
    by (rule torn_append [OF Cons.prems])
  obtain l' vs where "appends env qs l1 d = (l', d, vs)" "list_all isl vs" using Cons.IH [OF a(2)] by blast
  then show ?case using a(1) q by simp
qed

text \<open>
  What the JSON codec gives on one record: a text in one line, whose first \<open>n\<close> bytes are a proper part of
  it, more than blanks, and no JSON value.
\<close>

definition torn_at :: "evidence_env \<Rightarrow> nat \<Rightarrow> evidence_record \<Rightarrow> bool" where
  "torn_at env n r \<longleftrightarrow> (case ee_marshal env r of None \<Rightarrow> True
     | Some raw \<Rightarrow> n < length raw \<and> newline \<notin> set raw \<and> CHR 0x0D \<notin> set raw \<and>
         TrimSpace (take n raw) \<noteq> [] \<and> ee_unmarshal env (take n raw) = None \<and> ee_unmarshal env (TrimSpace (take n raw)) = None)"

lemma appendTo_torn:
  assumes "live_at env f k live" and "torn_at env n r" and "ee_marshal env r = Some raw" and "length raw + 1 \<le> maxRecordBytes"
  shows "torn_file env (fst (appendTo (Torn n) (raw @ [newline]) f)) k"
proof -
  have c: "n < length raw" "newline \<notin> set raw" "CHR 0x0D \<notin> set raw" "TrimSpace (take n raw) \<noteq> []" "ee_unmarshal env (take n raw) = None"
      "ee_unmarshal env (TrimSpace (take n raw)) = None"
    using assms(2,3) by (auto simp: torn_at_def)
  have junk: "take n (raw @ [newline]) = take n raw" "newline \<notin> set (take n raw)" "CHR 0x0D \<notin> set (take n raw)" "fitsRecord (take n raw)" "0 < length (take n raw)"
    using c(1-3) assms(4) TrimSpace_Nil_torn [OF c(4)] by (auto simp: fitsRecord_def dest: in_set_takeD)
  obtain raws where raws: "fst (appendTo (Torn n) (raw @ [newline]) f) = BytesFile True (unlines raws @ take n raw)" "k = int (length (unlines raws))"
      "\<forall>raw\<in>set raws. line_ok raw"
    using assms(1) junk(1) that [of "[]"] by (auto simp: live_at_def file_lines_def appendTo_def)
  show ?thesis unfolding torn_file_def
    by (intro exI [of _ raws] exI [of _ "take n raw"]) (use raws c junk in \<open>simp add: min_def\<close>)
qed

lemma rotate_fails_same: "rotateLocked env inp l d = (l', d', Inl e) \<Longrightarrow> d' = d"
  by (auto simp: rotateLocked_def Let_def split: if_splits efile.splits prod.splits)

lemma appendLocked_torn:
  assumes st: "chain_state env l d s p rss live" and app: "appendLocked env inp kind action result l d = (l', d', Inl e)"
    and n: "ei_appendWrite inp = Torn n"
      "\<forall>mac. calculate env (lg_key l) (newRecord inp kind action result l) = Inr mac \<longrightarrow> torn_at env n ((newRecord inp kind action result l)\<lparr>ev_MAC := mac\<rparr>)"
    and changed: "ed_live d' \<noteq> ed_live d"
  shows "torn_file env (ed_live d') (lg_fileBytes l')"
proof -
  define r0 where "r0 = newRecord inp kind action result l"
  obtain mac where mac: "calculate env (lg_key l) r0 = Inr mac"
    using app changed by (auto simp: appendLocked_def r0_def Let_def split: sum.splits)
  obtain raw where raw: "ee_marshal env (r0\<lparr>ev_MAC := mac\<rparr>) = Some raw" "length raw + 1 \<le> maxRecordBytes"
    using app changed mac by (auto simp: appendLocked_def r0_def Let_def split: option.splits if_splits)
  obtain l1 d1 v where m: "makeRoom env inp (length raw) l d = (l1, d1, v)" using prod_cases3 by blast
  have v: "v = Inr ()"
  proof (cases v)
    case (Inl e')
    then have "d1 = d" using m rotate_fails_same by (auto simp: makeRoom_def split: if_splits)
    then show ?thesis using app changed mac raw m Inl by (simp add: appendLocked_def r0_def Let_def)
  qed simp
  obtain s' p' rss' live' where "chain_state env l1 d1 s' p' rss' live'"
    using m v st rotate_chain [of env inp l d l1 d1, OF _ st] by (auto simp: makeRoom_def split: if_splits)
  then have "live_at env (ed_live d1) (lg_fileBytes l1) live'" by (simp add: chain_state_def)
  from appendTo_torn [OF this n(2) [folded r0_def, rule_format, OF mac] raw] have torn: "torn_file env (fst (appendTo (Torn n) (raw @ [newline]) (ed_live d1))) (lg_fileBytes l1)" .
  obtain f e' where "appendTo (Torn n) (raw @ [newline]) (ed_live d1) = (f, Inl e')"
    by (cases "ed_live d1") (auto simp: appendTo_def)
  then show ?thesis using app mac raw m v n(1) torn by (auto simp: appendLocked_def r0_def Let_def)
qed

text \<open>
  C17 [torn_append_blocks]: after an append whose write stopped inside the JSON text of its record, every
  later append fails and leaves the directory as it is, and the ledger cannot be opened again:
  nothing cuts the incomplete line off. A write that lost only the newline is not meant: the record is
  then complete and the next append adopts it.
\<close>

theorem torn_append_blocks:
  assumes "chain_state env l d s p rss live" and "Append env inp kind action result l d = (l1, d1, Inl e)"
    and "ei_appendWrite inp = Torn n" and "ed_live d1 \<noteq> ed_live d"
    and "\<forall>r. pendingRecord env inp kind action result l d = Some r \<longrightarrow> torn_at env n r"
  shows "(\<exists>l2 vs. appends env qs l1 d1 = (l2, d1, vs) \<and> list_all isl vs) \<and>
    (\<exists>d2 e2. openLedger env inp2 key fingerprint witnessed d1 = (d2, Inl e2))"
proof -
  obtain l0 s1 p1 where r: "refreshLocked env l d = (l0, Inr ())" "chain_state env l0 d s1 p1 rss live"
    using refresh_chain [OF assms(1)] by metis
  obtain l2 where a: "appendLocked env inp kind action result l0 d = (l2, d1, Inl e)" "lg_fileBytes l1 = lg_fileBytes l2"
    using assms(2,4) r(1) by (auto simp: Append_def Let_def split: if_splits sum.splits prod.splits)
  have torn: "torn_file env (ed_live d1) (lg_fileBytes l1)" using appendLocked_torn [OF r(2) a(1) assms(3) _ assms(4)] a(2) assms(5) r(1) by (simp add: pendingRecord_def)
  have "False" if "ed_live d3 = ed_live d1" "verifyLocked env k d3 = (k', Inr ())" for k k' d3
    using verifyLocked_Inr [OF that(2)] torn_holds [OF torn] that(1) by (metis disk_holds_def)
  then have "\<exists>d2 e2. openLedger env inp2 key fingerprint witnessed d1 = (d2, Inl e2)" by (intro openLedger_fails) blast
  then show ?thesis using torn_appends [OF torn] by blast
qed

lemma sample_torn_at: "torn_at sampleEvidence 1 r"
proof -
  have "TrimSpace ''{'' = ''{''" by code_simp
  moreover have "ee_unmarshal sampleEvidence ''{'' = None" by (simp add: sampleEvidence_def)
  ultimately show ?thesis using sample_marshal [of r] by (auto simp: torn_at_def split: option.splits)
qed

lemma sample_torn:
  "\<exists>l1 e. Append sampleEvidence (sampleEvidenceInput\<lparr>ei_appendWrite := Torn 1\<rparr>) ''k'' ''a'' ''r'' sampleLedger (sampleEvidenceDisk NoFile) =
     (l1, sampleEvidenceDisk (BytesFile True ''{''), Inl e)"
proof -
  have mac: "calculate sampleEvidence k (sampleRecord\<lparr>ev_MAC := []\<rparr>) = Inr sampleDigest" for k by (simp add: calculate_def)
  have same: "sampleRecord\<lparr>ev_MAC := sampleDigest\<rparr> = sampleRecord" by (simp add: sampleRecord_def)
  have "appendLocked sampleEvidence (sampleEvidenceInput\<lparr>ei_appendWrite := Torn 1\<rparr>) ''k'' ''a'' ''r'' sampleLedger (sampleEvidenceDisk NoFile) =
      (sampleLedger, sampleEvidenceDisk (BytesFile True ''{''), Inl (Err ''write failed''))"
    by (simp add: mac same appendLocked_def sample_new Let_def maxRecordBytes_def makeRoom_def ledgerRotateBytes_def appendTo_def
        sampleEvidenceInput_def sampleEvidenceDisk_def)
  then show ?thesis by (simp add: Append_def sample_refresh sampleEvidenceInput_def)
qed

theorem torn_append_blocks_witness:
  "\<exists>d2 e2. openLedger sampleEvidence sampleEvidenceInput (replicate 32 (CHR ''k'')) sampleDigest True (sampleEvidenceDisk (BytesFile True ''{'')) = (d2, Inl e2)"
proof -
  obtain l1 e where a: "Append sampleEvidence (sampleEvidenceInput\<lparr>ei_appendWrite := Torn 1\<rparr>) ''k'' ''a'' ''r'' sampleLedger (sampleEvidenceDisk NoFile) =
     (l1, sampleEvidenceDisk (BytesFile True ''{''), Inl e)"
    using sample_torn by blast
  show ?thesis using torn_append_blocks [OF sample_chain a] sample_torn_at by simp
qed

end
