(* ===== verification/EvidencePage.thy ===== *)
theory EvidencePage
  imports EvidenceAppend
begin

text \<open>
  Reading the evidence ledger (\<open>internal/evidence/ledger.go\<close>, \<open>Page\<close> and \<open>Snapshot\<close>): a page is a window of the
  whole chain, newest record first, also when it spans the live file and several archives.
\<close>

section \<open>The newest records of several files\<close>

definition readable :: "evidence_env \<Rightarrow> efile \<Rightarrow> evidence_record list \<Rightarrow> bool" where
  "readable env f rs \<longleftrightarrow> (\<forall>n>0. \<exists>ls. readNewestLines f n = Inr ls \<and> map (decodeRecord env) ls = map Inr (take (nat n) (rev rs)))"

lemma readable_lines:
  assumes "file_lines env f rs"
  shows "readable env f rs"
proof -
  obtain raws where f: "f = BytesFile True (unlines raws)" "\<forall>raw\<in>set raws. line_ok raw" "map (decodeRecord env) raws = map Inr rs"
    using assms by (auto simp: file_lines_def)
  have "pieces (unlines raws) = raws @ [[]]" using pieces_unlines [of raws] f(2) line_ok_chars by blast
  moreover have "filter (\<lambda>l. l \<noteq> []) raws = raws" using f(2) by (auto simp: filter_id_conv line_ok_def)
  moreover have "list_all (\<lambda>l. length l \<le> maxRecordBytes) (take k (rev raws))" for k
    using f(2) by (fastforce simp: list_all_iff line_ok_def fitsRecord_def dest: in_set_takeD)
  ultimately have "readNewestLines f n = Inr (take (nat n) (rev raws))" if "0 < n" for n
    using newest_lines [OF that, of "unlines raws"] by (simp add: f(1) Let_def)
  moreover have "map (decodeRecord env) (take k (rev raws)) = map Inr (take k (rev rs))" for k
    using f(3) by (simp add: take_map [symmetric] rev_map [symmetric])
  ultimately show ?thesis by (simp add: readable_def)
qed

lemma readable_NoFile: "readable env NoFile []"
  by (simp add: readable_def readNewestLines_def)

lemma takeRecords_lines:
  assumes "map (decodeRecord env) ls = map Inr rs" and "0 < need"
  shows "takeRecords env ls skip need result = Inr (skip - length rs, need - length (drop skip rs), result @ take need (drop skip rs))"
  using assms
proof (induction env ls skip need result arbitrary: rs rule: takeRecords.induct)
  case (2 env line ls skip need result)
  obtain r rs' where rs: "rs = r # rs'" "decodeRecord env line = Inr r" "map (decodeRecord env) ls = map Inr rs'"
    using 2(3) by (auto simp: Cons_eq_map_conv)
  show ?case
  proof (cases "0 < skip")
    case True
    then show ?thesis using 2(1) [OF True rs(3) 2(4)] rs by (cases skip) simp_all
  next
    case False
    show ?thesis
    proof (cases "need - 1 = 0")
      case True
      then have "need = 1" using 2(4) by simp
      then show ?thesis using False rs by simp
    next
      case more: False
      then obtain k where "need = Suc k" by (cases need) auto
      then show ?thesis using 2(2) [OF False rs(2) more rs(3)] False rs more by simp
    qed
  qed
qed simp

lemma newestFromFiles_spec:
  assumes "list_all2 (readable env) fs rss"
  shows "newestFromFiles env fs skip need result = Inr (result @ take need (drop skip (concat (map rev rss))))"
  using assms
proof (induction fs arbitrary: rss skip need result)
  case Nil
  then show ?case by simp
next
  case (Cons f fs)
  obtain rs rss' where rss: "rss = rs # rss'" "readable env f rs" "list_all2 (readable env) fs rss'" using Cons.prems by (auto simp: list_all2_Cons1)
  show ?case
  proof (cases "need = 0")
    case False
    then obtain ls where ls: "readNewestLines f (int (skip + need)) = Inr ls" "map (decodeRecord env) ls = map Inr (take (skip + need) (rev rs))"
      using rss(2) unfolding readable_def by (metis bot_nat_0.not_eq_extremum nat_int of_nat_0_less_iff trans_less_add2)
    have "takeRecords env ls skip need result = Inr (skip - length rs, need - (length rs - skip), result @ take need (drop skip (rev rs)))"
      using takeRecords_lines [OF ls(2), of need skip result] False by (auto simp: min_def drop_take)
    then show ?thesis using False ls(1) rss Cons.IH [OF rss(3)] by simp
  qed simp
qed

section \<open>Pages\<close>

lemma archives_at_lines: "archives_at env d s as rss \<Longrightarrow> list_all2 (readable env) (map (\<lambda>a. archiveFile d (la_name a)) as) rss"
  by (induction env d s as rss rule: archives_at.induct) (auto intro: readable_lines)

lemma newest_of_chain:
  assumes st: "chain_state env l d s p rss live" and "0 < limit" and "0 \<le> offset" and "of_int offset < availableRecords l"
  shows "newestRecordsLocked env l d limit offset = Inr (take (nat limit) (drop (nat offset) (rev (concat rss @ live))))"
proof -
  have "archives_at env d s (lg_archives l) rss" "live_at env (ed_live d) (lg_fileBytes l) live" using st by (simp_all add: chain_state_def chain_core_def)
  then have "list_all2 (readable env) (ed_live d # map (\<lambda>a. archiveFile d (la_name a)) (rev (lg_archives l))) (live # rev rss)"
    using archives_at_lines readable_lines readable_NoFile by (fastforce simp: live_at_def rev_map [symmetric])
  from newestFromFiles_spec [OF this, of "nat offset" "nat limit" "[]"] show ?thesis
    using assms(2-4) by (simp add: newestRecordsLocked_def rev_concat)
qed

lemma refresh_available:
  assumes st: "chain_state env l d s p rss live" and retained: "lg_retainedFromSequence l = s" and ref: "refreshLocked env l d = (l1, Inr ())"
  shows "unat (availableRecords l1) = length (concat rss @ live)"
proof -
  have core: "archives_at env d s (lg_archives l) rss" "0 < unat s" "unat s + length (concat rss @ live) < 2 ^ 64" "loadArchives d = Inr (lg_archives l)"
      "live_at env (ed_live d) (lg_fileBytes l) live" "lg_sequence l = s + of_nat (length (concat rss @ live)) - 1"
    using st by (auto simp: chain_state_def chain_core_def)
  define n where "n = length (concat rss @ live)"
  have word: "unat (s + of_nat n - 1) = unat s + n - 1" by (rule sequence_word(2) [OF core(2)]) (use core(3) in \<open>simp add: n_def\<close>)
  have count: "unat (availableRecords k) = n" if "lg_sequence k = s + of_nat n - 1" "lg_retainedFromSequence k = s" for k
  proof (cases "n = 0")
    case True
    then show ?thesis using that word core(2) by (auto simp: availableRecords_def word_less_nat_alt)
  next
    case False
    have "\<not> lg_sequence k < s" "lg_sequence k \<noteq> 0" using that word False core(2) by (auto simp: word_less_nat_alt unat_eq_0 [symmetric] simp del: unat_eq_0)
    moreover have "s + of_nat n - 1 - s + 1 = of_nat n" by (simp add: algebra_simps)
    moreover have "unat (of_nat n :: seq) = n" using core(3) unfolding n_def [symmetric] by (simp add: unat_of_nat)
    ultimately show ?thesis using that by (simp add: availableRecords_def)
  qed
  obtain l2 where r: "refreshLocked env l d = (l2, Inr ())" "concat rss @ live \<noteq> [] \<longrightarrow> lg_sequence l2 = lg_sequence l"
    using refresh_chain [OF st] by metis
  have seq: "concat rss @ live \<noteq> [] \<longrightarrow> lg_sequence l1 = s + of_nat n - 1" using r ref core(6) by (simp add: n_def)
  consider (present) c where "ed_live d = BytesFile True c" "lg_fileBytes l = int (length c)" | (empty) "ed_live d = NoFile" "live = []" "lg_archives l = []"
    | (archived) a as where "ed_live d = NoFile" "lg_archives l = a # as"
    using core(5) by (cases "lg_archives l") (auto simp: live_at_def)
  then have "unat (availableRecords l1) = n"
  proof cases
    case present
    then have "l1 = l" using ref core(4) by (simp add: refreshLocked_def)
    then show ?thesis using count [of l] core(6) retained by (simp add: n_def)
  next
    case empty
    then have "lg_sequence l1 = 0" using ref core(4) by (auto simp: refreshLocked_def refreshFromArchivesLocked_def Let_def)
    moreover have "n = 0" using empty core(1) by (cases rss) (auto simp: n_def)
    ultimately show ?thesis by (simp add: availableRecords_def)
  next
    case archived
    then obtain rs rss' where rss: "rss = rs # rss'" "la_firstSequence a = s" "rs \<noteq> []" using core(1) by (cases rss) auto
    have "lg_retainedFromSequence l1 = (if 1 < s then s else 1)"
      using ref archived core(4) rss(2)
      by (auto simp: refreshLocked_def refreshFromArchivesLocked_def refreshRetainedFromLocked_def Let_def split: sum.splits option.splits)
    also have "\<dots> = s" using core(2) by (auto simp: word_less_nat_alt word_unat_eq_iff)
    finally show ?thesis using count [of l1] seq rss by simp
  qed
  then show ?thesis by (simp only: n_def)
qed

text \<open>
  C19 [LedgerPage_window]: a page of a ledger that is in step with its directory is the requested window of
  the chain, newest record first, over the live file and all archives, together with the number
  of retained records; past the end it is empty.
\<close>

theorem LedgerPage_window:
  assumes "chain_state env l d s p rss live" and "lg_retainedFromSequence l = s" and "1 \<le> limit" and "limit \<le> maxLedgerPageLimit"
    and "0 \<le> offset" and "offset \<le> maxLedgerPageOffset" and "length (concat rss @ live) < 2 ^ 63"
  shows "\<exists>l1. LedgerPage env limit offset l d =
    (l1, Inr (take (nat limit) (drop (nat offset) (rev (concat rss @ live))), int (length (concat rss @ live))))"
proof -
  obtain l1 s' p' where r: "refreshLocked env l d = (l1, Inr ())" "chain_state env l1 d s' p' rss live" using refresh_chain [OF assms(1)] by metis
  define n where "n = length (concat rss @ live)"
  have count: "unat (availableRecords l1) = n" using refresh_available [OF assms(1,2) r(1)] by (simp add: n_def)
  have "availableRecords l1 = of_nat n" unfolding count [symmetric] by simp
  moreover have "n < 2 ^ 63" using assms(7) by (simp add: n_def)
  ultimately have total: "sint (availableRecords l1) = int n" by (simp add: signed_of_nat signed_take_bit_int_eq_self)
  show ?thesis
  proof (cases "int n \<le> offset")
    case True
    then have "drop (nat offset) (rev (concat rss @ live)) = []" by (simp add: n_def)
    then show ?thesis using r(1) total True assms(3-5) by (simp add: LedgerPage_def n_def)
  next
    case False
    have "of_int offset = (of_nat (nat offset) :: seq)" using assms(5) by simp
    moreover have "nat offset < 2 ^ 64" using assms(6) by (simp add: maxLedgerPageOffset_def)
    ultimately have "unat (of_int offset :: seq) = nat offset" by (simp only: unat_of_nat) (simp add: take_bit_nat_eq_self)
    then have "of_int offset < availableRecords l1" using False count assms(5) by (simp add: word_less_nat_alt)
    then show ?thesis using newest_of_chain [OF r(2), of limit offset] r(1) total False assms(3-6)
      by (simp add: LedgerPage_def n_def)
  qed
qed

lemma sample_chain_one: "chain_state sampleEvidence sampleVerified (sampleEvidenceDisk sampleFile) 1 [] [] [sampleRecord]"
proof -
  have "line_ok ''{1}''" using sample_codec_at [of sampleRecord] by (simp add: line_ok_def codec_at_def fitsRecord_def maxRecordBytes_def)
  then have "file_lines sampleEvidence sampleFile [sampleRecord]"
    unfolding file_lines_def sampleFile_def by (intro exI [of _ "[''{1}'']"]) simp
  then show ?thesis by (simp add: chain_state_def chain_core_def live_at_def loadArchives_def sampleVerified_def) (simp add: sampleFile_def)
qed

theorem LedgerPage_window_witness:
  "\<exists>l1. LedgerPage sampleEvidence 10 0 sampleVerified (sampleEvidenceDisk sampleFile) = (l1, Inr ([sampleRecord], 1))"
  using LedgerPage_window [OF sample_chain_one, of 10 0] by (simp add: maxLedgerPageLimit_def maxLedgerPageOffset_def sampleVerified_def)

end
