(* ===== verification/Startup.thy ===== *)
theory Startup
  imports Files
begin

text \<open>
  \<open>internal/startup/state.go\<close>: whether the readiness check and the first-run setup must be shown. The state
  file is a \<open>stored\<close> value; the uptime of the host in milliseconds (\<open>GetTickCount64\<close>) and the clock are
  arguments of the operations, in the order in which the code reads them.
\<close>

section \<open>Definitions\<close>

definition reasonFirstRun :: string where "reasonFirstRun = ''first-run''"
definition reasonVersionChanged :: string where "reasonVersionChanged = ''version-changed''"
definition reasonReboot :: string where "reasonReboot = ''reboot''"
definition reasonNone :: string where "reasonNone = []"

type_synonym uptime = "64 word"

record startupResult =
  sr_required :: bool
  sr_reason :: string
  sr_version :: string
  sr_currentVersion :: string
  sr_lastVersion :: string
  sr_lastBootUTC :: gotime
  sr_acknowledgedUTC :: gotime
  sr_sinceUTC :: gotime

record persisted =
  ps_version :: string
  ps_uptimeMS :: uptime
  ps_acknowledgedUTC :: gotime
  ps_setupCompletedUTC :: gotime
  ps_setupProfile :: string

record setupResult =
  su_complete :: bool
  su_profile :: string
  su_completedUTC :: gotime
  su_currentVersion :: string

definition errNotExist :: goerr where "errNotExist = Err ''file does not exist''"

definition loadLocked :: "persisted stored \<Rightarrow> persisted outcome" where
  "loadLocked f =
     (case f of
        Absent \<Rightarrow> Inl errNotExist
      | Unreadable \<Rightarrow> Inl (Err ''access denied'')
      | Stored n regular content \<Rightarrow>
          (case content of
             Decoded v \<Rightarrow> if ps_version v = [] \<or> ps_acknowledgedUTC v = 0 then Inl (Err ''startup state is incomplete'') else Inr v
           | _ \<Rightarrow> Inl (Err ''invalid JSON'')))"

text \<open>The product of a duration in milliseconds wraps at 64 bits.\<close>

definition bootTime :: "gotime \<Rightarrow> uptime \<Rightarrow> gotime" where
  "bootTime now u = now + sint (- u * 1000000)"

definition longUptime :: uptime where "longUptime = 3153600000000"

definition baseResult :: "string \<Rightarrow> startupResult" where
  "baseResult version = \<lparr>sr_required = False, sr_reason = reasonNone, sr_version = version, sr_currentVersion = version, sr_lastVersion = [],
     sr_lastBootUTC = 0, sr_acknowledgedUTC = 0, sr_sinceUTC = 0\<rparr>"

definition Required :: "uptime \<Rightarrow> gotime \<Rightarrow> string \<Rightarrow> persisted stored \<Rightarrow> startupResult outcome" where
  "Required current now version f =
     (if version = [] then Inl (Err ''startup version is required'')
      else case loadLocked f of
        Inl e \<Rightarrow>
          if e = errNotExist then Inr ((baseResult version)\<lparr>sr_required := True, sr_reason := reasonFirstRun\<rparr>)
          else Inr ((baseResult version)\<lparr>sr_required := True, sr_reason := ''state-unreadable''\<rparr>)
      | Inr previous \<Rightarrow>
          let r = (baseResult version)\<lparr>sr_lastVersion := ps_version previous, sr_acknowledgedUTC := ps_acknowledgedUTC previous,
                sr_sinceUTC := ps_acknowledgedUTC previous,
                sr_lastBootUTC := (if 0 < ps_uptimeMS previous \<and> ps_uptimeMS previous < longUptime then bootTime now (ps_uptimeMS previous) else 0)\<rparr> in
          if ps_version previous \<noteq> version then Inr (r\<lparr>sr_required := True, sr_reason := reasonVersionChanged\<rparr>)
          else if current + 5000 < ps_uptimeMS previous then Inr (r\<lparr>sr_required := True, sr_reason := reasonReboot\<rparr>)
          else Inr (r\<lparr>sr_required := False, sr_reason := reasonNone\<rparr>))"

text \<open>The temporary file and its rename; \<open>bytes\<close> is the size of the encoded value, \<open>None\<close> when it cannot be encoded.\<close>

definition commitState :: "(persisted \<Rightarrow> nat option) \<Rightarrow> bool \<Rightarrow> persisted \<Rightarrow> persisted stored \<Rightarrow> persisted stored outcome" where
  "commitState bytes ok v f =
     (case bytes v of
        None \<Rightarrow> Inl (Err ''marshal failed'')
      | Some n \<Rightarrow> if ok then Inr (Stored (Suc n) True (Decoded v)) else Inl (Err ''startup state commit''))"

definition Acknowledge ::
    "(persisted \<Rightarrow> nat option) \<Rightarrow> bool \<Rightarrow> gotime \<Rightarrow> uptime \<Rightarrow> gotime \<Rightarrow> uptime \<Rightarrow> string \<Rightarrow> persisted stored \<Rightarrow>
       persisted stored \<times> startupResult outcome" where
  "Acknowledge bytes ok now u now2 u2 version f =
     (if version = [] then (f, Inl (Err ''startup version is required''))
      else let (profile, completed) = (case loadLocked f of Inr p \<Rightarrow> (ps_setupProfile p, ps_setupCompletedUTC p) | Inl e \<Rightarrow> ([], 0));
               v = \<lparr>ps_version = version, ps_uptimeMS = u, ps_acknowledgedUTC = now, ps_setupCompletedUTC = completed, ps_setupProfile = profile\<rparr> in
        case commitState bytes ok v f of
          Inl e \<Rightarrow> (f, Inl e)
        | Inr f' \<Rightarrow> (f', Inr ((baseResult version)\<lparr>sr_acknowledgedUTC := now, sr_sinceUTC := now, sr_lastBootUTC := bootTime now2 u2\<rparr>)))"

definition SetupStatus :: "string \<Rightarrow> persisted stored \<Rightarrow> setupResult outcome" where
  "SetupStatus version f =
     (if version = [] then Inl (Err ''setup version is required'')
      else case loadLocked f of
        Inl e \<Rightarrow> if e = errNotExist then Inr \<lparr>su_complete = False, su_profile = [], su_completedUTC = 0, su_currentVersion = version\<rparr> else Inl e
      | Inr p \<Rightarrow> Inr \<lparr>su_complete = (ps_setupCompletedUTC p \<noteq> 0), su_profile = ps_setupProfile p, su_completedUTC = ps_setupCompletedUTC p,
          su_currentVersion = version\<rparr>)"

definition setupProfiles :: "string list" where
  "setupProfiles = [''personal'', ''business'', ''server'', ''developer'']"

definition CompleteSetup ::
    "(persisted \<Rightarrow> nat option) \<Rightarrow> bool \<Rightarrow> gotime \<Rightarrow> uptime \<Rightarrow> string \<Rightarrow> string \<Rightarrow> persisted stored \<Rightarrow> persisted stored \<times> setupResult outcome" where
  "CompleteSetup bytes ok now u profile version f =
     (if version = [] then (f, Inl (Err ''setup version is required''))
      else if profile \<notin> set setupProfiles then (f, Inl (Err ''setup profile is invalid''))
      else let finish = (\<lambda>previous.
             case commitState bytes ok (previous\<lparr>ps_version := version, ps_uptimeMS := u, ps_setupCompletedUTC := now, ps_setupProfile := profile\<rparr>) f of
               Inl e \<Rightarrow> (f, Inl e)
             | Inr f' \<Rightarrow> (f', Inr \<lparr>su_complete = True, su_profile = profile, su_completedUTC = now, su_currentVersion = version\<rparr>)) in
        case loadLocked f of
          Inr p \<Rightarrow> finish p
        | Inl e \<Rightarrow>
            if e \<noteq> errNotExist then (f, Inl e)
            else finish \<lparr>ps_version = version, ps_uptimeMS = 0, ps_acknowledgedUTC = now, ps_setupCompletedUTC = 0, ps_setupProfile = []\<rparr>)"

section \<open>The state file\<close>

definition complete_state :: "persisted \<Rightarrow> bool" where
  "complete_state v \<longleftrightarrow> ps_version v \<noteq> [] \<and> ps_acknowledgedUTC v \<noteq> 0"

definition saveState :: "bool \<Rightarrow> persisted \<Rightarrow> persisted stored \<Rightarrow> persisted stored" where
  "saveState ok v f = (case commitState (\<lambda>v. Some 0) ok v f of Inl e \<Rightarrow> f | Inr f' \<Rightarrow> f')"

interpretation startup: durable_store saveState loadLocked complete_state
  by unfold_locales (auto simp: saveState_def commitState_def loadLocked_def complete_state_def)

lemma commitState_Inr: "commitState bytes ok v f = Inr f' \<Longrightarrow> \<exists>n. f' = Stored n True (Decoded v)"
  by (auto simp: commitState_def split: option.splits if_splits)

lemma load_committed: "commitState bytes ok v f = Inr f' \<Longrightarrow> complete_state v \<Longrightarrow> loadLocked f' = Inr v"
  by (auto simp: loadLocked_def complete_state_def dest!: commitState_Inr)

lemma Required_loaded:
  "loadLocked f = Inr p \<Longrightarrow> version \<noteq> [] \<Longrightarrow> \<exists>r. Required c t version f = Inr r \<and>
     sr_reason r = (if ps_version p \<noteq> version then reasonVersionChanged else if c + 5000 < ps_uptimeMS p then reasonReboot else reasonNone) \<and>
     (sr_required r \<longleftrightarrow> ps_version p \<noteq> version \<or> c + 5000 < ps_uptimeMS p)"
  by (auto simp: Required_def Let_def)

text \<open>
  After an acknowledged check, the check of the same version is required again exactly when the uptime
  of the host is more than five seconds below the recorded one, and that of another version always;
  the result of the first-run setup is kept. A reboot is therefore not noticed once the host has again
  been running for as long as it had at the acknowledgement.
\<close>

lemma acknowledged_until_reboot:
  assumes "Acknowledge bytes ok now u now2 u2 version f = (f', Inr r)" and "now \<noteq> 0" and "v \<noteq> []"
  shows "(\<exists>q. Required c t v f' = Inr q \<and> (sr_required q \<longleftrightarrow> v \<noteq> version \<or> c + 5000 < u) \<and>
      sr_reason q = (if v \<noteq> version then reasonVersionChanged else if c + 5000 < u then reasonReboot else reasonNone)) \<and>
    (\<not> isl (SetupStatus v f) \<longrightarrow> SetupStatus v f' = SetupStatus v f)"
proof -
  define profile completed where "profile = (case loadLocked f of Inr p \<Rightarrow> ps_setupProfile p | Inl e \<Rightarrow> [])"
    and "completed = (case loadLocked f of Inr p \<Rightarrow> ps_setupCompletedUTC p | Inl e \<Rightarrow> 0)"
  let ?v = "\<lparr>ps_version = version, ps_uptimeMS = u, ps_acknowledgedUTC = now, ps_setupCompletedUTC = completed, ps_setupProfile = profile\<rparr>"
  have commit: "commitState bytes ok ?v f = Inr f'" and version: "version \<noteq> []"
    using assms(1) by (auto simp: Acknowledge_def Let_def profile_def completed_def split: if_splits sum.splits)
  have load: "loadLocked f' = Inr ?v" by (rule load_committed [OF commit]) (use version assms(2) in \<open>simp add: complete_state_def\<close>)
  moreover have "SetupStatus v f' = SetupStatus v f" if "\<not> isl (SetupStatus v f)"
    using that load by (auto simp: SetupStatus_def profile_def completed_def split: if_splits sum.splits)
  ultimately show ?thesis using Required_loaded [OF load assms(3), of c t] by auto
qed

text \<open>
  Completing the first-run setup after an update makes the readiness check of the new
  version count as done: before it the check was required, after it no longer, although nobody
  acknowledged it.
\<close>

lemma setup_marks_ready:
  assumes "loadLocked f = Inr p" and "ps_version p \<noteq> version" and "CompleteSetup bytes ok now u profile version f = (f', Inr r)"
    and "u \<le> c + 5000"
  shows "(\<exists>q. Required c t version f = Inr q \<and> sr_required q \<and> sr_reason q = reasonVersionChanged) \<and>
    (\<exists>q. Required c t version f' = Inr q \<and> \<not> sr_required q \<and> sr_acknowledgedUTC q = ps_acknowledgedUTC p)"
proof -
  let ?v = "p\<lparr>ps_version := version, ps_uptimeMS := u, ps_setupCompletedUTC := now, ps_setupProfile := profile\<rparr>"
  have v: "version \<noteq> []" "commitState bytes ok ?v f = Inr f'"
    using assms(1,3) by (auto simp: CompleteSetup_def Let_def split: if_splits sum.splits)
  have "complete_state ?v" using assms(1) v(1) by (auto simp: complete_state_def loadLocked_def split: stored.splits content.splits if_splits)
  from load_committed [OF v(2) this] have "loadLocked f' = Inr ?v" .
  then show ?thesis using assms v(1) by (auto simp: Required_def Let_def)
qed

end
