(* ===== verification/WinPath.thy ===== *)
theory WinPath
  imports FeedAuthority
begin

text \<open>
  What the program uses of \<open>path/filepath\<close> on Windows and further functions of \<open>strings\<close>.
\<close>

section \<open>File names\<close>

text \<open>\<open>filepath.Base\<close> on Windows, with the volume names of \<open>internal/filepathlite\<close>.\<close>

definition isPathSeparator :: "char \<Rightarrow> bool" where
  "isPathSeparator c \<longleftrightarrow> c = CHR 0x5C \<or> c = CHR ''/''"

definition uncLen :: "string \<Rightarrow> nat \<Rightarrow> nat" where
  "uncLen path n =
     (case filter (\<lambda>i. isPathSeparator (path ! i)) [n..<length path] of
        a # b # rest \<Rightarrow> b
      | _ \<Rightarrow> length path)"

definition pathHasPrefixFold :: "string \<Rightarrow> string \<Rightarrow> bool" where
  "pathHasPrefixFold s prefix \<longleftrightarrow> length prefix \<le> length s \<and>
     list_all2 (\<lambda>p c. if isPathSeparator p then isPathSeparator c else ascii_lower p = ascii_lower c) prefix (take (length prefix) s) \<and>
     (length prefix < length s \<longrightarrow> isPathSeparator (s ! length prefix))"

definition volumeNameLen :: "string \<Rightarrow> nat" where
  "volumeNameLen path =
     (if 2 \<le> length path \<and> path ! 1 = CHR '':'' then 2
      else if path = [] \<or> \<not> isPathSeparator (path ! 0) then 0
      else if pathHasPrefixFold path [CHR 0x5C, CHR 0x5C, CHR ''.'', CHR 0x5C, CHR ''U'', CHR ''N'', CHR ''C''] then uncLen path 8
      else if pathHasPrefixFold path [CHR 0x5C, CHR 0x5C, CHR ''.''] \<or> pathHasPrefixFold path [CHR 0x5C, CHR 0x5C, CHR ''?''] \<or>
         pathHasPrefixFold path [CHR 0x5C, CHR ''?'', CHR ''?'']
      then if length path = 3 then 3
           else 4 + length (takeWhile (\<lambda>c. \<not> isPathSeparator c) (drop 4 path))
      else if 2 \<le> length path \<and> isPathSeparator (path ! 1) then uncLen path 2
      else 0)"

definition pathBase :: "string \<Rightarrow> string" where
  "pathBase path0 =
     (if path0 = [] then ''.''
      else let path1 = rev (dropWhile isPathSeparator (rev path0));
               path2 = drop (volumeNameLen path1) path1;
               path3 = rev (takeWhile (\<lambda>c. \<not> isPathSeparator c) (rev path2)) in
        if path3 = [] then [CHR 0x5C] else path3)"

text \<open>
  \<open>filepath.Clean\<close> on Windows. The output is a lazy buffer: as long as it repeats the path, no buffer
  exists, and afterwards the buffer is as long as the path, so that bytes beyond the write position
  remain in it. \<open>postClean\<close> reads the whole buffer.
\<close>

record lazybuf =
  lb_path :: string
  lb_buf :: "string option"
  lb_w :: nat

definition backslash :: char where "backslash = CHR 0x5C"

definition FromSlash :: "string \<Rightarrow> string" where
  "FromSlash path = map (\<lambda>c. if c = CHR ''/'' then backslash else c) path"

definition lbIndex :: "lazybuf \<Rightarrow> nat \<Rightarrow> char" where
  "lbIndex b i = (case lb_buf b of Some s \<Rightarrow> s ! i | None \<Rightarrow> lb_path b ! i)"

definition lbAppend :: "char \<Rightarrow> lazybuf \<Rightarrow> lazybuf" where
  "lbAppend c b =
     (case lb_buf b of
        Some s \<Rightarrow> b\<lparr>lb_buf := Some (s[lb_w b := c]), lb_w := lb_w b + 1\<rparr>
      | None \<Rightarrow>
          if lb_w b < length (lb_path b) \<and> lb_path b ! lb_w b = c then b\<lparr>lb_w := lb_w b + 1\<rparr>
          else b\<lparr>lb_buf := Some ((take (lb_w b) (lb_path b) @ replicate (length (lb_path b) - lb_w b) (CHR 0x00))[lb_w b := c]), lb_w := lb_w b + 1\<rparr>)"

definition lbAppends :: "string \<Rightarrow> lazybuf \<Rightarrow> lazybuf" where
  "lbAppends s b = fold lbAppend s b"

fun lbBack :: "lazybuf \<Rightarrow> nat \<Rightarrow> nat \<Rightarrow> nat" where
  "lbBack b dotdot 0 = 0"
| "lbBack b dotdot (Suc w) = (if dotdot < Suc w \<and> \<not> isPathSeparator (lbIndex b (Suc w)) then lbBack b dotdot w else Suc w)"

function cleanLoop :: "bool \<Rightarrow> string \<Rightarrow> lazybuf \<Rightarrow> nat \<Rightarrow> lazybuf" where
  "cleanLoop rooted [] out dotdot = out"
| "cleanLoop rooted (c # cs) out dotdot =
     (if isPathSeparator c then cleanLoop rooted cs out dotdot
      else if c = CHR ''.'' \<and> (cs = [] \<or> isPathSeparator (hd cs)) then cleanLoop rooted cs out dotdot
      else if c = CHR ''.'' \<and> hd cs = CHR ''.'' \<and> (tl cs = [] \<or> isPathSeparator (hd (tl cs)))
      then if dotdot < lb_w out then cleanLoop rooted (tl cs) (out\<lparr>lb_w := lbBack out dotdot (lb_w out - 1)\<rparr>) dotdot
           else if \<not> rooted
           then let out1 = lbAppends ''..'' (if 0 < lb_w out then lbAppend backslash out else out) in cleanLoop rooted (tl cs) out1 (lb_w out1)
           else cleanLoop rooted (tl cs) out dotdot
      else let out1 = (if rooted \<and> lb_w out \<noteq> 1 \<or> \<not> rooted \<and> lb_w out \<noteq> 0 then lbAppend backslash out else out) in
           cleanLoop rooted (dropWhile (\<lambda>c. \<not> isPathSeparator c) cs) (lbAppends (c # takeWhile (\<lambda>c. \<not> isPathSeparator c) cs) out1) dotdot)"
  by pat_completeness auto
termination
  by (relation "measure (\<lambda>(rooted, cs, out, dotdot). length cs)") (auto simp: less_Suc_eq_le length_dropWhile_le)

definition lbPrepend :: "string \<Rightarrow> lazybuf \<Rightarrow> lazybuf" where
  "lbPrepend prefix b = b\<lparr>lb_buf := map_option ((@) prefix) (lb_buf b), lb_w := lb_w b + length prefix\<rparr>"

definition postClean :: "nat \<Rightarrow> lazybuf \<Rightarrow> lazybuf" where
  "postClean volLen out =
     (case lb_buf out of
        None \<Rightarrow> out
      | Some s \<Rightarrow>
          if volLen \<noteq> 0 then out
          else if CHR '':'' \<in> set (takeWhile (\<lambda>c. \<not> isPathSeparator c) s) then lbPrepend [CHR ''.'', backslash] out
          else if 3 \<le> length s \<and> isPathSeparator (s ! 0) \<and> s ! 1 = CHR ''?'' \<and> s ! 2 = CHR ''?'' then lbPrepend [backslash, CHR ''.''] out
          else out)"

definition lbString :: "string \<Rightarrow> lazybuf \<Rightarrow> string" where
  "lbString volume b = volume @ take (lb_w b) (case lb_buf b of Some s \<Rightarrow> s | None \<Rightarrow> lb_path b)"

definition Clean :: "string \<Rightarrow> string" where
  "Clean original =
     (let volLen = volumeNameLen original; path = drop volLen original in
      if path = []
      then if 1 < volLen \<and> isPathSeparator (original ! 0) \<and> isPathSeparator (original ! 1) then FromSlash original else original @ ''.''
      else let rooted = isPathSeparator (hd path);
               empty = \<lparr>lb_path = path, lb_buf = None, lb_w = 0\<rparr>;
               out = (if rooted then cleanLoop True (tl path) (lbAppend backslash empty) 1 else cleanLoop False path empty 0);
               out1 = (if lb_w out = 0 then lbAppend (CHR ''.'') out else out) in
           FromSlash (lbString (take volLen original) (postClean volLen out1)))"

section \<open>Searching and replacing\<close>

text \<open>\<open>strings.Index\<close>, \<open>strings.Contains\<close>, \<open>strings.TrimRight\<close> for line ends and \<open>strings.ReplaceAll\<close> of one byte.\<close>

fun strIndex :: "string \<Rightarrow> string \<Rightarrow> nat option" where
  "strIndex [] pat = (if pat = [] then Some 0 else None)"
| "strIndex (c # s) pat = (if starts_with (c # s) pat then Some 0 else map_option Suc (strIndex s pat))"

definition strContains :: "string \<Rightarrow> string \<Rightarrow> bool" where
  "strContains s pat \<longleftrightarrow> strIndex s pat \<noteq> None"

definition TrimEOL :: "string \<Rightarrow> string" where
  "TrimEOL s = rev (dropWhile (\<lambda>c. c = CHR 0x0D \<or> c = CHR 0x0A) (rev s))"

definition ReplaceByte :: "char \<Rightarrow> string \<Rightarrow> string \<Rightarrow> string" where
  "ReplaceByte c new s = concat (map (\<lambda>d. if d = c then new else [d]) s)"

text \<open>
  \<open>strings.ToLower\<close> and \<open>strings.ToUpper\<close> where the result is only compared with an ASCII string. Besides the
  ASCII letters, exactly the Kelvin sign and the dotted capital I become ASCII letters in lower case, and
  exactly the dotless small I and the long S in upper case; all other runes stay outside ASCII.
\<close>

fun asciiCase :: "(char \<Rightarrow> char) \<Rightarrow> (string \<times> char) list \<Rightarrow> string \<Rightarrow> string" where
  "asciiCase f special [] = []"
| "asciiCase f special (c # s) =
     (case find (\<lambda>(enc, d). starts_with (c # s) enc) special of
        Some (enc, d) \<Rightarrow> d # asciiCase f special (drop (length enc - 1) s)
      | None \<Rightarrow> f c # asciiCase f special s)"

definition ascii_upper :: "char \<Rightarrow> char" where
  "ascii_upper c = (if is_lower c then char_of (byte c - 32) else c)"

definition ToLowerASCII :: "string \<Rightarrow> string" where
  "ToLowerASCII s = asciiCase ascii_lower [([CHR 0xE2, CHR 0x84, CHR 0xAA], CHR ''k''), ([CHR 0xC4, CHR 0xB0], CHR ''i'')] s"

definition ToUpperASCII :: "string \<Rightarrow> string" where
  "ToUpperASCII s = asciiCase ascii_upper [([CHR 0xC4, CHR 0xB1], CHR ''I''), ([CHR 0xC5, CHR 0xBF], CHR ''S'')] s"

section \<open>Lemmas\<close>

lemma strIndex_split:
  assumes "strIndex s pat = Some i"
  shows "\<exists>v. s = take i s @ pat @ v \<and> i \<le> length s"
  using assms by (induction s arbitrary: i) (auto simp: starts_with_iff split: if_splits)

lemma strIndex_bound: "strIndex s pat = Some i \<Longrightarrow> i + length pat \<le> length s"
  using strIndex_split [of s pat i] by (metis append_assoc length_append length_take min.absorb2 le_add1)

lemma strIndex_le: "\<exists>j. strIndex (u @ pat @ v) pat = Some j \<and> j \<le> length u"
proof (induction u)
  case Nil
  show ?case
  proof (cases "pat @ v")
    case (Cons a list)
    have "starts_with (a # list) pat" unfolding Cons [symmetric] by simp
    then show ?thesis using Cons by simp
  qed simp
qed auto

lemma strIndex_None: "strIndex s pat = None \<longleftrightarrow> (\<forall>u v. s \<noteq> u @ pat @ v)"
  using strIndex_le [of _ pat] strIndex_split [of s pat] by (metis option.discI option.exhaust)

lemma strIndex_prefix: "strIndex (a @ b) pat = None \<Longrightarrow> strIndex a pat = None"
  by (metis strIndex_None append_assoc)

lemma strIndex_before:
  assumes "strIndex s pat = Some i" and "pat \<noteq> []"
  shows "strIndex (take i s) pat = None"
proof (rule ccontr)
  assume "strIndex (take i s) pat \<noteq> None"
  then obtain u v where u: "take i s = u @ pat @ v" using strIndex_None [of "take i s" pat] by auto
  have "strIndex s pat = strIndex (take i s @ drop i s) pat" by simp
  also have "\<dots> = strIndex (u @ pat @ v @ drop i s) pat" unfolding u by simp
  finally have "strIndex s pat = strIndex (u @ pat @ v @ drop i s) pat" .
  then obtain j where "strIndex s pat = Some j" "j \<le> length u" using strIndex_le [of u pat "v @ drop i s"] by auto
  moreover have "length u + length pat \<le> i" using arg_cong [OF u, of length] by simp
  ultimately show False using assms by (cases pat) auto
qed

lemma starts_with_separated: "starts_with (a @ c # b) pat \<Longrightarrow> c \<notin> set pat \<Longrightarrow> starts_with a pat"
proof (induction a arbitrary: pat)
  case Nil
  then show ?case by (cases pat) auto
next
  case (Cons d a)
  then show ?case by (cases pat) auto
qed

text \<open>No match crosses a byte that the searched string does not have.\<close>

lemma strIndex_separated:
  assumes "c \<notin> set pat" and "pat \<noteq> []" and "strIndex a pat = None"
  shows "strIndex (a @ c # b) pat = map_option ((+) (Suc (length a))) (strIndex b pat)"
  using assms
proof (induction a)
  case Nil
  then show ?case using starts_with_separated [of "[]" c b pat] by (cases pat) (auto simp: fun_eq_iff)
next
  case (Cons d a)
  then show ?case using starts_with_separated [of "d # a" c b pat] by (auto simp: option.map_comp comp_def split: if_splits)
qed

lemma TrimEOL_prefix: "\<exists>e. s = TrimEOL s @ e"
  unfolding TrimEOL_def by (metis rev_append rev_rev_ident takeWhile_dropWhile_id)

lemma TrimEOL_append: "set e \<subseteq> {CHR 0x0D, CHR 0x0A} \<Longrightarrow> TrimEOL (s @ e) = TrimEOL s"
  unfolding TrimEOL_def by (subst rev_append, subst dropWhile_append2) auto

lemma TrimEOL_idem [simp]: "TrimEOL (TrimEOL s) = TrimEOL s"
  unfolding TrimEOL_def by simp

end
