(* ===== verification/GhostMode.thy ===== *)
theory GhostMode
  imports WinPath
begin

text \<open>
  \<open>internal/mhx/telemetry_killer_windows.go\<close>: the two layers of ghost mode in the operating system, a
  block of null routes in the hosts file and firewall rules set by a PowerShell script.

  A \<open>ghost_os\<close> is what the functions see of the system: the hosts file (\<open>None\<close> when it cannot be read), the
  recovery copy, the scripts that were run with their success, and the number of attempts to replace
  the hosts file, by which the inputs are found.
\<close>

section \<open>Lists\<close>

definition ghostModeHeader :: string where "ghostModeHeader = ''# === VGT GHOST MODE TELEMETRY SINKHOLE START ===''"
definition ghostModeFooter :: string where "ghostModeFooter = ''# === VGT GHOST MODE TELEMETRY SINKHOLE END ===''"
definition ghostModeFirewallGroup :: string where "ghostModeFirewallGroup = ''VGT Ghost Mode Telemetry''"
definition ghostModeFirewallTag :: string where "ghostModeFirewallTag = ''VGT Ghost Mode''"

definition telemetryDomains :: "string list" where
  "telemetryDomains =
     [''telemetry.microsoft.com'', ''v10.events.data.microsoft.com'', ''v20.events.data.microsoft.com'',
      ''v10c.events.data.microsoft.com'', ''v20c.events.data.microsoft.com'', ''v10.vortex-win.data.microsoft.com'',
      ''v20.vortex-win.data.microsoft.com'', ''eu.vortex-win.data.microsoft.com'', ''us.vortex-win.data.microsoft.com'',
      ''apac.vortex-win.data.microsoft.com'', ''vortex.data.microsoft.com'', ''vortex-win.data.microsoft.com'',
      ''web.vortex.data.microsoft.com'', ''settings-win.data.microsoft.com'', ''settings.data.microsoft.com'',
      ''watson.telemetry.microsoft.com'', ''watson.ppe.telemetry.microsoft.com'', ''watson.microsoft.com'',
      ''feedback.windows.com'', ''feedback.microsoft.com'', ''activity.windows.com'',
      ''diagnostic.events.data.microsoft.com'', ''diagnostics.support.microsoft.com'', ''self.events.data.microsoft.com'',
      ''mobile.events.data.microsoft.com'', ''functional.events.data.microsoft.com'', ''browser.pipe.aria.microsoft.com'',
      ''pipe.aria.microsoft.com'', ''mobile.pipe.aria.microsoft.com'', ''browser.events.data.msn.com'',
      ''browser.events.data.microsoft.com'', ''onecollector.cloudapp.aria.microsoft.com'', ''events.data.msn.com'',
      ''events.data.microsoft.com'', ''data.microsoft.com'', ''arc.msn.com'',
      ''telemetry.visualstudio.com'', ''dc.services.visualstudio.com'', ''in.appcenter.ms'',
      ''oca.telemetry.microsoft.com'', ''oca.microsoft.com'', ''reports.wes.df.telemetry.microsoft.com'',
      ''wes.df.telemetry.microsoft.com'', ''df.telemetry.microsoft.com'', ''statsfe2.ws.microsoft.com'',
      ''sqm.microsoft.com'', ''telemetry.appex.bing.com'', ''telemetry.datacenter.microsoft.com'',
      ''telemetry.remoteapp.windowsazure.com'', ''telemetry.mgt.microsoft.com'', ''telemetry.officeapps.live.com'',
      ''nexus.officeapps.live.com'', ''telemetry.service.microsoft.com'', ''office.telemetry.microsoft.com'',
      ''telemetry.mail.microsoft.com'', ''telemetry.events.data.microsoft.com'', ''telemetry.azure.com'',
      ''telemetry.office.com'', ''telemetry.msn.com'', ''telemetry.bing.com'']"

text \<open>A path of components below the drive C.\<close>

definition driveC :: "string list \<Rightarrow> string" where
  "driveC components = ''C:'' @ concat (map (\<lambda>c. backslash # c) components)"

definition telemetryFirewallPrograms :: "string list" where
  "telemetryFirewallPrograms =
     [driveC [''Windows'', ''ImmersiveControlPanel'', ''SystemSettings.exe''], driveC [''Windows'', ''System32'', ''SystemSettingsAdminFlows.exe''],
      driveC [''Windows'', ''System32'', ''CompPkgSrv.exe''], driveC [''Windows'', ''System32'', ''smartscreen.exe''],
      driveC [''Windows'', ''System32'', ''WerFault.exe''], driveC [''Windows'', ''System32'', ''wermgr.exe'']]"

definition telemetryFirewallServices :: "string list" where
  "telemetryFirewallServices = [''DiagTrack'', ''dmwappushservice'', ''RetailDemo'']"

definition telemetryProcesses :: "string list" where
  "telemetryProcesses = [''systemsettings.exe'', ''systemsettingsadminflows.exe'', ''comppkgsrv.exe'', ''smartscreen.exe'', ''werfault.exe'',
     ''wermgr.exe'', ''diagtrack.exe'']"

definition isTelemetryProcess :: "string \<Rightarrow> bool" where
  "isTelemetryProcess imagePath \<longleftrightarrow> ToLowerASCII (pathBase (TrimSpace imagePath)) \<in> set telemetryProcesses"

section \<open>The hosts file\<close>

abbreviation LF :: char where "LF \<equiv> CHR 0x0A"

function stripGhostModeBlock :: "string \<Rightarrow> string" where
  "stripGhostModeBlock content =
     (case strIndex content ghostModeHeader of
        None \<Rightarrow> content
      | Some startIdx \<Rightarrow>
          (case strIndex (drop startIdx content) ghostModeFooter of
             None \<Rightarrow> TrimEOL (take startIdx content) @ [LF]
           | Some endIdx \<Rightarrow> stripGhostModeBlock (take startIdx content @ drop (startIdx + endIdx + length ghostModeFooter) content)))"
  by pat_completeness auto
termination
proof (relation "measure length")
  fix content :: string and startIdx endIdx :: nat
  assume "strIndex content ghostModeHeader = Some startIdx" "strIndex (drop startIdx content) ghostModeFooter = Some endIdx"
  then have "startIdx + length ghostModeHeader \<le> length content" "endIdx + length ghostModeFooter \<le> length content - startIdx"
    using strIndex_bound by fastforce+
  then show "(take startIdx content @ drop (startIdx + endIdx + length ghostModeFooter) content, content) \<in> measure length"
    by (simp add: ghostModeFooter_def)
qed simp

declare stripGhostModeBlock.simps [simp del]

definition sinkholeBlock :: string where
  "sinkholeBlock = ghostModeHeader @ [LF] @ concat (map (\<lambda>domain. ''0.0.0.0 '' @ domain @ [LF]) telemetryDomains) @ ghostModeFooter"

definition withSinkhole :: "string \<Rightarrow> string" where
  "withSinkhole content = TrimEOL content @ [LF, LF] @ sinkholeBlock @ [LF]"

text \<open>
  The answers of the system when the hosts file is replaced: the error of each step; a fallback write
  that fails leaves the file untouched or with the first bytes of the new content; a copy may be cut.
\<close>

record hosts_input =
  hi_read :: string
  hi_mkdir :: "string option"
  hi_create :: "string option"
  hi_write :: "string option"
  hi_flush :: "string option"
  hi_close :: "string option"
  hi_chmod :: "string option"
  hi_rename :: "string option"
  hi_backup :: "nat option"
  hi_rewrite :: "(string \<times> nat option) option"

record ghost_os =
  go_hosts :: "string option"
  go_backup :: "string option"
  go_scripts :: "(string \<times> bool) list"
  go_attempts :: nat

record ghost_input =
  gi_script :: "nat \<Rightarrow> string option"
  gi_hosts :: "nat \<Rightarrow> hosts_input"

fun firstError :: "(string \<times> string option) list \<Rightarrow> string option" where
  "firstError [] = None"
| "firstError ((step_name, None) # es) = firstError es"
| "firstError ((step_name, Some e) # es) = Some (step_name @ '': '' @ e)"

definition stagingError :: "hosts_input \<Rightarrow> string option" where
  "stagingError inp = firstError
     [(''create hosts staging directory'', hi_mkdir inp), (''create hosts staging file'', hi_create inp), (''write hosts staging file'', hi_write inp),
      (''flush hosts staging file'', hi_flush inp), (''close hosts staging file'', hi_close inp), (''permission hosts staging file'', hi_chmod inp)]"

text \<open>The truncating write that is tried when the staged file cannot be renamed.\<close>

definition rewriteHosts :: "hosts_input \<Rightarrow> string \<Rightarrow> string \<Rightarrow> string \<Rightarrow> ghost_os \<Rightarrow> ghost_os \<times> unit outcome" where
  "rewriteHosts inp err raw content os =
     (let os1 = (if go_backup os = None then os\<lparr>go_backup := map_option (\<lambda>n. take n raw) (hi_backup inp)\<rparr> else os) in
      case hi_rewrite inp of
        None \<Rightarrow> (os1\<lparr>go_hosts := Some content\<rparr>, Inr ())
      | Some (writeErr, done_bytes) \<Rightarrow>
          (case done_bytes of Some n \<Rightarrow> os1\<lparr>go_hosts := Some (take n content)\<rparr> | None \<Rightarrow> os1,
           Inl (Err (''replace hosts file: '' @ err @ '' (fallback rewrite failed: '' @ writeErr @ '')''))))"

definition applyGhostModeHostsSinkhole :: "ghost_input \<Rightarrow> bool \<Rightarrow> ghost_os \<Rightarrow> ghost_os \<times> unit outcome" where
  "applyGhostModeHostsSinkhole env enable os0 =
     (let inp = gi_hosts env (go_attempts os0); os = os0\<lparr>go_attempts := go_attempts os0 + 1\<rparr> in
      case go_hosts os of
        None \<Rightarrow> (os, Inl (Err (''read hosts file: '' @ hi_read inp)))
      | Some raw \<Rightarrow>
          let stripped = stripGhostModeBlock raw; content = (if enable then withSinkhole stripped else stripped) in
          if \<not> enable \<and> content = raw then (os, Inr ())
          else case stagingError inp of
            Some e \<Rightarrow> (os, Inl (Err e))
          | None \<Rightarrow>
              (case hi_rename inp of
                 None \<Rightarrow> (os\<lparr>go_hosts := Some content\<rparr>, Inr ())
               | Some e \<Rightarrow> rewriteHosts inp e raw content os))"

section \<open>The firewall rules\<close>

abbreviation quote :: char where "quote \<equiv> CHR 0x27"

definition programRule :: "string \<Rightarrow> string" where
  "programRule program = ''New-NetFirewallRule -Group $group -DisplayName '' @ [quote] @ ghostModeFirewallTag @ '' - '' @ pathBase program @ [quote] @
     '' -Direction Outbound -Action Block -Program '' @ [quote] @ ReplaceByte quote [quote, quote] program @ [quote] @ '' -Profile Any -Enabled True | Out-Null'' @ [LF]"

definition serviceRule :: "string \<Rightarrow> string" where
  "serviceRule service = ''New-NetFirewallRule -Group $group -DisplayName '' @ [quote] @ ghostModeFirewallTag @ '' - service '' @ service @ [quote] @
     '' -Direction Outbound -Action Block -Service '' @ service @ '' -Profile Any -Enabled True | Out-Null'' @ [LF]"

definition buildGhostFirewallScript :: "bool \<Rightarrow> string" where
  "buildGhostFirewallScript enable =
     ''$ErrorActionPreference='' @ [quote] @ ''Stop'' @ [quote, LF] @ ''$group='' @ [quote] @ ghostModeFirewallGroup @ [quote, LF] @
     ''Get-NetFirewallRule -Group $group -ErrorAction SilentlyContinue | Remove-NetFirewallRule -ErrorAction SilentlyContinue'' @ [LF] @
     (if enable then concat (map programRule telemetryFirewallPrograms) @ concat (map serviceRule telemetryFirewallServices) else [])"

definition runScript :: "ghost_input \<Rightarrow> string \<Rightarrow> ghost_os \<Rightarrow> ghost_os \<times> unit outcome" where
  "runScript env script os =
     (let answer = gi_script env (length (go_scripts os)); os1 = os\<lparr>go_scripts := go_scripts os @ [(script, answer = None)]\<rparr> in
      (os1, case answer of None \<Rightarrow> Inr () | Some e \<Rightarrow> Inl (Err e)))"

definition applyGhostModeFirewall :: "ghost_input \<Rightarrow> bool \<Rightarrow> ghost_os \<Rightarrow> ghost_os \<times> unit outcome" where
  "applyGhostModeFirewall env enable os =
     (case runScript env (buildGhostFirewallScript enable) os of
        (os1, Inr u) \<Rightarrow> (os1, Inr u)
      | (os1, Inl e) \<Rightarrow> (if enable then fst (runScript env (buildGhostFirewallScript False) os1) else os1, Inl e))"

definition applyGhostModeEffects :: "ghost_input \<Rightarrow> bool \<Rightarrow> ghost_os \<Rightarrow> ghost_os \<times> unit outcome" where
  "applyGhostModeEffects env enable os =
     (case applyGhostModeFirewall env enable os of
        (os1, Inl e) \<Rightarrow> (os1, Inl e)
      | (os1, Inr u) \<Rightarrow>
          (case applyGhostModeHostsSinkhole env enable os1 of
             (os2, Inr v) \<Rightarrow> (os2, Inr v)
           | (os2, Inl e) \<Rightarrow> (fst (applyGhostModeFirewall env (\<not> enable) os2), Inl e)))"

section \<open>The block of null routes\<close>

lemma ghost_marks: "LF \<notin> set ghostModeHeader" "LF \<notin> set ghostModeFooter" "ghostModeHeader \<noteq> []" "ghostModeFooter \<noteq> []"
    "strIndex ghostModeHeader ghostModeFooter = None"
  by (simp_all add: ghostModeHeader_def ghostModeFooter_def)

lemma strIndex_self: "pat \<noteq> [] \<Longrightarrow> strIndex (pat @ s) pat = Some 0"
  by (cases pat) (auto simp: starts_with_iff)

lemma domain_lines: "list_all (\<lambda>domain. strIndex (''0.0.0.0 '' @ domain) ghostModeFooter = None) telemetryDomains"
  by code_simp

lemma footer_after_lines:
  assumes "list_all (\<lambda>domain. strIndex (''0.0.0.0 '' @ domain) ghostModeFooter = None) ds"
  shows "strIndex (concat (map (\<lambda>domain. ''0.0.0.0 '' @ domain @ [LF]) ds) @ ghostModeFooter @ s) ghostModeFooter =
    Some (length (concat (map (\<lambda>domain. ''0.0.0.0 '' @ domain @ [LF]) ds)))"
  using assms
proof (induction ds)
  case Nil
  show ?case using strIndex_self ghost_marks(4) by simp
next
  case (Cons d ds)
  let ?rest = "concat (map (\<lambda>domain. ''0.0.0.0 '' @ domain @ [LF]) ds) @ ghostModeFooter @ s"
  have "strIndex ((''0.0.0.0 '' @ d) @ LF # ?rest) ghostModeFooter = map_option ((+) (Suc (length (''0.0.0.0 '' @ d)))) (strIndex ?rest ghostModeFooter)"
    using Cons.prems by (intro strIndex_separated ghost_marks) simp
  then show ?case using Cons by simp
qed

lemma footer_of_block: "strIndex (sinkholeBlock @ s) ghostModeFooter = Some (length sinkholeBlock - length ghostModeFooter)"
proof -
  let ?lines = "concat (map (\<lambda>domain. ''0.0.0.0 '' @ domain @ [LF]) telemetryDomains)"
  have "strIndex (ghostModeHeader @ LF # ?lines @ ghostModeFooter @ s) ghostModeFooter = Some (Suc (length ghostModeHeader) + length ?lines)"
    using strIndex_separated [OF ghost_marks(2,4,5), of "?lines @ ghostModeFooter @ s"] footer_after_lines [OF domain_lines, of s] by simp
  then show ?thesis by (simp add: sinkholeBlock_def)
qed

text \<open>A text without a block keeps its lines when the block is added and removed again.\<close>

lemma strip_clean: "strIndex c ghostModeHeader = None \<Longrightarrow> stripGhostModeBlock c = c"
  by (simp add: stripGhostModeBlock.simps)

lemma header_line_ends:
  assumes "strIndex c ghostModeHeader = None"
  shows "strIndex (c @ LF # s) ghostModeHeader = map_option ((+) (Suc (length c))) (strIndex s ghostModeHeader)"
  using assms ghost_marks by (intro strIndex_separated)

lemma strip_withSinkhole:
  assumes "strIndex c ghostModeHeader = None"
  shows "stripGhostModeBlock (withSinkhole c) = TrimEOL c @ [LF, LF, LF]"
proof -
  let ?t = "TrimEOL c" and ?w = "withSinkhole c"
  have t: "strIndex ?t ghostModeHeader = None" using TrimEOL_prefix [of c] assms strIndex_prefix by metis
  have "strIndex [] ghostModeHeader = None" "strIndex (sinkholeBlock @ [LF]) ghostModeHeader = Some 0"
    using strIndex_self ghost_marks(3) by (simp_all add: sinkholeBlock_def)
  then have h: "strIndex ?w ghostModeHeader = Some (length ?t + 2)" and n: "strIndex (?t @ [LF, LF, LF]) ghostModeHeader = None"
    using header_line_ends [OF t] header_line_ends [of "[]"] by (simp_all add: withSinkhole_def)
  have d: "drop (length ?t + 2) ?w = sinkholeBlock @ [LF]" by (simp add: withSinkhole_def)
  have "length ghostModeFooter \<le> length sinkholeBlock" by (simp add: sinkholeBlock_def)
  then have "take (length ?t + 2) ?w @ drop (length ?t + 2 + (length sinkholeBlock - length ghostModeFooter) + length ghostModeFooter) ?w = ?t @ [LF, LF, LF]"
    by (simp add: withSinkhole_def)
  then show ?thesis using h d footer_of_block [of "[LF]"] strip_clean [OF n] by (subst stripGhostModeBlock.simps) simp
qed

lemma strip_none: "strIndex (stripGhostModeBlock c) ghostModeHeader = None"
proof (induction c rule: stripGhostModeBlock.induct)
  case (1 c)
  show ?case
  proof (cases "strIndex c ghostModeHeader")
    case (Some i)
    have "strIndex (take i c) ghostModeHeader = None" using strIndex_before [OF Some ghost_marks(3)] .
    then have "strIndex (TrimEOL (take i c)) ghostModeHeader = None" using TrimEOL_prefix [of "take i c"] strIndex_prefix by metis
    then have "strIndex (TrimEOL (take i c) @ [LF]) ghostModeHeader = None" using header_line_ends [of _ "[]"] ghost_marks(3) by simp
    then show ?thesis using 1 Some by (subst stripGhostModeBlock.simps) (auto split: option.splits)
  qed (simp add: stripGhostModeBlock.simps)
qed

lemma TrimEOL_stripped: "TrimEOL (TrimEOL c @ [LF, LF, LF]) = TrimEOL c"
  using TrimEOL_append [of "[LF, LF, LF]" "TrimEOL c"] by simp

lemma hosts_replaced:
  assumes "applyGhostModeHostsSinkhole env enable os = (os', Inr ())"
  shows "\<exists>raw. go_hosts os = Some raw \<and> go_scripts os' = go_scripts os \<and>
    go_hosts os' = Some (if enable then withSinkhole (stripGhostModeBlock raw) else stripGhostModeBlock raw)"
  using assms by (auto simp: applyGhostModeHostsSinkhole_def rewriteHosts_def Let_def split: option.splits if_splits)

text \<open>
  Enabling ghost mode writes exactly one block of null routes after the lines of the
  owner, whatever earlier or truncated blocks the file had; enabling it again changes nothing;
  disabling it leaves the lines of the owner and no mark of the block. A file cannot make the
  removal run forever: it ends on every text.
\<close>

lemma ghost_hosts_reversible:
  assumes "applyGhostModeHostsSinkhole env True os = (os1, Inr ())" and "go_hosts os = Some raw"
  shows "go_hosts os1 = Some (TrimEOL (stripGhostModeBlock raw) @ [LF, LF] @ sinkholeBlock @ [LF]) \<and>
    (\<forall>env' os2. applyGhostModeHostsSinkhole env' True os1 = (os2, Inr ()) \<longrightarrow> go_hosts os2 = go_hosts os1) \<and>
    (\<forall>env' os2. applyGhostModeHostsSinkhole env' False os1 = (os2, Inr ()) \<longrightarrow>
       go_hosts os2 = Some (TrimEOL (stripGhostModeBlock raw) @ [LF, LF, LF]) \<and> \<not> strContains (the (go_hosts os2)) ghostModeHeader)"
proof -
  let ?c = "stripGhostModeBlock raw"
  have 1: "go_hosts os1 = Some (withSinkhole ?c)" using hosts_replaced [OF assms(1)] assms(2) by simp
  have s: "stripGhostModeBlock (withSinkhole ?c) = TrimEOL ?c @ [LF, LF, LF]" using strip_withSinkhole [OF strip_none] .
  have again: "withSinkhole (TrimEOL ?c @ [LF, LF, LF]) = withSinkhole ?c" by (simp only: withSinkhole_def TrimEOL_stripped)
  have clean: "\<not> strContains (TrimEOL ?c @ [LF, LF, LF]) ghostModeHeader" using strip_none [of "withSinkhole ?c"] s by (simp add: strContains_def)
  show ?thesis
  proof (intro conjI allI impI)
    show "go_hosts os1 = Some (TrimEOL ?c @ [LF, LF] @ sinkholeBlock @ [LF])" using 1 by (simp add: withSinkhole_def)
  next
    fix env' os2 assume "applyGhostModeHostsSinkhole env' True os1 = (os2, Inr ())"
    from hosts_replaced [OF this] show "go_hosts os2 = go_hosts os1" using 1 s again by simp
  next
    fix env' os2 assume "applyGhostModeHostsSinkhole env' False os1 = (os2, Inr ())"
    from hosts_replaced [OF this] show "go_hosts os2 = Some (TrimEOL ?c @ [LF, LF, LF])" using 1 s by simp
    then show "\<not> strContains (the (go_hosts os2)) ghostModeHeader" using clean by simp
  qed
qed

section \<open>Both layers\<close>

lemma hosts_scripts: "go_scripts (fst (applyGhostModeHostsSinkhole env enable os)) = go_scripts os"
  by (simp add: applyGhostModeHostsSinkhole_def rewriteHosts_def Let_def split: option.splits prod.splits)

lemma firewall_hosts: "go_hosts (fst (applyGhostModeFirewall env enable os)) = go_hosts os"
  by (simp add: applyGhostModeFirewall_def runScript_def Let_def split: option.splits)

text \<open>The firewall holds the rules of a script when that script was the last to run and succeeded.\<close>

definition firewallHolds :: "bool \<Rightarrow> ghost_os \<Rightarrow> bool" where
  "firewallHolds enable os \<longleftrightarrow> go_scripts os \<noteq> [] \<and> last (go_scripts os) = (buildGhostFirewallScript enable, True)"

definition sinkholeIn :: "ghost_os \<Rightarrow> bool" where
  "sinkholeIn os \<longleftrightarrow> (\<exists>c. go_hosts os = Some (c @ sinkholeBlock @ [LF]))"

lemma firewall_applied: "applyGhostModeFirewall env enable os = (os', Inr ()) \<Longrightarrow> firewallHolds enable os'"
  by (auto simp: applyGhostModeFirewall_def runScript_def firewallHolds_def Let_def split: option.splits)

lemma effects_applied:
  assumes "applyGhostModeEffects env enable os = (os', Inr ())"
  shows "firewallHolds enable os' \<and> (if enable then sinkholeIn os' else (\<exists>c. go_hosts os' = Some c \<and> \<not> strContains c ghostModeHeader))"
proof -
  obtain os1 where f: "applyGhostModeFirewall env enable os = (os1, Inr ())" and h: "applyGhostModeHostsSinkhole env enable os1 = (os', Inr ())"
    using assms by (auto simp: applyGhostModeEffects_def split: prod.splits sum.splits)
  have "go_scripts os' = go_scripts os1" using hosts_scripts [of env enable os1] h by simp
  then have "firewallHolds enable os'" using firewall_applied [OF f] by (simp add: firewallHolds_def)
  moreover obtain raw where raw: "go_hosts os' = Some (if enable then withSinkhole (stripGhostModeBlock raw) else stripGhostModeBlock raw)"
    using hosts_replaced [OF h] by blast
  have "withSinkhole (stripGhostModeBlock raw) = (TrimEOL (stripGhostModeBlock raw) @ [LF, LF]) @ sinkholeBlock @ [LF]" by (simp add: withSinkhole_def)
  then have "if enable then sinkholeIn os' else (\<exists>c. go_hosts os' = Some c \<and> \<not> strContains c ghostModeHeader)"
    using raw strip_none [of raw] unfolding sinkholeIn_def strContains_def by (metis option.distinct(1))
  ultimately show ?thesis by blast
qed

end
