(* ===== verification/Sentinel.thy ===== *)
theory Sentinel
  imports GhostMode
begin

text \<open>
  \<open>internal/mhx/sentinel_config.go\<close>: the owner configuration of the sentinel with its file, the switch of
  ghost mode, the whitelist and the test whether an image is authorized.

  Go maps are association lists in the order in which the iteration meets their keys. The simple case
  mappings of \<open>unicode\<close> outside ASCII are the functions of the record \<open>unicode_case\<close>; the hash of an
  executable is an argument.
\<close>

section \<open>Data\<close>

definition maxSentinelConfigBytes :: nat where "maxSentinelConfigBytes = 65536"
definition maxSentinelNameBytes :: nat where "maxSentinelNameBytes = 120"
definition maxSentinelPathBytes :: nat where "maxSentinelPathBytes = 260"
definition maxWhitelistEntries :: nat where "maxWhitelistEntries = 256"
definition maxSentinelReasonBytes :: nat where "maxSentinelReasonBytes = 512"

record systemAppEntry =
  sa_ID :: string
  sa_name :: string
  sa_path :: string
  sa_enabled :: bool
  sa_description :: string

record whitelistEntry =
  wl_ID :: string
  wl_name :: string
  wl_pathPattern :: string
  wl_SHA256 :: string
  wl_signerMatch :: string
  wl_enabled :: bool
  wl_isSystemApp :: bool
  wl_addedUTC :: gotime
  wl_lastSeenUTC :: gotime
  wl_currentScore :: int

record sentinelConfig =
  sc_killerdomEnabled :: bool
  sc_paranoiaMode :: bool
  sc_correlateWithTitan :: bool
  sc_ghostModeTelemetryKill :: bool
  sc_strictLineageEnforced :: bool
  sc_amsiShieldEnforced :: bool
  sc_activeSignatures :: "(string \<times> bool) list"
  sc_systemApps :: "(string \<times> systemAppEntry) list"
  sc_whitelist :: "(string \<times> whitelistEntry) list"
  sc_updatedUTC :: gotime
  sc_reason :: string

text \<open>The store with its file; \<open>ss_backups\<close> are the forensic copies of damaged files.\<close>

record sentinelStore =
  ss_config :: sentinelConfig
  ss_file :: "sentinelConfig stored"
  ss_backups :: "sentinelConfig stored list"
  ss_ghostApplied :: bool
  ss_ghostLastError :: string

text \<open>The fields of \<open>ProcessEvent\<close> and \<open>ProcessIdentity\<close> that the modelled functions read.\<close>

type_synonym pid = "32 word"

record processIdentity =
  pi_PID :: pid
  pi_path :: string

record processEvent =
  pe_creationUTC :: gotime
  pe_PID :: pid
  pe_parentPID :: pid
  pe_image :: string
  pe_imagePath :: string
  pe_commandLine :: string
  pe_signerStatus :: string
  pe_originalImageName :: string
  pe_imageVersionCompany :: string
  pe_parentPath :: string
  pe_ancestry :: "processIdentity list"

record unicode_case =
  uc_lower :: "string \<Rightarrow> string"
  uc_equalFold :: "string \<Rightarrow> string \<Rightarrow> bool"

section \<open>Defaults\<close>

definition killerdomSignatureIDs :: "string list" where
  "killerdomSignatureIDs = [''KD-SIG-01'', ''KD-SIG-02'', ''KD-SIG-03'', ''KD-SIG-04'', ''KD-SIG-05'', ''KD-SIG-06'']"

definition isKnownSignatureID :: "string \<Rightarrow> bool" where
  "isKnownSignatureID sigID \<longleftrightarrow> sigID \<in> set killerdomSignatureIDs"

definition systemApp :: "string \<Rightarrow> string \<Rightarrow> string \<Rightarrow> bool \<Rightarrow> string \<Rightarrow> systemAppEntry" where
  "systemApp i n p en d = \<lparr>sa_ID = i, sa_name = n, sa_path = p, sa_enabled = en, sa_description = d\<rparr>"

definition defaultSystemApps :: "systemAppEntry list" where
  "defaultSystemApps =
     [systemApp ''sys_explorer'' ''Windows Explorer'' (driveC [''Windows'', ''explorer.exe'']) True ''Windows Shell und Dateimanager'',
      systemApp ''sys_dwm'' ''Desktop Window Manager'' (driveC [''Windows'', ''System32'', ''dwm.exe'']) True ''Desktop Grafik- und Fenster-Manager'',
      systemApp ''sys_taskmgr'' ''Task-Manager'' (driveC [''Windows'', ''System32'', ''Taskmgr.exe'']) True
        (''System-Ressourcen'' @ [CHR 0xC3, CHR 0xBC] @ ''berwachung''),
      systemApp ''sys_services'' ''Services Host'' (driveC [''Windows'', ''System32'', ''services.exe'']) True ''Service Control Manager'',
      systemApp ''sys_svchost'' ''Shared Service Host'' (driveC [''Windows'', ''System32'', ''svchost.exe'']) True ''Windows Systemdienst-Host'',
      systemApp ''sys_lsass'' ''Local Security Authority'' (driveC [''Windows'', ''System32'', ''lsass.exe'']) True ''Sicherheits- und Authentifizierungsdienst'',
      systemApp ''sys_csrss'' ''Client-Server Runtime'' (driveC [''Windows'', ''System32'', ''csrss.exe'']) True ''Win32 Subsystem Kernprozess'',
      systemApp ''sys_cmd'' ''Windows Eingabeaufforderung'' (driveC [''Windows'', ''System32'', ''cmd.exe'']) False ''Kommandozeilen-Interpreter'',
      systemApp ''sys_powershell'' ''Windows PowerShell'' (driveC [''Windows'', ''System32'', ''WindowsPowerShell'', ''v1.0'', ''powershell.exe'']) False
        ''PowerShell Host'']"

definition whitelisted :: "gotime \<Rightarrow> bool \<Rightarrow> string \<Rightarrow> string \<Rightarrow> string \<Rightarrow> whitelistEntry" where
  "whitelisted now sys i n p = \<lparr>wl_ID = i, wl_name = n, wl_pathPattern = p, wl_SHA256 = [], wl_signerMatch = [], wl_enabled = True, wl_isSystemApp = sys,
     wl_addedUTC = now, wl_lastSeenUTC = 0, wl_currentScore = 0\<rparr>"

definition geDefenseEntries :: "gotime \<Rightarrow> whitelistEntry list" where
  "geDefenseEntries now =
     [whitelisted now True ''wl_gedefense_svc'' ''GeDefense Service'' (driveC [''Program Files'', ''VGT'', ''GeDefense'', ''bin'', ''gedefense-windows.exe'']),
      whitelisted now True ''wl_gedefense_center'' ''GeDefense Center'' (driveC [''Program Files'', ''VGT'', ''GeDefense'', ''bin'', ''GeDefenseCenter.exe'']),
      whitelisted now True ''wl_gedefense_tray'' ''GeDefense Tray'' (driveC [''Program Files'', ''VGT'', ''GeDefense'', ''bin'', ''GeDefenseTray.exe'']),
      whitelisted now True ''wl_gedefense_installer'' ''GeDefense Standalone Installer'' (driveC [''Program Files'', ''VGT'', ''GeDefense'', ''GeDefense-Setup.exe''])]"

definition defaultWhitelist :: "gotime \<Rightarrow> whitelistEntry list" where
  "defaultWhitelist now = geDefenseEntries now @
     [whitelisted now False ''wl_chrome'' ''Google Chrome'' (driveC [''Program Files'', ''Google'', ''Chrome'', ''Application'', ''chrome.exe'']),
      whitelisted now False ''wl_msedge'' ''Microsoft Edge'' (driveC [''Program Files (x86)'', ''Microsoft'', ''Edge'', ''Application'', ''msedge.exe'']),
      whitelisted now False ''wl_firefox'' ''Mozilla Firefox'' (driveC [''Program Files'', ''Mozilla Firefox'', ''firefox.exe'']),
      whitelisted now False ''wl_antigravity'' ''Antigravity Assistant'' ''*antigravity.exe'', whitelisted now False ''wl_codex'' ''VGT Codex'' ''*codex.exe'',
      whitelisted now False ''wl_vscodium'' ''VSCodium / VS Code'' ''*vscodium.exe'', whitelisted now False ''wl_code'' ''Visual Studio Code'' ''*code.exe'',
      whitelisted now False ''wl_go'' ''Go Toolchain'' ''*go.exe'', whitelisted now False ''wl_git'' ''Git Version Control'' ''*git.exe'',
      whitelisted now False ''wl_ollama'' ''Ollama Local AI'' ''*ollama.exe'']"

definition defaultSentinelConfig :: "gotime \<Rightarrow> sentinelConfig" where
  "defaultSentinelConfig now =
     \<lparr>sc_killerdomEnabled = True, sc_paranoiaMode = False, sc_correlateWithTitan = True, sc_ghostModeTelemetryKill = False,
      sc_strictLineageEnforced = True, sc_amsiShieldEnforced = True,
      sc_activeSignatures = map (\<lambda>i. (i, True)) killerdomSignatureIDs,
      sc_systemApps = map (\<lambda>a. (sa_ID a, a)) defaultSystemApps,
      sc_whitelist = map (\<lambda>w. (wl_ID w, w)) (defaultWhitelist now),
      sc_updatedUTC = now, sc_reason = ''VGT Sentinel 5.3.0 Default Baseline''\<rparr>"

section \<open>Saving and opening\<close>

record save_input =
  sv_now :: gotime
  sv_size :: "sentinelConfig \<Rightarrow> nat option"
  sv_ok :: bool

definition saveLocked :: "save_input \<Rightarrow> sentinelStore \<Rightarrow> sentinelStore \<times> unit outcome" where
  "saveLocked inp st =
     (let config = (ss_config st)\<lparr>sc_updatedUTC := sv_now inp\<rparr>; st1 = st\<lparr>ss_config := config\<rparr> in
      case sv_size inp config of
        None \<Rightarrow> (st1, Inl (Err ''marshal failed''))
      | Some n \<Rightarrow>
          if maxSentinelConfigBytes < n
          then (st1, Inl (Err (''sentinel config exceeds '' @ itoa maxSentinelConfigBytes @ '' bytes; reduce whitelist entries or shorten patterns'')))
          else case atomicWrite (sv_ok inp) n config (ss_file st1) of
            Inl e \<Rightarrow> (st1, Inl e)
          | Inr f \<Rightarrow> (st1\<lparr>ss_file := f\<rparr>, Inr ()))"

text \<open>A change that is taken back when it cannot be saved.\<close>

definition saveOr :: "save_input \<Rightarrow> (sentinelConfig \<Rightarrow> sentinelConfig) \<Rightarrow> sentinelStore \<Rightarrow> sentinelStore \<times> unit outcome" where
  "saveOr inp revert st =
     (case saveLocked inp st of
        (st1, Inl e) \<Rightarrow> (st1\<lparr>ss_config := revert (ss_config st1)\<rparr>, Inl e)
      | (st1, Inr u) \<Rightarrow> (st1, Inr u))"

definition insertMissing :: "(string \<times> 'a) list \<Rightarrow> (string \<times> 'a) list \<Rightarrow> (string \<times> 'a) list" where
  "insertMissing defaults apps = foldl (\<lambda>apps (i, a). if i \<in> fst ` set apps then apps else AList.update i a apps) apps defaults"

text \<open>The forward migration of the catalog of system apps.\<close>

definition migrateSystemApps :: "(string \<times> systemAppEntry) list \<Rightarrow> (string \<times> systemAppEntry) list \<Rightarrow> (string \<times> systemAppEntry) list \<times> bool" where
  "migrateSystemApps defaults apps =
     (if apps = [] then (defaults, True) else (insertMissing defaults apps, \<not> fst ` set defaults \<subseteq> fst ` set apps))"

definition selfEntryOK :: "whitelistEntry \<Rightarrow> whitelistEntry \<Rightarrow> bool" where
  "selfEntryOK entry existing \<longleftrightarrow> wl_enabled existing \<and> wl_isSystemApp existing \<and> wl_pathPattern existing = wl_pathPattern entry \<and> wl_name existing = wl_name entry"

definition restoreSelf :: "(string \<times> whitelistEntry) list \<times> bool \<Rightarrow> whitelistEntry \<Rightarrow> (string \<times> whitelistEntry) list \<times> bool" where
  "restoreSelf st entry =
     (let (wl, modified) = st in
      case map_of wl (wl_ID entry) of
        None \<Rightarrow> (AList.update (wl_ID entry) entry wl, True)
      | Some existing \<Rightarrow>
          if selfEntryOK entry existing then (wl, modified)
          else (AList.update (wl_ID entry) (existing\<lparr>wl_enabled := True, wl_isSystemApp := True, wl_pathPattern := wl_pathPattern entry, wl_name := wl_name entry\<rparr>) wl, True))"

definition newStore :: "sentinelConfig stored \<Rightarrow> sentinelConfig \<Rightarrow> sentinelStore" where
  "newStore f config = \<lparr>ss_config = config, ss_file = f, ss_backups = [], ss_ghostApplied = False, ss_ghostLastError = []\<rparr>"

definition saveNew :: "save_input \<Rightarrow> sentinelStore \<Rightarrow> sentinelStore outcome" where
  "saveNew inp st = (case saveLocked inp st of (st1, Inl e) \<Rightarrow> Inl e | (st1, Inr u) \<Rightarrow> Inr st1)"

definition loadedStore :: "save_input \<Rightarrow> gotime \<Rightarrow> sentinelConfig \<Rightarrow> sentinelConfig stored \<Rightarrow> sentinelStore" where
  "loadedStore inp now loaded f =
     (let (apps, changedApps) = migrateSystemApps (sc_systemApps (defaultSentinelConfig now)) (sc_systemApps loaded);
          (wl, modified) = foldl restoreSelf (sc_whitelist loaded, changedApps) (geDefenseEntries now);
          st = newStore f (loaded\<lparr>sc_systemApps := apps, sc_whitelist := wl\<rparr>) in
      if modified then fst (saveLocked inp st) else st)"

definition OpenSentinelStore ::
    "save_input \<Rightarrow> gotime \<Rightarrow> bool \<Rightarrow> string \<Rightarrow> bool \<Rightarrow> sentinelConfig stored \<Rightarrow> sentinelStore outcome" where
  "OpenSentinelStore inp now absolute backupName backupOK f =
     (if \<not> absolute then Inl (Err ''sentinel root must be absolute'')
      else case f of
        Absent \<Rightarrow> saveNew inp (newStore f (defaultSentinelConfig now))
      | Unreadable \<Rightarrow> Inl (Err ''access denied'')
      | Stored n regular content \<Rightarrow>
          if maxSentinelConfigBytes < n then Inl (Err ''sentinel config rejected: size exceeds bound'')
          else case content of
            Decoded loaded \<Rightarrow> Inr (loadedStore inp now loaded f)
          | _ \<Rightarrow>
              if \<not> backupOK then Inl (Err ''sentinel config corrupt; forensic backup failed'')
              else saveNew inp ((newStore f ((defaultSentinelConfig now)\<lparr>sc_reason := ''Sentinel-Konfiguration war besch'' @ [CHR 0xC3, CHR 0xA4] @
                ''digt; Defaults geladen; Backup: '' @ backupName\<rparr>))\<lparr>ss_backups := [f]\<rparr>))"

section \<open>Switches\<close>

definition trimSentinelText :: "string \<Rightarrow> string" where
  "trimSentinelText text0 = take maxSentinelReasonBytes (TrimSpace text0)"

definition SetParanoiaMode :: "save_input \<Rightarrow> bool \<Rightarrow> string \<Rightarrow> sentinelStore \<Rightarrow> sentinelStore \<times> unit outcome" where
  "SetParanoiaMode inp enabled reason st =
     (let previous = ss_config st in
      saveOr inp (\<lambda>c. c\<lparr>sc_paranoiaMode := sc_paranoiaMode previous, sc_reason := sc_reason previous\<rparr>)
        (st\<lparr>ss_config := previous\<lparr>sc_paranoiaMode := enabled, sc_reason := trimSentinelText reason\<rparr>\<rparr>))"

definition SetKillerdomEnabled :: "save_input \<Rightarrow> bool \<Rightarrow> string \<Rightarrow> sentinelStore \<Rightarrow> sentinelStore \<times> unit outcome" where
  "SetKillerdomEnabled inp enabled reason st =
     (let previous = ss_config st in
      saveOr inp (\<lambda>c. c\<lparr>sc_killerdomEnabled := sc_killerdomEnabled previous, sc_reason := sc_reason previous\<rparr>)
        (st\<lparr>ss_config := previous\<lparr>sc_killerdomEnabled := enabled, sc_reason := trimSentinelText reason\<rparr>\<rparr>))"

definition SetTitanCorrelation :: "save_input \<Rightarrow> bool \<Rightarrow> string \<Rightarrow> sentinelStore \<Rightarrow> sentinelStore \<times> unit outcome" where
  "SetTitanCorrelation inp enabled reason st =
     (let previous = ss_config st in
      saveOr inp (\<lambda>c. c\<lparr>sc_correlateWithTitan := sc_correlateWithTitan previous, sc_reason := sc_reason previous\<rparr>)
        (st\<lparr>ss_config := previous\<lparr>sc_correlateWithTitan := enabled, sc_reason := trimSentinelText reason\<rparr>\<rparr>))"

definition errText :: "goerr \<Rightarrow> string" where
  "errText e = (case e of Panic \<Rightarrow> [] | Err t \<Rightarrow> t)"

definition setGhostRuntime :: "bool \<Rightarrow> goerr option \<Rightarrow> sentinelStore \<Rightarrow> sentinelStore" where
  "setGhostRuntime applied err st = st\<lparr>ss_ghostApplied := applied, ss_ghostLastError := (case err of None \<Rightarrow> [] | Some e \<Rightarrow> errText e)\<rparr>"

definition GhostRuntime :: "sentinelStore \<Rightarrow> bool \<times> string" where
  "GhostRuntime st = (ss_ghostApplied st, ss_ghostLastError st)"

definition SetGhostMode :: "ghost_input \<Rightarrow> save_input \<Rightarrow> bool \<Rightarrow> string \<Rightarrow> sentinelStore \<times> ghost_os \<Rightarrow> (sentinelStore \<times> ghost_os) \<times> unit outcome" where
  "SetGhostMode env inp enabled reason so =
     (let (st, os) = so; previous = ss_config st in
      if sc_ghostModeTelemetryKill previous = enabled
      then if enabled then ((st, os), Inr ())
           else (case applyGhostModeEffects env False os of
                   (os1, Inl e) \<Rightarrow> ((setGhostRuntime False (Some e) st, os1), Inl e)
                 | (os1, Inr u) \<Rightarrow> ((setGhostRuntime False None st, os1), Inr ()))
      else case applyGhostModeEffects env enabled os of
          (os1, Inl e) \<Rightarrow> ((setGhostRuntime False (Some e) st, os1), Inl (Err (''ghost mode apply: '' @ errText e)))
        | (os1, Inr u) \<Rightarrow>
            (case saveOr inp (\<lambda>c. c\<lparr>sc_ghostModeTelemetryKill := sc_ghostModeTelemetryKill previous, sc_reason := sc_reason previous\<rparr>)
                (st\<lparr>ss_config := previous\<lparr>sc_ghostModeTelemetryKill := enabled, sc_reason := trimSentinelText reason\<rparr>\<rparr>) of
               (st1, Inl e) \<Rightarrow>
                 ((setGhostRuntime (sc_ghostModeTelemetryKill previous) (Some e) st1, fst (applyGhostModeEffects env (sc_ghostModeTelemetryKill previous) os1)), Inl e)
             | (st1, Inr v) \<Rightarrow> ((setGhostRuntime enabled None st1, os1), Inr ())))"

definition ReconcileGhostMode :: "ghost_input \<Rightarrow> sentinelStore \<times> ghost_os \<Rightarrow> (sentinelStore \<times> ghost_os) \<times> unit outcome" where
  "ReconcileGhostMode env so =
     (let (st, os) = so in
      if \<not> sc_ghostModeTelemetryKill (ss_config st) then ((setGhostRuntime False None st, os), Inr ())
      else case applyGhostModeEffects env True os of
          (os1, Inl e) \<Rightarrow> ((setGhostRuntime False (Some e) st, os1), Inl e)
        | (os1, Inr u) \<Rightarrow> ((setGhostRuntime True None st, os1), Inr ()))"

section \<open>Signatures, system apps and whitelist\<close>

definition ToggleSignature :: "save_input \<Rightarrow> string \<Rightarrow> bool \<Rightarrow> sentinelStore \<Rightarrow> sentinelStore \<times> unit outcome" where
  "ToggleSignature inp sigID0 enabled st =
     (let sigID = ToUpperASCII (TrimSpace sigID0); sigs = sc_activeSignatures (ss_config st) in
      if \<not> isKnownSignatureID sigID then (st, Inl (Err (''unknown killerdom signature '' @ sigID)))
      else saveOr inp (\<lambda>c. c\<lparr>sc_activeSignatures := (case map_of sigs sigID of Some previous \<Rightarrow> AList.update sigID previous (sc_activeSignatures c)
             | None \<Rightarrow> AList.delete sigID (sc_activeSignatures c))\<rparr>)
           (st\<lparr>ss_config := (ss_config st)\<lparr>sc_activeSignatures := AList.update sigID enabled sigs\<rparr>\<rparr>))"

definition ToggleSystemApp :: "save_input \<Rightarrow> string \<Rightarrow> bool \<Rightarrow> sentinelStore \<Rightarrow> sentinelStore \<times> unit outcome" where
  "ToggleSystemApp inp i enabled st =
     (case map_of (sc_systemApps (ss_config st)) i of
        None \<Rightarrow> (st, Inl (Err (''system app '' @ i @ '' not found'')))
      | Some app \<Rightarrow>
          saveOr inp (\<lambda>c. c\<lparr>sc_systemApps := AList.update i app (sc_systemApps c)\<rparr>)
            (st\<lparr>ss_config := (ss_config st)\<lparr>sc_systemApps := AList.update i (app\<lparr>sa_enabled := enabled\<rparr>) (sc_systemApps (ss_config st))\<rparr>\<rparr>))"

definition ToggleWhitelistApp :: "save_input \<Rightarrow> string \<Rightarrow> bool \<Rightarrow> sentinelStore \<Rightarrow> sentinelStore \<times> unit outcome" where
  "ToggleWhitelistApp inp i enabled st =
     (case map_of (sc_whitelist (ss_config st)) i of
        None \<Rightarrow> (st, Inl (Err (''whitelist app '' @ i @ '' not found'')))
      | Some app \<Rightarrow>
          if wl_isSystemApp app then (st, Inl (Err (''self-protection whitelist entry '' @ i @ '' is immutable'')))
          else saveOr inp (\<lambda>c. c\<lparr>sc_whitelist := AList.update i app (sc_whitelist c)\<rparr>)
            (st\<lparr>ss_config := (ss_config st)\<lparr>sc_whitelist := AList.update i (app\<lparr>wl_enabled := enabled\<rparr>) (sc_whitelist (ss_config st))\<rparr>\<rparr>))"

definition RemoveWhitelistApp :: "save_input \<Rightarrow> string \<Rightarrow> sentinelStore \<Rightarrow> sentinelStore \<times> unit outcome" where
  "RemoveWhitelistApp inp i st =
     (case map_of (sc_whitelist (ss_config st)) i of
        None \<Rightarrow> (st, Inl (Err (''whitelist entry '' @ i @ '' not found'')))
      | Some entry \<Rightarrow>
          if wl_isSystemApp entry then (st, Inl (Err (''self-protection whitelist entry '' @ i @ '' is immutable'')))
          else saveOr inp (\<lambda>c. c\<lparr>sc_whitelist := AList.update i entry (sc_whitelist c)\<rparr>)
            (st\<lparr>ss_config := (ss_config st)\<lparr>sc_whitelist := AList.delete i (sc_whitelist (ss_config st))\<rparr>\<rparr>))"

definition containsAny :: "string \<Rightarrow> string \<Rightarrow> bool" where
  "containsAny s cs \<longleftrightarrow> list_ex (\<lambda>c. c \<in> set cs) s"

definition validateWhitelistPattern :: "string \<Rightarrow> unit outcome" where
  "validateWhitelistPattern pattern =
     (if maxSentinelPathBytes < length pattern then Inl (Err ''whitelist pattern exceeds 260 bytes'')
      else if containsAny pattern [CHR 0x00, CHR 0x0D, CHR 0x0A, CHR 0x09] then Inl (Err ''whitelist pattern contains control characters'')
      else if containsAny pattern ''?[]'' then Inl (Err (''whitelist pattern only supports the '' @ [quote] @ ''*'' @ [quote] @ '' wildcard''))
      else if pattern = ''*'' \<or> pattern = [backslash, CHR ''*''] \<or> pattern = [CHR ''*'', backslash] then Inl (Err (''whitelist pattern '' @ [quote] @ ''*'' @ [quote] @ '' would authorize every executable''))
      else if pattern \<noteq> [] \<and> (last pattern = backslash \<or> last pattern = CHR ''/'') then Inl (Err ''whitelist pattern must name an executable, not a directory'')
      else if 2 < length (filter (\<lambda>c. c = CHR ''*'') pattern) then Inl (Err ''whitelist pattern contains too many wildcards'')
      else let normalized0 = FromSlash pattern;
               normalized = (if normalized0 \<noteq> [] \<and> last normalized0 = backslash then butlast normalized0 else normalized0) in
        if normalized = [] \<or> strContains normalized ''..'' then Inl (Err ''whitelist pattern must name a concrete executable'')
        else let base = TrimSpace (ReplaceByte (CHR ''*'') [] (rev (takeWhile (\<lambda>c. c \<noteq> backslash) (rev normalized)))) in
          if base = [] \<or> base = ''.'' \<or> base = ''..'' then Inl (Err ''whitelist pattern must name a concrete executable'') else Inr ())"

text \<open>
  The loop that numbers an entry: at most one attempt per existing key fails, so the length of the
  whitelist bounds it.
\<close>

fun freshSuffix :: "nat \<Rightarrow> (string \<times> whitelistEntry) list \<Rightarrow> string \<Rightarrow> nat \<Rightarrow> string" where
  "freshSuffix 0 wl base suffix = base @ ''_'' @ itoa suffix"
| "freshSuffix (Suc fuel) wl base suffix =
     (if base @ ''_'' @ itoa suffix \<in> fst ` set wl then freshSuffix fuel wl base (suffix + 1) else base @ ''_'' @ itoa suffix)"

definition freshID :: "(string \<times> whitelistEntry) list \<Rightarrow> nat \<Rightarrow> string" where
  "freshID wl stamp = (let base = ''wl_custom_'' @ itoa stamp in if base \<in> fst ` set wl then freshSuffix (length wl) wl base 1 else base)"

definition checkWhitelistApp :: "string \<Rightarrow> string \<Rightarrow> string \<Rightarrow> string \<Rightarrow> unit outcome" where
  "checkWhitelistApp name pathPattern sha256Hex signerMatch =
     (if name = [] \<or> pathPattern = [] then Inl (Err ''name and path pattern cannot be empty'')
      else if maxSentinelNameBytes < length name then Inl (Err ''whitelist name exceeds 120 bytes'')
      else bind_outcome (validateWhitelistPattern pathPattern) (\<lambda>u.
        if sha256Hex \<noteq> [] \<and> (case hexDecode sha256Hex of None \<Rightarrow> True | Some bytes \<Rightarrow> length bytes \<noteq> 32)
        then Inl (Err ''whitelist SHA-256 must be exactly 64 hex characters'')
        else if maxSentinelNameBytes < length signerMatch then Inl (Err ''whitelist signer match exceeds 120 bytes'')
        else if containsAny signerMatch [CHR 0x00, CHR 0x0D, CHR 0x0A] then Inl (Err ''whitelist signer match contains control characters'')
        else Inr ()))"

definition AddWhitelistAppPinned ::
    "save_input \<Rightarrow> nat \<Rightarrow> gotime \<Rightarrow> string \<Rightarrow> string \<Rightarrow> string \<Rightarrow> string \<Rightarrow> sentinelStore \<Rightarrow> sentinelStore \<times> whitelistEntry outcome" where
  "AddWhitelistAppPinned inp nanos now name0 pathPattern0 sha0 signer0 st =
     (let name = TrimSpace name0; pathPattern = TrimSpace pathPattern0; sha256Hex = ToUpperASCII (TrimSpace sha0); signerMatch = TrimSpace signer0;
          wl = sc_whitelist (ss_config st) in
      case checkWhitelistApp name pathPattern sha256Hex signerMatch of
        Inl e \<Rightarrow> (st, Inl e)
      | Inr u \<Rightarrow>
          if maxWhitelistEntries \<le> length wl then (st, Inl (Err ''whitelist capacity of 256 entries reached''))
          else let i = freshID wl (nanos mod 1000000);
                   entry = (whitelisted now False i name pathPattern)\<lparr>wl_SHA256 := sha256Hex, wl_signerMatch := signerMatch\<rparr> in
            (case saveOr inp (\<lambda>c. c\<lparr>sc_whitelist := AList.delete i (sc_whitelist c)\<rparr>)
                (st\<lparr>ss_config := (ss_config st)\<lparr>sc_whitelist := AList.update i entry wl\<rparr>\<rparr>) of
               (st1, Inl e) \<Rightarrow> (st1, Inl e)
             | (st1, Inr v) \<Rightarrow> (st1, Inr entry)))"

definition AddWhitelistApp :: "save_input \<Rightarrow> nat \<Rightarrow> gotime \<Rightarrow> string \<Rightarrow> string \<Rightarrow> sentinelStore \<Rightarrow> sentinelStore \<times> whitelistEntry outcome" where
  "AddWhitelistApp inp nanos now name pathPattern st = AddWhitelistAppPinned inp nanos now name pathPattern [] [] st"

section \<open>Authorization of an image\<close>

text \<open>The loop of \<open>wildcardMatch\<close>; \<open>star\<close> is \<open>starIdx\<close>, \<open>None\<close> for -1.\<close>

function wildcardLoop :: "string \<Rightarrow> string \<Rightarrow> nat \<Rightarrow> nat \<Rightarrow> nat option \<Rightarrow> nat \<Rightarrow> bool" where
  "wildcardLoop pattern val patternIdx valueIdx star matchIdx =
     (if valueIdx < length val
      then if patternIdx < length pattern \<and> pattern ! patternIdx = val ! valueIdx
           then wildcardLoop pattern val (patternIdx + 1) (valueIdx + 1) star matchIdx
           else if patternIdx < length pattern \<and> pattern ! patternIdx = CHR ''*''
           then wildcardLoop pattern val (patternIdx + 1) valueIdx (Some patternIdx) valueIdx
           else (case star of
                   None \<Rightarrow> False
                 | Some s \<Rightarrow> wildcardLoop pattern val (s + 1) (matchIdx + 1) star (matchIdx + 1))
      else dropWhile (\<lambda>c. c = CHR ''*'') (drop patternIdx pattern) = [])"
  by pat_completeness auto

text \<open>
  A run in which \<open>matchIdx\<close> is behind \<open>valueIdx\<close> and the star behind \<open>patternIdx\<close> stays so; then
  \<open>matchIdx\<close> grows, or the star moves on, or \<open>valueIdx\<close> grows.
\<close>

termination
  by (relation "measures [\<lambda>(p, v, pi, vi, star, mi). if vi < mi \<or> (\<exists>s. star = Some s \<and> pi \<le> s) then 1 else 0,
      \<lambda>(p, v, pi, vi, star, mi). length v - mi,
      \<lambda>(p, v, pi, vi, star, mi). length p - (case star of None \<Rightarrow> 0 | Some s \<Rightarrow> s + 1),
      \<lambda>(p, v, pi, vi, star, mi). length v - vi]")
    (auto split: option.splits)

declare wildcardLoop.simps [simp del]

definition wildcardMatch :: "string \<Rightarrow> string \<Rightarrow> bool" where
  "wildcardMatch pattern val = wildcardLoop pattern val 0 0 None 0"

definition matchSentinelPathPattern :: "unicode_case \<Rightarrow> string \<Rightarrow> string \<Rightarrow> string \<Rightarrow> bool" where
  "matchSentinelPathPattern uc pattern cleanPath baseName \<longleftrightarrow>
     (let pat = uc_lower uc (FromSlash (TrimSpace pattern)) in
      pat \<noteq> [] \<and> pat \<noteq> ''*'' \<and> (if backslash \<in> set pat then wildcardMatch pat cleanPath else wildcardMatch pat baseName))"

definition cleanImage :: "unicode_case \<Rightarrow> string \<Rightarrow> string" where
  "cleanImage uc imagePath = uc_lower uc (Clean (TrimSpace imagePath))"

definition baseImage :: "unicode_case \<Rightarrow> string \<Rightarrow> string" where
  "baseImage uc cleanPath = uc_lower uc (pathBase cleanPath)"

definition appMatches :: "unicode_case \<Rightarrow> string \<Rightarrow> systemAppEntry \<Rightarrow> bool" where
  "appMatches uc cleanPath app \<longleftrightarrow> sa_enabled app \<and> cleanPath = cleanImage uc (sa_path app)"

definition entryMatches :: "unicode_case \<Rightarrow> string \<Rightarrow> whitelistEntry \<Rightarrow> bool" where
  "entryMatches uc cleanPath entry \<longleftrightarrow> wl_enabled entry \<and> matchSentinelPathPattern uc (wl_pathPattern entry) cleanPath (baseImage uc cleanPath)"

definition IsAppAllowed :: "unicode_case \<Rightarrow> string \<Rightarrow> sentinelStore \<Rightarrow> bool \<times> string \<times> bool" where
  "IsAppAllowed uc imagePath st =
     (let cleanPath = cleanImage uc imagePath in
      if cleanPath = [] \<or> cleanPath = ''.'' then (False, [], False)
      else case find (appMatches uc cleanPath) (map snd (sc_systemApps (ss_config st))) of
        Some app \<Rightarrow> (True, sa_name app, True)
      | None \<Rightarrow>
          (case find (entryMatches uc cleanPath) (map snd (sc_whitelist (ss_config st))) of
             Some entry \<Rightarrow> (True, wl_name entry, False)
           | None \<Rightarrow> (False, [], False)))"

definition verifySystemAppEvent :: "unicode_case \<Rightarrow> processEvent \<Rightarrow> bool \<times> string" where
  "verifySystemAppEvent uc event =
     (if pe_signerStatus event \<noteq> [] \<and> \<not> uc_equalFold uc (pe_signerStatus event) ''Valid''
      then (False, ''system app Authenticode status is '' @ pe_signerStatus event)
      else if pe_originalImageName event \<noteq> [] \<and> 0 < length (pathBase (pe_imagePath event)) \<and> length (pe_originalImageName event) \<le> 260 \<and>
         \<not> uc_equalFold uc (pathBase (pe_imagePath event)) (pe_originalImageName event)
      then (False, ''system app image was renamed (PE OriginalFilename='' @ pe_originalImageName event @ '')'')
      else let company = uc_lower uc (TrimSpace (pe_imageVersionCompany event)) in
        if company \<noteq> [] \<and> \<not> strContains company ''microsoft'' \<and> \<not> strContains company ''visiongaia''
        then (False, ''system app publisher is unexpected: '' @ pe_imageVersionCompany event)
        else (True, []))"

definition verdict :: "unicode_case \<Rightarrow> processEvent \<Rightarrow> string \<Rightarrow> bool \<times> string \<times> bool \<times> string" where
  "verdict uc event name =
     (case verifySystemAppEvent uc event of (False, why) \<Rightarrow> (False, name, True, why) | (True, why) \<Rightarrow> (True, name, True, []))"

text \<open>The answer of a whitelist entry whose pattern matches; \<open>hash\<close> is \<open>hashExecutableBounded\<close>.\<close>

definition entryVerdict :: "unicode_case \<Rightarrow> (string \<Rightarrow> string option) \<Rightarrow> processEvent \<Rightarrow> whitelistEntry \<Rightarrow> bool \<times> string \<times> bool \<times> string" where
  "entryVerdict uc hash event entry =
     (if wl_SHA256 entry \<noteq> [] \<and> (case hash (pe_imagePath event) of None \<Rightarrow> True | Some actual \<Rightarrow> \<not> uc_equalFold uc actual (wl_SHA256 entry))
      then (False, wl_name entry, wl_isSystemApp entry, ''whitelist SHA-256 pin mismatch'')
      else if wl_signerMatch entry \<noteq> [] \<and> (\<not> uc_equalFold uc (pe_signerStatus event) ''Valid'' \<or>
         \<not> strContains (uc_lower uc (pe_imageVersionCompany event)) (uc_lower uc (wl_signerMatch entry)))
      then (False, wl_name entry, wl_isSystemApp entry, ''whitelist signer pin mismatch'')
      else if wl_isSystemApp entry then verdict uc event (wl_name entry)
      else (True, wl_name entry, False, []))"

definition IsAppAllowedEvent :: "unicode_case \<Rightarrow> (string \<Rightarrow> string option) \<Rightarrow> processEvent \<Rightarrow> sentinelStore \<Rightarrow> bool \<times> string \<times> bool \<times> string" where
  "IsAppAllowedEvent uc hash event st =
     (let cleanPath = cleanImage uc (pe_imagePath event) in
      if cleanPath = [] \<or> cleanPath = ''.'' then (False, [], False, [])
      else case find (appMatches uc cleanPath) (map snd (sc_systemApps (ss_config st))) of
        Some app \<Rightarrow> verdict uc event (sa_name app)
      | None \<Rightarrow>
          (case find (entryMatches uc cleanPath) (map snd (sc_whitelist (ss_config st))) of
             Some entry \<Rightarrow> entryVerdict uc hash event entry
           | None \<Rightarrow> (False, [], False, [])))"

end
