(* ===== verification/SentinelRuns.thy ===== *)
theory SentinelRuns
  imports Sentinel
begin

text \<open>
  What the store of the sentinel guarantees: the pattern matcher is the glob relation, the entries of
  GeDefense cannot be lost, a change is saved or taken back, and ghost mode is reported as active
  only when both layers are in place.
\<close>

section \<open>The pattern matcher\<close>

text \<open>The relation that a pattern describes: a star stands for any string.\<close>

fun glob :: "string \<Rightarrow> string \<Rightarrow> bool" where
  "glob [] v \<longleftrightarrow> v = []"
| "glob (c # p) [] \<longleftrightarrow> c = CHR ''*'' \<and> glob p []"
| "glob (c # p) (d # v) \<longleftrightarrow> (if c = CHR ''*'' then glob p (d # v) \<or> glob (c # p) v else c = d \<and> glob p v)"

lemma glob_star: "glob (CHR ''*'' # p) v \<longleftrightarrow> (\<exists>j\<le>length v. glob p (drop j v))"
proof (induction v)
  case (Cons d v)
  have "(\<exists>j\<le>length (d # v). glob p (drop j (d # v))) \<longleftrightarrow> glob p (d # v) \<or> (\<exists>j\<le>length v. glob p (drop j v))"
    by (metis (no_types, lifting) Suc_le_mono drop0 drop_Suc_Cons le0 length_Cons not0_implies_Suc)
  then show ?case using Cons by simp
qed simp

lemma glob_end: "glob p [] \<longleftrightarrow> dropWhile (\<lambda>c. c = CHR ''*'') p = []"
  by (induction p) auto

lemma glob_plain: "CHR ''*'' \<notin> set seg \<Longrightarrow> glob (seg @ p) v \<longleftrightarrow> (\<exists>w. v = seg @ w \<and> glob p w)"
proof (induction seg arbitrary: v)
  case (Cons c seg)
  then show ?case by (cases v) auto
qed simp

text \<open>Since the star at \<open>s\<close>, the pattern up to \<open>pi\<close> and the value from \<open>mi\<close> up to \<open>vi\<close> agree.\<close>

definition star_inv :: "string \<Rightarrow> string \<Rightarrow> nat \<Rightarrow> nat \<Rightarrow> nat \<Rightarrow> nat \<Rightarrow> bool" where
  "star_inv p v pi vi s mi \<longleftrightarrow> mi \<le> vi \<and> pi = s + 1 + (vi - mi) \<and> take (vi - mi) (drop (s + 1) p) = take (vi - mi) (drop mi v)"

lemma star_later:
  assumes "star_inv p v pi vi s mi" and "CHR ''*'' \<notin> set v" and "pi \<le> length p" and "vi \<le> length v"
    and "mi < j" and "j \<le> length v" and "glob (drop (s + 1) p) (drop j v)"
  shows "\<exists>j'. vi < j' \<and> j' \<le> length v \<and> glob (drop pi p) (drop j' v)"
proof -
  let ?k = "vi - mi" and ?seg = "take (vi - mi) (drop mi v)"
  have inv: "mi \<le> vi" "pi = s + 1 + ?k" "take ?k (drop (s + 1) p) = ?seg" using assms(1) by (simp_all add: star_inv_def)
  have "drop (s + 1) p = take ?k (drop (s + 1) p) @ drop ?k (drop (s + 1) p)" by (rule append_take_drop_id [symmetric])
  then have p: "drop (s + 1) p = ?seg @ drop pi p" using inv(2,3) by (simp only: drop_drop) (simp only: add.commute)
  have plain: "CHR ''*'' \<notin> set ?seg" using assms(2) by (auto dest: in_set_takeD in_set_dropD)
  then obtain w where w: "drop j v = ?seg @ w" "glob (drop pi p) w" using assms(7) p by (auto simp: glob_plain)
  have len: "length ?seg = ?k" using assms(4) by simp
  have "w = drop ?k (drop j v)" using w(1) len by simp
  then have "w = drop (j + ?k) v" by (simp add: add.commute)
  moreover have "length (drop j v) = ?k + length w" using w(1) len by simp
  then have "j + ?k \<le> length v" using assms(6) by simp
  ultimately show ?thesis using w(2) assms(5) inv(1) by (intro exI [of _ "j + ?k"]) simp
qed

lemma first_or_later:
  fixes k n :: nat
  assumes "k < n"
  shows "P (k + 1) \<or> (\<exists>j. k + 1 < j \<and> j \<le> n \<and> P j) \<longleftrightarrow> (\<exists>j. k < j \<and> j \<le> n \<and> P j)"
proof
  assume "\<exists>j. k < j \<and> j \<le> n \<and> P j"
  then obtain j where j: "k < j" "j \<le> n" "P j" by blast
  then show "P (k + 1) \<or> (\<exists>j. k + 1 < j \<and> j \<le> n \<and> P j)" by (cases "j = k + 1") auto
next
  assume "P (k + 1) \<or> (\<exists>j. k + 1 < j \<and> j \<le> n \<and> P j)"
  then show "\<exists>j. k < j \<and> j \<le> n \<and> P j"
  proof
    assume "P (k + 1)"
    then show ?thesis using assms by (intro exI [of _ "k + 1"]) simp
  qed (metis add_lessD1)
qed

lemma wildcardLoop_spec:
  assumes "CHR ''*'' \<notin> set v" and "pi \<le> length p" and "vi \<le> length v" and "\<And>s. star = Some s \<Longrightarrow> star_inv p v pi vi s mi"
  shows "wildcardLoop p v pi vi star mi \<longleftrightarrow> glob (drop pi p) (drop vi v) \<or>
    (\<exists>s j. star = Some s \<and> mi < j \<and> j \<le> length v \<and> glob (drop (s + 1) p) (drop j v))"
  using assms
proof (induction p v pi vi star mi rule: wildcardLoop.induct)
  case (1 p v pi vi star mi)
  have later: "\<exists>j'. vi < j' \<and> j' \<le> length v \<and> glob (drop pi p) (drop j' v)"
    if "star = Some s" "mi < j" "j \<le> length v" "glob (drop (s + 1) p) (drop j v)" for s j
    using star_later [OF "1.prems"(4) [OF that(1)] "1.prems"(1-3) that(2-4)] .
  consider (stop) "vi = length v" | (same) "vi < length v" "pi < length p" "p ! pi = v ! vi"
    | (star) "vi < length v" "pi < length p" "p ! pi \<noteq> v ! vi" "p ! pi = CHR ''*''"
    | (miss) "vi < length v" "\<not> (pi < length p \<and> (p ! pi = v ! vi \<or> p ! pi = CHR ''*''))"
    using "1.prems"(3) by force
  then show ?case
  proof cases
    case stop
    then show ?thesis using later by (subst wildcardLoop.simps) (fastforce simp: glob_end)
  next
    case same
    have inv: "star_inv p v (pi + 1) (vi + 1) s mi" if "star = Some s" for s
    proof -
      have i: "mi \<le> vi" "pi = s + 1 + (vi - mi)" "take (vi - mi) (drop (s + 1) p) = take (vi - mi) (drop mi v)"
        using "1.prems"(4) [OF that] by (simp_all add: star_inv_def)
      have "drop (s + 1) p ! (vi - mi) = drop mi v ! (vi - mi)" using i(1,2) same by simp
      moreover have "vi - mi < length (drop (s + 1) p)" "vi - mi < length (drop mi v)" using i(1,2) same by simp_all
      ultimately have "take (Suc (vi - mi)) (drop (s + 1) p) = take (Suc (vi - mi)) (drop mi v)" using i(3) by (simp add: take_Suc_conv_app_nth)
      moreover have "vi + 1 - mi = Suc (vi - mi)" using i(1) by simp
      ultimately show ?thesis using i(1,2) by (simp add: star_inv_def)
    qed
    have "drop pi p = p ! pi # drop (pi + 1) p" "drop vi v = v ! vi # drop (vi + 1) v"
      using Cons_nth_drop_Suc [OF same(2)] Cons_nth_drop_Suc [OF same(1)] by simp_all
    moreover have "v ! vi \<noteq> CHR ''*''" using "1.prems"(1) same nth_mem by fastforce
    ultimately have "glob (drop pi p) (drop vi v) \<longleftrightarrow> glob (drop (pi + 1) p) (drop (vi + 1) v)" using same(3) by simp
    then show ?thesis using "1.IH"(1) [OF same(1)] same inv "1.prems"(1) by (subst wildcardLoop.simps) simp
  next
    case star
    let ?q = "drop (pi + 1) p"
    have d: "drop pi p = CHR ''*'' # ?q" using star Cons_nth_drop_Suc [OF star(2)] by simp
    have g: "glob (drop pi p) (drop i v) \<longleftrightarrow> (\<exists>j\<ge>i. j \<le> length v \<and> glob ?q (drop j v))" if "i \<le> length v" for i
    proof -
      have "(\<exists>j\<le>length v - i. glob ?q (drop (j + i) v)) \<longleftrightarrow> (\<exists>j\<ge>i. j \<le> length v \<and> glob ?q (drop j v))"
        using that by (metis (no_types, lifting) add.commute le_add1 le_diff_conv2 le_Suc_ex)
      then show ?thesis unfolding d glob_star by simp
    qed
    have "wildcardLoop p v pi vi star mi \<longleftrightarrow> glob ?q (drop vi v) \<or> (\<exists>j. vi < j \<and> j \<le> length v \<and> glob ?q (drop j v))"
      using "1.IH"(2) [OF star(1)] star "1.prems"(1) by (subst wildcardLoop.simps) (simp add: star_inv_def)
    also have "\<dots> \<longleftrightarrow> glob (drop pi p) (drop vi v)" using g [of vi] star(1) by (auto simp: le_less)
    finally have run: "wildcardLoop p v pi vi star mi \<longleftrightarrow> glob (drop pi p) (drop vi v)" .
    have "glob (drop pi p) (drop vi v)" if "vi < j" "j \<le> length v" "glob (drop pi p) (drop j v)" for j
      using g [of j] g [of vi] that star(1) by (auto intro: less_imp_le order_trans)
    then show ?thesis unfolding run using later by blast
  next
    case miss
    have v: "drop vi v = v ! vi # drop (Suc vi) v" using Cons_nth_drop_Suc [OF miss(1)] by simp
    have none: "\<not> glob (drop pi p) (drop vi v)"
    proof (cases "pi < length p")
      case True
      then have "drop pi p = p ! pi # drop (Suc pi) p" by (simp add: Cons_nth_drop_Suc)
      then show ?thesis unfolding v using miss(2) True by simp
    next
      case False
      then show ?thesis unfolding v by simp
    qed
    show ?thesis
    proof (cases star)
      case None
      then show ?thesis using none miss by (subst wildcardLoop.simps) auto
    next
      case (Some s)
      have m: "\<not> (pi < length p \<and> p ! pi = v ! vi)" "\<not> (pi < length p \<and> p ! pi = CHR ''*'')" using miss(2) by auto
      have i: "mi \<le> vi" "s + 1 \<le> pi" using "1.prems"(4) [OF Some] by (auto simp: star_inv_def)
      have go: "wildcardLoop p v pi vi star mi = wildcardLoop p v (s + 1) (mi + 1) star (mi + 1)"
        using m miss(1) Some by (subst wildcardLoop.simps) auto
      have "wildcardLoop p v pi vi star mi \<longleftrightarrow> glob (drop (s + 1) p) (drop (mi + 1) v) \<or>
          (\<exists>j. mi + 1 < j \<and> j \<le> length v \<and> glob (drop (s + 1) p) (drop j v))"
        using "1.IH"(3) [OF miss(1) m Some] miss(1) Some i "1.prems"(1,2) unfolding go by (simp add: star_inv_def)
      also have "\<dots> \<longleftrightarrow> (\<exists>j. mi < j \<and> j \<le> length v \<and> glob (drop (s + 1) p) (drop j v))"
        using first_or_later [of mi "length v" "\<lambda>j. glob (drop (s + 1) p) (drop j v)"] i(1) miss(1) by simp
      finally show ?thesis using none Some by simp
    qed
  qed
qed

text \<open>
  The iterative matcher with one backtracking position ends on every input and decides the glob
  relation, in which each star of the pattern stands for any string, for every image path without a
  star, which Windows does not allow in file names.
\<close>

lemma wildcard_is_glob:
  assumes "CHR ''*'' \<notin> set val"
  shows "wildcardMatch pattern val \<longleftrightarrow> glob pattern val"
  using wildcardLoop_spec [OF assms, of 0 pattern 0 None 0] by (simp add: wildcardMatch_def)

text \<open>A star in the value is taken literally first, and then the matcher is stricter than the relation.\<close>

lemma literal_star_differs: "glob ''*a'' ''*xa'' \<and> \<not> wildcardMatch ''*a'' ''*xa''"
  by code_simp

section \<open>Saving\<close>

text \<open>Two configurations with the same settings: the time of the last change may differ.\<close>

definition sameConfig :: "sentinelConfig \<Rightarrow> sentinelConfig \<Rightarrow> bool" where
  "sameConfig c c' \<longleftrightarrow> sc_killerdomEnabled c = sc_killerdomEnabled c' \<and> sc_paranoiaMode c = sc_paranoiaMode c' \<and>
     sc_correlateWithTitan c = sc_correlateWithTitan c' \<and> sc_ghostModeTelemetryKill c = sc_ghostModeTelemetryKill c' \<and>
     sc_strictLineageEnforced c = sc_strictLineageEnforced c' \<and> sc_amsiShieldEnforced c = sc_amsiShieldEnforced c' \<and>
     map_of (sc_activeSignatures c) = map_of (sc_activeSignatures c') \<and> map_of (sc_systemApps c) = map_of (sc_systemApps c') \<and>
     map_of (sc_whitelist c) = map_of (sc_whitelist c') \<and> sc_reason c = sc_reason c'"

lemma sameConfig_refl [simp]: "sameConfig c c"
  by (simp add: sameConfig_def)

lemma saveLocked_cases:
  assumes "saveLocked inp st = (st', r)"
  obtains (saved) n where "r = Inr ()" and "st' = st\<lparr>ss_config := (ss_config st)\<lparr>sc_updatedUTC := sv_now inp\<rparr>,
      ss_file := Stored n True (Decoded ((ss_config st)\<lparr>sc_updatedUTC := sv_now inp\<rparr>))\<rparr>"
  | (failed) e where "r = Inl e" and "st' = st\<lparr>ss_config := (ss_config st)\<lparr>sc_updatedUTC := sv_now inp\<rparr>\<rparr>"
  using assms by (auto simp: saveLocked_def atomicWrite_def Let_def split: option.splits if_splits)

text \<open>What a change does to the store: it is saved, or taken back by \<open>revert\<close>.\<close>

lemma saveOr_cases:
  assumes "saveOr inp revert st = (st', r)"
  obtains (saved) n where "r = Inr ()" and "ss_config st' = (ss_config st)\<lparr>sc_updatedUTC := sv_now inp\<rparr>" and "ss_file st' = Stored n True (Decoded (ss_config st'))"
  | (failed) e where "r = Inl e" and "ss_config st' = revert ((ss_config st)\<lparr>sc_updatedUTC := sv_now inp\<rparr>)" and "ss_file st' = ss_file st"
proof -
  obtain st1 r1 where s: "saveLocked inp st = (st1, r1)" by fastforce
  from s show ?thesis using assms s that by (cases rule: saveLocked_cases) (auto simp: saveOr_def)
qed

datatype sentinel_op =
  OpParanoia bool string | OpKillerdom bool string | OpTitan bool string | OpGhost ghost_input bool string | OpReconcile ghost_input
| OpSignature string bool | OpSystemApp string bool | OpWhitelist string bool | OpRemove string | OpAdd nat gotime string string string string

definition onStore :: "ghost_os \<Rightarrow> sentinelStore \<times> 'a outcome \<Rightarrow> (sentinelStore \<times> ghost_os) \<times> unit outcome" where
  "onStore os x = ((fst x, os), case snd x of Inl e \<Rightarrow> Inl e | Inr u \<Rightarrow> Inr ())"

fun runOp :: "sentinel_op \<Rightarrow> save_input \<Rightarrow> sentinelStore \<times> ghost_os \<Rightarrow> (sentinelStore \<times> ghost_os) \<times> unit outcome" where
  "runOp (OpParanoia b reason) inp (st, os) = onStore os (SetParanoiaMode inp b reason st)"
| "runOp (OpKillerdom b reason) inp (st, os) = onStore os (SetKillerdomEnabled inp b reason st)"
| "runOp (OpTitan b reason) inp (st, os) = onStore os (SetTitanCorrelation inp b reason st)"
| "runOp (OpGhost env b reason) inp (st, os) = SetGhostMode env inp b reason (st, os)"
| "runOp (OpReconcile env) inp (st, os) = ReconcileGhostMode env (st, os)"
| "runOp (OpSignature i b) inp (st, os) = onStore os (ToggleSignature inp i b st)"
| "runOp (OpSystemApp i b) inp (st, os) = onStore os (ToggleSystemApp inp i b st)"
| "runOp (OpWhitelist i b) inp (st, os) = onStore os (ToggleWhitelistApp inp i b st)"
| "runOp (OpRemove i) inp (st, os) = onStore os (RemoveWhitelistApp inp i st)"
| "runOp (OpAdd nanos now name pattern sha signer) inp (st, os) = onStore os (AddWhitelistAppPinned inp nanos now name pattern sha signer st)"

section \<open>Fresh identifiers\<close>

lemma freshSuffix_taken:
  assumes "freshSuffix fuel wl base k \<in> fst ` set wl"
  shows "(\<lambda>i. base @ ''_'' @ itoa i) ` {k..k + fuel} \<subseteq> fst ` set wl"
  using assms
proof (induction fuel arbitrary: k)
  case (Suc fuel)
  have "{k..k + Suc fuel} = insert k {Suc k..Suc k + fuel}" by auto
  moreover have "base @ ''_'' @ itoa k \<in> fst ` set wl" "freshSuffix fuel wl base (Suc k) \<in> fst ` set wl"
    using Suc.prems by (simp_all split: if_splits)
  ultimately show ?case using Suc.IH [of "Suc k"] by simp
qed simp

lemma freshID_fresh: "freshID wl stamp \<notin> fst ` set wl"
proof
  let ?base = "''wl_custom_'' @ itoa stamp" and ?f = "\<lambda>i. (''wl_custom_'' @ itoa stamp) @ ''_'' @ itoa i"
  assume a: "freshID wl stamp \<in> fst ` set wl"
  then have "?f ` {1..1 + length wl} \<subseteq> fst ` set wl" using freshSuffix_taken [of "length wl" wl ?base 1] by (auto simp: freshID_def Let_def split: if_splits)
  then have "card (?f ` {1..1 + length wl}) \<le> card (fst ` set wl)" by (intro card_mono) auto
  moreover have "inj_on ?f {1..1 + length wl}" using itoa_inj by (auto simp: inj_on_def)
  moreover have "card (fst ` set wl) \<le> length wl" using card_length [of "map fst wl"] by simp
  ultimately show False by (simp add: card_image)
qed

section \<open>A change is saved or taken back\<close>

text \<open>The settings a failed save leaves.\<close>

definition reverts :: "(sentinelConfig \<Rightarrow> sentinelConfig) \<Rightarrow> sentinelConfig \<Rightarrow> sentinelConfig \<Rightarrow> bool" where
  "reverts revert changed before \<longleftrightarrow> (\<forall>t. sameConfig (revert (changed\<lparr>sc_updatedUTC := t\<rparr>)) before)"

definition transacted :: "sentinelStore \<Rightarrow> sentinelStore \<Rightarrow> unit outcome \<Rightarrow> bool" where
  "transacted st st' r \<longleftrightarrow>
     (case r of
        Inl e \<Rightarrow> ss_file st' = ss_file st \<and> sameConfig (ss_config st') (ss_config st)
      | Inr u \<Rightarrow> st' = st\<lparr>ss_ghostApplied := ss_ghostApplied st', ss_ghostLastError := ss_ghostLastError st'\<rparr> \<or>
          (\<exists>n. ss_file st' = Stored n True (Decoded (ss_config st'))))"

lemma saveOr_transacted:
  assumes "reverts revert changed (ss_config st)" and "saveOr inp revert (st\<lparr>ss_config := changed\<rparr>) = (st', r)"
  shows "transacted st st' r"
  using assms(2) assms(1) by (cases rule: saveOr_cases) (auto simp: transacted_def reverts_def)

definition dropResult :: "'a outcome \<Rightarrow> unit outcome" where
  "dropResult r = (case r of Inl e \<Rightarrow> Inl e | Inr u \<Rightarrow> Inr ())"

lemma dropResult_simps [simp]: "dropResult (Inl e) = Inl e" "dropResult (Inr u) = Inr ()" "dropResult (r :: unit outcome) = r"
  by (simp_all add: dropResult_def split: sum.splits)

lemma onStore_eq: "onStore os x = ((st', os'), r) \<longleftrightarrow> os' = os \<and> st' = fst x \<and> r = dropResult (snd x)"
  by (auto simp: onStore_def dropResult_def)

lemma transacted_error [simp]: "transacted st st (Inl e)"
  by (simp add: transacted_def)

lemma transacted_flags [simp]: "transacted st (setGhostRuntime b e st') (Inl x) = transacted st st' (Inl x)"
  by (simp add: transacted_def setGhostRuntime_def)

lemma SetGhostMode_transacted:
  assumes "SetGhostMode env inp enabled reason (st, os) = ((st', os'), r)"
  shows "transacted st st' r"
proof -
  let ?rev = "\<lambda>c. c\<lparr>sc_ghostModeTelemetryKill := sc_ghostModeTelemetryKill (ss_config st), sc_reason := sc_reason (ss_config st)\<rparr>"
  let ?new = "(ss_config st)\<lparr>sc_ghostModeTelemetryKill := enabled, sc_reason := trimSentinelText reason\<rparr>"
  obtain st1 r1 where s: "saveOr inp ?rev (st\<lparr>ss_config := ?new\<rparr>) = (st1, r1)" by fastforce
  have t: "transacted st st1 r1" using s by (rule saveOr_transacted [rotated]) (simp add: reverts_def sameConfig_def)
  have ok: "transacted st (setGhostRuntime b None st1) (Inr ())" if "r1 = Inr ()" for b
    using s that by (cases rule: saveOr_cases) (auto simp: transacted_def setGhostRuntime_def)
  have same: "transacted st (setGhostRuntime b e st) (Inr ())" for b e by (simp add: transacted_def setGhostRuntime_def)
  have self: "transacted st st (Inr ())" by (simp add: transacted_def)
  show ?thesis using assms t ok same self unfolding SetGhostMode_def Let_def prod.case s fst_conv snd_conv
    by (auto split: prod.splits sum.splits if_splits)
qed

lemma switch_reverts:
  "reverts (\<lambda>c. c\<lparr>sc_paranoiaMode := sc_paranoiaMode p, sc_reason := sc_reason p\<rparr>) (p\<lparr>sc_paranoiaMode := b, sc_reason := t\<rparr>) p"
  "reverts (\<lambda>c. c\<lparr>sc_killerdomEnabled := sc_killerdomEnabled p, sc_reason := sc_reason p\<rparr>) (p\<lparr>sc_killerdomEnabled := b, sc_reason := t\<rparr>) p"
  "reverts (\<lambda>c. c\<lparr>sc_correlateWithTitan := sc_correlateWithTitan p, sc_reason := sc_reason p\<rparr>) (p\<lparr>sc_correlateWithTitan := b, sc_reason := t\<rparr>) p"
  by (simp_all add: reverts_def sameConfig_def)

lemma whitelist_reverts:
  assumes "map_of (sc_whitelist (ss_config st)) i = Some app"
  shows "reverts (\<lambda>c. c\<lparr>sc_whitelist := AList.update i app (sc_whitelist c)\<rparr>)
      ((ss_config st)\<lparr>sc_whitelist := AList.update i x (sc_whitelist (ss_config st))\<rparr>) (ss_config st)"
    and "reverts (\<lambda>c. c\<lparr>sc_whitelist := AList.update i app (sc_whitelist c)\<rparr>)
      ((ss_config st)\<lparr>sc_whitelist := AList.delete i (sc_whitelist (ss_config st))\<rparr>) (ss_config st)"
  using assms by (simp_all add: reverts_def sameConfig_def update_conv' delete_conv' fun_upd_idem)

text \<open>
  Every change of the sentinel's configuration is saved completely or not at all: when the operation
  reports an error the file is untouched and the settings in memory are those before the call; when it
  succeeds the file holds the settings in memory, or nothing but the ghost mode status changed.
\<close>

lemma sentinel_transactional:
  assumes "runOp op inp (st, os) = ((st', os'), r)"
  shows "transacted st st' r"
proof (cases op)
  case (OpGhost env b reason)
  then show ?thesis using assms SetGhostMode_transacted by simp
next
  case (OpReconcile env)
  then show ?thesis using assms by (auto simp: ReconcileGhostMode_def setGhostRuntime_def transacted_def split: prod.splits sum.splits if_splits)
next
  case (OpAdd nanos now name pattern sha signer)
  let ?wl = "sc_whitelist (ss_config st)" and ?i = "freshID (sc_whitelist (ss_config st)) (nanos mod 1000000)"
  have fresh: "map_of ?wl ?i = None" using freshID_fresh by (simp add: map_of_eq_None_iff)
  have "reverts (\<lambda>c. c\<lparr>sc_whitelist := AList.delete ?i (sc_whitelist c)\<rparr>) ((ss_config st)\<lparr>sc_whitelist := AList.update ?i x ?wl\<rparr>) (ss_config st)" for x
    using fresh by (simp add: reverts_def sameConfig_def delete_conv' update_conv' fun_upd_idem)
  note t = saveOr_transacted [OF this]
  show ?thesis using assms OpAdd
    by (auto simp: AddWhitelistAppPinned_def onStore_eq Let_def split: sum.splits prod.splits if_splits dest: t)
next
  case (OpSignature i b)
  let ?sigs = "sc_activeSignatures (ss_config st)" and ?i = "ToUpperASCII (TrimSpace i)"
  have "reverts (\<lambda>c. c\<lparr>sc_activeSignatures := (case map_of ?sigs ?i of Some previous \<Rightarrow> AList.update ?i previous (sc_activeSignatures c)
      | None \<Rightarrow> AList.delete ?i (sc_activeSignatures c))\<rparr>) ((ss_config st)\<lparr>sc_activeSignatures := AList.update ?i b ?sigs\<rparr>) (ss_config st)"
    by (simp add: reverts_def sameConfig_def delete_conv' update_conv' fun_upd_idem split: option.splits)
  note t = saveOr_transacted [OF this prod.collapse [symmetric], of inp]
  show ?thesis using assms OpSignature t by (auto simp: ToggleSignature_def onStore_eq Let_def split: if_splits)
next
  case (OpSystemApp i b)
  have "reverts (\<lambda>c. c\<lparr>sc_systemApps := AList.update i app (sc_systemApps c)\<rparr>)
      ((ss_config st)\<lparr>sc_systemApps := AList.update i x (sc_systemApps (ss_config st))\<rparr>) (ss_config st)"
    if "map_of (sc_systemApps (ss_config st)) i = Some app" for app x
    using that by (simp add: reverts_def sameConfig_def update_conv' fun_upd_idem)
  note t = saveOr_transacted [OF this prod.collapse [symmetric]]
  show ?thesis using assms OpSystemApp t by (auto simp: ToggleSystemApp_def onStore_eq split: option.splits)
next
  case (OpWhitelist i b)
  note t = saveOr_transacted [OF whitelist_reverts(1) prod.collapse [symmetric]]
  show ?thesis using assms OpWhitelist t by (auto simp: ToggleWhitelistApp_def onStore_eq split: option.splits if_splits)
next
  case (OpRemove i)
  note t = saveOr_transacted [OF whitelist_reverts(2) prod.collapse [symmetric]]
  show ?thesis using assms OpRemove t by (auto simp: RemoveWhitelistApp_def onStore_eq split: option.splits if_splits)
next
  case (OpParanoia b reason)
  note t = saveOr_transacted [OF switch_reverts(1) prod.collapse [symmetric]]
  show ?thesis using assms OpParanoia t by (auto simp: SetParanoiaMode_def onStore_eq Let_def)
next
  case (OpKillerdom b reason)
  note t = saveOr_transacted [OF switch_reverts(2) prod.collapse [symmetric]]
  show ?thesis using assms OpKillerdom t by (auto simp: SetKillerdomEnabled_def onStore_eq Let_def)
next
  case (OpTitan b reason)
  note t = saveOr_transacted [OF switch_reverts(3) prod.collapse [symmetric]]
  show ?thesis using assms OpTitan t by (auto simp: SetTitanCorrelation_def onStore_eq Let_def)
qed

section \<open>Self-protection\<close>

text \<open>The four entries of GeDefense are in the whitelist, enabled, immutable and with their own path and name.\<close>

definition selfHolds :: "(string \<times> whitelistEntry) list \<Rightarrow> whitelistEntry \<Rightarrow> bool" where
  "selfHolds wl entry \<longleftrightarrow> (case map_of wl (wl_ID entry) of None \<Rightarrow> False | Some x \<Rightarrow> selfEntryOK entry x)"

definition selfProtected :: "(string \<times> whitelistEntry) list \<Rightarrow> bool" where
  "selfProtected wl \<longleftrightarrow> list_all (selfHolds wl) (geDefenseEntries 0)"

lemma selfHolds_now: "selfHolds wl (whitelisted now sys i n p) = selfHolds wl (whitelisted 0 sys i n p)"
  by (simp add: selfHolds_def selfEntryOK_def whitelisted_def split: option.splits)

lemma selfProtected_now: "list_all (selfHolds wl) (geDefenseEntries now) \<longleftrightarrow> selfProtected wl"
  by (simp add: selfProtected_def geDefenseEntries_def selfHolds_now [of wl now])

lemma saveOr_Inr: "saveOr inp revert st = (st', Inr u) \<Longrightarrow> sc_whitelist (ss_config st') = sc_whitelist (ss_config st)"
  by (erule saveOr_cases) auto

lemma onStore_saveOr:
  "onStore os (saveOr inp revert st) = ((st', os'), Inr u) \<Longrightarrow> sc_whitelist (ss_config st') = sc_whitelist (ss_config st)"
  using saveOr_Inr [of inp revert st st'] by (cases "saveOr inp revert st") (auto simp: onStore_eq)

lemma onStore_error [simp]: "onStore os (st, Inl e) \<noteq> ((st', os'), Inr u)"
  by (simp add: onStore_eq)

text \<open>No operation touches an entry that is marked as a system app.\<close>

lemma runOp_whitelist:
  assumes "runOp op inp (st, os) = ((st', os'), r)" and "map_of (sc_whitelist (ss_config st)) k = Some x" and "wl_isSystemApp x"
  shows "map_of (sc_whitelist (ss_config st')) k = Some x"
proof (cases r)
  case (Inl e)
  then show ?thesis using sentinel_transactional [OF assms(1)] assms(2) by (simp add: transacted_def sameConfig_def)
next
  case (Inr u)
  have fresh: "k \<noteq> freshID (sc_whitelist (ss_config st)) n" for n using freshID_fresh assms(2) by (metis map_of_SomeD fst_conv image_eqI)
  note run = assms(1) [unfolded Inr]
  show ?thesis
  proof (cases op)
    case (OpGhost env b reason)
    show ?thesis using run assms(2) unfolding OpGhost runOp.simps SetGhostMode_def Let_def prod.case
      by (auto simp: setGhostRuntime_def split: prod.splits sum.splits if_splits dest!: saveOr_Inr)
  next
    case (OpReconcile env)
    then show ?thesis using run assms(2) by (auto simp: ReconcileGhostMode_def setGhostRuntime_def split: prod.splits sum.splits if_splits)
  next
    case (OpAdd nanos now name pattern sha signer)
    then show ?thesis using run assms(2) fresh
      by (auto simp: AddWhitelistAppPinned_def onStore_eq dropResult_def update_conv' Let_def split: sum.splits prod.splits if_splits dest!: saveOr_Inr)
  next
    case (OpWhitelist i b)
    then show ?thesis using run assms(2,3) by (auto simp: ToggleWhitelistApp_def update_conv' split: option.splits if_splits dest!: onStore_saveOr)
  next
    case (OpRemove i)
    then show ?thesis using run assms(2,3) by (auto simp: RemoveWhitelistApp_def delete_conv' split: option.splits if_splits dest!: onStore_saveOr)
  next
    case (OpParanoia b reason)
    then show ?thesis using run assms(2) by (auto simp: SetParanoiaMode_def Let_def dest!: onStore_saveOr)
  next
    case (OpKillerdom b reason)
    then show ?thesis using run assms(2) by (auto simp: SetKillerdomEnabled_def Let_def dest!: onStore_saveOr)
  next
    case (OpTitan b reason)
    then show ?thesis using run assms(2) by (auto simp: SetTitanCorrelation_def Let_def dest!: onStore_saveOr)
  next
    case (OpSignature i b)
    then show ?thesis using run assms(2) by (auto simp: ToggleSignature_def Let_def split: if_splits dest!: onStore_saveOr)
  next
    case (OpSystemApp i b)
    then show ?thesis using run assms(2) by (auto simp: ToggleSystemApp_def split: option.splits dest!: onStore_saveOr)
  qed
qed

lemma runOp_selfProtected:
  assumes "runOp op inp (st, os) = ((st', os'), r)" and "selfProtected (sc_whitelist (ss_config st))"
  shows "selfProtected (sc_whitelist (ss_config st'))"
proof -
  have "selfHolds (sc_whitelist (ss_config st')) e" if h: "selfHolds (sc_whitelist (ss_config st)) e" for e
  proof -
    obtain x where x: "map_of (sc_whitelist (ss_config st)) (wl_ID e) = Some x" "selfEntryOK e x" using h by (auto simp: selfHolds_def split: option.splits)
    then have "map_of (sc_whitelist (ss_config st')) (wl_ID e) = Some x" using runOp_whitelist [OF assms(1)] by (simp add: selfEntryOK_def)
    then show ?thesis using x(2) by (simp add: selfHolds_def)
  qed
  then show ?thesis using assms(2) by (auto simp: selfProtected_def list_all_iff)
qed

text \<open>Opening restores the entries whatever the file holds.\<close>

lemma restoreSelf_keeps:
  assumes "restoreSelf (wl, m) e = (wl', m')" and "wl_isSystemApp e" and "wl_enabled e"
  shows "selfHolds wl' e" and "wl_ID x \<noteq> wl_ID e \<Longrightarrow> selfHolds wl' x = selfHolds wl x"
  using assms by (auto simp: restoreSelf_def selfHolds_def selfEntryOK_def update_conv' split: option.splits if_splits)

lemma foldl_restoreSelf:
  assumes "foldl restoreSelf (wl, m) es = (wl', m')" and "distinct (map wl_ID es)" and "\<forall>e\<in>set es. wl_isSystemApp e \<and> wl_enabled e"
  shows "(\<forall>e\<in>set es. selfHolds wl' e) \<and> (\<forall>x. wl_ID x \<notin> wl_ID ` set es \<longrightarrow> selfHolds wl' x = selfHolds wl x)"
  using assms
proof (induction es arbitrary: wl m)
  case (Cons e es)
  obtain wl1 m1 where e: "restoreSelf (wl, m) e = (wl1, m1)" by fastforce
  note k = restoreSelf_keeps [OF e]
  have IH: "(\<forall>e\<in>set es. selfHolds wl' e) \<and> (\<forall>x. wl_ID x \<notin> wl_ID ` set es \<longrightarrow> selfHolds wl' x = selfHolds wl1 x)"
    using Cons.IH [of wl1 m1] Cons.prems e by simp
  then show ?case using k Cons.prems(2,3) by auto
qed simp

lemma geDefenseEntries_distinct:
  "distinct (map wl_ID (geDefenseEntries now))" "\<forall>e\<in>set (geDefenseEntries now). wl_isSystemApp e \<and> wl_enabled e"
  by (simp_all add: geDefenseEntries_def whitelisted_def)

lemma restored_selfProtected:
  assumes "foldl restoreSelf (wl, m) (geDefenseEntries now) = (wl', m')"
  shows "selfProtected wl'"
  using foldl_restoreSelf [OF assms geDefenseEntries_distinct] selfProtected_now [of wl' now] by (auto simp: list_all_iff)

lemma default_selfProtected: "selfProtected (sc_whitelist (defaultSentinelConfig now))"
proof -
  have "map_of (map (\<lambda>w. (wl_ID w, w)) (geDefenseEntries now)) (wl_ID e) = Some e" if "e \<in> set (geDefenseEntries now)" for e
    using that geDefenseEntries_distinct(1) [of now] by (intro map_of_is_SomeI) (auto simp: comp_def)
  then have "map_of (map (\<lambda>w. (wl_ID w, w)) (geDefenseEntries now @ ws)) (wl_ID e) = Some e" if "e \<in> set (geDefenseEntries now)" for e ws
    using that by (simp add: map_add_Some_iff)
  moreover obtain ws where "sc_whitelist (defaultSentinelConfig now) = map (\<lambda>w. (wl_ID w, w)) (geDefenseEntries now @ ws)"
    unfolding defaultSentinelConfig_def defaultWhitelist_def sentinelConfig.select_convs by blast
  ultimately have "selfHolds (sc_whitelist (defaultSentinelConfig now)) e" if "e \<in> set (geDefenseEntries now)" for e
    using that geDefenseEntries_distinct(2) [of now] by (simp add: selfHolds_def selfEntryOK_def del: map_append)
  then show ?thesis using selfProtected_now by (auto simp: list_all_iff)
qed

lemma saveLocked_whitelist: "sc_whitelist (ss_config (fst (saveLocked inp st))) = sc_whitelist (ss_config st)"
  by (simp add: saveLocked_def Let_def split: option.splits sum.splits)

lemma saveNew_whitelist: "saveNew inp st = Inr st' \<Longrightarrow> sc_whitelist (ss_config st') = sc_whitelist (ss_config st)"
  using saveLocked_whitelist [of inp st] by (auto simp: saveNew_def split: prod.splits sum.splits)

lemma OpenSentinelStore_selfProtected:
  assumes "OpenSentinelStore inp now absolute name ok f = Inr st"
  shows "selfProtected (sc_whitelist (ss_config st))"
proof -
  have loaded: "selfProtected (sc_whitelist (ss_config (loadedStore inp now loaded f)))" for loaded
    using restored_selfProtected [where now = now] saveLocked_whitelist
    by (auto simp: loadedStore_def newStore_def Let_def split: prod.splits)
  have fresh: "selfProtected (sc_whitelist (ss_config st))"
    if "saveNew inp st0 = Inr st" "sc_whitelist (ss_config st0) = sc_whitelist (defaultSentinelConfig now)" for st0
    using saveNew_whitelist [OF that(1)] that(2) default_selfProtected by simp
  show ?thesis
    using assms loaded fresh by (auto simp: OpenSentinelStore_def newStore_def split: if_splits stored.splits content.splits)
qed

text \<open>
  Every run of the service: the store is opened on whatever file a restart finds, and then serves
  operations, successful or not.
\<close>

inductive sentinel_reachable :: "sentinelStore \<times> ghost_os \<Rightarrow> bool" where
  opened: "OpenSentinelStore inp now absolute name ok f = Inr st \<Longrightarrow> sentinel_reachable (st, os)"
| served: "sentinel_reachable s \<Longrightarrow> runOp op inp s = (s', r) \<Longrightarrow> sentinel_reachable s'"

lemma reachable_selfProtected: "sentinel_reachable s \<Longrightarrow> selfProtected (sc_whitelist (ss_config (fst s)))"
proof (induction rule: sentinel_reachable.induct)
  case (served s op inp s' r)
  obtain st os st' os' where "s = (st, os)" "s' = (st', os')" by (metis prod.exhaust)
  then show ?case using served.hyps(2) served.IH runOp_selfProtected [of op inp st os st' os' r] by simp
qed (simp add: OpenSentinelStore_selfProtected)

text \<open>The mapping to lower case, on ASCII text.\<close>

definition lowers_ascii :: "unicode_case \<Rightarrow> bool" where
  "lowers_ascii uc \<longleftrightarrow> (\<forall>s. (\<forall>c\<in>set s. byte c < 128) \<longrightarrow> uc_lower uc s = ToLowerASCII s)"

definition selfPaths :: "string list" where
  "selfPaths = map wl_pathPattern (geDefenseEntries 0)"

lemma selfPaths_now: "e \<in> set (geDefenseEntries now) \<Longrightarrow> wl_pathPattern e \<in> set selfPaths"
  by (auto simp: selfPaths_def geDefenseEntries_def whitelisted_def)

lemma selfPaths_canonical:
  "map TrimSpace selfPaths = selfPaths" "map FromSlash selfPaths = selfPaths" "map Clean selfPaths = selfPaths"
  by code_simp+

lemma selfPaths_chars:
  "list_all (list_all (\<lambda>c. byte c < 128)) selfPaths"
  "list_all (\<lambda>p. backslash \<in> set (ToLowerASCII p) \<and> CHR ''*'' \<notin> set (ToLowerASCII p)) selfPaths"
  by code_simp+

lemma map_fixed: "map f xs = xs \<Longrightarrow> x \<in> set xs \<Longrightarrow> f x = x"
  by (induction xs) auto

lemma self_image:
  assumes "lowers_ascii uc" and "p \<in> set selfPaths"
  shows "cleanImage uc p = ToLowerASCII p" and "matchSentinelPathPattern uc p (ToLowerASCII p) base" and "ToLowerASCII p \<noteq> []" and "ToLowerASCII p \<noteq> ''.''"
proof -
  let ?l = "ToLowerASCII p"
  note fixed = selfPaths_canonical [THEN map_fixed [OF _ assms(2)]]
  have chars: "backslash \<in> set ?l" "CHR ''*'' \<notin> set ?l" and low: "uc_lower uc p = ?l"
    using selfPaths_chars assms by (auto simp: list_all_iff lowers_ascii_def)
  show "cleanImage uc p = ?l" using fixed low by (simp add: cleanImage_def)
  have "glob ?l ?l" using glob_plain [OF chars(2), of "[]" ?l] by simp
  then have "wildcardMatch ?l ?l" using wildcard_is_glob [OF chars(2)] by simp
  moreover have "?l \<noteq> []" "?l \<noteq> ''*''" "?l \<noteq> ''.''" using chars by (auto simp: backslash_def)
  ultimately show "matchSentinelPathPattern uc p ?l base" "?l \<noteq> []" "?l \<noteq> ''.''"
    using fixed low chars(1) by (simp_all add: matchSentinelPathPattern_def Let_def)
qed

lemma self_allowed:
  assumes "lowers_ascii uc" and "wl_pathPattern e \<in> set selfPaths" and "selfHolds (sc_whitelist (ss_config st)) e"
  shows "fst (IsAppAllowed uc (wl_pathPattern e) st)"
proof -
  let ?p = "wl_pathPattern e"
  note s = self_image [OF assms(1,2)]
  obtain x where x: "map_of (sc_whitelist (ss_config st)) (wl_ID e) = Some x" "selfEntryOK e x"
    using assms(3) by (auto simp: selfHolds_def split: option.splits)
  have "x \<in> set (map snd (sc_whitelist (ss_config st)))" using map_of_SomeD [OF x(1)] by force
  moreover have "entryMatches uc (ToLowerASCII ?p) x" using s(2) x(2) by (simp add: entryMatches_def selfEntryOK_def)
  ultimately have "find (entryMatches uc (ToLowerASCII ?p)) (map snd (sc_whitelist (ss_config st))) \<noteq> None" by (auto simp: find_None_iff)
  then show ?thesis using s by (auto simp: IsAppAllowed_def Let_def split: option.splits)
qed

text \<open>
  C38 [sentinel_self_protected]: in every state that the store can reach, from whatever file it was opened and after whatever
  operations, successful or not, each of the four executables of GeDefense keeps its whitelist entry,
  enabled, immutable and with its own path and name, and \<open>IsAppAllowed\<close> authorizes an image at that path.
  The hypothesis on \<open>strings.ToLower\<close> is its behaviour on ASCII text.
\<close>

theorem sentinel_self_protected:
  assumes "sentinel_reachable (st, os)" and "lowers_ascii uc" and "e \<in> set (geDefenseEntries now)"
  shows "selfHolds (sc_whitelist (ss_config st)) e \<and> fst (IsAppAllowed uc (wl_pathPattern e) st)"
proof -
  have "selfHolds (sc_whitelist (ss_config st)) e"
    using reachable_selfProtected [OF assms(1)] assms(3) selfProtected_now [of _ now] by (auto simp: list_all_iff)
  then show ?thesis using self_allowed [OF assms(2) selfPaths_now [OF assms(3)]] by blast
qed

text \<open>A file in which the entry of the service was disabled and pointed to another program.\<close>

definition tamperedConfig :: sentinelConfig where
  "tamperedConfig = (defaultSentinelConfig 0)\<lparr>sc_whitelist := [(''wl_gedefense_svc'', (whitelisted 0 False ''wl_gedefense_svc'' ''x'' ''*evil.exe'')\<lparr>wl_enabled := False\<rparr>)]\<rparr>"

definition sampleSave :: save_input where
  "sampleSave = \<lparr>sv_now = 5, sv_size = (\<lambda>c. Some 4096), sv_ok = True\<rparr>"

definition sampleCase :: unicode_case where
  "sampleCase = \<lparr>uc_lower = ToLowerASCII, uc_equalFold = (\<lambda>a b. ToLowerASCII a = ToLowerASCII b)\<rparr>"

definition sampleOS :: ghost_os where
  "sampleOS = \<lparr>go_hosts = Some [], go_backup = None, go_scripts = [], go_attempts = 0\<rparr>"

theorem sentinel_self_protected_witness:
  "fst (IsAppAllowed sampleCase (driveC [''Program Files'', ''VGT'', ''GeDefense'', ''bin'', ''gedefense-windows.exe''])
     (fst (fst (runOp (OpRemove ''wl_gedefense_svc'') sampleSave (loadedStore sampleSave 0 tamperedConfig (Stored 900 True (Decoded tamperedConfig)), sampleOS)))))"
proof -
  let ?f = "Stored 900 True (Decoded tamperedConfig)"
  let ?s = "(loadedStore sampleSave 0 tamperedConfig ?f, sampleOS)"
  let ?e = "whitelisted 0 True ''wl_gedefense_svc'' ''GeDefense Service'' (driveC [''Program Files'', ''VGT'', ''GeDefense'', ''bin'', ''gedefense-windows.exe''])"
  have "OpenSentinelStore sampleSave 0 True [] True ?f = Inr (fst ?s)" by (simp add: OpenSentinelStore_def maxSentinelConfigBytes_def)
  then have "sentinel_reachable ?s" using sentinel_reachable.opened by simp
  then have "sentinel_reachable (fst (runOp (OpRemove ''wl_gedefense_svc'') sampleSave ?s))"
    using sentinel_reachable.served prod.collapse by metis
  then have r: "sentinel_reachable (fst (fst (runOp (OpRemove ''wl_gedefense_svc'') sampleSave ?s)), snd (fst (runOp (OpRemove ''wl_gedefense_svc'') sampleSave ?s)))"
    by simp
  have "lowers_ascii sampleCase" by (simp add: lowers_ascii_def sampleCase_def)
  moreover have "?e \<in> set (geDefenseEntries 0)" by (simp add: geDefenseEntries_def)
  moreover have "wl_pathPattern ?e = driveC [''Program Files'', ''VGT'', ''GeDefense'', ''bin'', ''gedefense-windows.exe'']" by (simp add: whitelisted_def)
  ultimately show ?thesis using sentinel_self_protected [OF r] by metis
qed

section \<open>Ghost mode\<close>

text \<open>
  A successful switch of ghost mode is honest: the flag, the saved file, the reported status, the
  firewall rules and the hosts file agree.
\<close>

lemma ghost_mode_honest:
  assumes "SetGhostMode env inp enabled reason (st, os) = ((st', os'), Inr ())" and "sc_ghostModeTelemetryKill (ss_config st) \<noteq> enabled"
  shows "sc_ghostModeTelemetryKill (ss_config st') = enabled \<and> GhostRuntime st' = (enabled, []) \<and>
    (\<exists>n. ss_file st' = Stored n True (Decoded (ss_config st'))) \<and> firewallHolds enabled os' \<and> (enabled \<longrightarrow> sinkholeIn os')"
proof -
  let ?rev = "\<lambda>c. c\<lparr>sc_ghostModeTelemetryKill := sc_ghostModeTelemetryKill (ss_config st), sc_reason := sc_reason (ss_config st)\<rparr>"
  let ?new = "(ss_config st)\<lparr>sc_ghostModeTelemetryKill := enabled, sc_reason := trimSentinelText reason\<rparr>"
  obtain os1 where e: "applyGhostModeEffects env enabled os = (os1, Inr ())"
    using assms unfolding SetGhostMode_def Let_def prod.case by (auto split: prod.splits sum.splits if_splits)
  obtain st1 r1 where s: "saveOr inp ?rev (st\<lparr>ss_config := ?new\<rparr>) = (st1, r1)" by fastforce
  have fin: "r1 = Inr ()" "st' = setGhostRuntime enabled None st1" "os' = os1"
    using assms e s unfolding SetGhostMode_def Let_def prod.case by (auto split: sum.splits)
  have "sc_ghostModeTelemetryKill (ss_config st1) = enabled \<and> (\<exists>n. ss_file st1 = Stored n True (Decoded (ss_config st1)))"
    using s fin(1) by (cases rule: saveOr_cases) auto
  then show ?thesis using fin effects_applied [OF e] by (simp add: setGhostRuntime_def GhostRuntime_def split: if_splits)
qed

text \<open>
  When disabling fails because the firewall script fails, nothing was changed: the rules and the hosts
  file still block, and the flag is still set, but the status reports ghost mode as not applied.
\<close>

lemma failed_disable_misreported:
  assumes "sc_ghostModeTelemetryKill (ss_config st)" and "gi_script env (length (go_scripts os)) = Some e"
  shows "\<exists>st' os' err. SetGhostMode env inp False reason (st, os) = ((st', os'), Inl err) \<and> sc_ghostModeTelemetryKill (ss_config st') \<and>
    go_hosts os' = go_hosts os \<and> \<not> fst (GhostRuntime st')"
  using assms
  by (simp add: SetGhostMode_def applyGhostModeEffects_def applyGhostModeFirewall_def runScript_def Let_def setGhostRuntime_def GhostRuntime_def)

section \<open>Pinned entries\<close>

text \<open>
  The verdict on an image that a pinned and an unpinned entry match depends on the order in which the
  map is iterated: with the same two entries it is a refusal or an authorization.
\<close>

lemma pin_depends_on_order:
  assumes "entryMatches uc p x" and "entryMatches uc p y" and "wl_SHA256 x \<noteq> []" and "hash (pe_imagePath event) = None"
    and "wl_SHA256 y = []" and "wl_signerMatch y = []" and "\<not> wl_isSystemApp y"
    and "cleanImage uc (pe_imagePath event) = p" and "p \<noteq> []" and "p \<noteq> ''.''" and "sc_systemApps (ss_config st) = []"
  shows "\<not> fst (IsAppAllowedEvent uc hash event (st\<lparr>ss_config := (ss_config st)\<lparr>sc_whitelist := [(i, x), (j, y)]\<rparr>\<rparr>)) \<and>
    fst (IsAppAllowedEvent uc hash event (st\<lparr>ss_config := (ss_config st)\<lparr>sc_whitelist := [(j, y), (i, x)]\<rparr>\<rparr>))"
  using assms by (simp add: IsAppAllowedEvent_def entryVerdict_def Let_def)

text \<open>
  The restoration of the own entries keeps the pins of an edited file: such an entry is enabled and
  immutable again, but the process sensor refuses the executable whose hash does not match.
\<close>

lemma restored_pin_refuses:
  assumes "map_of wl (wl_ID entry) = Some existing" and "wl_SHA256 existing \<noteq> []" and "hash (pe_imagePath event) = None"
  shows "\<exists>x. map_of (fst (restoreSelf (wl, modified) entry)) (wl_ID entry) = Some x \<and> selfEntryOK entry x \<and> \<not> fst (entryVerdict uc hash event x)"
  using assms by (auto simp: restoreSelf_def selfEntryOK_def entryVerdict_def update_conv' Let_def)

end
