(* ===== verification/Termination.thy ===== *)
theory Termination
  imports SentinelRuns
begin

text \<open>
  The termination of an observed process: \<open>internal/mhx/terminate_windows.go\<close>, the self-protection of
  \<open>internal/mhx/engine.go\<close>, and the identity of a running process in \<open>internal/winapi/core_windows.go\<close>.

  What Windows answers is in \<open>process_env\<close>: the creation time and the image path of the process that has a
  given id when it is opened, and whether closing its handle and terminating it succeed.
\<close>

section \<open>Definitions\<close>

record runningProcess =
  rn_creationUnixNano :: "64 word"
  rn_imagePath :: string

record process_env =
  pv_case :: unicode_case
  pv_currentPID :: pid
  pv_open :: "pid \<Rightarrow> bool \<Rightarrow> runningProcess option"
  pv_close :: "pid \<Rightarrow> bool"
  pv_kill :: "pid \<Rightarrow> bool"

definition OpenProcessIdentity :: "process_env \<Rightarrow> pid \<Rightarrow> bool \<Rightarrow> runningProcess outcome" where
  "OpenProcessIdentity env p kill =
     (if p \<le> 4 then Inl (Err ''protected process boundary'')
      else case pv_open env p kill of None \<Rightarrow> Inl (Err ''OpenProcess failed'') | Some identity \<Rightarrow> Inr identity)"

definition SameImagePath :: "unicode_case \<Rightarrow> string \<Rightarrow> string \<Rightarrow> bool" where
  "SameImagePath uc left right \<longleftrightarrow> left \<noteq> [] \<and> right \<noteq> [] \<and> uc_equalFold uc (Clean left) (Clean right)"

text \<open>\<open>UnixNano\<close> of a time, counted from the year 1, in 64 bits.\<close>

definition UnixNano :: "gotime \<Rightarrow> 64 word" where
  "UnixNano t = of_int (t - 62135596800 * second)"

definition creationDifference :: "runningProcess \<Rightarrow> processEvent \<Rightarrow> 64 word" where
  "creationDifference identity event =
     (let difference = rn_creationUnixNano identity - UnixNano (pe_creationUTC event) in
      if sint difference < 0 then - difference else difference)"

definition openObservedProcess :: "process_env \<Rightarrow> processEvent \<Rightarrow> bool \<Rightarrow> runningProcess outcome" where
  "openObservedProcess env event kill =
     (if pe_PID event \<le> 4 \<or> pe_creationUTC event = 0 \<or> pe_imagePath event = [] then Inl (Err ''process identity boundary rejected'')
      else bind_outcome (OpenProcessIdentity env (pe_PID event) kill) (\<lambda>identity.
        if 2 * second < sint (creationDifference identity event) then Inl (Err ''process identity changed before response'')
        else if \<not> SameImagePath (pv_case env) (rn_imagePath identity) (pe_imagePath event) then Inl (Err ''process image changed before response'')
        else Inr identity))"

definition validateObservedProcess :: "process_env \<Rightarrow> processEvent \<Rightarrow> unit outcome" where
  "validateObservedProcess env event =
     bind_outcome (openObservedProcess env event False) (\<lambda>identity.
       if pv_close env (pe_PID event) then Inr () else Inl (Err ''CloseHandle failed''))"

text \<open>The first component tells whether the process was ended.\<close>

definition terminateProcess :: "process_env \<Rightarrow> processEvent \<Rightarrow> bool \<times> unit outcome" where
  "terminateProcess env event =
     (case openObservedProcess env event True of
        Inl e \<Rightarrow> (False, Inl e)
      | Inr identity \<Rightarrow>
          if \<not> pv_kill env (pe_PID event) then (False, Inl (Err ''terminate observed process''))
          else (True, if pv_close env (pe_PID event) then Inr () else Inl (Err ''close resource'')))"

definition treeMark :: string where
  "treeMark = [backslash] @ ''vgt'' @ [backslash] @ ''gedefense'' @ [backslash]"

definition isGeDefenseBinary :: "unicode_case \<Rightarrow> string \<Rightarrow> bool" where
  "isGeDefenseBinary uc path =
     (let p = uc_lower uc (Clean (TrimSpace path)) in
      if p = [] \<or> p = ''.'' then False
      else strContains p treeMark \<or> strContains p ([backslash] @ ''program files'' @ treeMark))"

definition hardeningCommand :: "unicode_case \<Rightarrow> string \<Rightarrow> bool" where
  "hardeningCommand uc commandLine =
     (let cmdLower = uc_lower uc commandLine in
      strContains cmdLower (''-file '' @ [CHR 0x22] @ ''c:'' @ [backslash] @ ''program files'' @ treeMark) \<and>
      strContains cmdLower ''invoke-vgthardening.ps1'' \<and> \<not> strContains cmdLower ''-command'' \<and>
      \<not> strContains cmdLower ''-encodedcommand'' \<and> \<not> strContains cmdLower ''-c '')"

definition isGeDefenseSelfOrChild :: "unicode_case \<Rightarrow> pid \<Rightarrow> processEvent \<Rightarrow> bool" where
  "isGeDefenseSelfOrChild uc currentPID event =
     (if currentPID \<noteq> 0 \<and> (pe_PID event = currentPID \<or> pe_parentPID event = currentPID) then True
      else if list_ex (\<lambda>ancestor. currentPID \<noteq> 0 \<and> pi_PID ancestor = currentPID \<or> isGeDefenseBinary uc (pi_path ancestor)) (pe_ancestry event) then True
      else if isGeDefenseBinary uc (pe_imagePath event) then True
      else if isGeDefenseBinary uc (pe_parentPath event) then True
      else hardeningCommand uc (pe_commandLine event))"

text \<open>\<open>terminateObserved\<close> of an engine without a replaced terminator.\<close>

definition terminateObservedProcess :: "process_env \<Rightarrow> processEvent \<Rightarrow> bool \<times> unit outcome" where
  "terminateObservedProcess env event =
     (if isGeDefenseSelfOrChild (pv_case env) (pv_currentPID env) event
      then (False, Inl (Err ''self-protection: terminating GeDefense core or authorized child process is rejected''))
      else terminateProcess env event)"

text \<open>\<open>terminatePIDVerified\<close>, by which the correlation with the persistence sensor ends a process of which only the id is known.\<close>

definition terminatePIDVerified :: "process_env \<Rightarrow> pid \<Rightarrow> bool \<times> unit outcome" where
  "terminatePIDVerified env p =
     (if p \<le> 4 then (False, Inl (Err ''pid boundary rejected''))
      else case OpenProcessIdentity env p True of
        Inl e \<Rightarrow> (False, Inl (Err (''open process '' @ itoa (unat p) @ '': '' @ errText e)))
      | Inr identity \<Rightarrow>
          if sint (rn_creationUnixNano identity) \<le> 0 \<or> TrimSpace (rn_imagePath identity) = [] then (False, Inl (Err ''process identity incomplete''))
          else if isGeDefenseBinary (pv_case env) (rn_imagePath identity)
          then (False, Inl (Err ''self-protection: GeDefense process termination rejected''))
          else if pv_kill env p then (True, Inr ()) else (False, Inl (Err (''terminate pid '' @ itoa (unat p)))))"

section \<open>Who is terminated\<close>

text \<open>The running process with the id of the event is the observed one: its creation time differs by at most two seconds and its image is the same.\<close>

definition sameProcess :: "process_env \<Rightarrow> bool \<Rightarrow> processEvent \<Rightarrow> bool" where
  "sameProcess env kill event \<longleftrightarrow> 4 < pe_PID event \<and> pe_creationUTC event \<noteq> 0 \<and>
     (case pv_open env (pe_PID event) kill of None \<Rightarrow> False
      | Some identity \<Rightarrow> sint (creationDifference identity event) \<le> 2 * second \<and>
          SameImagePath (pv_case env) (rn_imagePath identity) (pe_imagePath event))"

lemma openObservedProcess_same: "openObservedProcess env event kill = Inr identity \<Longrightarrow> sameProcess env kill event"
  by (auto simp: openObservedProcess_def OpenProcessIdentity_def sameProcess_def bind_outcome_eq_Inr split: if_splits option.splits)

lemma validated_same: "validateObservedProcess env event = Inr () \<Longrightarrow> sameProcess env False event"
  by (auto simp: validateObservedProcess_def bind_outcome_eq_Inr dest: openObservedProcess_same)

text \<open>Only the observed process is ended, and never one that counts as GeDefense or its child.\<close>

lemma terminated_same:
  assumes "fst (terminateObservedProcess env event)"
  shows "sameProcess env True event \<and> \<not> isGeDefenseSelfOrChild (pv_case env) (pv_currentPID env) event"
  using assms by (auto simp: terminateObservedProcess_def terminateProcess_def split: if_splits sum.splits dest: openObservedProcess_same)

text \<open>
  The own process, its children and descendants are refused, whatever their image is.
\<close>

lemma own_processes_refused:
  assumes "pv_currentPID env \<noteq> 0"
    and "pv_currentPID env = pe_PID event \<or> pv_currentPID env = pe_parentPID event \<or> pv_currentPID env \<in> pi_PID ` set (pe_ancestry event)"
  shows "\<not> fst (terminateObservedProcess env event)"
proof -
  have "isGeDefenseSelfOrChild (pv_case env) (pv_currentPID env) event"
    using assms by (auto simp: isGeDefenseSelfOrChild_def list_ex_iff)
  then show ?thesis by (simp add: terminateObservedProcess_def)
qed

text \<open>
  The self-protection does not ask for the installed tree: a program below any directory \<open>gedefense\<close> of a
  directory \<open>vgt\<close>, such as one of a user, is never terminated.
\<close>

lemma foreign_tree_protected:
  assumes "strContains (uc_lower (pv_case env) (Clean (TrimSpace (pe_imagePath event)))) treeMark"
  shows "\<not> fst (terminateObservedProcess env event)"
proof -
  let ?p = "uc_lower (pv_case env) (Clean (TrimSpace (pe_imagePath event)))"
  have "\<not> strContains [] treeMark" "\<not> strContains ''.'' treeMark" by code_simp+
  then have "?p \<noteq> []" "?p \<noteq> ''.''" using assms by metis+
  then have "isGeDefenseBinary (pv_case env) (pe_imagePath event)" using assms by (simp add: isGeDefenseBinary_def Let_def)
  then show ?thesis by (simp add: terminateObservedProcess_def isGeDefenseSelfOrChild_def)
qed

lemma foreign_tree_example:
  "isGeDefenseBinary sampleCase (driveC [''Users'', ''x'', ''VGT'', ''GeDefense'', ''evil.exe''])"
  by code_simp

end
