(* ===== verification/NetworkCorrelation.thy ===== *)
theory NetworkCorrelation
  imports KineticRuns Termination
begin

text \<open>
  \<open>internal/mhx/network_correlation.go\<close> with the notification feed of \<open>internal/mhx/settings.go\<close>: how the engine
  evaluates an observed connection and a connection that Windows blocked, correlates it with a
  recent process and with the threat intelligence, and when it terminates a process for it.

  An \<open>nengine\<close> is the engine of \<open>KineticState\<close> with the fields of \<open>Engine\<close> that these functions use.
  What Windows answers about processes is in \<open>nv_process\<close> of \<open>network_env\<close>. The list \<open>ne_terminated\<close> records
  the processes that were terminated.
\<close>

section \<open>Data\<close>

definition maximumNetworkFindings :: nat where "maximumNetworkFindings = 500"
definition maximumAttackStories :: nat where "maximumAttackStories = 500"
definition maximumNotificationEntries :: nat where "maximumNotificationEntries = 200"

type_synonym severity = string

definition SeverityInformational :: severity where "SeverityInformational = ''INFORMATIONAL''"
definition SeverityLow :: severity where "SeverityLow = ''LOW''"
definition SeverityMedium :: severity where "SeverityMedium = ''MEDIUM''"
definition SeverityHigh :: severity where "SeverityHigh = ''HIGH''"
definition SeverityCritical :: severity where "SeverityCritical = ''CRITICAL''"

definition notificationKindBlock :: string where "notificationKindBlock = ''BLOCK''"
definition notificationKindDefender :: string where "notificationKindDefender = ''DEFENDER''"
definition notificationKindThreatIntel :: string where "notificationKindThreatIntel = ''THREAT_INTELLIGENCE''"
definition notificationKindKinetic :: string where "notificationKindKinetic = ''KINETIC''"

definition severityRank :: "severity \<Rightarrow> nat" where
  "severityRank s = (if s = SeverityCritical then 5 else if s = SeverityHigh then 4 else if s = SeverityMedium then 3
     else if s = SeverityLow then 2 else if s = SeverityInformational then 1 else 0)"

definition severityAtLeast :: "severity \<Rightarrow> severity \<Rightarrow> bool" where
  "severityAtLeast severity floor \<longleftrightarrow> severityRank floor \<le> severityRank severity"

text \<open>The fields of \<open>Analysis\<close> that are read here.\<close>

record analysis =
  an_ID :: string
  an_timestampUTC :: gotime
  an_effectiveSeverity :: severity
  an_detection :: string
  an_signals :: "string list"
  an_responseAuthority :: bool

record recentProcess =
  rp_event :: processEvent
  rp_analysis :: analysis
  rp_expires :: gotime

record networkEvent =
  nw_timestampUTC :: gotime
  nw_PID :: pid
  nw_localPort :: port
  nw_remoteIP :: string
  nw_remotePort :: port

record wfpBlockEvent =
  wf_timestampUTC :: gotime
  wf_recordID :: int
  wf_PID :: pid
  wf_application :: string
  wf_direction :: string
  wf_localPort :: port
  wf_remoteIP :: string
  wf_remotePort :: port
  wf_filterOrigin :: string
  wf_geDefenseOrigin :: bool

record networkFinding =
  nf_ID :: string
  nf_timestampUTC :: gotime
  nf_PID :: pid
  nf_image :: string
  nf_remoteIP :: string
  nf_remotePort :: port
  nf_localPort :: port
  nf_threatIntel :: bool
  nf_protectedNetwork :: bool
  nf_threatAction :: action
  nf_threatSources :: "string list"
  nf_severity :: severity
  nf_correlationID :: string
  nf_response :: string
  nf_filterOrigin :: string

record attackStory =
  as_ID :: string
  as_startedUTC :: gotime
  as_updatedUTC :: gotime
  as_PID :: pid
  as_image :: string
  as_processAnalysisID :: string
  as_severity :: severity
  as_signals :: "string list"
  as_threatAction :: action
  as_protectedNetwork :: bool
  as_threatSources :: "string list"
  as_remoteIP :: string
  as_remotePort :: port
  as_response :: string

record kineticIncident =
  kx_timestampUTC :: gotime
  kx_remoteIP :: string
  kx_localPort :: port
  kx_threatMatched :: bool
  kx_threatSources :: "string list"
  kx_verifiedWFPBlock :: bool
  kx_classification :: string

record notification =
  no_ID :: string
  no_timestampUTC :: gotime
  no_kind :: string
  no_severity :: severity
  no_title :: string
  no_detail :: string

record autoResponseSettings =
  au_terminateProcess :: bool
  au_correlatedNetworkResponse :: bool
  au_minimumSeverity :: severity

record notificationSettings =
  ns_eventFeedEnabled :: bool
  ns_blockEvents :: bool
  ns_defenderEvents :: bool
  ns_threatIntelEvents :: bool
  ns_kineticEvents :: bool
  ns_minimumSeverity :: severity
  ns_windowsToasts :: bool
  ns_toastMinimumSeverity :: severity

text \<open>The writable part of \<open>PolicySettings\<close>.\<close>

record policySettings =
  py_autoResponse :: autoResponseSettings
  py_notifications :: notificationSettings

definition DefaultAutoResponseSettings :: autoResponseSettings where
  "DefaultAutoResponseSettings = \<lparr>au_terminateProcess = True, au_correlatedNetworkResponse = True, au_minimumSeverity = SeverityLow\<rparr>"

definition DefaultNotificationSettings :: notificationSettings where
  "DefaultNotificationSettings = \<lparr>ns_eventFeedEnabled = True, ns_blockEvents = True, ns_defenderEvents = True, ns_threatIntelEvents = True,
     ns_kineticEvents = True, ns_minimumSeverity = SeverityLow, ns_windowsToasts = True, ns_toastMinimumSeverity = SeverityLow\<rparr>"

definition DefaultPolicySettings :: policySettings where
  "DefaultPolicySettings = \<lparr>py_autoResponse = DefaultAutoResponseSettings, py_notifications = DefaultNotificationSettings\<rparr>"

text \<open>\<open>ne_ghostMode\<close> is the flag of the sentinel store, \<open>None\<close> without a store; \<open>ne_policy\<close> the stored settings.\<close>

record nengine =
  ne_kinetic :: kengine
  ne_findings :: "networkFinding list"
  ne_stories :: "attackStory list"
  ne_incidents :: "kineticIncident list"
  ne_notifications :: "notification list"
  ne_recent :: "(pid \<times> recentProcess) list"
  ne_mode :: string
  ne_policy :: "policySettings option"
  ne_ghostMode :: "bool option"
  ne_blocked :: counter
  ne_networkObserved :: counter
  ne_networkThreatHits :: counter
  ne_networkUncorrelated :: counter
  ne_kineticThreatCorrelations :: counter
  ne_kineticBlockedCorrelations :: counter
  ne_terminated :: "processEvent list"

record network_env =
  nv_runtime :: runtime_env
  nv_now :: gotime
  nv_process :: process_env

abbreviation ne_engine :: "nengine \<Rightarrow> engine" where "ne_engine ne \<equiv> ke_engine (ne_kinetic ne)"
abbreviation nv_sha :: "network_env \<Rightarrow> string \<Rightarrow> string" where "nv_sha env \<equiv> pf_sha (rt_platform (nv_runtime env))"

section \<open>Notifications and the ledger\<close>

definition noteNetwork :: "network_env \<Rightarrow> ledger_entry \<Rightarrow> nengine \<Rightarrow> nengine" where
  "noteNetwork env entry ne = ne\<lparr>ne_kinetic := noteKinetic (nv_runtime env) entry (ne_kinetic ne)\<rparr>"

definition currentPolicySettings :: "nengine \<Rightarrow> policySettings" where
  "currentPolicySettings ne = (case ne_policy ne of Some p \<Rightarrow> p | None \<Rightarrow> DefaultPolicySettings)"

definition networkResponsePolicyAllows :: "policySettings \<Rightarrow> severity \<Rightarrow> bool" where
  "networkResponsePolicyAllows settings severity \<longleftrightarrow> au_correlatedNetworkResponse (py_autoResponse settings) \<and>
     severityAtLeast severity (au_minimumSeverity (py_autoResponse settings))"

definition truncate :: "string \<Rightarrow> nat \<Rightarrow> string" where
  "truncate value maximum = (if length value \<le> maximum then value else take maximum value)"

text \<open>The first 16 bytes of a SHA-256 in hexadecimal.\<close>

definition shortDigest :: "network_env \<Rightarrow> string \<Rightarrow> string" where
  "shortDigest env payload = take 32 (nv_sha env payload)"

abbreviation NUL :: string where "NUL \<equiv> [CHR 0x00]"

definition notificationID :: "network_env \<Rightarrow> string \<Rightarrow> gotime \<Rightarrow> string \<Rightarrow> string \<Rightarrow> string" where
  "notificationID env kind timestamp title detail =
     shortDigest env (kind @ NUL @ pf_rfc3339Nano (rt_platform (nv_runtime env)) timestamp @ NUL @ title @ NUL @ detail)"

definition kindEnabled :: "notificationSettings \<Rightarrow> string \<Rightarrow> bool" where
  "kindEnabled policy kind \<longleftrightarrow>
     (if kind = notificationKindBlock then ns_blockEvents policy
      else if kind = notificationKindDefender then ns_defenderEvents policy
      else if kind = notificationKindThreatIntel then ns_threatIntelEvents policy
      else if kind = notificationKindKinetic then ns_kineticEvents policy
      else False)"

definition notifyEvent :: "network_env \<Rightarrow> string \<Rightarrow> severity \<Rightarrow> string \<Rightarrow> string \<Rightarrow> nengine \<Rightarrow> nengine" where
  "notifyEvent env kind severity title detail ne =
     (let policy = py_notifications (currentPolicySettings ne) in
      if \<not> ns_eventFeedEnabled policy \<or> \<not> kindEnabled policy kind \<or> \<not> severityAtLeast severity (ns_minimumSeverity policy) then ne
      else let entry = \<lparr>no_ID = notificationID env kind (nv_now env) (truncate title 160) (truncate detail 256), no_timestampUTC = nv_now env,
                 no_kind = kind, no_severity = severity, no_title = truncate title 160, no_detail = truncate detail 256\<rparr> in
        ne\<lparr>ne_notifications := lastn maximumNotificationEntries (ne_notifications ne @ [entry])\<rparr>)"

definition Notifications :: "int \<Rightarrow> nengine \<Rightarrow> notification list" where
  "Notifications limit ne =
     (let n = (if limit \<le> 0 \<or> int maximumNotificationEntries < limit then 50 else limit) in rev (lastn (nat n) (ne_notifications ne)))"

section \<open>Correlation\<close>

definition severityForThreatAction :: "action \<Rightarrow> severity" where
  "severityForThreatAction a = (if a = ActionBlock then SeverityHigh else if a = ActionCorrelateOnly then SeverityMedium
     else if a = ActionAnnotateOnly then SeverityInformational else SeverityLow)"

definition severityForCorrelatedThreat :: "action \<Rightarrow> severity" where
  "severityForCorrelatedThreat a = (if a = ActionBlock then SeverityHigh else if a = ActionCorrelateOnly then SeverityHigh
     else if a = ActionAnnotateOnly then SeverityLow else SeverityMedium)"

definition responseForThreatAction :: "action \<Rightarrow> bool \<Rightarrow> bool \<Rightarrow> string" where
  "responseForThreatAction a blocked protected =
     (if protected then (if blocked then ''PROTECTED_NETWORK_WFP_BLOCK_OBSERVED'' else ''PROTECTED_NETWORK_OBSERVED'')
      else if blocked then ''WFP_BLOCK_OBSERVED''
      else if a = ActionBlock then ''BLOCK_DESTINATION_OBSERVED''
      else if a = ActionCorrelateOnly then ''CORRELATED_ONLY''
      else if a = ActionAnnotateOnly then ''ANNOTATED_ONLY''
      else ''THREAT_INTELLIGENCE_MATCH'')"

definition appendUniqueCopy :: "string list \<Rightarrow> string \<Rightarrow> string list" where
  "appendUniqueCopy values v = (if v \<in> set values then values else values @ [v])"

definition networkFindingID :: "network_env \<Rightarrow> networkEvent \<Rightarrow> string" where
  "networkFindingID env event = shortDigest env (itoa (unat (nw_PID event)) @ NUL @ nw_remoteIP event @ NUL @ itoa (unat (nw_remotePort event)) @ NUL @
     pf_rfc3339Nano (rt_platform (nv_runtime env)) (nw_timestampUTC event))"

definition attackStoryID :: "network_env \<Rightarrow> string \<Rightarrow> networkEvent \<Rightarrow> string" where
  "attackStoryID env analysisID event = shortDigest env (analysisID @ NUL @ nw_remoteIP event @ NUL @ itoa (unat (nw_remotePort event)))"

definition wfpNetworkFindingID :: "network_env \<Rightarrow> wfpBlockEvent \<Rightarrow> string" where
  "wfpNetworkFindingID env event = shortDigest env (''wfp'' @ NUL @ formatInt (wf_recordID event) @ NUL @ itoa (unat (wf_PID event)) @ NUL @
     wf_remoteIP event @ NUL @ itoa (unat (wf_remotePort event)))"

definition wfpAttackStoryID :: "network_env \<Rightarrow> string \<Rightarrow> wfpBlockEvent \<Rightarrow> string" where
  "wfpAttackStoryID env analysisID event = shortDigest env (analysisID @ NUL @ ''wfp'' @ NUL @ formatInt (wf_recordID event))"

definition purgeRecentProcesses :: "gotime \<Rightarrow> (pid \<times> recentProcess) list \<Rightarrow> (pid \<times> recentProcess) list" where
  "purgeRecentProcesses now rs = filter (\<lambda>(p, r). \<not> rp_expires r < now) rs"

text \<open>The process of an event: one that is not expired and still is the observed one.\<close>

definition correlate :: "network_env \<Rightarrow> gotime \<Rightarrow> pid \<Rightarrow> nengine \<Rightarrow> nengine \<times> recentProcess option" where
  "correlate env now p ne =
     (let rs = purgeRecentProcesses now (ne_recent ne); missed = ne_networkUncorrelated ne + 1 in
      case map_of rs p of
        None \<Rightarrow> (ne\<lparr>ne_recent := rs, ne_networkUncorrelated := missed\<rparr>, None)
      | Some r \<Rightarrow>
          if validateObservedProcess (nv_process env) (rp_event r) = Inr () then (ne\<lparr>ne_recent := rs\<rparr>, Some r)
          else (ne\<lparr>ne_recent := AList.delete p rs, ne_networkUncorrelated := missed\<rparr>, None))"

definition pushStory :: "attackStory \<Rightarrow> nengine \<Rightarrow> nengine" where
  "pushStory story ne = ne\<lparr>ne_stories := lastn maximumAttackStories (ne_stories ne @ [story])\<rparr>"

definition pushFinding :: "networkFinding \<Rightarrow> nengine \<Rightarrow> nengine" where
  "pushFinding finding ne = ne\<lparr>ne_findings := lastn maximumNetworkFindings (ne_findings ne @ [finding])\<rparr>"

definition storySignals :: "string \<Rightarrow> match_result \<Rightarrow> analysis \<Rightarrow> string list" where
  "storySignals prefix match a =
     (let signals = appendUniqueCopy (an_signals a) (prefix @ map ascii_lower (mt_action match)) in
      if mt_protected match then appendUniqueCopy signals ''network.protected-management-prefix'' else signals)"

definition NetworkFindings :: "int \<Rightarrow> nengine \<Rightarrow> networkFinding list" where
  "NetworkFindings limit ne =
     (let n = (if limit \<le> 0 \<or> int maximumNetworkFindings < limit then 100 else limit) in rev (lastn (nat n) (ne_findings ne)))"

definition AttackStories :: "int \<Rightarrow> nengine \<Rightarrow> attackStory list" where
  "AttackStories limit ne =
     (let n = (if limit \<le> 0 \<or> int maximumAttackStories < limit then 100 else limit) in rev (lastn (nat n) (ne_stories ne)))"

section \<open>Observed connections\<close>

text \<open>Ghost mode: the recent process of the event when it belongs to the Windows telemetry.\<close>

definition ghostTarget :: "networkEvent \<Rightarrow> nengine \<Rightarrow> processEvent option" where
  "ghostTarget event ne =
     (if ne_ghostMode ne = Some True
      then case map_of (ne_recent ne) (nw_PID event) of
          Some r \<Rightarrow> if isTelemetryProcess (pe_imagePath (rp_event r)) then Some (rp_event r) else None
        | None \<Rightarrow> None
      else None)"

text \<open>A call of \<open>terminateObserved\<close>; the second component tells whether it returned without error.\<close>

definition terminateObserved :: "network_env \<Rightarrow> processEvent \<Rightarrow> nengine \<Rightarrow> nengine \<times> bool" where
  "terminateObserved env p ne =
     (let (ended, r) = terminateObservedProcess (nv_process env) p in
      (if ended then ne\<lparr>ne_terminated := ne_terminated ne @ [p]\<rparr> else ne, \<not> isl r))"

definition ghostBlock :: "network_env \<Rightarrow> networkEvent \<Rightarrow> processEvent \<Rightarrow> nengine \<Rightarrow> nengine" where
  "ghostBlock env event p ne =
     (let ne1 = fst (terminateObserved env p ne);
          ne2 = ne1\<lparr>ne_blocked := ne_blocked ne1 + 1\<rparr>;
          ne3 = noteNetwork env (''ghostmode.blocked'', ''Telemetry connection severed'',
                  ''pid-'' @ itoa (unat (nw_PID event)) @ ''-ip-'' @ nw_remoteIP event) ne2 in
      notifyEvent env notificationKindBlock SeverityCritical ''Ghost Mode Active''
        (''Uplink von '' @ pe_image p @ '' zu '' @ nw_remoteIP event @ '' gekappt'') ne3)"

definition networkFindingFor :: "network_env \<Rightarrow> networkEvent \<Rightarrow> match_result \<Rightarrow> recentProcess option \<Rightarrow> networkFinding" where
  "networkFindingFor env event match recent =
     \<lparr>nf_ID = networkFindingID env event, nf_timestampUTC = nw_timestampUTC event, nf_PID = nw_PID event,
      nf_image = (case recent of Some r \<Rightarrow> pe_image (rp_event r) | None \<Rightarrow> []),
      nf_remoteIP = nw_remoteIP event, nf_remotePort = nw_remotePort event, nf_localPort = nw_localPort event, nf_threatIntel = True,
      nf_protectedNetwork = mt_protected match, nf_threatAction = mt_action match, nf_threatSources = mt_sources match,
      nf_severity = severityForThreatAction (mt_action match),
      nf_correlationID = (case recent of Some r \<Rightarrow> an_ID (rp_analysis r) | None \<Rightarrow> []),
      nf_response = responseForThreatAction (mt_action match) False (mt_protected match), nf_filterOrigin = []\<rparr>"

definition networkStory :: "network_env \<Rightarrow> networkEvent \<Rightarrow> match_result \<Rightarrow> recentProcess \<Rightarrow> attackStory" where
  "networkStory env event match r =
     (let a = rp_analysis r; eligible = \<not> mt_protected match \<and> an_responseAuthority a \<and> mt_action match \<noteq> ActionAnnotateOnly in
      \<lparr>as_ID = attackStoryID env (an_ID a) event, as_startedUTC = an_timestampUTC a, as_updatedUTC = nw_timestampUTC event, as_PID = nw_PID event,
       as_image = pe_image (rp_event r), as_processAnalysisID = an_ID a,
       as_severity = (if eligible then SeverityCritical else severityForCorrelatedThreat (mt_action match)),
       as_signals = storySignals ''network.threat-intelligence.'' match a, as_threatAction = mt_action match,
       as_protectedNetwork = mt_protected match, as_threatSources = mt_sources match, as_remoteIP = nw_remoteIP event,
       as_remotePort = nw_remotePort event,
       as_response = (if mt_protected match then ''PROTECTED_NETWORK_CORRELATED'' else if eligible then ''HOST_RESPONSE_ELIGIBLE'' else ''CORRELATED'')\<rparr>)"

text \<open>The conditions under which a correlated process is terminated.\<close>

definition mayTerminate :: "nengine \<Rightarrow> match_result \<Rightarrow> recentProcess \<Rightarrow> bool" where
  "mayTerminate ne match r \<longleftrightarrow> an_responseAuthority (rp_analysis r) \<and> \<not> mt_protected match \<and> mt_action match \<noteq> ActionAnnotateOnly \<and>
     ne_mode ne \<noteq> ''monitor'' \<and> networkResponsePolicyAllows (currentPolicySettings ne) (an_effectiveSeverity (rp_analysis r))"

definition respond :: "network_env \<Rightarrow> match_result \<Rightarrow> recentProcess option \<Rightarrow> nengine \<Rightarrow> nengine" where
  "respond env match recent ne =
     (case recent of
        None \<Rightarrow> ne
      | Some r \<Rightarrow>
          if \<not> mayTerminate ne match r then ne
          else case terminateObserved env (rp_event r) ne of
            (ne1, False) \<Rightarrow> ne1
          | (ne1, True) \<Rightarrow> noteNetwork env (''mhx.correlated-response'', an_detection (rp_analysis r), ''terminated-after-network-correlation'')
              (ne1\<lparr>ne_blocked := ne_blocked ne1 + 1\<rparr>))"

definition recordMatch :: "network_env \<Rightarrow> networkEvent \<Rightarrow> match_result \<Rightarrow> recentProcess option \<Rightarrow> nengine \<Rightarrow> nengine" where
  "recordMatch env event match recent ne =
     (let ne1 = (case recent of Some r \<Rightarrow> pushStory (networkStory env event match r) ne | None \<Rightarrow> ne);
          ne2 = pushFinding (networkFindingFor env event match recent) ne1;
          ne3 = noteNetwork env (''mhx.network'', nw_remoteIP event, ''threat-intelligence-'' @ map ascii_lower (mt_action match) @
                  (if mt_protected match then ''-protected-network'' else [])) ne2 in
      if mt_action match \<noteq> ActionAnnotateOnly
      then notifyEvent env notificationKindThreatIntel (severityForThreatAction (mt_action match)) ''Threat-Intelligence-Treffer'' (nw_remoteIP event) ne3
      else ne3)"

definition evaluateNetwork :: "network_env \<Rightarrow> networkEvent \<Rightarrow> nengine \<Rightarrow> nengine" where
  "evaluateNetwork env event ne =
     (let ne0 = ne\<lparr>ne_networkObserved := ne_networkObserved ne + 1\<rparr> in
      case ghostTarget event ne0 of
        Some p \<Rightarrow> ghostBlock env event p ne0
      | None \<Rightarrow>
          (case ParseAddr (nw_remoteIP event) of
             None \<Rightarrow> ne0
           | Some address \<Rightarrow>
               let match = ManagerLookup (eg_feeds (ne_engine ne0)) address in
               if \<not> mt_found match then ne0
               else case correlate env (nw_timestampUTC event) (nw_PID event) (ne0\<lparr>ne_networkThreatHits := ne_networkThreatHits ne0 + 1\<rparr>) of
                 (ne1, recent) \<Rightarrow> respond env match recent (recordMatch env event match recent ne1)))"

section \<open>Blocked connections\<close>

definition pushIncident :: "kineticIncident \<Rightarrow> nengine \<Rightarrow> nengine" where
  "pushIncident incident ne = ne\<lparr>ne_incidents := lastn 32 (ne_incidents ne @ [incident])\<rparr>"

definition burstIncident :: "wfpBlockEvent \<Rightarrow> kineticIncident" where
  "burstIncident event = \<lparr>kx_timestampUTC = wf_timestampUTC event, kx_remoteIP = wf_remoteIP event, kx_localPort = wf_localPort event,
     kx_threatMatched = False, kx_threatSources = [], kx_verifiedWFPBlock = False, kx_classification = ''BURST_OBSERVED''\<rparr>"

text \<open>The test of the enforcement that an armed engine makes for an incident.\<close>

definition incidentVerified :: "runtime_env \<Rightarrow> engine \<Rightarrow> bool" where
  "incidentVerified env e \<longleftrightarrow> stateVerified (te_state (eg_enforcement e)) \<and> te_activeGeneration (eg_enforcement e) \<noteq> [] \<and>
     te_activeGeneration (eg_enforcement e) = st_enforcementGeneration (engineStatus env e)"

text \<open>
  The incident of a burst. The code appends it first and then refines its entry under the lock; here
  it is appended with its final value, since the run loop evaluates one event at a time.
\<close>

definition classifyBurst :: "network_env \<Rightarrow> wfpBlockEvent \<Rightarrow> nengine \<Rightarrow> nengine" where
  "classifyBurst env event ne =
     (case ParseAddr (wf_remoteIP event) of
        None \<Rightarrow> pushIncident (burstIncident event) ne
      | Some address \<Rightarrow>
          let match = ManagerLookup (eg_feeds (ne_engine ne)) address in
          if mt_found match \<and> \<not> mt_protected match
          then let incident = (burstIncident event)\<lparr>kx_threatMatched := True, kx_threatSources := mt_sources match\<rparr>;
                   ne1 = ne\<lparr>ne_kineticThreatCorrelations := ne_kineticThreatCorrelations ne + 1\<rparr> in
            if ke_armed (ne_kinetic ne) \<and> incidentVerified (nv_runtime env) (ne_engine ne) \<and> mt_action match = ActionBlock \<and> wf_geDefenseOrigin event
            then let ne2 = pushIncident (incident\<lparr>kx_verifiedWFPBlock := True, kx_classification := ''VERIFIED_TI_WFP_BLOCK_OBSERVED''\<rparr>) ne1;
                     ne3 = noteNetwork env (''kinetic.correlate'', ''verified-ti-wfp-burst'', ''WFP_BLOCK_OBSERVED'')
                             (ne2\<lparr>ne_kineticBlockedCorrelations := ne_kineticBlockedCorrelations ne2 + 1\<rparr>) in
                 notifyEvent env notificationKindKinetic SeverityHigh ''Verifizierter Threat-IP-Burst'' (wf_remoteIP event) ne3
            else noteNetwork env (''kinetic.correlate'', ''threat-ip-burst'', ''DETECTED_NOT_ENFORCED_BY_KINETIC'')
                   (pushIncident (incident\<lparr>kx_classification := ''THREAT_IP_BURST''\<rparr>) ne1)
          else noteNetwork env (''kinetic.observe'', ''wfp-blocked-ingress-burst'', ''OBSERVE_ONLY'') (pushIncident (burstIncident event) ne))"

definition observeKinetic :: "network_env \<Rightarrow> wfpBlockEvent \<Rightarrow> nengine \<Rightarrow> nengine outcome" where
  "observeKinetic env event ne =
     (if wf_direction event \<noteq> ''Inbound'' then Inr ne
      else bind_outcome (ObserveBlockedInbound (wf_remoteIP event) (wf_localPort event) (wf_timestampUTC event) (ke_monitor (ne_kinetic ne))) (\<lambda>(mo, report).
        let ne1 = ne\<lparr>ne_kinetic := (ne_kinetic ne)\<lparr>ke_monitor := mo\<rparr>\<rparr> in
        Inr (if report then classifyBurst env event ne1 else ne1)))"

definition wfpFinding :: "network_env \<Rightarrow> wfpBlockEvent \<Rightarrow> match_result \<Rightarrow> recentProcess option \<Rightarrow> networkFinding" where
  "wfpFinding env event match recent =
     \<lparr>nf_ID = wfpNetworkFindingID env event, nf_timestampUTC = wf_timestampUTC event, nf_PID = wf_PID event,
      nf_image = (case recent of Some r \<Rightarrow> pe_image (rp_event r) | None \<Rightarrow> pathBase (wf_application event)),
      nf_remoteIP = wf_remoteIP event, nf_remotePort = wf_remotePort event, nf_localPort = wf_localPort event, nf_threatIntel = True,
      nf_protectedNetwork = mt_protected match, nf_threatAction = mt_action match, nf_threatSources = mt_sources match,
      nf_severity = severityForThreatAction (mt_action match),
      nf_correlationID = (case recent of Some r \<Rightarrow> an_ID (rp_analysis r) | None \<Rightarrow> []),
      nf_response = (if wf_geDefenseOrigin event then (if mt_protected match then ''GEDEFENSE_STALE_PROTECTED_NETWORK_BLOCK'' else ''GEDEFENSE_WFP_BLOCK'')
        else responseForThreatAction (mt_action match) True (mt_protected match)),
      nf_filterOrigin = wf_filterOrigin event\<rparr>"

definition wfpStory :: "network_env \<Rightarrow> wfpBlockEvent \<Rightarrow> match_result \<Rightarrow> recentProcess \<Rightarrow> attackStory" where
  "wfpStory env event match r =
     (let a = rp_analysis r; authority = \<not> mt_protected match \<and> an_responseAuthority a \<and> mt_action match \<noteq> ActionAnnotateOnly in
      \<lparr>as_ID = wfpAttackStoryID env (an_ID a) event, as_startedUTC = an_timestampUTC a, as_updatedUTC = wf_timestampUTC event, as_PID = wf_PID event,
       as_image = pe_image (rp_event r), as_processAnalysisID = an_ID a,
       as_severity = (if authority then SeverityCritical else severityForCorrelatedThreat (mt_action match)),
       as_signals = storySignals ''network.wfp-block.'' match a, as_threatAction = mt_action match,
       as_protectedNetwork = mt_protected match, as_threatSources = mt_sources match, as_remoteIP = wf_remoteIP event,
       as_remotePort = wf_remotePort event,
       as_response = (if authority then ''NETWORK_BLOCKED_HOST_RESPONSE_AUTHORITY_PRESENT''
         else if mt_protected match then ''PROTECTED_NETWORK_BLOCK_OBSERVED''
         else if wf_geDefenseOrigin event then ''GEDEFENSE_NETWORK_BLOCKED'' else ''NETWORK_BLOCKED'')\<rparr>)"

definition wfpResult :: "wfpBlockEvent \<Rightarrow> match_result \<Rightarrow> string" where
  "wfpResult event match =
     (if wf_geDefenseOrigin event
      then ''gedefense-wfp-block-'' @ map ascii_lower (mt_action match) @ (if mt_protected match then ''-stale-protected-network'' else [])
      else ''wfp-block-threat-intelligence-'' @ map ascii_lower (mt_action match) @ (if mt_protected match then ''-protected-network'' else []))"

definition recordBlock :: "network_env \<Rightarrow> wfpBlockEvent \<Rightarrow> match_result \<Rightarrow> nengine \<Rightarrow> nengine" where
  "recordBlock env event match ne =
     (case correlate env (wf_timestampUTC event) (wf_PID event) (ne\<lparr>ne_networkThreatHits := ne_networkThreatHits ne + 1\<rparr>) of
        (ne1, recent) \<Rightarrow>
          let ne2 = (case recent of Some r \<Rightarrow> pushStory (wfpStory env event match r) ne1 | None \<Rightarrow> ne1) in
          noteNetwork env (''mhx.network'', wf_remoteIP event, wfpResult event match) (pushFinding (wfpFinding env event match recent) ne2))"

definition evaluateWFPBlock :: "network_env \<Rightarrow> wfpBlockEvent \<Rightarrow> nengine \<Rightarrow> nengine outcome" where
  "evaluateWFPBlock env event ne =
     bind_outcome (observeKinetic env event ne) (\<lambda>ne1.
       let ne2 = ne1\<lparr>ne_networkObserved := ne_networkObserved ne1 + 1\<rparr> in
       case ParseAddr (wf_remoteIP event) of
         None \<Rightarrow> Inr ne2
       | Some address \<Rightarrow>
           let match = ManagerLookup (eg_feeds (ne_engine ne2)) address in
           Inr (if mt_found match then recordBlock env event match ne2 else ne2))"

end
