(* ===== verification/NetworkRuns.thy ===== *)
theory NetworkRuns
  imports NetworkCorrelation
begin

text \<open>
  What the network correlation of the MHX engine (\<open>NetworkCorrelation\<close>) guarantees: when it terminates a
  process, when it reports a verified block, and that its logs stay bounded.
\<close>

section \<open>Frames\<close>

lemma noteNetwork_sel [simp]:
  "ne_findings (noteNetwork env x ne) = ne_findings ne" "ne_stories (noteNetwork env x ne) = ne_stories ne"
  "ne_incidents (noteNetwork env x ne) = ne_incidents ne" "ne_notifications (noteNetwork env x ne) = ne_notifications ne"
  "ne_recent (noteNetwork env x ne) = ne_recent ne" "ne_mode (noteNetwork env x ne) = ne_mode ne" "ne_policy (noteNetwork env x ne) = ne_policy ne"
  "ne_terminated (noteNetwork env x ne) = ne_terminated ne" "ne_blocked (noteNetwork env x ne) = ne_blocked ne"
  "ke_armed (ne_kinetic (noteNetwork env x ne)) = ke_armed (ne_kinetic ne)" "ke_monitor (ne_kinetic (noteNetwork env x ne)) = ke_monitor (ne_kinetic ne)"
  "ke_runtime (ne_kinetic (noteNetwork env x ne)) = ke_runtime (ne_kinetic ne)" "ke_file (ne_kinetic (noteNetwork env x ne)) = ke_file (ne_kinetic ne)"
  by (simp_all add: noteNetwork_def noteKinetic_def)

lemma notifyEvent_sel [simp]:
  "ne_kinetic (notifyEvent env k s t x ne) = ne_kinetic ne" "ne_findings (notifyEvent env k s t x ne) = ne_findings ne"
  "ne_stories (notifyEvent env k s t x ne) = ne_stories ne" "ne_incidents (notifyEvent env k s t x ne) = ne_incidents ne"
  "ne_recent (notifyEvent env k s t x ne) = ne_recent ne" "ne_mode (notifyEvent env k s t x ne) = ne_mode ne"
  "ne_policy (notifyEvent env k s t x ne) = ne_policy ne" "ne_terminated (notifyEvent env k s t x ne) = ne_terminated ne"
  "ne_blocked (notifyEvent env k s t x ne) = ne_blocked ne"
  by (simp_all add: notifyEvent_def Let_def)

lemma pushStory_sel [simp]:
  "ne_kinetic (pushStory s ne) = ne_kinetic ne" "ne_findings (pushStory s ne) = ne_findings ne" "ne_incidents (pushStory s ne) = ne_incidents ne"
  "ne_notifications (pushStory s ne) = ne_notifications ne" "ne_recent (pushStory s ne) = ne_recent ne" "ne_mode (pushStory s ne) = ne_mode ne"
  "ne_policy (pushStory s ne) = ne_policy ne" "ne_terminated (pushStory s ne) = ne_terminated ne"
  by (simp_all add: pushStory_def)

lemma pushFinding_sel [simp]:
  "ne_kinetic (pushFinding f ne) = ne_kinetic ne" "ne_stories (pushFinding f ne) = ne_stories ne" "ne_incidents (pushFinding f ne) = ne_incidents ne"
  "ne_notifications (pushFinding f ne) = ne_notifications ne" "ne_recent (pushFinding f ne) = ne_recent ne" "ne_mode (pushFinding f ne) = ne_mode ne"
  "ne_policy (pushFinding f ne) = ne_policy ne" "ne_terminated (pushFinding f ne) = ne_terminated ne"
  by (simp_all add: pushFinding_def)

lemma recordMatch_sel [simp]:
  "ne_recent (recordMatch env event match recent ne) = ne_recent ne" "ne_mode (recordMatch env event match recent ne) = ne_mode ne"
  "ne_policy (recordMatch env event match recent ne) = ne_policy ne" "ne_terminated (recordMatch env event match recent ne) = ne_terminated ne"
  by (simp_all add: recordMatch_def Let_def split: option.splits)

lemma correlate_sel:
  assumes "correlate env now p ne = (ne1, recent)"
  shows "ne_kinetic ne1 = ne_kinetic ne" and "ne_findings ne1 = ne_findings ne" and "ne_stories ne1 = ne_stories ne" and "ne_incidents ne1 = ne_incidents ne"
    and "ne_notifications ne1 = ne_notifications ne" and "ne_mode ne1 = ne_mode ne" and "ne_policy ne1 = ne_policy ne" and "ne_terminated ne1 = ne_terminated ne"
    and "distinct (map fst (ne_recent ne)) \<Longrightarrow> distinct (map fst (ne_recent ne1))"
    and "recent = Some r \<Longrightarrow> (p, r) \<in> set (ne_recent ne) \<and> sameProcess (nv_process env) False (rp_event r) \<and> \<not> rp_expires r < now"
  using assms
  by (auto simp: correlate_def purgeRecentProcesses_def Let_def distinct_map_filter distinct_delete split: option.splits if_splits dest!: map_of_SomeD dest: validated_same)

section \<open>Terminations\<close>

lemma terminateObserved_ended:
  "ne_terminated (fst (terminateObserved env p ne)) = ne_terminated ne @ (if fst (terminateObservedProcess (nv_process env) p) then [p] else [])"
  by (simp add: terminateObserved_def case_prod_beta)

lemma terminateObserved_failed: "\<not> fst (terminateObservedProcess (nv_process env) p) \<Longrightarrow> fst (terminateObserved env p ne) = ne"
  by (simp add: terminateObserved_def case_prod_beta)

lemma respond_terminates:
  assumes "ne_terminated (respond env match recent ne) \<noteq> ne_terminated ne"
  shows "\<exists>r. recent = Some r \<and> mayTerminate ne match r \<and> ne_terminated (respond env match recent ne) = ne_terminated ne @ [rp_event r] \<and>
    fst (terminateObservedProcess (nv_process env) (rp_event r))"
  using assms by (auto simp: respond_def terminateObserved_def case_prod_beta split: option.splits if_splits bool.splits)

lemma mayTerminate_cong: "ne_mode ne = ne_mode ne' \<Longrightarrow> ne_policy ne = ne_policy ne' \<Longrightarrow> mayTerminate ne match r = mayTerminate ne' match r"
  by (simp add: mayTerminate_def currentPolicySettings_def)

lemma classifyBurst_terminated [simp]: "ne_terminated (classifyBurst env event ne) = ne_terminated ne"
  by (simp add: classifyBurst_def pushIncident_def Let_def split: option.splits)

lemma evaluateWFPBlock_terminated:
  assumes "evaluateWFPBlock env event ne = Inr ne'"
  shows "ne_terminated ne' = ne_terminated ne"
proof -
  obtain ne1 where o: "observeKinetic env event ne = Inr ne1" using assms by (auto simp: evaluateWFPBlock_def bind_outcome_eq_Inr)
  have "ne_terminated ne1 = ne_terminated ne"
    using o by (auto simp: observeKinetic_def bind_outcome_eq_Inr Let_def split: if_splits prod.splits)
  moreover have "ne_terminated (recordBlock env event match k) = ne_terminated k" for match k
    using correlate_sel(8) by (fastforce simp: recordBlock_def Let_def split: prod.splits option.splits)
  ultimately show ?thesis using assms o by (auto simp: evaluateWFPBlock_def Let_def split: option.splits if_splits)
qed

lemma evaluateNetwork_terminates:
  assumes "ne_terminated (evaluateNetwork env event ne) \<noteq> ne_terminated ne"
  shows "\<exists>r. (nw_PID event, r) \<in> set (ne_recent ne) \<and> ne_terminated (evaluateNetwork env event ne) = ne_terminated ne @ [rp_event r] \<and>
      sameProcess (nv_process env) True (rp_event r) \<and> \<not> isGeDefenseSelfOrChild (pv_case (nv_process env)) (pv_currentPID (nv_process env)) (rp_event r) \<and>
      (ne_ghostMode ne = Some True \<and> isTelemetryProcess (pe_imagePath (rp_event r)) \<or>
       sameProcess (nv_process env) False (rp_event r) \<and> \<not> rp_expires r < nw_timestampUTC event \<and> an_responseAuthority (rp_analysis r) \<and> ne_mode ne \<noteq> ''monitor'' \<and>
       networkResponsePolicyAllows (currentPolicySettings ne) (an_effectiveSeverity (rp_analysis r)) \<and>
       (\<exists>address. ParseAddr (nw_remoteIP event) = Some address \<and> (let match = ManagerLookup (eg_feeds (ne_engine ne)) address in
          mt_found match \<and> \<not> mt_protected match \<and> mt_action match \<noteq> ActionAnnotateOnly)))"
proof -
  let ?ne0 = "ne\<lparr>ne_networkObserved := ne_networkObserved ne + 1\<rparr>"
  show ?thesis
  proof (cases "ghostTarget event ?ne0")
    case (Some p)
    then obtain r where r: "map_of (ne_recent ne) (nw_PID event) = Some r" "p = rp_event r" "ne_ghostMode ne = Some True" "isTelemetryProcess (pe_imagePath p)"
      by (auto simp: ghostTarget_def split: if_splits option.splits)
    have "ne_terminated (evaluateNetwork env event ne) = ne_terminated ne @ [p]" "fst (terminateObservedProcess (nv_process env) p)"
      using assms Some terminateObserved_ended [of env p ?ne0] by (auto simp: evaluateNetwork_def ghostBlock_def Let_def split: if_splits)
    then show ?thesis using r map_of_SomeD [OF r(1)] terminated_same by blast
  next
    case None
    obtain address where a: "ParseAddr (nw_remoteIP event) = Some address" using assms None by (auto simp: evaluateNetwork_def Let_def split: option.splits)
    let ?match = "ManagerLookup (eg_feeds (ne_engine ne)) address"
    have found: "mt_found ?match" using assms None a by (auto simp: evaluateNetwork_def Let_def split: if_splits)
    obtain ne1 recent where c: "correlate env (nw_timestampUTC event) (nw_PID event) (?ne0\<lparr>ne_networkThreatHits := ne_networkThreatHits ne + 1\<rparr>) = (ne1, recent)"
      by fastforce
    have run: "evaluateNetwork env event ne = respond env ?match recent (recordMatch env event ?match recent ne1)"
      using None a found c by (simp add: evaluateNetwork_def Let_def)
    obtain r where r: "recent = Some r" "mayTerminate (recordMatch env event ?match recent ne1) ?match r"
        "ne_terminated (evaluateNetwork env event ne) = ne_terminated ne @ [rp_event r]" "fst (terminateObservedProcess (nv_process env) (rp_event r))"
      using respond_terminates [of env ?match recent "recordMatch env event ?match recent ne1"] assms correlate_sel(8) [OF c] unfolding run by auto
    have may: "mayTerminate ne ?match r" using r(2) correlate_sel(6,7) [OF c] mayTerminate_cong [of "recordMatch env event ?match recent ne1" ne] by simp
    show ?thesis using correlate_sel(10) [OF c r(1)] r(3) terminated_same [OF r(4)] may found a by (auto simp: mayTerminate_def Let_def)
  qed
qed

text \<open>
  C28 [network_terminates_authorized]: an observed connection terminates at most one process, the recent one
  of the event; the running process with that id was created within two seconds of the observed one
  and has its image path, and it is not GeDefense, one of its children or below its tree. It is
  terminated only when ghost mode is on and its image belongs to the Windows telemetry, or
  when the evaluator gave the process the authority before, its identity was confirmed, the
  destination matches the threat intelligence with more than an annotation and is not protected,
  the engine does not only monitor and the operator's policy admits the severity. A connection
  that Windows blocked never terminates a process, in any state.
\<close>

theorem network_terminates_authorized:
  "(ne_terminated (evaluateNetwork env event ne) = ne_terminated ne \<or>
    (\<exists>r. (nw_PID event, r) \<in> set (ne_recent ne) \<and> ne_terminated (evaluateNetwork env event ne) = ne_terminated ne @ [rp_event r] \<and>
      sameProcess (nv_process env) True (rp_event r) \<and> \<not> isGeDefenseSelfOrChild (pv_case (nv_process env)) (pv_currentPID (nv_process env)) (rp_event r) \<and>
      (ne_ghostMode ne = Some True \<and> isTelemetryProcess (pe_imagePath (rp_event r)) \<or>
       sameProcess (nv_process env) False (rp_event r) \<and> \<not> rp_expires r < nw_timestampUTC event \<and> an_responseAuthority (rp_analysis r) \<and> ne_mode ne \<noteq> ''monitor'' \<and>
       networkResponsePolicyAllows (currentPolicySettings ne) (an_effectiveSeverity (rp_analysis r)) \<and>
       (\<exists>address. ParseAddr (nw_remoteIP event) = Some address \<and> (let match = ManagerLookup (eg_feeds (ne_engine ne)) address in
          mt_found match \<and> \<not> mt_protected match \<and> mt_action match \<noteq> ActionAnnotateOnly))))) \<and>
   (evaluateWFPBlock env blk ne = Inr ne' \<longrightarrow> ne_terminated ne' = ne_terminated ne)"
  using evaluateNetwork_terminates [of env event ne] evaluateWFPBlock_terminated by blast

text \<open>
  C31 [ghost_mode_overclaims]: in ghost mode the ledger records the connection of a telemetry process as severed and the
  counter of blocked events grows although the termination failed and nothing was blocked.
\<close>

theorem ghost_mode_overclaims:
  assumes "ghostTarget event ne = Some p" and "\<not> fst (terminateObservedProcess (nv_process env) p)" and "rt_ledgerOK (nv_runtime env) (eg_appends (ne_engine ne))"
  shows "ne_terminated (evaluateNetwork env event ne) = ne_terminated ne \<and> ne_blocked (evaluateNetwork env event ne) = ne_blocked ne + 1 \<and>
    eg_ledger (ne_engine (evaluateNetwork env event ne)) = eg_ledger (ne_engine ne) @
      [(''ghostmode.blocked'', ''Telemetry connection severed'', ''pid-'' @ itoa (unat (nw_PID event)) @ ''-ip-'' @ nw_remoteIP event)]"
proof -
  have "ghostTarget event (ne\<lparr>ne_networkObserved := ne_networkObserved ne + 1\<rparr>) = Some p" using assms(1) by (auto simp: ghostTarget_def split: if_splits)
  then show ?thesis using assms(2,3)
    by (simp add: evaluateNetwork_def ghostBlock_def terminateObserved_failed Let_def) (simp add: noteNetwork_def noteKinetic_def noteLedger_def ledgerAppend_def Let_def)
qed

section \<open>Verified incidents\<close>

lemma Observe_report_valid:
  assumes "ObserveBlockedInbound remote p now m = Inr (m', True)"
  shows "\<exists>a. ParseAddr remote = Some a \<and> IsValid a"
  using assms by (auto simp: ObserveBlockedInbound_def split: option.splits if_splits)

lemma classifyBurst_incidents:
  assumes "x \<in> set (ne_incidents (classifyBurst env event ne))" and "x \<notin> set (ne_incidents ne)" and "kx_verifiedWFPBlock x"
  shows "\<exists>a. ParseAddr (wf_remoteIP event) = Some a \<and> mt_found (ManagerLookup (eg_feeds (ne_engine ne)) a) \<and> \<not> mt_protected (ManagerLookup (eg_feeds (ne_engine ne)) a) \<and>
    mt_action (ManagerLookup (eg_feeds (ne_engine ne)) a) = ActionBlock \<and> ke_armed (ne_kinetic ne) \<and> incidentVerified (nv_runtime env) (ne_engine ne) \<and>
    wf_geDefenseOrigin event \<and> kx_remoteIP x = wf_remoteIP event"
proof -
  have last: "x \<in> set (lastn 32 (ne_incidents ne @ [y])) \<Longrightarrow> x = y" for y
    using assms(2) set_drop_subset [of "length (ne_incidents ne @ [y]) - 32" "ne_incidents ne @ [y]"] by (auto simp: lastn_def)
  show ?thesis using assms(1,3)
    by (auto simp: classifyBurst_def pushIncident_def burstIncident_def Let_def split: option.splits if_splits dest!: last)
qed

lemma recordBlock_incidents [simp]: "ne_incidents (recordBlock env event match ne) = ne_incidents ne"
  using correlate_sel(4) by (fastforce simp: recordBlock_def Let_def split: prod.splits option.splits)

text \<open>
  C29 [verified_incident_enforced]: an incident is reported as a verified block of a known attacker only while the engine is armed,
  the firewall confirmed exactly the generation that the feeds enforce now, the block came from a
  rule of GeDefense, and the address of the incident is among the enforced indicators. The manager
  is well formed and has an index, no prefix of its generations is the IPv4-mapped alias of another
  one, and no BLOCK indicator contains \<open>::ffff:0:0\<close>.
\<close>

theorem verified_incident_enforced:
  assumes "evaluateWFPBlock env event ne = Inr ne'" and "x \<in> set (ne_incidents ne')" and "x \<notin> set (ne_incidents ne)" and "kx_verifiedWFPBlock x"
    and "manager_ok sha (eg_feeds (ne_engine ne))" and "m_index (eg_feeds (ne_engine ne)) = Some i"
    and "unaliased (effectiveSnapshots (eg_feeds (ne_engine ne)))" and "\<not> (\<exists>k. indicates (effectiveSnapshots (eg_feeds (ne_engine ne))) mapped_base k ActionBlock)"
  shows "ke_armed (ne_kinetic ne) \<and> incidentVerified (nv_runtime env) (ne_engine ne) \<and> wf_geDefenseOrigin event \<and>
    (\<exists>address. ParseAddr (kx_remoteIP x) = Some address \<and> indicator_covers (ix_blockIndicators i) (WithoutZone (Unmap address)))"
proof -
  obtain ne1 where o: "observeKinetic env event ne = Inr ne1" using assms(1) by (auto simp: evaluateWFPBlock_def bind_outcome_eq_Inr)
  have "ne_incidents ne' = ne_incidents ne1" using assms(1) o by (auto simp: evaluateWFPBlock_def Let_def split: option.splits if_splits)
  then have x: "x \<in> set (ne_incidents ne1)" using assms(2) by simp
  obtain mo report where ob: "ObserveBlockedInbound (wf_remoteIP event) (wf_localPort event) (wf_timestampUTC event) (ke_monitor (ne_kinetic ne)) = Inr (mo, report)"
    using o x assms(3) by (auto simp: observeKinetic_def bind_outcome_eq_Inr split: if_splits)
  let ?ne1 = "ne\<lparr>ne_kinetic := (ne_kinetic ne)\<lparr>ke_monitor := mo\<rparr>\<rparr>"
  have run: "report" "ne1 = classifyBurst env event ?ne1"
    using o ob x assms(3) by (auto simp: observeKinetic_def Let_def split: if_splits)
  obtain a where a: "ParseAddr (wf_remoteIP event) = Some a" "\<not> mt_protected (ManagerLookup (eg_feeds (ne_engine ne)) a)"
      "mt_action (ManagerLookup (eg_feeds (ne_engine ne)) a) = ActionBlock" "ke_armed (ne_kinetic ne)" "incidentVerified (nv_runtime env) (ne_engine ne)"
      "wf_geDefenseOrigin event" "kx_remoteIP x = wf_remoteIP event"
    using classifyBurst_incidents [of x env event ?ne1] x run(2) assms(3,4) by auto
  have "IsValid a" using Observe_report_valid [of "wf_remoteIP event"] ob run(1) a(1) by fastforce
  then have "indicator_covers (ix_blockIndicators i) (WithoutZone (Unmap a))" using lookup_enforced [OF assms(5,6) _ assms(7,8), of a] a(2,3) by simp
  then show ?thesis using a by simp
qed

section \<open>Bounds\<close>

definition network_ok :: "nengine \<Rightarrow> bool" where
  "network_ok ne \<longleftrightarrow> length (ne_findings ne) \<le> maximumNetworkFindings \<and> length (ne_stories ne) \<le> maximumAttackStories \<and>
     length (ne_incidents ne) \<le> 32 \<and> length (ne_notifications ne) \<le> maximumNotificationEntries \<and> distinct (map fst (ne_recent ne)) \<and>
     kinetic_ok (ne_kinetic ne)"

lemma network_okI:
  assumes "network_ok ne" and "length (ne_findings ne') \<le> maximumNetworkFindings" and "length (ne_stories ne') \<le> maximumAttackStories"
    and "length (ne_incidents ne') \<le> 32" and "length (ne_notifications ne') \<le> maximumNotificationEntries" and "ne_recent ne' = ne_recent ne"
    and "ke_armed (ne_kinetic ne') = ke_armed (ne_kinetic ne)" and "ke_monitor (ne_kinetic ne') = ke_monitor (ne_kinetic ne)"
    and "ke_runtime (ne_kinetic ne') = ke_runtime (ne_kinetic ne)" and "ke_file (ne_kinetic ne') = ke_file (ne_kinetic ne)"
  shows "network_ok ne'"
  using assms by (simp add: network_ok_def kinetic_ok_def)

lemma network_ok_steps [intro]:
  assumes "network_ok ne"
  shows "network_ok (noteNetwork env x ne)" and "network_ok (notifyEvent env k s t x' ne)" and "network_ok (pushStory st ne)"
    and "network_ok (pushFinding f ne)" and "network_ok (pushIncident inc ne)" and "network_ok (ne\<lparr>ne_networkObserved := a\<rparr>)"
    and "network_ok (ne\<lparr>ne_networkThreatHits := a\<rparr>)" and "network_ok (ne\<lparr>ne_blocked := a\<rparr>)" and "network_ok (ne\<lparr>ne_terminated := ps\<rparr>)"
    and "network_ok (ne\<lparr>ne_kineticThreatCorrelations := a\<rparr>)" and "network_ok (ne\<lparr>ne_kineticBlockedCorrelations := a\<rparr>)"
proof -
  have b: "length (ne_findings ne) \<le> maximumNetworkFindings" "length (ne_stories ne) \<le> maximumAttackStories" "length (ne_incidents ne) \<le> 32"
      "length (ne_notifications ne) \<le> maximumNotificationEntries" using assms by (simp_all add: network_ok_def)
  show "network_ok (noteNetwork env x ne)" "network_ok (ne\<lparr>ne_networkObserved := a\<rparr>)" "network_ok (ne\<lparr>ne_networkThreatHits := a\<rparr>)"
    "network_ok (ne\<lparr>ne_blocked := a\<rparr>)" "network_ok (ne\<lparr>ne_terminated := ps\<rparr>)" "network_ok (ne\<lparr>ne_kineticThreatCorrelations := a\<rparr>)"
    "network_ok (ne\<lparr>ne_kineticBlockedCorrelations := a\<rparr>)"
    by (rule network_okI [OF assms]; simp add: b)+
  show "network_ok (notifyEvent env k s t x' ne)" by (rule network_okI [OF assms]; simp add: b notifyEvent_def Let_def)
  show "network_ok (pushStory st ne)" "network_ok (pushFinding f ne)" "network_ok (pushIncident inc ne)"
    by (rule network_okI [OF assms]; simp add: b pushStory_def pushFinding_def pushIncident_def)+
qed

lemma correlate_ok:
  assumes "network_ok ne" and "correlate env now p ne = (ne1, recent)"
  shows "network_ok ne1"
  using assms(1) correlate_sel(1-5,9) [OF assms(2)] by (simp add: network_ok_def)

lemma recordMatch_ok: "network_ok ne \<Longrightarrow> network_ok (recordMatch env event match recent ne)"
  unfolding recordMatch_def Let_def by (cases recent) (auto intro!: network_ok_steps)

lemma respond_ok: "network_ok ne \<Longrightarrow> network_ok (respond env match recent ne)"
  unfolding respond_def terminateObserved_def by (cases recent) (auto simp: case_prod_beta split: bool.splits intro!: network_ok_steps)

lemma ghostBlock_ok: "network_ok ne \<Longrightarrow> network_ok (ghostBlock env event p ne)"
  unfolding ghostBlock_def terminateObserved_def Let_def by (auto simp: case_prod_beta intro!: network_ok_steps)

lemma classifyBurst_ok: "network_ok ne \<Longrightarrow> network_ok (classifyBurst env event ne)"
  unfolding classifyBurst_def Let_def by (auto intro!: network_ok_steps split: option.splits)

lemma recordBlock_ok:
  assumes "network_ok ne"
  shows "network_ok (recordBlock env event match ne)"
proof -
  obtain ne1 recent where c: "correlate env (wf_timestampUTC event) (wf_PID event) (ne\<lparr>ne_networkThreatHits := ne_networkThreatHits ne + 1\<rparr>) = (ne1, recent)"
    by fastforce
  have "network_ok ne1" using correlate_ok [OF _ c] assms by blast
  then show ?thesis unfolding recordBlock_def c Let_def by (cases recent) (auto intro!: network_ok_steps)
qed

lemma observeKinetic_ok:
  assumes "network_ok ne"
  shows "\<exists>ne'. observeKinetic env event ne = Inr ne' \<and> network_ok ne'"
proof (cases "wf_direction event = ''Inbound''")
  case True
  have "kinetic_ok (ne_kinetic ne)" using assms by (simp add: network_ok_def)
  then have m: "monitor_ok (ke_monitor (ne_kinetic ne))" "mo_cfg (ke_monitor (ne_kinetic ne)) = kt_config (ke_runtime (ne_kinetic ne))"
    by (simp_all add: kinetic_ok_def)
  obtain mo report where ob: "ObserveBlockedInbound (wf_remoteIP event) (wf_localPort event) (wf_timestampUTC event) (ke_monitor (ne_kinetic ne)) = Inr (mo, report)"
      "monitor_ok mo" using Observe_total [OF m(1)] by blast
  have "mo_cfg mo = mo_cfg (ke_monitor (ne_kinetic ne))" using Observe_keeps_config [OF ob(1)] .
  then have ok: "network_ok (ne\<lparr>ne_kinetic := (ne_kinetic ne)\<lparr>ke_monitor := mo\<rparr>\<rparr>)" using assms ob(2) by (simp add: network_ok_def kinetic_ok_def)
  then show ?thesis using True ob(1) classifyBurst_ok [OF ok] by (simp add: observeKinetic_def Let_def)
qed (use assms in \<open>simp add: observeKinetic_def\<close>)

lemma evaluateWFPBlock_ok:
  assumes "network_ok ne"
  shows "\<exists>ne'. evaluateWFPBlock env blk ne = Inr ne' \<and> network_ok ne'"
proof -
  obtain ne2 where o: "observeKinetic env blk ne = Inr ne2" "network_ok ne2" using observeKinetic_ok [OF assms] by blast
  have "network_ok (ne2\<lparr>ne_networkObserved := ne_networkObserved ne2 + 1\<rparr>)" using o(2) by blast
  then show ?thesis using o(1) recordBlock_ok by (auto simp: evaluateWFPBlock_def Let_def split: option.splits)
qed

text \<open>
  C30 [network_wellformed]: the evaluation of an observed or a blocked connection never panics and keeps the
  engine well formed: at most 500 findings and stories, 32 incidents and 200 notifications, one
  entry per process, and a valid kinetic state.
\<close>

theorem network_wellformed:
  assumes "network_ok ne"
  shows "network_ok (evaluateNetwork env event ne) \<and> (\<exists>ne'. evaluateWFPBlock env blk ne = Inr ne' \<and> network_ok ne')"
proof
  let ?ne0 = "ne\<lparr>ne_networkObserved := ne_networkObserved ne + 1\<rparr>"
  have ok0: "network_ok ?ne0" using assms by blast
  obtain ne1 recent where c: "correlate env (nw_timestampUTC event) (nw_PID event) (?ne0\<lparr>ne_networkThreatHits := ne_networkThreatHits ?ne0 + 1\<rparr>) = (ne1, recent)"
    by fastforce
  have ok1: "network_ok ne1" using correlate_ok [OF _ c] ok0 by blast
  show "network_ok (evaluateNetwork env event ne)"
    unfolding evaluateNetwork_def Let_def c using ok0 respond_ok [OF recordMatch_ok [OF ok1]] ghostBlock_ok [OF ok0]
    by (simp split: option.splits)
  show "\<exists>ne'. evaluateWFPBlock env blk ne = Inr ne' \<and> network_ok ne'" by (rule evaluateWFPBlock_ok [OF assms])
qed

section \<open>A sample engine\<close>

text \<open>An armed engine in ghost mode that knows one process.\<close>

definition sampleProcess :: processEvent where
  "sampleProcess = \<lparr>pe_creationUTC = 1000 * hour, pe_PID = 42, pe_parentPID = 7, pe_image = ''wermgr.exe'', pe_imagePath = driveC [''Windows'', ''wermgr.exe''],
     pe_commandLine = [], pe_signerStatus = ''Valid'', pe_originalImageName = [], pe_imageVersionCompany = [], pe_parentPath = [], pe_ancestry = []\<rparr>"

definition sampleRecent :: recentProcess where
  "sampleRecent = \<lparr>rp_event = sampleProcess, rp_analysis = \<lparr>an_ID = ''a'', an_timestampUTC = 1000 * hour, an_effectiveSeverity = SeverityHigh,
     an_detection = ''d'', an_signals = [], an_responseAuthority = True\<rparr>, rp_expires = 1002 * hour\<rparr>"

definition sampleNetwork :: nengine where
  "sampleNetwork = \<lparr>ne_kinetic = armedKinetic, ne_findings = [], ne_stories = [], ne_incidents = [], ne_notifications = [],
     ne_recent = [(42, sampleRecent)], ne_mode = ''protect'', ne_policy = None, ne_ghostMode = Some True, ne_blocked = 0, ne_networkObserved = 0,
     ne_networkThreatHits = 0, ne_networkUncorrelated = 0, ne_kineticThreatCorrelations = 0, ne_kineticBlockedCorrelations = 0, ne_terminated = []\<rparr>"

definition sampleProcesses :: "bool \<Rightarrow> process_env" where
  "sampleProcesses killed = \<lparr>pv_case = sampleCase, pv_currentPID = 9,
     pv_open = (\<lambda>p kill. Some \<lparr>rn_creationUnixNano = UnixNano (1000 * hour), rn_imagePath = driveC [''Windows'', ''wermgr.exe'']\<rparr>),
     pv_close = (\<lambda>p. True), pv_kill = (\<lambda>p. killed)\<rparr>"

definition sampleNetworkEnv :: "bool \<Rightarrow> network_env" where
  "sampleNetworkEnv killed = \<lparr>nv_runtime = sampleRuntime, nv_now = 1001 * hour, nv_process = sampleProcesses killed\<rparr>"

lemma sampleProcess_telemetry: "isTelemetryProcess (pe_imagePath sampleProcess)"
  by code_simp

lemma sampleProcess_foreign: "\<not> isGeDefenseSelfOrChild sampleCase 9 sampleProcess"
  by code_simp

lemma sampleProcess_terminated: "terminateObservedProcess (sampleProcesses killed) sampleProcess = (killed, if killed then Inr () else Inl (Err ''terminate observed process''))"
proof -
  have "openObservedProcess (sampleProcesses killed) sampleProcess True =
      Inr \<lparr>rn_creationUnixNano = UnixNano (1000 * hour), rn_imagePath = driveC [''Windows'', ''wermgr.exe'']\<rparr>"
    by (simp add: openObservedProcess_def OpenProcessIdentity_def creationDifference_def SameImagePath_def sampleProcesses_def sampleProcess_def sampleCase_def
        driveC_def duration_defs)
  then show ?thesis using sampleProcess_foreign by (simp add: terminateObservedProcess_def terminateProcess_def) (simp add: sampleProcesses_def)
qed

definition sampleConnection :: networkEvent where
  "sampleConnection = \<lparr>nw_timestampUTC = 1001 * hour, nw_PID = 42, nw_localPort = 50000, nw_remoteIP = ''8.8.8.8'', nw_remotePort = 443\<rparr>"

definition sampleBlock :: "port \<Rightarrow> wfpBlockEvent" where
  "sampleBlock p = \<lparr>wf_timestampUTC = 1001 * hour, wf_recordID = 7, wf_PID = 4, wf_application = ''System'', wf_direction = ''Inbound'', wf_localPort = p,
     wf_remoteIP = ''8.8.8.8'', wf_remotePort = 40000, wf_filterOrigin = ''GeDefense'', wf_geDefenseOrigin = True\<rparr>"

lemma sample_ghostTarget: "ghostTarget sampleConnection sampleNetwork = Some sampleProcess"
  using sampleProcess_telemetry by (simp add: ghostTarget_def sampleNetwork_def sampleConnection_def sampleRecent_def)

lemma sample_ghost_terminates: "ne_terminated (evaluateNetwork (sampleNetworkEnv True) sampleConnection sampleNetwork) = [sampleProcess]"
proof -
  have "ghostTarget sampleConnection (sampleNetwork\<lparr>ne_networkObserved := ne_networkObserved sampleNetwork + 1\<rparr>) = Some sampleProcess"
    using sample_ghostTarget by (auto simp: ghostTarget_def split: if_splits)
  then show ?thesis
    using sampleProcess_terminated [of True]
    by (simp add: evaluateNetwork_def ghostBlock_def terminateObserved_ended Let_def) (simp add: sampleNetworkEnv_def sampleNetwork_def)
qed

lemma sampleNetwork_ok: "network_ok sampleNetwork"
  using armedKinetic_ok by (simp add: network_ok_def sampleNetwork_def)

theorem network_terminates_authorized_witness:
  "(\<exists>r. (42, r) \<in> set (ne_recent sampleNetwork) \<and> ne_terminated (evaluateNetwork (sampleNetworkEnv True) sampleConnection sampleNetwork) = [rp_event r]) \<and>
   (\<exists>ne'. evaluateWFPBlock (sampleNetworkEnv True) (sampleBlock 22) sampleNetwork = Inr ne' \<and> ne_terminated ne' = [])"
proof -
  have none: "ne_terminated sampleNetwork = []" "nw_PID sampleConnection = 42" by (simp_all add: sampleNetwork_def sampleConnection_def)
  obtain ne' where blk: "evaluateWFPBlock (sampleNetworkEnv True) (sampleBlock 22) sampleNetwork = Inr ne'"
    using evaluateWFPBlock_ok [OF sampleNetwork_ok] by blast
  show ?thesis
    using network_terminates_authorized [of "sampleNetworkEnv True" sampleConnection sampleNetwork "sampleBlock 22" ne']
      sample_ghost_terminates none blk by auto
qed

theorem ghost_mode_overclaims_witness:
  "ne_terminated (evaluateNetwork (sampleNetworkEnv False) sampleConnection sampleNetwork) = [] \<and>
   ne_blocked (evaluateNetwork (sampleNetworkEnv False) sampleConnection sampleNetwork) = 1"
  using ghost_mode_overclaims [OF sample_ghostTarget, of "sampleNetworkEnv False"] sampleProcess_terminated [of False]
  by (simp add: sampleNetworkEnv_def sampleRuntime_def) (simp add: sampleNetwork_def)

theorem network_wellformed_witness:
  "network_ok (evaluateNetwork (sampleNetworkEnv True) sampleConnection sampleNetwork) \<and>
   (\<exists>ne'. evaluateWFPBlock (sampleNetworkEnv True) (sampleBlock 22) sampleNetwork = Inr ne' \<and> network_ok ne')"
  using network_wellformed [OF sampleNetwork_ok] by blast

text \<open>Two blocked connections from an enforced address are known, the third completes a burst.\<close>

definition watchedMonitor :: monitor where
  "watchedMonitor = fold (\<lambda>p m. fst (projr (ObserveBlockedInbound ''8.8.8.8'' p (1001 * hour) m))) [22, 23]
     (NewMonitor\<lparr>mo_cfg := DefaultConfig\<lparr>kc_minEvents := 3, kc_minDistinctPorts := 2\<rparr>\<rparr>)"

definition watchedNetwork :: nengine where
  "watchedNetwork = sampleNetwork\<lparr>ne_kinetic := sampleKinetic\<lparr>ke_armed := True, ke_monitor := watchedMonitor\<rparr>\<rparr>"

lemma watched_reports: "\<exists>mo. ObserveBlockedInbound ''8.8.8.8'' 24 (1001 * hour) watchedMonitor = Inr (mo, True)"
proof -
  have "(case ObserveBlockedInbound ''8.8.8.8'' 24 (1001 * hour) watchedMonitor of Inl e \<Rightarrow> False | Inr (mo, r) \<Rightarrow> r)" by code_simp
  then show ?thesis by (auto split: sum.splits)
qed

lemma readyEngine_feeds:
  "manager_ok (pf_sha samplePlatform) (eg_feeds readyEngine)" "m_index (eg_feeds readyEngine) = Some sampleIndex"
  "effectiveSnapshots (eg_feeds readyEngine) = effectiveSnapshots (fst sampleState)" "m_protectedPrefixes (eg_feeds readyEngine) = []"
  using verifiedEngine_manager by (simp_all add: readyEngine_def verifiedEngine_feeds effectiveSnapshots_def)

lemma readyEngine_match:
  "mt_found (ManagerLookup (eg_feeds readyEngine) (Addr4 0x08080808)) \<and> mt_action (ManagerLookup (eg_feeds readyEngine) (Addr4 0x08080808)) = ActionBlock \<and>
   \<not> mt_protected (ManagerLookup (eg_feeds readyEngine) (Addr4 0x08080808))"
proof -
  have "mt_found (IndexLookup (Some sampleIndex) (Addr4 0x08080808)) \<and> mt_action (IndexLookup (Some sampleIndex) (Addr4 0x08080808)) = ActionBlock"
    by code_simp
  then have "mt_found (ManagerLookup (eg_feeds readyEngine) (Addr4 0x08080808))" "mt_action (ManagerLookup (eg_feeds readyEngine) (Addr4 0x08080808)) = ActionBlock"
    using ManagerLookup_index [OF readyEngine_feeds(2)] by simp_all
  then show ?thesis using ManagerLookup_protected [OF readyEngine_feeds(1) _, of "Addr4 0x08080808"] readyEngine_feeds(4) by (simp add: covered_def)
qed

lemma watched_incident:
  "\<exists>ne' x. evaluateWFPBlock (sampleNetworkEnv True) (sampleBlock 24) watchedNetwork = Inr ne' \<and> x \<in> set (ne_incidents ne') \<and> kx_verifiedWFPBlock x \<and>
     kx_remoteIP x = ''8.8.8.8''"
proof -
  obtain mo where mo: "ObserveBlockedInbound ''8.8.8.8'' 24 (1001 * hour) watchedMonitor = Inr (mo, True)" using watched_reports by blast
  let ?ne = "watchedNetwork\<lparr>ne_kinetic := (ne_kinetic watchedNetwork)\<lparr>ke_monitor := mo\<rparr>\<rparr>"
  have parse: "ParseAddr ''8.8.8.8'' = Some (Addr4 0x08080808)" by code_simp
  have k: "ke_engine (ne_kinetic ?ne) = readyEngine" "ke_armed (ne_kinetic ?ne)" "ne_incidents ?ne = []"
    by (simp_all add: watchedNetwork_def sampleKinetic_ok sampleNetwork_def)
  have v: "incidentVerified (nv_runtime (sampleNetworkEnv True)) readyEngine"
    using readyEngine_status verifiedEngine_status sampleDigest_length by (auto simp: incidentVerified_def)
  have o: "observeKinetic (sampleNetworkEnv True) (sampleBlock 24) watchedNetwork = Inr (classifyBurst (sampleNetworkEnv True) (sampleBlock 24) ?ne)"
    using mo by (simp add: observeKinetic_def sampleBlock_def) (simp add: watchedNetwork_def)
  let ?x = "(burstIncident (sampleBlock 24))\<lparr>kx_threatMatched := True, kx_threatSources := mt_sources (ManagerLookup (eg_feeds readyEngine) (Addr4 0x08080808)),
     kx_verifiedWFPBlock := True, kx_classification := ''VERIFIED_TI_WFP_BLOCK_OBSERVED''\<rparr>"
  have "ne_incidents (classifyBurst (sampleNetworkEnv True) (sampleBlock 24) ?ne) = [?x]"
    using parse k v readyEngine_match by (simp add: classifyBurst_def pushIncident_def sampleBlock_def Let_def lastn_def)
  then show ?thesis using o parse
    by (auto simp: evaluateWFPBlock_def sampleBlock_def burstIncident_def Let_def intro!: exI [of _ ?x])
qed

theorem verified_incident_enforced_witness:
  "\<exists>ne' x address. evaluateWFPBlock (sampleNetworkEnv True) (sampleBlock 24) watchedNetwork = Inr ne' \<and> x \<in> set (ne_incidents ne') \<and>
     ParseAddr (kx_remoteIP x) = Some address \<and> indicator_covers (ix_blockIndicators sampleIndex) (WithoutZone (Unmap address))"
proof -
  obtain ne' x where x: "evaluateWFPBlock (sampleNetworkEnv True) (sampleBlock 24) watchedNetwork = Inr ne'" "x \<in> set (ne_incidents ne')" "kx_verifiedWFPBlock x"
    using watched_incident by blast
  have e: "ne_engine watchedNetwork = readyEngine" "x \<notin> set (ne_incidents watchedNetwork)"
    by (simp_all add: watchedNetwork_def sampleKinetic_ok sampleNetwork_def)
  have u: "unaliased (effectiveSnapshots (fst sampleState))" by (simp add: unaliased_def sample_occurrences)
  from verified_incident_enforced [OF x(1,2) e(2) x(3), of "pf_sha samplePlatform" sampleIndex] show ?thesis
    using x readyEngine_feeds u sample_indicates(1) unfolding e(1) by auto
qed

end
