(* ===== verification/Spec2Isabelle.thy ===== *)
theory Spec2Isabelle
  imports Scheduler Dedupe EvidenceFaults EvidencePage Startup NetworkRuns
begin

text \<open>
  GeDefense is a Windows host defence service written in Go (\<open>src/src/GeDefense/windows\<close>). This
  development models the part of it that decides which network addresses the host blocks, on whose
  authority, and when the service may say so: the package \<open>internal/threatintel\<close>, its runtime in the
  MHX engine (\<open>internal/mhx\<close>) and the kinetic observation (\<open>internal/kinetic\<close>) that is armed on top; the
  owner configuration of the sentinel with ghost mode and the termination of observed processes (\<open>internal/mhx\<close>);
  the ledger (\<open>internal/evidence\<close>) in which the service records what it did; and the startup state of
  the operator interface (\<open>internal/startup\<close>).

  \<^bold>\<open>How the parts work together.\<close> Feeds of a fixed catalog are downloaded over a hardened dialer, must
  carry a signed attestation when a key ring is pinned, and are parsed into prefixes. The validated
  generations of all feeds, with the operator's action per feed, give an index for lookups; the
  blocking indicators of the index less the protected networks of the operator are compiled to a
  list of disjoint prefixes, the enforcement snapshot. The manager keeps generations, index,
  overrides, protected networks, polling interval, trusted clock and attestation memory consistent
  in memory and on disk. The MHX engine runs the manager on a timer, hands the snapshot to the
  firewall script, checks the answer, and reports which feeds block. The kinetic state may be armed
  only while that report holds; the kinetic monitor looks for port scans in the blocked traffic. Observed
  and blocked connections are correlated with recent processes and the feeds; a process may be terminated
  after its identity was checked, unless it belongs to GeDefense. The sentinel store holds the owner's
  whitelist and the switch of ghost mode, which blocks telemetry in the firewall and the hosts file. The
  engines append to the evidence ledger, whose outcome is an argument of their steps; the ledger
  itself is a chain of records in files, with archives, signed checkpoints and an external witness.

  \<^bold>\<open>Which theory models what.\<close>
  \<^item> \<open>Prelude\<close>: outcomes of a call (a value, an error, or a panic such as an index out of range), Go
    times and durations with their saturation, the functions of \<open>strings\<close> and \<open>strconv\<close>; the locale
    \<open>high_water\<close>, a mark that never decreases.
  \<^item> \<open>Netip\<close>, \<open>NetipText\<close>: \<open>net/netip\<close> at 32 and 128 bit words, its printers and parsers, with the round
    trips of addresses and prefixes.
  \<^item> \<open>Files\<close>: a state file as absent, unreadable, or stored with a size and a decoded content; the atomic
    write; the locale \<open>durable_store\<close> of writers and readers that agree.
  \<^item> \<open>ThreatModel\<close> (\<open>model.go\<close>, \<open>catalog.go\<close>), \<open>ThreatValidate\<close> (\<open>validate.go\<close>), \<open>ThreatFeed\<close> (\<open>parser.go\<close>):
    the data, the accepted prefixes and the two feed formats.
  \<^item> \<open>PrefixTrie\<close>, \<open>EnforcementCompiler\<close> (\<open>compiler.go\<close>): the binary trie, whose locale \<open>prefix_set\<close> states
    it as a set of addresses, and the subtraction of protected networks; \<open>ThreatIndex\<close> (\<open>index.go\<close>).
  \<^item> \<open>ProtectedPolicy\<close> (\<open>protected.go\<close>), \<open>ThreatStore\<close> (\<open>store.go\<close>), \<open>FeedClock\<close> (\<open>clock.go\<close>, \<open>polling.go\<close>),
    \<open>FeedAuthority\<close> (\<open>feed_authority.go\<close>), \<open>FeedPolicy\<close> (\<open>feed_policy.go\<close>): the policies and memories with
    their files.
  \<^item> \<open>ThreatManager\<close> (\<open>manager.go\<close>, \<open>manager_guards.go\<close>): the manager and all its operations;
    \<open>ManagerSafety\<close>: its invariant; \<open>ManagerRuns\<close>: its runs as the step relation \<open>step\<close>.
  \<^item> \<open>ThreatRuntime\<close> (\<open>mhx/threat_runtime.go\<close>, \<open>mhx/feed_policy.go\<close>): the engine around the manager; \<open>Scheduler\<close>:
    the rounds of its \<open>intelligenceLoop\<close>, with the kinetic reconciliation at their end.
  \<^item> \<open>BoundedLog\<close>: the locale \<open>bounded_log\<close> of slices that are overwritten in a round, interpreted for
    \<open>Dedupe\<close> (\<open>mhx/dedupe.go\<close>) and twice for \<open>KineticMonitor\<close> (\<open>kinetic/monitor.go\<close>, \<open>kinetic/config.go\<close>).
  \<^item> \<open>KineticState\<close>, \<open>KineticRuns\<close> (\<open>mhx/kinetic_state.go\<close>): arming, disarming, configuration, restart.
  \<^item> \<open>WinPath\<close>: \<open>path/filepath\<close> on Windows and the searches of \<open>strings\<close>; \<open>GhostMode\<close> (\<open>mhx/telemetry_killer_windows.go\<close>):
    the hosts file and the firewall script; \<open>Sentinel\<close> (\<open>mhx/sentinel_config.go\<close>): the store of the owner
    configuration, the whitelist and the wildcard match; \<open>SentinelRuns\<close>: its runs.
  \<^item> \<open>Termination\<close> (\<open>mhx/terminate_windows.go\<close>, self-protection of \<open>mhx/engine.go\<close>, parts of \<open>winapi/core_windows.go\<close>):
    the identity check and the termination of an observed process.
  \<^item> \<open>NetworkCorrelation\<close> (\<open>mhx/network_correlation.go\<close>, notifications of \<open>mhx/settings.go\<close>): the evaluation of
    observed and blocked connections; \<open>NetworkRuns\<close>: its guarantees.
  \<^item> \<open>Startup\<close> (\<open>startup/state.go\<close>): readiness check and first-run setup.
  \<^item> \<open>EvidenceLines\<close>, \<open>EvidenceLedger\<close> (\<open>evidence/ledger.go\<close>, \<open>evidence/witness.go\<close>): the line files and the
    ledger with all its operations; \<open>EvidenceChain\<close>: what verification means; \<open>EvidenceAppend\<close>: the
    invariant \<open>chain_state\<close> of ledger and directory, kept by appends; \<open>EvidencePage\<close>: pages;
    \<open>EvidenceFaults\<close>: rollback, torn writes and the retention anchor.

  \<^bold>\<open>How definitions correspond to the code.\<close> A struct is a record, a method a definition from the state
  to the new state and its results, named as in the source. Maps whose order is visible are
  association lists. An operation takes what it asks of the world as arguments: clock readings, the
  answers of HTTP and DNS, whether a write succeeds, the size of an encoded file, whether a ledger
  append succeeds. SHA-256, HMAC, Ed25519, the JSON decoder of a feed line and the firewall script are
  function parameters of the records \<open>platform\<close> and \<open>runtime_env\<close>, the processes of Windows of the record
  \<open>process_env\<close>, the case mappings outside ASCII of \<open>unicode_case\<close>; nothing is assumed of them but what
  a theorem states. Locks are not modelled: operations are steps, ordered as the locks order them; a
  lock that is tried and not waited for is the argument \<open>busy\<close>.

  \<^bold>\<open>What is proved.\<close> In every reachable state the index blocks exactly what blocking feeds name and no
  protected network contains (\<open>reachable_enforced\<close>, on \<open>compile_is_difference\<close>), and lookups agree with the
  enforced list (\<open>lookup_agrees\<close>, on \<open>Lookup_spec\<close>). Both hold for feeds without IPv4-mapped oddities, which the
  validation does not exclude: an indicator that contains the base of the mapped range may make the
  compiler block every IPv4 address (\<open>compile_blocks_all_ipv4\<close>), and a mapped alias of another indicator may
  weaken a lookup (\<open>Lookup_alias_downgrades\<close>). A synchronisation either publishes a
  complete new state or keeps the old (\<open>Sync_success\<close>, \<open>Sync_failure_keeps\<close>); policy changes are applied
  everywhere or nowhere; stale feeds and a clock that was turned back withdraw enforcement
  (\<open>status_fail_closed\<close>, \<open>memory_monotone\<close>). A protected policy that was written is accepted again exactly when
  its merged prefixes are narrow enough (\<open>protectedPolicy_reload\<close>). Downloads need a fresh signature, also after a
  restart when the state file was written.
  The engine refines the manager, calls a generation verified only when the firewall confirmed
  exactly it, and wakes up when work is due (\<open>scheduler_wakes_on_time\<close>). The kinetic engine arms only on verified enforcement,
  disarms when it is lost, and restarts disarmed with the intent kept; the monitor's ring buffer
  agrees with a specification over the newest 32 events of a source. A connection terminates only the observed
  process, never one of GeDefense, and only under
  prior authority, and an incident is called a verified block only for an enforced address
  (\<open>network_terminates_authorized\<close>, \<open>verified_incident_enforced\<close>). The sentinel keeps the entries of GeDefense's own
  executables whatever file it loads and whatever is asked of it (\<open>sentinel_self_protected\<close>), its operations are
  transactional, and a successful switch of ghost mode is in the file, the firewall and the hosts file. A verified ledger is one chain of authenticated
  records up to its tip, an append adds exactly its record across rotation and pruning, a page is a
  window of the chain, and a chain behind its witness is refused (\<open>verify_sound\<close>,
  \<open>append_extends_chain\<close>, \<open>LedgerPage_window\<close>, \<open>rollback_detected\<close>). Theorems of kind error also record behaviour
  that the code does not mean to have.

  \<^bold>\<open>Bounds.\<close> Every loop is a structural recursion, a fold over a
  finite list, or a recursion with a termination proof, and the functions are total. The one loop with fuel
  is the search for an unused id of a whitelist entry: its fuel is the length of the whitelist, and
  \<open>freshID_fresh\<close> shows that it always finds one. Panics are
  values of the outcome type, so their absence is a theorem (\<open>monitor_bounded\<close>, \<open>network_wellformed\<close>).

  \<^bold>\<open>Not modelled.\<close> Interleavings inside an operation, the bytes of JSON files, the creation of keys and
  file permissions, receivers that are nil unless the code tests for it and does more than return.
  Of the evidence package the lock files, key files and the checks of paths are left out. The other
  packages of the service (titan, settings, server, launcher, installer,
  the watchers of the MHX engine and its evaluation of new processes) are mostly calls of Windows interfaces or are not covered.
\<close>

end
